(* ===== verification/Prelude.thy ===== *)
theory Prelude
  imports Main "HOL-Library.Word"
begin

text \<open>
  Shared vocabulary of the development: the machine types of qEVM, the outcome of a fallible
  Rust computation, the state-passing combinators in which the methods of the interpreter are
  written, and the generic lemmas about them.

  \<^item> \<open>U256\<close> and \<open>U512\<close> of the crate \<open>primitive_types\<close> are \<open>256 word\<close> and \<open>512 word\<close>;
    \<open>H160\<close> and \<open>H256\<close> (an address, a hash) are the words their big-endian bytes denote.
  \<^item> \<open>u64\<close> and \<open>usize\<close> (64 bit) values are naturals below \<open>2 ^ 64\<close>; their \<open>+\<close>, \<open>-\<close> and
    \<open>*\<close> are the checked operations below: overflow is a panic, as in a build with overflow
    checks (the profile \<open>cargo test\<close> uses).
  \<^item> A method of type \<open>Result<T, ExecError>\<close> on \<open>&mut self\<close> is a function from the state to an
    \<open>outcome\<close>: \<open>Ok\<close> with the value and the new state, \<open>Err\<close> with the error and the state as
    the early return leaves it (mutations made before the return stay), or \<open>Panic\<close>.
\<close>

type_synonym u8 = "8 word"
type_synonym u256 = "256 word"
type_synonym u512 = "512 word"
type_synonym bytes = "u8 list"
type_synonym addr = "160 word"
type_synonym hash = "256 word"
type_synonym wei = u256
type_synonym gas = nat

section \<open>Errors and outcomes\<close>

datatype exec_error =
    OutOfGas | CodeStoreOutOfGas | Depth | InsufficientBalance | ContractAddrCollision
  | Reverted | MaxCodeSizeExceeded | InvalidJump | WriteProtection | ReturnDataOutOfBounds
  | GasIntOverflow | InvalidCode | NonceIntOverflow | StackOverflow | StackUnderflow
  | OutOfMemory | InvalidOpcode

datatype ('s, 'a) outcome = Ok 'a 's | Err exec_error 's | Panic

type_synonym ('s, 'a) exec = "'s \<Rightarrow> ('s, 'a) outcome"

definition ret :: "'a \<Rightarrow> ('s, 'a) exec" where
  "ret a s = Ok a s"

definition throw :: "exec_error \<Rightarrow> ('s, 'a) exec" where
  "throw e s = Err e s"

definition panic :: "('s, 'a) exec" where
  "panic s = Panic"

definition bind :: "('s, 'a) exec \<Rightarrow> ('a \<Rightarrow> ('s, 'b) exec) \<Rightarrow> ('s, 'b) exec" where
  "bind m f s = (case m s of Ok a t \<Rightarrow> f a t | Err e t \<Rightarrow> Err e t | Panic \<Rightarrow> Panic)"

definition gets :: "('s \<Rightarrow> 'a) \<Rightarrow> ('s, 'a) exec" where
  "gets f s = Ok (f s) s"

definition modify :: "('s \<Rightarrow> 's) \<Rightarrow> ('s, unit) exec" where
  "modify f s = Ok () (f s)"

text \<open>An \<open>if\<close> without \<open>else\<close> whose body is a statement.\<close>

definition when_do :: "bool \<Rightarrow> ('s, unit) exec \<Rightarrow> ('s, unit) exec" where
  "when_do b m = (if b then m else ret ())"

text \<open>\<open>unwrap()\<close>, \<open>expect\<close> and library calls that panic outside their domain.\<close>

definition unwrap :: "'a option \<Rightarrow> ('s, 'a) exec" where
  "unwrap x = (case x of None \<Rightarrow> panic | Some a \<Rightarrow> ret a)"

text \<open>\<open>ok_or(e)?\<close>.\<close>

definition ok_or :: "exec_error \<Rightarrow> 'a option \<Rightarrow> ('s, 'a) exec" where
  "ok_or e x = (case x of None \<Rightarrow> throw e | Some a \<Rightarrow> ret a)"

text \<open>Running a method of a field: \<open>self.field.method(..)\<close>.\<close>

definition zoom :: "('s \<Rightarrow> 't) \<Rightarrow> ('t \<Rightarrow> 's \<Rightarrow> 's) \<Rightarrow> ('t, 'a) exec \<Rightarrow> ('s, 'a) exec" where
  "zoom get put m s =
     (case m (get s) of Ok a t \<Rightarrow> Ok a (put t s) | Err e t \<Rightarrow> Err e (put t s) | Panic \<Rightarrow> Panic)"

text \<open>A value of type \<open>Result<(), ExecError>\<close> handed around as a value (\<open>None\<close> is \<open>Ok(())\<close>).\<close>

type_synonym exec_result = "exec_error option"

text \<open>A call whose result is kept as a value instead of being propagated, and \<open>map_err\<close>.\<close>

definition try_result :: "('s, unit) exec \<Rightarrow> ('s, exec_result) exec" where
  "try_result m s = (case m s of Ok _ t \<Rightarrow> Ok None t | Err e t \<Rightarrow> Ok (Some e) t | Panic \<Rightarrow> Panic)"

definition propagate :: "exec_result \<Rightarrow> ('s, unit) exec" where
  "propagate r = (case r of None \<Rightarrow> ret () | Some e \<Rightarrow> throw e)"

definition map_err :: "exec_error \<Rightarrow> ('s, 'a) exec \<Rightarrow> ('s, 'a) exec" where
  "map_err e m s = (case m s of Ok a t \<Rightarrow> Ok a t | Err _ t \<Rightarrow> Err e t | Panic \<Rightarrow> Panic)"

section \<open>Checked arithmetic on u64\<close>

definition u64_add :: "nat \<Rightarrow> nat \<Rightarrow> ('s, nat) exec" where
  "u64_add x y = (if x + y < 2 ^ 64 then ret (x + y) else panic)"

definition u64_sub :: "nat \<Rightarrow> nat \<Rightarrow> ('s, nat) exec" where
  "u64_sub x y = (if y \<le> x then ret (x - y) else panic)"

definition u64_mul :: "nat \<Rightarrow> nat \<Rightarrow> ('s, nat) exec" where
  "u64_mul x y = (if x * y < 2 ^ 64 then ret (x * y) else panic)"

section \<open>Collections of facts\<close>

named_theorems exec_defs \<open>the combinators of the outcome monad, to be unfolded\<close>
named_theorems pres_intro \<open>rules for relations kept by a computation\<close>

declare ret_def [exec_defs] throw_def [exec_defs] panic_def [exec_defs] bind_def [exec_defs]
  gets_def [exec_defs] modify_def [exec_defs] when_do_def [exec_defs] unwrap_def [exec_defs]
  ok_or_def [exec_defs] zoom_def [exec_defs] u64_add_def [exec_defs] u64_sub_def [exec_defs]
  u64_mul_def [exec_defs] try_result_def [exec_defs] propagate_def [exec_defs] map_err_def [exec_defs]

lemma bind_ret_left [simp]: "bind (ret a) f = f a"
  by (rule ext) (simp add: bind_def ret_def)

lemma bind_ret_right [simp]: "bind m ret = m"
  by (rule ext) (simp add: bind_def ret_def split: outcome.split)

lemma bind_assoc: "bind (bind m f) g = bind m (\<lambda>a. bind (f a) g)"
  by (rule ext) (simp add: bind_def split: outcome.split)

lemma bind_throw [simp]: "bind (throw e) f = throw e"
  by (rule ext) (simp add: bind_def throw_def)

lemma bind_panic [simp]: "bind panic f = panic"
  by (rule ext) (simp add: bind_def panic_def)

lemma when_do_True [simp]: "when_do True m = m" and when_do_False [simp]: "when_do False m = ret ()"
  by (simp_all add: when_do_def)

lemma bind_Ok_conv:
  "bind m f s = Ok b t \<longleftrightarrow> (\<exists>a u. m s = Ok a u \<and> f a u = Ok b t)"
  by (auto simp: bind_def split: outcome.splits)

lemma bind_Err_conv:
  "bind m f s = Err e t \<longleftrightarrow> m s = Err e t \<or> (\<exists>a u. m s = Ok a u \<and> f a u = Err e t)"
  by (auto simp: bind_def split: outcome.splits)

lemma bind_Panic_conv:
  "bind m f s = Panic \<longleftrightarrow> m s = Panic \<or> (\<exists>a u. m s = Ok a u \<and> f a u = Panic)"
  by (auto simp: bind_def split: outcome.splits)

section \<open>Words\<close>

lemma unat_u256_less: "unat x < 2 ^ 256" for x :: u256
  using unsigned_less [of x, where 'a = nat] by simp

section \<open>Outcomes that satisfy a postcondition\<close>

text \<open>
  \<open>wp m Q E s\<close>: running \<open>m\<close> from \<open>s\<close> does not panic, ends in \<open>Q\<close> when it succeeds and in
  \<open>E\<close> when it returns an error. \<open>wlp\<close> is the same without the promise that it does not panic.
\<close>

definition wp :: "('s, 'a) exec \<Rightarrow> ('a \<Rightarrow> 's \<Rightarrow> bool) \<Rightarrow> (exec_error \<Rightarrow> 's \<Rightarrow> bool) \<Rightarrow> 's \<Rightarrow> bool" where
  "wp m Q E s = (case m s of Ok a t \<Rightarrow> Q a t | Err e t \<Rightarrow> E e t | Panic \<Rightarrow> False)"

lemma wp_bind [simp]: "wp (bind m f) Q E s = wp m (\<lambda>a. wp (f a) Q E) E s"
  by (simp add: wp_def bind_def split: outcome.split)

lemma wp_ret [simp]: "wp (ret a) Q E s = Q a s"
  by (simp add: wp_def ret_def)

lemma wp_throw [simp]: "wp (throw e) Q E s = E e s"
  by (simp add: wp_def throw_def)

lemma wp_panic [simp]: "wp panic Q E s = False"
  by (simp add: wp_def panic_def)

lemma wp_gets [simp]: "wp (gets f) Q E s = Q (f s) s"
  by (simp add: wp_def gets_def)

lemma wp_modify [simp]: "wp (modify f) Q E s = Q () (f s)"
  by (simp add: wp_def modify_def)

lemma wp_when_do [simp]: "wp (when_do b m) Q E s = (if b then wp m Q E s else Q () s)"
  by (simp add: when_do_def)

lemma wp_unwrap [simp]:
  "wp (unwrap x) Q E s = (case x of None \<Rightarrow> False | Some a \<Rightarrow> Q a s)"
  by (simp add: unwrap_def split: option.split)

lemma wp_ok_or [simp]:
  "wp (ok_or e x) Q E s = (case x of None \<Rightarrow> E e s | Some a \<Rightarrow> Q a s)"
  by (simp add: ok_or_def split: option.split)

lemma wp_zoom [simp]:
  "wp (zoom get put m) Q E s = wp m (\<lambda>a t. Q a (put t s)) (\<lambda>e t. E e (put t s)) (get s)"
  by (simp add: wp_def zoom_def split: outcome.split)

lemma wp_try_result [simp]:
  "wp (try_result m) Q E s = wp m (\<lambda>_. Q None) (\<lambda>e. Q (Some e)) s"
  by (simp add: wp_def try_result_def split: outcome.split)

lemma wp_propagate [simp]:
  "wp (propagate r) Q E s = (case r of None \<Rightarrow> Q () s | Some e \<Rightarrow> E e s)"
  by (simp add: propagate_def split: option.split)

lemma wp_map_err [simp]: "wp (map_err e m) Q E s = wp m Q (\<lambda>_. E e) s"
  by (simp add: wp_def map_err_def split: outcome.split)

lemma wp_u64_add [simp]: "wp (u64_add x y) Q E s = (x + y < 2 ^ 64 \<and> Q (x + y) s)"
  by (simp add: u64_add_def)

lemma wp_u64_sub [simp]: "wp (u64_sub x y) Q E s = (y \<le> x \<and> Q (x - y) s)"
  by (simp add: u64_sub_def)

lemma wp_u64_mul [simp]: "wp (u64_mul x y) Q E s = (x * y < 2 ^ 64 \<and> Q (x * y) s)"
  by (simp add: u64_mul_def)

lemma wp_if [simp]:
  "wp (if b then m else n) Q E s = (if b then wp m Q E s else wp n Q E s)"
  by simp

lemma wp_mono:
  assumes "wp m Q E s" and "\<And>a t. Q a t \<Longrightarrow> Q' a t" and "\<And>e t. E e t \<Longrightarrow> E' e t"
  shows "wp m Q' E' s"
  using assms by (simp add: wp_def split: outcome.splits)

lemma wp_OkD: "wp m Q E s \<Longrightarrow> m s = Ok a t \<Longrightarrow> Q a t"
  by (simp add: wp_def)

lemma wp_ErrD: "wp m Q E s \<Longrightarrow> m s = Err e t \<Longrightarrow> E e t"
  by (simp add: wp_def)

lemma wp_no_panic: "wp m Q E s \<Longrightarrow> m s \<noteq> Panic"
  by (auto simp: wp_def)

section \<open>Relations between the states before and after\<close>

text \<open>
  \<open>pres R m\<close>: whatever \<open>m\<close> returns, the state it leaves is related by \<open>R\<close> to the state it
  started from. The interface \<open>run_rel\<close> asks \<open>R\<close> to be reflexive and transitive, and gives the
  rules by which the property of a method follows from those of the calls it makes.
\<close>

definition pres :: "('s \<Rightarrow> 's \<Rightarrow> bool) \<Rightarrow> ('s, 'a) exec \<Rightarrow> bool" where
  "pres R m \<longleftrightarrow> (\<forall>s. case m s of Ok a t \<Rightarrow> R s t | Err e t \<Rightarrow> R s t | Panic \<Rightarrow> True)"

lemma pres_OkD: "pres R m \<Longrightarrow> m s = Ok a t \<Longrightarrow> R s t"
  unfolding pres_def by (drule spec [where x = s]) simp

lemma pres_ErrD: "pres R m \<Longrightarrow> m s = Err e t \<Longrightarrow> R s t"
  unfolding pres_def by (drule spec [where x = s]) simp

locale run_rel =
  fixes R :: "'s \<Rightarrow> 's \<Rightarrow> bool"
  assumes R_refl: "R s s"
    and R_trans: "R s t \<Longrightarrow> R t u \<Longrightarrow> R s u"
begin

lemma pres_ret: "pres R (ret a)"
  by (simp add: pres_def ret_def R_refl)

lemma pres_throw: "pres R (throw e)"
  by (simp add: pres_def throw_def R_refl)

lemma pres_panic: "pres R panic"
  by (simp add: pres_def panic_def)

lemma pres_gets: "pres R (gets f)"
  by (simp add: pres_def gets_def R_refl)

lemma pres_modify: "(\<And>s. R s (f s)) \<Longrightarrow> pres R (modify f)"
  by (simp add: pres_def modify_def)

lemma pres_bind: "pres R m \<Longrightarrow> (\<And>a. pres R (f a)) \<Longrightarrow> pres R (bind m f)"
  unfolding pres_def bind_def
  by (auto split: outcome.splits) (metis R_trans outcome.simps(8-10))+

lemma pres_if: "pres R m \<Longrightarrow> pres R n \<Longrightarrow> pres R (if b then m else n)"
  by simp

lemma pres_when_do: "pres R m \<Longrightarrow> pres R (when_do b m)"
  by (simp add: when_do_def pres_ret)

lemma pres_option: "pres R m \<Longrightarrow> (\<And>a. pres R (f a)) \<Longrightarrow> pres R (case x of None \<Rightarrow> m | Some a \<Rightarrow> f a)"
  by (cases x) simp_all

lemma pres_prod: "(\<And>a b. pres R (f a b)) \<Longrightarrow> pres R (case x of (a, b) \<Rightarrow> f a b)"
  by (cases x) simp

lemma pres_unwrap: "pres R (unwrap x)"
  by (cases x) (simp_all add: unwrap_def pres_ret pres_panic)

lemma pres_ok_or: "pres R (ok_or e x)"
  by (cases x) (simp_all add: ok_or_def pres_ret pres_throw)

lemma pres_u64_add: "pres R (u64_add x y)"
  by (simp add: u64_add_def pres_ret pres_panic)

lemma pres_u64_sub: "pres R (u64_sub x y)"
  by (simp add: u64_sub_def pres_ret pres_panic)

lemma pres_u64_mul: "pres R (u64_mul x y)"
  by (simp add: u64_mul_def pres_ret pres_panic)

lemma pres_Let: "(\<And>a. pres R (f a)) \<Longrightarrow> pres R (let a = x in f a)"
  by simp

lemma pres_try_result: "pres R m \<Longrightarrow> pres R (try_result m)"
  by (auto simp: pres_def try_result_def split: outcome.splits)

lemma pres_propagate: "pres R (propagate r)"
  by (cases r) (simp_all add: propagate_def pres_ret pres_throw)

lemma pres_map_err: "pres R m \<Longrightarrow> pres R (map_err e m)"
  by (auto simp: pres_def map_err_def split: outcome.splits)

lemmas pres_rules = pres_ret pres_throw pres_panic pres_gets pres_bind pres_if pres_when_do
  pres_option pres_prod pres_unwrap pres_ok_or pres_u64_add pres_u64_sub pres_u64_mul pres_Let
  pres_try_result pres_propagate pres_map_err

end

text \<open>A method of a field relates the field's states, and the field's relation lifts.\<close>

lemma pres_zoom:
  assumes "pres R m" and "\<And>s t. R (get s) t \<Longrightarrow> S s (put t s)"
  shows "pres S (zoom get put m)"
  unfolding pres_def
proof
  fix s
  from assms(1) have "case m (get s) of Ok a t \<Rightarrow> R (get s) t | Err e t \<Rightarrow> R (get s) t | Panic \<Rightarrow> True"
    by (simp add: pres_def)
  then show "case zoom get put m s of Ok a t \<Rightarrow> S s t | Err e t \<Rightarrow> S s t | Panic \<Rightarrow> True"
    by (auto simp: zoom_def assms(2) split: outcome.splits)
qed

section \<open>Data refinement\<close>

text \<open>
  \<open>refines abst good m n\<close>: from every well-formed concrete state, \<open>m\<close> returns the same value or error as
  the abstract operation \<open>n\<close> does from the abstraction, its final state abstracts to that of \<open>n\<close> and
  is well-formed again; and \<open>m\<close> panics only where \<open>n\<close> does. Refinements compose like the
  computations they relate.
\<close>

primrec map_state :: "('s \<Rightarrow> 't) \<Rightarrow> ('s, 'a) outcome \<Rightarrow> ('t, 'a) outcome" where
  "map_state f (Ok a s) = Ok a (f s)"
| "map_state f (Err e s) = Err e (f s)"
| "map_state f Panic = Panic"

primrec ends_in :: "('s \<Rightarrow> bool) \<Rightarrow> ('s, 'a) outcome \<Rightarrow> bool" where
  "ends_in P (Ok a s) = P s"
| "ends_in P (Err e s) = P s"
| "ends_in P Panic = True"

definition refines ::
  "('s \<Rightarrow> 't) \<Rightarrow> ('s \<Rightarrow> bool) \<Rightarrow> ('s, 'a) exec \<Rightarrow> ('t, 'a) exec \<Rightarrow> bool" where
  "refines abst good m n \<longleftrightarrow> (\<forall>s. good s \<longrightarrow> map_state abst (m s) = n (abst s) \<and> ends_in good (m s))"

lemma refinesD:
  "refines abst good m n \<Longrightarrow> good s \<Longrightarrow> map_state abst (m s) = n (abst s)"
  "refines abst good m n \<Longrightarrow> good s \<Longrightarrow> ends_in good (m s)"
  by (simp_all add: refines_def)

lemma refines_bind:
  assumes "refines abst good m n" and "\<And>a. refines abst good (f a) (g a)"
  shows "refines abst good (bind m f) (bind n g)"
  unfolding refines_def
proof (intro allI impI)
  fix s assume s: "good s"
  have m: "map_state abst (m s) = n (abst s)" "ends_in good (m s)"
    using refinesD [OF assms(1) s] by simp_all
  show "map_state abst (bind m f s) = bind n g (abst s) \<and> ends_in good (bind m f s)"
  proof (cases "m s")
    case (Ok a t)
    with m have "n (abst s) = Ok a (abst t)" and "good t" by simp_all
    with Ok refinesD [OF assms(2)] show ?thesis by (simp add: bind_def)
  next
    case (Err e t)
    with m have "n (abst s) = Err e (abst t)" and "good t" by simp_all
    with Err show ?thesis by (simp add: bind_def)
  next
    case Panic
    with m have "n (abst s) = Panic" by simp
    with Panic show ?thesis by (simp add: bind_def)
  qed
qed

lemma refines_ret: "refines abst good (ret a) (ret a)"
  by (simp add: refines_def ret_def)

lemma refines_throw: "refines abst good (throw e) (throw e)"
  by (simp add: refines_def throw_def)

text \<open>A refinement keeps its invariant, whatever it returns.\<close>

definition keeps :: "('s \<Rightarrow> bool) \<Rightarrow> 's \<Rightarrow> 's \<Rightarrow> bool" where
  "keeps good s t \<longleftrightarrow> (good s \<longrightarrow> good t)"

lemma refines_keeps:
  assumes "refines abst good m n"
  shows "pres (keeps good) m"
  unfolding pres_def keeps_def
proof
  fix s
  show "case m s of Ok a t \<Rightarrow> good s \<longrightarrow> good t | Err e t \<Rightarrow> good s \<longrightarrow> good t | Panic \<Rightarrow> True"
    using refinesD(2) [OF assms, of s] by (cases "m s") simp_all
qed

interpretation keep: run_rel "keeps P" for P
  by unfold_locales (simp_all add: keeps_def)

section \<open>Triples\<close>

text \<open>
  \<open>triple P m Q E\<close>: from a state in \<open>P\<close>, \<open>m\<close> panics, succeeds in \<open>Q\<close> or fails in \<open>E\<close>. It is used where
  a rule needs what an earlier check has established.
\<close>

definition triple ::
  "('s \<Rightarrow> bool) \<Rightarrow> ('s, 'a) exec \<Rightarrow> ('a \<Rightarrow> 's \<Rightarrow> bool) \<Rightarrow> (exec_error \<Rightarrow> 's \<Rightarrow> bool) \<Rightarrow> bool" where
  "triple P m Q E \<longleftrightarrow>
     (\<forall>s. P s \<longrightarrow> (case m s of Ok a t \<Rightarrow> Q a t | Err e t \<Rightarrow> E e t | Panic \<Rightarrow> True))"

lemma triple_keeps: "triple P m (\<lambda>_. P) (\<lambda>_. P) \<longleftrightarrow> pres (keeps P) m"
  unfolding triple_def pres_def keeps_def
  by (rule iff_allI) (auto split: outcome.splits)

lemma triple_OkD: "triple P m Q E \<Longrightarrow> P s \<Longrightarrow> m s = Ok a t \<Longrightarrow> Q a t"
  unfolding triple_def by (drule spec [where x = s]) simp

lemma triple_ErrD: "triple P m Q E \<Longrightarrow> P s \<Longrightarrow> m s = Err e t \<Longrightarrow> E e t"
  unfolding triple_def by (drule spec [where x = s]) simp

lemma triple_bind:
  assumes "triple P m R E" and "\<And>a. triple (R a) (f a) Q E"
  shows "triple P (bind m f) Q E"
  unfolding triple_def
proof (intro allI impI)
  fix s assume P: "P s"
  show "case bind m f s of Ok a t \<Rightarrow> Q a t | Err e t \<Rightarrow> E e t | Panic \<Rightarrow> True"
  proof (cases "m s")
    case (Ok a t)
    then have "R a t" using triple_OkD [OF assms(1) P] by blast
    with assms(2) [of a] Ok show ?thesis by (simp add: triple_def bind_def)
  next
    case (Err e t)
    then show ?thesis using triple_ErrD [OF assms(1) P] by (simp add: bind_def)
  qed (simp add: bind_def)
qed

lemma triple_pres:
  assumes "pres R m" and "\<And>s t. P s \<Longrightarrow> R s t \<Longrightarrow> P t"
  shows "triple P m (\<lambda>_. P) (\<lambda>_. P)"
  using assms unfolding triple_def pres_def by (auto split: outcome.splits)

lemma triple_weaken:
  assumes "triple P m Q E" and "\<And>s. P' s \<Longrightarrow> P s" and "\<And>a s. Q a s \<Longrightarrow> Q' a s" and "\<And>e s. E e s \<Longrightarrow> E' e s"
  shows "triple P' m Q' E'"
  using assms unfolding triple_def by (auto split: outcome.splits) (metis outcome.simps(8,9))+

lemma triple_if: "(b \<Longrightarrow> triple P m Q E) \<Longrightarrow> (\<not> b \<Longrightarrow> triple P n Q E) \<Longrightarrow> triple P (if b then m else n) Q E"
  by simp

lemma triple_panic: "triple P panic Q E"
  by (simp add: triple_def panic_def)

lemma triple_ret: "(\<And>s. P s \<Longrightarrow> Q a s) \<Longrightarrow> triple P (ret a) Q E"
  by (simp add: triple_def ret_def)

lemma triple_throw: "(\<And>s. P s \<Longrightarrow> E e s) \<Longrightarrow> triple P (throw e) Q E"
  by (simp add: triple_def throw_def)

lemma triple_modify: "(\<And>s. P s \<Longrightarrow> Q () (f s)) \<Longrightarrow> triple P (modify f) Q E"
  by (simp add: triple_def modify_def)

lemma triple_gets: "triple P (gets f) (\<lambda>a s. P s \<and> a = f s) E"
  by (simp add: triple_def gets_def)

lemma triple_try_result:
  "triple P m (\<lambda>_. Q None) (\<lambda>e. Q (Some e)) \<Longrightarrow> triple P (try_result m) Q E"
  by (auto simp: triple_def try_result_def split: outcome.splits)

lemma triple_pre: "(\<And>s. P s \<Longrightarrow> triple (\<lambda>t. t = s) m Q E) \<Longrightarrow> triple P m Q E"
  by (simp add: triple_def)

section \<open>Computations that do not return an error, and where they end\<close>

definition infallible :: "('s, 'a) exec \<Rightarrow> bool" where
  "infallible m \<longleftrightarrow> (\<forall>s e t. m s \<noteq> Err e t)"

lemma infallible_basic:
  "infallible (ret a)" "infallible panic" "infallible (gets f)" "infallible (modify g)"
  "infallible (unwrap x)" "infallible (u64_add n k)" "infallible (u64_sub n k)" "infallible (try_result m)"
  by (auto simp: infallible_def exec_defs split: option.splits if_splits outcome.splits)

lemma infallible_bind: "infallible m \<Longrightarrow> (\<And>a. infallible (f a)) \<Longrightarrow> infallible (bind m f)"
  by (auto simp: infallible_def bind_def split: outcome.splits)

lemma infallible_if: "infallible m \<Longrightarrow> infallible n \<Longrightarrow> infallible (if b then m else n)"
  by simp

lemma infallible_when_do: "infallible m \<Longrightarrow> infallible (when_do b m)"
  by (simp add: when_do_def infallible_basic)

lemma infallible_option:
  "infallible m \<Longrightarrow> (\<And>a. infallible (f a)) \<Longrightarrow> infallible (case x of None \<Rightarrow> m | Some a \<Rightarrow> f a)"
  by (cases x) simp_all

lemma infallible_prod: "(\<And>a b. infallible (f a b)) \<Longrightarrow> infallible (case x of (a, b) \<Rightarrow> f a b)"
  by (cases x) simp

lemma infallible_zoom: "infallible m \<Longrightarrow> infallible (zoom get put m)"
  by (auto simp: infallible_def zoom_def split: outcome.splits)

lemmas infallible_rules = infallible_basic infallible_bind infallible_if infallible_when_do
  infallible_option infallible_prod infallible_zoom

definition ok_ends :: "('s \<Rightarrow> bool) \<Rightarrow> ('s, 'a) exec \<Rightarrow> bool" where
  "ok_ends P m \<longleftrightarrow> (\<forall>s a t. m s = Ok a t \<longrightarrow> P t)"

lemma ok_ends_bind: "(\<And>a. ok_ends P (f a)) \<Longrightarrow> ok_ends P (bind m f)"
  by (auto simp: ok_ends_def bind_Ok_conv)

lemma ok_ends_if: "ok_ends P m \<Longrightarrow> ok_ends P n \<Longrightarrow> ok_ends P (if b then m else n)"
  by simp

lemma ok_ends_prod: "(\<And>a b. ok_ends P (f a b)) \<Longrightarrow> ok_ends P (case x of (a, b) \<Rightarrow> f a b)"
  by (cases x) simp

lemma ok_ends_panic: "ok_ends P panic"
  by (simp add: ok_ends_def panic_def)

lemma ok_ends_modify: "(\<And>s. P (f s)) \<Longrightarrow> ok_ends P (modify f)"
  by (simp add: ok_ends_def modify_def)

lemmas ok_ends_rules = ok_ends_bind ok_ends_if ok_ends_prod ok_ends_panic ok_ends_modify

end
