(* ===== verification/Bytes.thy ===== *)
theory Bytes
  imports Prelude
begin

text \<open>
  The basic types of \<open>src/src/common.rs\<close>: big-endian bytes of words, the conversions between
  \<open>U256\<close>, \<open>Addr\<close> and \<open>Hash\<close>, the checked operations of \<open>Wei\<close>, the addresses of created
  contracts, and \<open>get_data\<close> and \<open>gas_checked_mul\<close> of \<open>src/src/core/mod.rs\<close>.
  The hash function Keccak-256 and the RLP encoding of an (address, nonce) pair are library
  code: parameters \<open>keccak\<close> (the digest read as a 256 bit big-endian word) and \<open>rlp_pair\<close>.
\<close>

section \<open>Big-endian bytes\<close>

primrec be_bytes :: "nat \<Rightarrow> nat \<Rightarrow> bytes" where
  "be_bytes 0 x = []"
| "be_bytes (Suc n) x = be_bytes n (x div 256) @ [word_of_nat (x mod 256)]"

definition be_val :: "bytes \<Rightarrow> nat" where
  "be_val bs = foldl (\<lambda>a b. a * 256 + unat b) 0 bs"

text \<open>\<open>U256::to_big_endian\<close> and \<open>U256::from_big_endian\<close> (the source only passes at most 32 bytes).\<close>

definition to_big_endian :: "u256 \<Rightarrow> bytes" where
  "to_big_endian x = be_bytes 32 (unat x)"

definition from_big_endian :: "bytes \<Rightarrow> u256" where
  "from_big_endian bs = word_of_nat (be_val bs)"

lemma length_be_bytes [simp]: "length (be_bytes n x) = n"
  by (induction n arbitrary: x) simp_all

lemma be_val_Nil [simp]: "be_val [] = 0"
  by (simp add: be_val_def)

lemma be_val_snoc [simp]: "be_val (bs @ [b]) = be_val bs * 256 + unat b"
  by (simp add: be_val_def)

lemma unat_of_byte: "unat (word_of_nat (x mod 256) :: u8) = x mod 256"
  by (simp add: unat_of_nat)

lemma be_val_be_bytes: "be_val (be_bytes n x) = x mod 256 ^ n"
proof (induction n arbitrary: x)
  case 0
  then show ?case by simp
next
  case (Suc n)
  have "be_val (be_bytes (Suc n) x) = (x div 256) mod 256 ^ n * 256 + x mod 256"
    using Suc by (simp add: unat_of_byte)
  also have "\<dots> = x mod (256 * 256 ^ n)"
    by (simp add: mod_mult2_eq mult.commute)
  finally show ?case by simp
qed

lemma be_val_bound: "be_val bs < 256 ^ length bs"
proof (induction bs rule: rev_induct)
  case Nil
  then show ?case by simp
next
  case (snoc b bs)
  have "unat b < 256" using unsigned_less [of b] by simp
  with snoc show ?case by simp
qed

lemma be_bytes_be_val: "be_bytes (length bs) (be_val bs) = bs"
proof (induction bs rule: rev_induct)
  case Nil
  then show ?case by simp
next
  case (snoc b bs)
  have b: "unat b < 256" using unsigned_less [of b] by simp
  then have "(be_val bs * 256 + unat b) div 256 = be_val bs"
    and "(be_val bs * 256 + unat b) mod 256 = unat b"
    by simp_all
  with snoc show ?case by simp
qed

lemma be_bytes_drop: "k \<le> n \<Longrightarrow> drop (n - k) (be_bytes n x) = be_bytes k x"
proof (induction n arbitrary: x k)
  case 0
  then show ?case by simp
next
  case (Suc n)
  show ?case
  proof (cases k)
    case 0
    then show ?thesis by simp
  next
    case (Suc j)
    with Suc.prems have "j \<le> n" by simp
    with Suc.IH [of j "x div 256"] Suc show ?thesis by simp
  qed
qed

lemma be_bytes_nth: "i < n \<Longrightarrow> be_bytes n x ! i = word_of_nat (x div 256 ^ (n - 1 - i) mod 256)"
proof (induction n arbitrary: x i)
  case 0
  then show ?case by simp
next
  case (Suc n)
  show ?case
  proof (cases "i < n")
    case True
    have "x div 256 div 256 ^ (n - 1 - i) = x div 256 ^ (Suc n - 1 - i)"
      using True by (simp add: div_mult2_eq [symmetric] Suc_diff_Suc flip: power_Suc)
    with Suc.IH [OF True, of "x div 256"] True show ?thesis by (simp add: nth_append)
  next
    case False
    with Suc.prems have "i = n" by simp
    then show ?thesis by (simp add: nth_append)
  qed
qed

lemma length_to_big_endian [simp]: "length (to_big_endian x) = 32"
  by (simp add: to_big_endian_def)

lemma from_to_big_endian [simp]: "from_big_endian (to_big_endian x) = x"
proof -
  have "unat x < 256 ^ 32" using unsigned_less [of x] by simp
  then show ?thesis
    by (simp add: from_big_endian_def to_big_endian_def be_val_be_bytes)
qed

lemma to_from_big_endian: "length bs = 32 \<Longrightarrow> to_big_endian (from_big_endian bs) = bs"
proof -
  assume len: "length bs = 32"
  then have "be_val bs < 2 ^ 256" using be_val_bound [of bs] by simp
  then have "unat (word_of_nat (be_val bs) :: u256) = be_val bs"
    by (simp add: unat_of_nat)
  with len show ?thesis
    using be_bytes_be_val [of bs] by (simp add: to_big_endian_def from_big_endian_def)
qed

section \<open>Addresses and hashes\<close>

definition addr_as_bytes :: "addr \<Rightarrow> bytes" where
  "addr_as_bytes a = be_bytes 20 (unat a)"

definition addr_from_slice :: "bytes \<Rightarrow> addr" where
  "addr_from_slice bs = word_of_nat (be_val bs)"

definition addr_of_u256 :: "u256 \<Rightarrow> addr" where
  "addr_of_u256 u = addr_from_slice (drop 12 (to_big_endian u))"

definition u256_of_addr :: "addr \<Rightarrow> u256" where
  "u256_of_addr a = from_big_endian (addr_as_bytes a)"

definition hash_as_bytes :: "hash \<Rightarrow> bytes" where
  "hash_as_bytes h = be_bytes 32 (unat h)"

definition hash_from_slice :: "bytes \<Rightarrow> hash option" where
  "hash_from_slice bs = (if length bs = 32 then Some (word_of_nat (be_val bs)) else None)"

definition hash_of_u256 :: "u256 \<Rightarrow> hash" where
  "hash_of_u256 u = word_of_nat (be_val (to_big_endian u))"

definition u256_of_hash :: "hash \<Rightarrow> u256" where
  "u256_of_hash h = from_big_endian (hash_as_bytes h)"

lemma hash_of_u256_id [simp]: "hash_of_u256 u = u"
  using from_to_big_endian [of u] by (simp add: hash_of_u256_def from_big_endian_def)

lemma u256_of_hash_id [simp]: "u256_of_hash h = h"
  using from_to_big_endian [of h]
  by (simp add: u256_of_hash_def hash_as_bytes_def to_big_endian_def)

lemma unat_u256_of_addr: "unat (u256_of_addr a) = unat a"
proof -
  have a: "unat a < 2 ^ 160" using unsigned_less [of a] by simp
  then have "be_val (addr_as_bytes a) = unat a"
    by (simp add: addr_as_bytes_def be_val_be_bytes)
  then have "unat (u256_of_addr a) = unat a mod 2 ^ 256"
    unfolding u256_of_addr_def from_big_endian_def by (simp only: unat_of_nat len_num1 len_bit0 len_bit1)
       simp
  with a show ?thesis by simp
qed

lemma addr_of_u256_eq: "addr_of_u256 u = word_of_nat (unat u mod 2 ^ 160)"
proof -
  have "drop (32 - 20) (be_bytes 32 (unat u)) = be_bytes 20 (unat u)"
    by (rule be_bytes_drop) simp
  then show ?thesis
    by (simp add: addr_of_u256_def to_big_endian_def addr_from_slice_def be_val_be_bytes)
qed

lemma addr_of_u256_of_addr [simp]: "addr_of_u256 (u256_of_addr a) = a"
proof -
  have "unat a < 2 ^ 160" using unsigned_less [of a] by simp
  then show ?thesis by (simp add: addr_of_u256_eq unat_u256_of_addr)
qed

section \<open>Wei\<close>

definition wei_checked_add :: "wei \<Rightarrow> wei \<Rightarrow> wei option" where
  "wei_checked_add a b = (if unat a + unat b < 2 ^ 256 then Some (a + b) else None)"

definition wei_checked_sub :: "wei \<Rightarrow> wei \<Rightarrow> wei option" where
  "wei_checked_sub a b = (if b \<le> a then Some (a - b) else None)"

lemma wei_checked_add_Some:
  "wei_checked_add a b = Some c \<Longrightarrow> unat c = unat a + unat b"
  by (auto simp: wei_checked_add_def unat_word_ariths split: if_splits)

lemma wei_checked_sub_Some:
  "wei_checked_sub a b = Some c \<Longrightarrow> unat c + unat b = unat a"
  by (auto simp: wei_checked_sub_def unat_sub word_le_nat_alt split: if_splits)

section \<open>U256 helpers\<close>

text \<open>\<open>U256::bits()\<close>: the least number of bits needed to represent the value.\<close>

fun nat_bits :: "nat \<Rightarrow> nat" where
  "nat_bits n = (if n = 0 then 0 else Suc (nat_bits (n div 2)))"

declare nat_bits.simps [simp del]

definition u256_bits :: "u256 \<Rightarrow> nat" where
  "u256_bits x = nat_bits (unat x)"

lemma nat_bits_0 [simp]: "nat_bits 0 = 0"
  by (simp add: nat_bits.simps)

lemma nat_bits_le: "n < 2 ^ k \<Longrightarrow> nat_bits n \<le> k"
proof (induction n arbitrary: k rule: nat_bits.induct)
  case (1 n)
  show ?case
  proof (cases "n = 0")
    case True
    then show ?thesis by simp
  next
    case False
    then obtain j where k: "k = Suc j" using "1.prems" by (cases k) auto
    with "1.prems" have "n div 2 < 2 ^ j" by auto
    with "1.IH" [OF False, of j] False k show ?thesis by (simp add: nat_bits.simps [of n])
  qed
qed

lemma nat_less_bits: "n < 2 ^ nat_bits n"
proof (induction n rule: nat_bits.induct)
  case (1 n)
  show ?case
  proof (cases "n = 0")
    case False
    with "1.IH" have "n div 2 < 2 ^ nat_bits (n div 2)" by simp
    then have "n < 2 * 2 ^ nat_bits (n div 2)" by linarith
    with False show ?thesis by (simp add: nat_bits.simps [of n])
  qed simp
qed

lemma u256_bits_le: "u256_bits x \<le> 256"
  unfolding u256_bits_def by (rule nat_bits_le) (use unsigned_less [of x] in simp)

text \<open>\<open>checked_as_u64\<close>; \<open>as_u64\<close> and \<open>as_usize\<close> panic where it is \<open>None\<close>.\<close>

definition checked_as_u64 :: "u256 \<Rightarrow> nat option" where
  "checked_as_u64 x = (if x > word_of_nat (2 ^ 64 - 1) then None else Some (unat x))"

definition low_u64 :: "u256 \<Rightarrow> nat" where
  "low_u64 x = unat x mod 2 ^ 64"

definition as_u64 :: "u256 \<Rightarrow> ('s, nat) exec" where
  "as_u64 x = unwrap (checked_as_u64 x)"

lemma checked_as_u64_eq: "checked_as_u64 x = (if unat x < 2 ^ 64 then Some (unat x) else None)"
  by (simp add: checked_as_u64_def word_less_nat_alt unat_of_nat not_less)

text \<open>The \<open>+\<close> of \<open>U256\<close> panics on overflow.\<close>

definition u256_add :: "u256 \<Rightarrow> u256 \<Rightarrow> u256 option" where
  "u256_add a b = (if unat a + unat b < 2 ^ 256 then Some (a + b) else None)"

section \<open>Helpers of core/mod.rs\<close>

definition gas_checked_add :: "gas \<Rightarrow> gas \<Rightarrow> ('s, gas) exec" where
  "gas_checked_add x y = ok_or GasIntOverflow (if x + y < 2 ^ 64 then Some (x + y) else None)"

definition gas_checked_mul :: "gas \<Rightarrow> gas \<Rightarrow> ('s, gas) exec" where
  "gas_checked_mul x y = ok_or GasIntOverflow (if x * y < 2 ^ 64 then Some (x * y) else None)"

text \<open>
  \<open>get_data\<close>: the \<open>len\<close> bytes of \<open>src\<close> from \<open>off\<close>, right-padded with zeros. The addition
  \<open>off + len\<close> on \<open>u64\<close> is checked.
\<close>

definition get_data :: "bytes \<Rightarrow> nat \<Rightarrow> nat \<Rightarrow> ('s, bytes) exec" where
  "get_data src off len =
     (let src_len = length src;
          off = (if off > src_len then src_len else off)
      in bind (u64_add off len) (\<lambda>end.
         let end = (if end > src_len then src_len else end);
             data = take (end - off) (drop off src)
         in ret (take len data @ replicate (len - length data) 0)))"

definition create_addr :: "(bytes \<Rightarrow> hash) \<Rightarrow> (bytes \<Rightarrow> nat \<Rightarrow> bytes) \<Rightarrow> addr \<Rightarrow> nat \<Rightarrow> addr" where
  "create_addr keccak rlp_pair addr nonce =
     addr_from_slice (drop 12 (hash_as_bytes (keccak (rlp_pair (addr_as_bytes addr) nonce))))"

definition create_addr2 :: "(bytes \<Rightarrow> hash) \<Rightarrow> addr \<Rightarrow> bytes \<Rightarrow> bytes \<Rightarrow> addr" where
  "create_addr2 keccak addr salt init_hash =
     addr_from_slice (drop 12 (hash_as_bytes (keccak
       ([0xff] @ addr_as_bytes addr @ salt @ hash_as_bytes (keccak init_hash)))))"

text \<open>\<open>get_data\<close> reads byte \<open>off + i\<close> of the source, and zero beyond its end.\<close>

definition data_at :: "bytes \<Rightarrow> nat \<Rightarrow> u8" where
  "data_at src i = (if i < length src then src ! i else 0)"

lemma get_data_spec:
  assumes "min off (length src) + len < 2 ^ 64"
  shows "get_data src off len s = Ok (map (\<lambda>i. data_at src (off + i)) [0..<len]) s"
proof -
  define o' where "o' = min off (length src)"
  define e where "e = min (o' + len) (length src)"
  define d where "d = take (e - o') (drop o' src)"
  have o: "o' \<le> length src" by (simp add: o'_def)
  have e: "o' \<le> e" "e - o' \<le> len" "e \<le> length src" by (auto simp: e_def o'_def)
  have ld: "length d = e - o'" using e o by (simp add: d_def)
  have "take len d @ replicate (len - length d) 0 = map (\<lambda>i. data_at src (off + i)) [0..<len]"
  proof (rule nth_equalityI)
    show "length (take len d @ replicate (len - length d) 0) = length (map (\<lambda>i. data_at src (off + i)) [0..<len])"
      using ld e by simp
  next
    fix i assume "i < length (take len d @ replicate (len - length d) 0)"
    then have i: "i < len" using ld e by simp
    show "(take len d @ replicate (len - length d) 0) ! i = map (\<lambda>i. data_at src (off + i)) [0..<len] ! i"
    proof (cases "i < length d")
      case True
      then have "i < e - o'" using ld by simp
      then have "off + i < length src" "o' = off" using e by (auto simp: o'_def)
      with True i \<open>i < e - o'\<close> show ?thesis by (simp add: nth_append d_def data_at_def)
    next
      case False
      then have "\<not> off + i < length src" using ld i by (auto simp: o'_def e_def)
      with False i ld e show ?thesis by (simp add: nth_append data_at_def)
    qed
  qed
  moreover have "get_data src off len s = Ok (take len d @ replicate (len - length d) 0) s"
  proof -
    have a: "(if off > length src then length src else off) = o'" by (auto simp: o'_def)
    have b: "(if o' + len > length src then length src else o' + len) = e" by (auto simp: e_def)
    show ?thesis
      using assms unfolding get_data_def Let_def a
      by (simp add: u64_add_def o'_def [symmetric] b d_def ret_def)
  qed
  ultimately show ?thesis by simp
qed

end
