(* ===== verification/Alu.thy ===== *)
theory Alu
  imports Bytes "HOL-Library.Signed_Division"
begin

unbundle bit_operations_syntax

text \<open>
  The arithmetic of the interpreter, \<open>src/src/core/alu.rs\<close>, one definition per function, and its
  meaning on integers: signed division and remainder, signed comparison, arithmetic shift,
  modular addition and multiplication in 512 bits, sign extension, byte extraction.
  The operations of \<open>U256\<close> the source calls are those of the crate \<open>primitive_types\<close>:
  \<open>overflowing_*\<close> wrap and report the overflow, \<open>checked_*\<close> return \<open>None\<close> on a zero divisor,
  \<open><<\<close> and \<open>>>\<close> shift in zeros and convert their amount to \<open>usize\<close>, which panics when it does
  not fit.
\<close>

section \<open>Operations of U256\<close>

definition overflowing_add :: "u256 \<Rightarrow> u256 \<Rightarrow> u256 \<times> bool" where
  "overflowing_add a b = (a + b, unat a + unat b \<ge> 2 ^ 256)"

definition overflowing_sub :: "u256 \<Rightarrow> u256 \<Rightarrow> u256 \<times> bool" where
  "overflowing_sub a b = (a - b, a < b)"

definition overflowing_mul :: "u256 \<Rightarrow> u256 \<Rightarrow> u256 \<times> bool" where
  "overflowing_mul a b = (a * b, unat a * unat b \<ge> 2 ^ 256)"

definition overflowing_pow :: "u256 \<Rightarrow> u256 \<Rightarrow> u256 \<times> bool" where
  "overflowing_pow a b = (a ^ unat b, unat a ^ unat b \<ge> 2 ^ 256)"

definition checked_div :: "u256 \<Rightarrow> u256 \<Rightarrow> u256 option" where
  "checked_div a b = (if b = 0 then None else Some (a div b))"

definition checked_rem :: "'a::len word \<Rightarrow> 'a word \<Rightarrow> 'a word option" where
  "checked_rem a b = (if b = 0 then None else Some (a mod b))"

definition u256_shl :: "u256 \<Rightarrow> nat \<Rightarrow> u256" where
  "u256_shl a n = push_bit n a"

definition u256_shr :: "u256 \<Rightarrow> nat \<Rightarrow> u256" where
  "u256_shr a n = drop_bit n a"

definition U256_MAX :: u256 where
  "U256_MAX = - 1"

section \<open>The functions of alu.rs\<close>

definition alu_add :: "u256 \<Rightarrow> u256 \<Rightarrow> u256" where
  "alu_add a b = fst (overflowing_add a b)"

definition alu_sub :: "u256 \<Rightarrow> u256 \<Rightarrow> u256" where
  "alu_sub a b = fst (overflowing_sub a b)"

definition alu_mul :: "u256 \<Rightarrow> u256 \<Rightarrow> u256" where
  "alu_mul a b = fst (overflowing_mul a b)"

definition alu_div :: "u256 \<Rightarrow> u256 \<Rightarrow> u256" where
  "alu_div a b = (case checked_div a b of Some r \<Rightarrow> r | None \<Rightarrow> 0)"

definition alu_neg :: "u256 \<Rightarrow> u256" where
  "alu_neg a = fst (overflowing_sub a 1) XOR U256_MAX"

definition get_sign_abs :: "u256 \<Rightarrow> bool \<times> u256" where
  "get_sign_abs x = (if bit x 255 then (True, alu_neg x) else (False, x))"

definition alu_sdiv :: "u256 \<Rightarrow> u256 \<Rightarrow> u256" where
  "alu_sdiv a b =
     (let (a_sign, a_abs) = get_sign_abs a;
          (b_sign, b_abs) = get_sign_abs b
      in case checked_div a_abs b_abs of
           Some r \<Rightarrow> if a_sign \<noteq> b_sign then alu_neg r else r
         | None \<Rightarrow> 0)"

definition alu_rem :: "u256 \<Rightarrow> u256 \<Rightarrow> u256" where
  "alu_rem a b = (case checked_rem a b of Some r \<Rightarrow> r | None \<Rightarrow> 0)"

definition alu_smod :: "u256 \<Rightarrow> u256 \<Rightarrow> u256" where
  "alu_smod a b =
     (if b = 0 then 0
      else let q = alu_sdiv a b
           in fst (overflowing_sub a (fst (overflowing_mul b q))))"

text \<open>
  The sums and products below are computed in \<open>U512\<close>; the final \<open>U256::try_from(r).unwrap()\<close> takes
  the low half (it cannot fail: \<open>add_mod_fits\<close> and \<open>mul_mod_fits\<close>).
\<close>

definition alu_add_mod :: "u256 \<Rightarrow> u256 \<Rightarrow> u256 \<Rightarrow> u256" where
  "alu_add_mod a b n =
     (let a = (ucast a :: u512); b = (ucast b :: u512)
      in case checked_rem (a + b) (ucast n) of Some r \<Rightarrow> ucast r | None \<Rightarrow> 0)"

definition alu_mul_mod :: "u256 \<Rightarrow> u256 \<Rightarrow> u256 \<Rightarrow> u256" where
  "alu_mul_mod a b n =
     (let a = (ucast a :: u512); b = (ucast b :: u512)
      in case checked_rem (a * b) (ucast n) of Some r \<Rightarrow> ucast r | None \<Rightarrow> 0)"

definition alu_exp :: "u256 \<Rightarrow> u256 \<Rightarrow> u256" where
  "alu_exp a b = fst (overflowing_pow a b)"

definition alu_sign_extend :: "u256 \<Rightarrow> u256 \<Rightarrow> u256" where
  "alu_sign_extend back x =
     (let maxb = 31;
          back = (if back > maxb then maxb else back);
          shift = (unat back + 1) * 8
      in if bit x (shift - 1)
         then (let mask = u256_shl 1 (256 - shift) - 1 in x OR u256_shl mask shift)
         else x)"

definition bool_to_u256 :: "bool \<Rightarrow> u256" where
  "bool_to_u256 t = (if t then 1 else 0)"

definition alu_lt :: "u256 \<Rightarrow> u256 \<Rightarrow> u256" where
  "alu_lt a b = bool_to_u256 (a < b)"

definition alu_gt :: "u256 \<Rightarrow> u256 \<Rightarrow> u256" where
  "alu_gt a b = bool_to_u256 (a > b)"

definition alu_slt :: "u256 \<Rightarrow> u256 \<Rightarrow> u256" where
  "alu_slt a b =
     (let (a_sign, a_abs) = get_sign_abs a;
          (b_sign, b_abs) = get_sign_abs b
      in if a_sign \<noteq> b_sign then bool_to_u256 a_sign
         else bool_to_u256 (if a_abs = b_abs then False else (a_abs < b_abs) \<noteq> a_sign))"

definition alu_sgt :: "u256 \<Rightarrow> u256 \<Rightarrow> u256" where
  "alu_sgt a b =
     (let (a_sign, a_abs) = get_sign_abs a;
          (b_sign, b_abs) = get_sign_abs b
      in if a_sign \<noteq> b_sign then bool_to_u256 b_sign
         else bool_to_u256 (if a_abs = b_abs then False else (a_abs > b_abs) \<noteq> b_sign))"

definition alu_eq :: "u256 \<Rightarrow> u256 \<Rightarrow> u256" where
  "alu_eq a b = bool_to_u256 (a = b)"

definition alu_is_zero :: "u256 \<Rightarrow> u256" where
  "alu_is_zero a = bool_to_u256 (a = 0)"

definition alu_and :: "u256 \<Rightarrow> u256 \<Rightarrow> u256" where
  "alu_and a b = a AND b"

definition alu_or :: "u256 \<Rightarrow> u256 \<Rightarrow> u256" where
  "alu_or a b = a OR b"

definition alu_xor :: "u256 \<Rightarrow> u256 \<Rightarrow> u256" where
  "alu_xor a b = a XOR b"

definition alu_not :: "u256 \<Rightarrow> u256" where
  "alu_not a = NOT a"

definition alu_byte :: "u256 \<Rightarrow> u256 \<Rightarrow> u256" where
  "alu_byte i x =
     (let i = (if i > 31 then 31 else unat i)
      in u256_shr x (248 - i * 8) AND 0xff)"

definition alu_shl :: "u256 \<Rightarrow> u256 \<Rightarrow> u256" where
  "alu_shl s val = (if s < 256 then u256_shl val (unat s) else 0)"

text \<open>\<open>val >> s\<close> with an amount of type \<open>U256\<close>: \<open>None\<close> where the conversion to \<open>usize\<close> panics.\<close>

definition alu_shr :: "u256 \<Rightarrow> u256 \<Rightarrow> u256 option" where
  "alu_shr s val = map_option (u256_shr val) (checked_as_u64 s)"

definition alu_sar :: "u256 \<Rightarrow> u256 \<Rightarrow> u256" where
  "alu_sar s val =
     (let ext = bit val 255
      in if s > 256 then (if ext then U256_MAX else 0)
         else let s = unat s;
                  val = u256_shr val s
              in if ext then val OR u256_shl (alu_sub (u256_shl 1 s) 1) (256 - s) else val)"

text \<open>The number of low bits \<open>sign_extend\<close> reads, at most 256.\<close>

definition extend_width :: "u256 \<Rightarrow> nat" where
  "extend_width back = 8 * (min 31 (unat back) + 1)"

section \<open>Signed arithmetic\<close>

lemma alu_neg_eq [simp]: "alu_neg a = - a"
proof -
  have "(a - 1) XOR (- 1) = NOT (a - 1)" by simp
  then show ?thesis
    by (simp only: alu_neg_def overflowing_sub_def U256_MAX_def fst_conv minus_eq_not_minus_1 [of a])
qed

lemma bit_255_iff: "bit x 255 \<longleftrightarrow> sint x < 0" for x :: u256
  using bit_last_iff [of x] by simp

lemma u256_abs: "word_of_int \<bar>sint x\<bar> = (if sint x < 0 then - x else x)" for x :: u256
  by (simp add: abs_if)

lemma get_sign_abs_eq: "get_sign_abs x = (sint x < 0, word_of_int \<bar>sint x\<bar>)"
  by (simp add: get_sign_abs_def bit_255_iff abs_if)

lemma sint_abs_bound: "\<bar>sint x\<bar> \<le> 2 ^ 255" for x :: u256
  using sint_greater_eq [of x] sint_lt [of x] by auto

lemma uint_abs [simp]: "uint (word_of_int \<bar>sint x\<bar> :: u256) = \<bar>sint x\<bar>" for x :: u256
proof -
  have "\<bar>sint x\<bar> < 2 ^ 256" using sint_abs_bound [of x] by simp
  then show ?thesis by (simp add: uint_word_of_int)
qed

lemma abs_zero_iff: "(word_of_int \<bar>sint x\<bar> :: u256) = 0 \<longleftrightarrow> x = 0" for x :: u256
  by (metis abs_eq_0 uint_abs unsigned_eq_0_iff signed_eq_0_iff)

lemma abs_div_word:
  "(word_of_int \<bar>sint a\<bar> :: u256) div word_of_int \<bar>sint b\<bar> = word_of_int (\<bar>sint a\<bar> div \<bar>sint b\<bar>)"
  for a b :: u256
  by (simp only: word_div_def uint_abs)

lemma sdiv_by_sign:
  "k sdiv l = (if (k < 0) \<noteq> (l < 0) then - (\<bar>k\<bar> div \<bar>l\<bar>) else \<bar>k\<bar> div \<bar>l\<bar>)" for k l :: int
  by (cases "k = 0"; cases "l = 0") (auto simp: signed_divide_int_def sgn_if)

text \<open>
  \<open>sdiv\<close> is two's complement division rounding towards zero (and 0 for a zero divisor); the
  one quotient out of range, \<open>-2^255 / -1\<close>, wraps as \<open>word_of_int\<close> does.
\<close>

theorem alu_sdiv_correct:
  "alu_sdiv a b = (if b = 0 then 0 else word_of_int (sint a sdiv sint b))"
  by (simp add: alu_sdiv_def get_sign_abs_eq checked_div_def abs_zero_iff abs_div_word sdiv_by_sign)

text \<open>
  \<open>smod\<close> is the remainder of that division, with the sign of the dividend, 0 for a zero divisor.
\<close>

theorem alu_smod_correct:
  "alu_smod a b = (if b = 0 then 0 else word_of_int (sint a smod sint b))"
proof (cases "b = 0")
  case True
  then show ?thesis by (simp add: alu_smod_def)
next
  case False
  have "sint a smod sint b = sint a - sint b * (sint a sdiv sint b)"
    by (metis add_diff_cancel_left' mult.commute sdiv_mult_smod_eq)
  then have "word_of_int (sint a smod sint b) = a - b * word_of_int (sint a sdiv sint b)"
    by (simp add: wi_hom_sub [symmetric] wi_hom_mult [symmetric])
  with False show ?thesis
    by (simp add: alu_smod_def alu_sdiv_correct overflowing_sub_def overflowing_mul_def)
qed

lemma abs_less_word:
  "(word_of_int \<bar>sint a\<bar> :: u256) < word_of_int \<bar>sint b\<bar> \<longleftrightarrow> \<bar>sint a\<bar> < \<bar>sint b\<bar>" for a b :: u256
  by (simp only: word_less_def uint_abs)

lemma abs_eq_word:
  "(word_of_int \<bar>sint a\<bar> :: u256) = word_of_int \<bar>sint b\<bar> \<longleftrightarrow> \<bar>sint a\<bar> = \<bar>sint b\<bar>" for a b :: u256
  by (metis uint_abs)

text \<open>
  \<open>slt\<close> and \<open>sgt\<close> compare their operands as two's complement integers.
\<close>

theorem alu_signed_compare:
  "alu_slt a b = bool_to_u256 (sint a < sint b) \<and> alu_sgt a b = bool_to_u256 (sint a > sint b)"
proof -
  have "alu_slt a b = bool_to_u256 (sint a < sint b)" for a b
    unfolding alu_slt_def get_sign_abs_eq Let_def case_prod_conv abs_less_word abs_eq_word
    by (cases "sint a < 0"; cases "sint b < 0") (auto intro!: arg_cong [of _ _ bool_to_u256])
  moreover have "alu_sgt a b = bool_to_u256 (sint a > sint b)"
    unfolding alu_sgt_def get_sign_abs_eq Let_def case_prod_conv abs_less_word abs_eq_word
    by (cases "sint a < 0"; cases "sint b < 0") (auto intro!: arg_cong [of _ _ bool_to_u256])
  ultimately show ?thesis by simp
qed

section \<open>Shifts\<close>

lemma u256_ones: "u256_shl 1 n - 1 = mask n"
  by (simp add: u256_shl_def mask_eq_exp_minus_1 push_bit_eq_mult)

lemma bit_ones_shifted:
  "bit (u256_shl (mask s) t) n \<longleftrightarrow> t \<le> n \<and> n < t + s \<and> n < 256" for n :: nat
  by (auto simp: u256_shl_def bit_simps)

lemma alu_sar_signed_drop_bit: "alu_sar s v = signed_drop_bit (unat s) v"
proof (cases "s > 256")
  case True
  then have "256 \<le> unat s" by (simp add: word_less_nat_alt)
  then show ?thesis using True
    by (simp add: alu_sar_def U256_MAX_def signed_drop_bit_beyond)
next
  case False
  then have s: "unat s \<le> 256" by (simp add: word_less_nat_alt)
  have ones: "alu_sub (u256_shl 1 (unat s)) 1 = mask (unat s)"
    by (simp add: alu_sub_def overflowing_sub_def u256_ones)
  show ?thesis
  proof (rule bit_word_eqI)
    fix n assume n: "n < LENGTH(256)"
    show "bit (alu_sar s v) n \<longleftrightarrow> bit (signed_drop_bit (unat s) v) n"
      using False n s
      by (auto simp: alu_sar_def Let_def ones bit_ones_shifted bit_or_iff u256_shr_def bit_drop_bit_eq
          bit_signed_drop_bit_iff dest: bit_imp_le_length)
  qed
qed

text \<open>
  \<open>sar\<close> is the arithmetic shift for every amount: the signed value divided by the power of two,
  rounded down.
\<close>

theorem alu_sar_correct: "sint (alu_sar s v) = sint v div 2 ^ unat s"
  by (simp add: alu_sar_signed_drop_bit sint_signed_drop_bit_eq drop_bit_eq_div)

section \<open>Modular arithmetic in 512 bits\<close>

lemma unat_u512_of_u256: "unat (ucast x :: u512) = unat x" for x :: u256
proof -
  have "unat x < 2 ^ 512" by (rule less_le_trans [OF unat_u256_less]) simp
  then show ?thesis by (simp add: unsigned_ucast_eq take_bit_nat_eq_self)
qed

lemma u512_of_u256_eq_0 [simp]: "(ucast x :: u512) = 0 \<longleftrightarrow> x = 0" for x :: u256
  by (metis unat_u512_of_u256 unsigned_eq_0_iff)

lemma u256_product_bound: "unat x * unat y < 2 ^ 512" for x y :: u256
proof -
  have "unat x * unat y < 2 ^ 256 * 2 ^ 256"
    by (intro mult_strict_mono unat_u256_less) simp_all
  then show ?thesis by (simp only: power_add [symmetric]) simp
qed

lemma u256_sum_bound: "unat x + unat y < 2 ^ 512" for x y :: u256
proof -
  have "unat x + unat y < 2 ^ 256 + 2 ^ 256" by (intro add_strict_mono unat_u256_less)
  also have "\<dots> \<le> (2 :: nat) ^ 512" by simp
  finally show ?thesis .
qed

lemma unat_u512_sum: "unat (ucast x + ucast y :: u512) = unat x + unat y" for x y :: u256
  using u256_sum_bound [of x y] by (simp add: unat_word_ariths unat_u512_of_u256)

lemma unat_u512_product: "unat (ucast x * ucast y :: u512) = unat x * unat y" for x y :: u256
  using u256_product_bound [of x y] by (simp add: unat_word_ariths unat_u512_of_u256)

lemma u512_rem_fits:
  fixes w :: u512 and n :: u256
  assumes "n \<noteq> 0"
  shows "unat (w mod ucast n) < 2 ^ 256" and "unat (ucast (w mod ucast n) :: u256) = unat w mod unat n"
proof -
  from assms have pos: "0 < unat n" by (simp add: unat_gt_0)
  have eq: "unat (w mod ucast n) = unat w mod unat n"
    by (simp add: unat_mod unat_u512_of_u256)
  also have "\<dots> < unat n" using pos by simp
  also have "\<dots> < 2 ^ 256" by (rule unat_u256_less)
  finally show lt: "unat (w mod ucast n) < 2 ^ 256" .
  then show "unat (ucast (w mod ucast n) :: u256) = unat w mod unat n"
    by (simp add: unsigned_ucast_eq take_bit_nat_eq_self eq)
qed

lemma alu_add_mod_correct:
  "unat (alu_add_mod a b n) = (if n = 0 then 0 else (unat a + unat b) mod unat n)"
  by (simp add: alu_add_mod_def checked_rem_def u512_rem_fits unat_u512_sum)

text \<open>
  \<open>mul_mod\<close> computes the exact product modulo \<open>n\<close>: nothing is lost between the 256 bit operands
  and the 512 bit product.
\<close>

theorem alu_mul_mod_correct:
  "unat (alu_mul_mod a b n) = (if n = 0 then 0 else (unat a * unat b) mod unat n)"
  by (simp add: alu_mul_mod_def checked_rem_def u512_rem_fits unat_u512_product)

section \<open>Sign extension\<close>

lemma extend_width_bounds: "8 \<le> extend_width back" "extend_width back \<le> 256"
  by (simp_all add: extend_width_def)

lemma alu_sign_extend_eq:
  "alu_sign_extend back x =
     (if bit x (extend_width back - 1)
      then x OR u256_shl (mask (256 - extend_width back)) (extend_width back) else x)"
proof -
  have "unat (if back > 31 then 31 else back) = min 31 (unat back)"
    by (auto simp: word_less_nat_alt)
  then show ?thesis
    by (simp add: alu_sign_extend_def extend_width_def u256_ones Let_def mult.commute add.commute)
qed

lemma bit_alu_sign_extend:
  "n < 256 \<Longrightarrow>
   bit (alu_sign_extend back x) n \<longleftrightarrow>
     bit x n \<or> extend_width back \<le> n \<and> bit x (extend_width back - 1)"
  using extend_width_bounds [of "back"]
  by (auto simp: alu_sign_extend_eq bit_or_iff bit_ones_shifted)

text \<open>
  On an operand that fits in the bytes to extend, \<open>sign_extend\<close> yields the two's complement value
  of those bytes.
\<close>

theorem alu_sign_extend_correct:
  assumes "unat x < 2 ^ extend_width back"
  shows "sint (alu_sign_extend back x) = signed_take_bit (extend_width back - 1) (uint x)"
proof (rule bit_eqI)
  fix n
  have w: "8 \<le> extend_width back" "extend_width back \<le> 256" by (rule extend_width_bounds)+
  have high: "\<not> bit x m" if "extend_width back \<le> m" for m
  proof -
    have "take_bit (extend_width back) (unat x) = unat x"
      using assms by (simp add: take_bit_nat_eq_self)
    then have "\<not> bit (unat x) m"
      using that by (metis bit_take_bit_iff not_le)
    then show ?thesis by (auto simp: bit_unsigned_iff dest: bit_imp_le_length)
  qed
  have "bit (sint (alu_sign_extend back x)) n \<longleftrightarrow> bit (alu_sign_extend back x) (min 255 n)"
    using bit_imp_le_length [of "alu_sign_extend back x" n]
    by (auto simp: bit_sint_iff min_def le_less dest: bit_imp_le_length)
  also have "\<dots> \<longleftrightarrow> bit x (min 255 n) \<or> extend_width back \<le> min 255 n \<and> bit x (extend_width back - 1)"
    by (rule bit_alu_sign_extend) simp
  also have "\<dots> \<longleftrightarrow> bit x (min (extend_width back - 1) n)"
  proof (cases "extend_width back \<le> min 255 n")
    case True
    then have "min (extend_width back - 1) n = extend_width back - 1" by linarith
    with True high show ?thesis by simp
  next
    case False
    with w have "min (extend_width back - 1) n = min 255 n" by linarith
    with False show ?thesis by auto
  qed
  also have "\<dots> \<longleftrightarrow> bit (signed_take_bit (extend_width back - 1) (uint x)) n"
    by (auto simp: bit_signed_take_bit_iff bit_uint_iff dest: bit_imp_le_length)
  finally show "bit (sint (alu_sign_extend back x)) n =
    bit (signed_take_bit (extend_width back - 1) (uint x)) n" .
qed

theorem alu_sign_extend_witness:
  "sint (alu_sign_extend 1 0xff80) = - 128 \<and> unat (0xff80 :: u256) < 2 ^ extend_width 1"
proof -
  have w: "unat (0xff80 :: u256) < 2 ^ extend_width 1" by (simp add: extend_width_def)
  have "signed_take_bit (extend_width 1 - 1) (uint (0xff80 :: u256)) = - 128"
    by (simp add: extend_width_def signed_take_bit_eq_take_bit_minus take_bit_eq_mod bit_iff_odd)
  with alu_sign_extend_correct [OF w] w show ?thesis by simp
qed

text \<open>The bits above the extended bytes are kept when the sign bit is clear, not cleared.\<close>

lemma alu_sign_extend_keeps_high_bits: "alu_sign_extend 0 0x100 = 0x100"
  by (simp add: alu_sign_extend_def bit_iff_odd)

section \<open>Byte extraction, logical shifts\<close>

lemma unat_u256_shr: "unat (u256_shr x n) = unat x div 2 ^ n"
  unfolding u256_shr_def unat_drop_bit_eq by (rule drop_bit_eq_div)

lemma unat_and_ff: "unat (x AND 0xff) = unat x mod 256" for x :: u256
proof -
  have "x AND 0xff = take_bit 8 x" by (simp add: take_bit_eq_mask mask_eq_exp_minus_1)
  then show ?thesis by (simp add: unat_mod take_bit_eq_mod)
qed

text \<open>
  \<open>byte\<close> yields byte \<open>i\<close> of the big-endian representation, and the last byte (index 31) for
  every index beyond it.
\<close>

theorem alu_byte_correct:
  "unat (alu_byte i x) = unat (to_big_endian x ! min 31 (unat i))"
proof -
  define k where "k = min 31 (unat i)"
  have k: "k < 32" by (simp add: k_def)
  have "(if i > 31 then 31 else unat i) = k" by (auto simp: word_less_nat_alt k_def)
  then have "unat (alu_byte i x) = unat x div 2 ^ (248 - k * 8) mod 256"
    by (simp add: alu_byte_def unat_and_ff unat_u256_shr)
  also have "2 ^ (248 - k * 8) = (256 :: nat) ^ (31 - k)"
  proof -
    have "248 - k * 8 = 8 * (31 - k)" using k by simp
    then show ?thesis by (simp add: power_mult)
  qed
  also have "unat x div 256 ^ (31 - k) mod 256 = unat (to_big_endian x ! k)"
    using k by (simp add: to_big_endian_def be_bytes_nth unat_of_byte)
  finally show ?thesis by (simp add: k_def)
qed

text \<open>
  \<open>shr\<close> is the logical shift when the amount fits in 64 bits and panics otherwise (the caller does
  not bound the amount as \<open>shl\<close> does).
\<close>

theorem alu_shr_correct:
  "alu_shr s v = (if unat s < 2 ^ 64 then Some (word_of_nat (unat v div 2 ^ unat s)) else None)"
proof -
  have "u256_shr v n = word_of_nat (unat v div 2 ^ n)" for n
    by (metis unat_u256_shr of_nat_unat ucast_id)
  then show ?thesis by (simp add: alu_shr_def checked_as_u64_eq)
qed

lemma alu_shl_correct: "alu_shl s v = word_of_nat (unat v * 2 ^ unat s)"
proof (cases "s < 256")
  case True
  then show ?thesis by (simp add: alu_shl_def u256_shl_def push_bit_eq_mult mult.commute)
next
  case False
  then have "256 \<le> unat s" by (simp add: word_less_nat_alt)
  then have z: "(2 :: u256) ^ unat s = 0" by (simp only: exp_eq_zero_iff) simp
  have "word_of_nat (unat v * 2 ^ unat s) = v * (2 :: u256) ^ unat s" by simp
  with False z show ?thesis by (simp only: alu_shl_def mult_zero_right if_False)
qed

end
