(* ===== verification/Params.thy ===== *)
theory Params
  imports Prelude
begin

text \<open>
  \<open>src/src/core/params.rs\<close>: the protocol versions, ordered as the derived \<open>Ord\<close> orders them
  (by declaration), and the gas schedule. The constants are unfolded by the simplifier.
\<close>

datatype fork =
    Frontier | Homestead | TangerineWhistle | SpuriousDragon | Byzantium | Constantinople
  | Istanbul | Berlin | London

primrec fork_index :: "fork \<Rightarrow> nat" where
  "fork_index Frontier = 0"
| "fork_index Homestead = 1"
| "fork_index TangerineWhistle = 2"
| "fork_index SpuriousDragon = 3"
| "fork_index Byzantium = 4"
| "fork_index Constantinople = 5"
| "fork_index Istanbul = 6"
| "fork_index Berlin = 7"
| "fork_index London = 8"

instantiation fork :: linorder
begin

definition less_eq_fork :: "fork \<Rightarrow> fork \<Rightarrow> bool" where
  "less_eq_fork a b \<longleftrightarrow> fork_index a \<le> fork_index b"

definition less_fork :: "fork \<Rightarrow> fork \<Rightarrow> bool" where
  "less_fork a b \<longleftrightarrow> fork_index a < fork_index b"

instance
proof
  fix a b :: fork
  assume "a \<le> b" and "b \<le> a"
  then show "a = b" by (cases a; cases b) (simp_all add: less_eq_fork_def)
qed (auto simp: less_eq_fork_def less_fork_def)

end

lemmas fork_order [simp] = less_eq_fork_def less_fork_def

section \<open>Limits and gas schedule\<close>

definition MAX_CALL_DEPTH :: nat where [simp]: "MAX_CALL_DEPTH = 1024"

definition MAX_STACK_DEPTH :: nat where [simp]: "MAX_STACK_DEPTH = 1024"

definition MAX_CODE_SIZE :: nat where [simp]: "MAX_CODE_SIZE = 24576"

definition MAX_MEM_SIZE :: nat where [simp]: "MAX_MEM_SIZE = 0x1fffffffe0"

definition GAS_QUICK :: gas where [simp]: "GAS_QUICK = 2"

definition GAS_FASTEST :: gas where [simp]: "GAS_FASTEST = 3"

definition GAS_FAST :: gas where [simp]: "GAS_FAST = 5"

definition GAS_SHA3 :: gas where [simp]: "GAS_SHA3 = 30"

definition GAS_COPY_WORD :: gas where [simp]: "GAS_COPY_WORD = 3"

definition GAS_SHA3_WORD :: gas where [simp]: "GAS_SHA3_WORD = 6"

definition GAS_MID :: gas where [simp]: "GAS_MID = 8"

definition GAS_SLOW :: gas where [simp]: "GAS_SLOW = 10"

definition GAS_EXT :: gas where [simp]: "GAS_EXT = 20"

definition GAS_EXT_BASE_FRONTIER :: gas where [simp]: "GAS_EXT_BASE_FRONTIER = 20"

definition GAS_EXT_BASE_TANGERINE :: gas where [simp]: "GAS_EXT_BASE_TANGERINE = 700"

definition GAS_LOG :: gas where [simp]: "GAS_LOG = 375"

definition GAS_LOG_TOPIC :: gas where [simp]: "GAS_LOG_TOPIC = 375"

definition GAS_LOG_DATA :: gas where [simp]: "GAS_LOG_DATA = 8"

definition GAS_CREATE :: gas where [simp]: "GAS_CREATE = 32000"

definition GAS_CREATE2 :: gas where [simp]: "GAS_CREATE2 = 32000"

definition GAS_CALL_FRONTIER :: gas where [simp]: "GAS_CALL_FRONTIER = 40"

definition GAS_CALL_TANGERINE :: gas where [simp]: "GAS_CALL_TANGERINE = 700"

definition GAS_CALL_STIPEND :: gas where [simp]: "GAS_CALL_STIPEND = 2300"

definition GAS_CALL_NEW_ACCOUNT :: gas where [simp]: "GAS_CALL_NEW_ACCOUNT = 25000"

definition GAS_CALL_VALUE_TRANS :: gas where [simp]: "GAS_CALL_VALUE_TRANS = 9000"

definition GAS_CREATE_DATA :: nat where [simp]: "GAS_CREATE_DATA = 200"

definition GAS_MEM_RESIZE_WORD :: gas where [simp]: "GAS_MEM_RESIZE_WORD = 3"

definition GAS_JUMPDEST :: gas where [simp]: "GAS_JUMPDEST = 1"

definition GAS_EXP_BYTE_FRONTIER :: gas where [simp]: "GAS_EXP_BYTE_FRONTIER = 10"

definition GAS_EXP_BYTE_SPURIOUS_DRAGON :: gas where [simp]: "GAS_EXP_BYTE_SPURIOUS_DRAGON = 50"

definition QUAD_COEF_DIV :: gas where [simp]: "QUAD_COEF_DIV = 512"

definition GAS_SELF_DESTRUCT :: gas where [simp]: "GAS_SELF_DESTRUCT = 5000"

definition GAS_CREATE_BY_SELF_DESTRUCT :: gas where [simp]: "GAS_CREATE_BY_SELF_DESTRUCT = 25000"

definition GAS_BALANCE_FRONTIER :: gas where [simp]: "GAS_BALANCE_FRONTIER = 20"

definition GAS_BALANCE_TANGERINE :: gas where [simp]: "GAS_BALANCE_TANGERINE = 400"

definition GAS_BALANCE_ISTANBUL :: gas where [simp]: "GAS_BALANCE_ISTANBUL = 700"

definition GAS_EXT_CODE_SIZE_FRONTIER :: gas where [simp]: "GAS_EXT_CODE_SIZE_FRONTIER = 20"

definition GAS_EXT_CODE_SIZE_TANGERINE :: gas where [simp]: "GAS_EXT_CODE_SIZE_TANGERINE = 700"

definition GAS_SLOAD_FRONTIER :: gas where [simp]: "GAS_SLOAD_FRONTIER = 50"

definition GAS_SLOAD_TANGERINE :: gas where [simp]: "GAS_SLOAD_TANGERINE = 200"

definition GAS_SLOAD_ISTANBUL :: gas where [simp]: "GAS_SLOAD_ISTANBUL = 800"

definition GAS_EXT_CODE_HASH_CONSTANTINOPLE :: gas where [simp]: "GAS_EXT_CODE_HASH_CONSTANTINOPLE = 400"

definition GAS_EXT_CODE_HASH_ISTANBUL :: gas where [simp]: "GAS_EXT_CODE_HASH_ISTANBUL = 700"

definition GAS_SSTORE_SET :: gas where [simp]: "GAS_SSTORE_SET = 20000"

definition GAS_SSTORE_RESET :: gas where [simp]: "GAS_SSTORE_RESET = 5000"

definition GAS_SSTORE_CLEAR :: gas where [simp]: "GAS_SSTORE_CLEAR = 5000"

definition GAS_SSTORE_REFUND :: gas where [simp]: "GAS_SSTORE_REFUND = 15000"

definition GAS_SSTORE_SET_ISTANBUL :: gas where [simp]: "GAS_SSTORE_SET_ISTANBUL = 20000"

definition GAS_SSTORE_RESET_ISTANBUL :: gas where [simp]: "GAS_SSTORE_RESET_ISTANBUL = 5000"

definition GAS_SSTORE_REFUND_ISTANBUL :: gas where [simp]: "GAS_SSTORE_REFUND_ISTANBUL = 15000"

definition GAS_SSTORE_SENTRY_ISTANBUL :: gas where [simp]: "GAS_SSTORE_SENTRY_ISTANBUL = 2300"

definition GAS_WARM_STORAGE_READ_COST_BERLIN :: gas where [simp]: "GAS_WARM_STORAGE_READ_COST_BERLIN = 100"

definition GAS_COLD_SLOAD_COST_BERLIN :: gas where [simp]: "GAS_COLD_SLOAD_COST_BERLIN = 2100"

definition GAS_COLD_ACCOUNT_ACCESS_COST_BERLIN :: gas where [simp]: "GAS_COLD_ACCOUNT_ACCESS_COST_BERLIN = 2600"

definition GAS_SELF_DESTRUCT_REFUND :: gas where [simp]: "GAS_SELF_DESTRUCT_REFUND = 24000"

definition GAS_TX_ACCESS_LIST_STORAGE_KEY :: gas where [simp]: "GAS_TX_ACCESS_LIST_STORAGE_KEY = 1900"

definition GAS_SSTORE_REFUND_LONDON :: gas where [simp]: "GAS_SSTORE_REFUND_LONDON = GAS_SSTORE_RESET_ISTANBUL - GAS_COLD_SLOAD_COST_BERLIN + GAS_TX_ACCESS_LIST_STORAGE_KEY"

definition GAS_TX :: gas where [simp]: "GAS_TX = 21000"

end
