(* ===== verification/EvmStack.thy ===== *)
theory EvmStack
  imports Params
begin

text \<open>
  The operand stack, \<open>src/src/core/stack.rs\<close>: an array of \<open>MAX_STACK_DEPTH\<close> words and the number
  of words in use. The array is the function from its indices; every access checks the bound, and
  an access beyond it panics as Rust's indexing does. The operations refine a list of at most
  \<open>MAX_STACK_DEPTH\<close> words, top first.
\<close>

record evm_stack =
  stack_array :: "nat \<Rightarrow> u256"
  stack_top :: nat

definition stack_new :: evm_stack where
  "stack_new = \<lparr>stack_array = (\<lambda>_. 0), stack_top = 0\<rparr>"

text \<open>\<open>self.stack[i]\<close>, read and written.\<close>

definition stack_index :: "nat \<Rightarrow> (evm_stack, u256) exec" where
  "stack_index i s = (if i < MAX_STACK_DEPTH then Ok (stack_array s i) s else Panic)"

definition stack_assign :: "nat \<Rightarrow> u256 \<Rightarrow> (evm_stack, unit) exec" where
  "stack_assign i v s =
     (if i < MAX_STACK_DEPTH then Ok () (s\<lparr>stack_array := (stack_array s)(i := v)\<rparr>) else Panic)"

definition stack_push :: "u256 \<Rightarrow> (evm_stack, unit) exec" where
  "stack_push val =
     bind (gets stack_top) (\<lambda>top.
     if top = MAX_STACK_DEPTH then throw StackOverflow
     else bind (stack_assign top val) (\<lambda>_.
          modify (\<lambda>s. s\<lparr>stack_top := stack_top s + 1\<rparr>)))"

definition stack_dup :: "nat \<Rightarrow> (evm_stack, unit) exec" where
  "stack_dup pos =
     bind (gets stack_top) (\<lambda>top.
     if pos > top then throw StackUnderflow
     else bind (stack_index (top - pos)) stack_push)"

definition stack_swap :: "nat \<Rightarrow> (evm_stack, unit) exec" where
  "stack_swap pos =
     bind (gets stack_top) (\<lambda>n.
     if pos + 1 > n then throw StackUnderflow
     else let top = n - 1 in
          bind (stack_index top) (\<lambda>a.
          bind (stack_index (top - pos)) (\<lambda>b.
          bind (stack_assign top b) (\<lambda>_.
          stack_assign (top - pos) a))))"

definition stack_consume1 :: "(evm_stack, u256) exec" where
  "stack_consume1 =
     bind (gets stack_top) (\<lambda>top.
     if top > 0
     then bind (modify (\<lambda>s. s\<lparr>stack_top := top - 1\<rparr>)) (\<lambda>_. stack_index (top - 1))
     else throw StackUnderflow)"

definition stack_consume2 :: "(evm_stack, u256 \<times> u256) exec" where
  "stack_consume2 =
     bind (gets stack_top) (\<lambda>n.
     if n > 1
     then let top = n - 2 in
          bind (modify (\<lambda>s. s\<lparr>stack_top := top\<rparr>)) (\<lambda>_.
          bind (stack_index (top + 1)) (\<lambda>a.
          bind (stack_index top) (\<lambda>b. ret (a, b))))
     else throw StackUnderflow)"

definition stack_consume3 :: "(evm_stack, u256 \<times> u256 \<times> u256) exec" where
  "stack_consume3 =
     bind (gets stack_top) (\<lambda>n.
     if n > 2
     then let top = n - 3 in
          bind (modify (\<lambda>s. s\<lparr>stack_top := top\<rparr>)) (\<lambda>_.
          bind (stack_index (top + 2)) (\<lambda>a.
          bind (stack_index (top + 1)) (\<lambda>b.
          bind (stack_index top) (\<lambda>c. ret (a, b, c)))))
     else throw StackUnderflow)"

definition stack_consume4 :: "(evm_stack, u256 \<times> u256 \<times> u256 \<times> u256) exec" where
  "stack_consume4 =
     bind (gets stack_top) (\<lambda>n.
     if n > 3
     then let top = n - 4 in
          bind (modify (\<lambda>s. s\<lparr>stack_top := top\<rparr>)) (\<lambda>_.
          bind (stack_index (top + 3)) (\<lambda>a.
          bind (stack_index (top + 2)) (\<lambda>b.
          bind (stack_index (top + 1)) (\<lambda>c.
          bind (stack_index top) (\<lambda>d. ret (a, b, c, d))))))
     else throw StackUnderflow)"

section \<open>The stack as a bounded list\<close>

definition stack_wf :: "evm_stack \<Rightarrow> bool" where
  "stack_wf s \<longleftrightarrow> stack_top s \<le> MAX_STACK_DEPTH"

definition stack_list :: "evm_stack \<Rightarrow> u256 list" where
  "stack_list s = map (stack_array s) (rev [0..<stack_top s])"

definition list_push :: "u256 \<Rightarrow> (u256 list, unit) exec" where
  "list_push v xs = (if length xs = MAX_STACK_DEPTH then Err StackOverflow xs else Ok () (v # xs))"

definition list_dup :: "nat \<Rightarrow> (u256 list, unit) exec" where
  "list_dup n xs =
     (if length xs < n then Err StackUnderflow xs else list_push (xs ! (n - 1)) xs)"

definition list_swap :: "nat \<Rightarrow> (u256 list, unit) exec" where
  "list_swap n xs =
     (if length xs < n + 1 then Err StackUnderflow xs
      else Ok () (xs[0 := xs ! n, n := xs ! 0]))"

definition list_pop :: "nat \<Rightarrow> (u256 list \<Rightarrow> 'a) \<Rightarrow> (u256 list, 'a) exec" where
  "list_pop n f xs =
     (if length xs < n then Err StackUnderflow xs else Ok (f (take n xs)) (drop n xs))"

text \<open>
  The interface the interpreter relies on: pushing and popping behave as on a list, and the
  depth never exceeds the bound. Its consequences for the instructions are proved here once.
\<close>

locale bounded_stack =
  fixes list_of :: "'st \<Rightarrow> u256 list"
    and good :: "'st \<Rightarrow> bool"
    and push :: "u256 \<Rightarrow> ('st, unit) exec"
    and pop1 :: "('st, u256) exec"
    and pop2 :: "('st, u256 \<times> u256) exec"
    and pop3 :: "('st, u256 \<times> u256 \<times> u256) exec"
  assumes depth: "good s \<Longrightarrow> length (list_of s) \<le> MAX_STACK_DEPTH"
    and push_ref: "refines list_of good (push v) (list_push v)"
    and pop1_ref: "refines list_of good pop1 (list_pop 1 (\<lambda>ys. ys ! 0))"
    and pop2_ref: "refines list_of good pop2 (list_pop 2 (\<lambda>ys. (ys ! 0, ys ! 1)))"
    and pop3_ref: "refines list_of good pop3 (list_pop 3 (\<lambda>ys. (ys ! 0, ys ! 1, ys ! 2)))"
begin

lemma unary_ref:
  "refines list_of good (bind pop1 (\<lambda>a. push (f a)))
     (\<lambda>xs. case xs of a # ys \<Rightarrow> list_push (f a) ys | _ \<Rightarrow> Err StackUnderflow xs)"
proof -
  have eq: "bind (list_pop 1 (\<lambda>ys. ys ! 0)) (\<lambda>a. list_push (f a)) =
    (\<lambda>xs. case xs of a # ys \<Rightarrow> list_push (f a) ys | _ \<Rightarrow> Err StackUnderflow xs)"
    by (rule ext) (simp add: bind_def list_pop_def split: list.split)
  show ?thesis
    using refines_bind [OF pop1_ref push_ref, of f] by (simp only: eq)
qed

lemma binary_ref:
  "refines list_of good (bind pop2 (\<lambda>(a, b). push (f a b)))
     (\<lambda>xs. case xs of a # b # ys \<Rightarrow> list_push (f a b) ys | _ \<Rightarrow> Err StackUnderflow xs)"
proof -
  have eq: "bind (list_pop 2 (\<lambda>ys. (ys ! 0, ys ! 1))) (\<lambda>p. case p of (a, b) \<Rightarrow> list_push (f a b)) =
    (\<lambda>xs. case xs of a # b # ys \<Rightarrow> list_push (f a b) ys | _ \<Rightarrow> Err StackUnderflow xs)"
    by (rule ext) (auto simp: bind_def list_pop_def split: list.split)
  have "refines list_of good (case p of (a, b) \<Rightarrow> push (f a b)) (case p of (a, b) \<Rightarrow> list_push (f a b))" for p
    by (cases p) (simp add: push_ref)
  from refines_bind [OF pop2_ref this, of "\<lambda>p. p"] show ?thesis by (simp only: eq)
qed

lemma ternary_ref:
  "refines list_of good (bind pop3 (\<lambda>(a, b, c). push (f a b c)))
     (\<lambda>xs. case xs of a # b # c # ys \<Rightarrow> list_push (f a b c) ys | _ \<Rightarrow> Err StackUnderflow xs)"
proof -
  have eq: "bind (list_pop 3 (\<lambda>ys. (ys ! 0, ys ! 1, ys ! 2))) (\<lambda>p. case p of (a, b, c) \<Rightarrow> list_push (f a b c)) =
    (\<lambda>xs. case xs of a # b # c # ys \<Rightarrow> list_push (f a b c) ys | _ \<Rightarrow> Err StackUnderflow xs)"
    by (rule ext) (auto simp: bind_def list_pop_def numeral_3_eq_3 split: list.split)
  have "refines list_of good (case p of (a, b, c) \<Rightarrow> push (f a b c)) (case p of (a, b, c) \<Rightarrow> list_push (f a b c))" for p
    by (cases p) (simp add: push_ref)
  from refines_bind [OF pop3_ref this, of "\<lambda>p. p"] show ?thesis by (simp only: eq)
qed

end

lemma length_stack_list [simp]: "length (stack_list s) = stack_top s"
  by (simp add: stack_list_def)

lemma stack_list_nth: "i < stack_top s \<Longrightarrow> stack_list s ! i = stack_array s (stack_top s - 1 - i)"
  by (simp add: stack_list_def rev_nth)

lemma stack_list_new [simp]: "stack_list stack_new = []"
  by (simp add: stack_list_def stack_new_def)

lemma stack_wf_new [simp]: "stack_wf stack_new"
  by (simp add: stack_wf_def stack_new_def)

lemma stack_list_drop:
  "n \<le> stack_top s \<Longrightarrow> stack_list (s\<lparr>stack_top := stack_top s - n\<rparr>) = drop n (stack_list s)"
  by (rule nth_equalityI) (simp_all add: stack_list_nth)

lemma stack_list_push:
  "stack_list (s\<lparr>stack_array := (stack_array s)(stack_top s := v), stack_top := Suc (stack_top s)\<rparr>) =
     v # stack_list s"
  by (simp add: stack_list_def)

lemma stack_push_refines: "refines stack_list stack_wf (stack_push v) (list_push v)"
  unfolding refines_def
proof (intro allI impI)
  fix s assume "stack_wf s"
  then show "map_state stack_list (stack_push v s) = list_push v (stack_list s) \<and>
    ends_in stack_wf (stack_push v s)"
    by (auto simp: stack_push_def stack_assign_def stack_wf_def list_push_def stack_list_push exec_defs)
qed

lemma stack_dup_refines: "refines stack_list stack_wf (stack_dup (Suc k)) (list_dup (Suc k))"
  unfolding refines_def
proof (intro allI impI)
  fix s assume wf: "stack_wf s"
  show "map_state stack_list (stack_dup (Suc k) s) = list_dup (Suc k) (stack_list s) \<and>
    ends_in stack_wf (stack_dup (Suc k) s)"
  proof (cases "Suc k \<le> stack_top s")
    case True
    with wf have "stack_dup (Suc k) s = stack_push (stack_list s ! k) s"
      by (auto simp: stack_dup_def stack_index_def stack_list_nth stack_wf_def exec_defs)
    with True refinesD [OF stack_push_refines wf] show ?thesis by (simp add: list_dup_def)
  next
    case False
    with wf show ?thesis by (simp add: stack_dup_def list_dup_def exec_defs)
  qed
qed

lemma stack_swap_refines: "refines stack_list stack_wf (stack_swap n) (list_swap n)"
  unfolding refines_def
proof (intro allI impI)
  fix s assume wf: "stack_wf s"
  show "map_state stack_list (stack_swap n s) = list_swap n (stack_list s) \<and>
    ends_in stack_wf (stack_swap n s)"
  proof (cases "n + 1 \<le> stack_top s")
    case True
    define t where "t = s\<lparr>stack_array := (stack_array s)
      (stack_top s - 1 := stack_array s (stack_top s - 1 - n),
       stack_top s - 1 - n := stack_array s (stack_top s - 1))\<rparr>"
    have "stack_list t = (stack_list s)[0 := stack_list s ! n, n := stack_list s ! 0]"
      using True by (intro nth_equalityI) (auto simp: t_def stack_list_nth nth_list_update)
    moreover have "stack_swap n s = Ok () t"
      using True wf
      by (auto simp: stack_swap_def stack_index_def stack_assign_def stack_wf_def t_def Let_def exec_defs)
    ultimately show ?thesis using True wf by (simp add: list_swap_def t_def stack_wf_def)
  next
    case False
    with wf show ?thesis by (simp add: stack_swap_def list_swap_def exec_defs)
  qed
qed

lemma stack_consume1_refines:
  "refines stack_list stack_wf stack_consume1 (list_pop 1 (\<lambda>ys. ys ! 0))"
  by (auto simp: refines_def stack_consume1_def stack_index_def stack_wf_def list_pop_def
      stack_list_drop stack_list_nth exec_defs)

lemma stack_consume2_refines:
  "refines stack_list stack_wf stack_consume2 (list_pop 2 (\<lambda>ys. (ys ! 0, ys ! 1)))"
  by (auto simp: refines_def stack_consume2_def stack_index_def stack_wf_def list_pop_def
      stack_list_drop stack_list_nth exec_defs Let_def intro!: arg_cong [where f = "stack_array _"])

lemma stack_consume3_refines:
  "refines stack_list stack_wf stack_consume3 (list_pop 3 (\<lambda>ys. (ys ! 0, ys ! 1, ys ! 2)))"
  by (auto simp: refines_def stack_consume3_def stack_index_def stack_wf_def list_pop_def
      stack_list_drop stack_list_nth exec_defs Let_def intro!: arg_cong [where f = "stack_array _"])

lemma stack_consume4_refines:
  "refines stack_list stack_wf stack_consume4 (list_pop 4 (\<lambda>ys. (ys ! 0, ys ! 1, ys ! 2, ys ! 3)))"
  by (auto simp: refines_def stack_consume4_def stack_index_def stack_wf_def list_pop_def
      stack_list_drop stack_list_nth exec_defs Let_def intro!: arg_cong [where f = "stack_array _"])

text \<open>Every operation keeps the bound, whatever it returns.\<close>

lemma stack_index_wf: "pres (keeps stack_wf) (stack_index i)"
  by (simp add: pres_def stack_index_def keeps_def)

lemma stack_push_wf: "pres (keeps stack_wf) (stack_push v)"
  by (rule refines_keeps [OF stack_push_refines])

lemma stack_dup_wf: "pres (keeps stack_wf) (stack_dup n)"
  unfolding stack_dup_def by (intro keep.pres_rules stack_index_wf stack_push_wf)

lemmas stack_ops_wf = stack_push_wf stack_dup_wf refines_keeps [OF stack_swap_refines]
  refines_keeps [OF stack_consume1_refines] refines_keeps [OF stack_consume2_refines]
  refines_keeps [OF stack_consume3_refines] refines_keeps [OF stack_consume4_refines]

interpretation evm: bounded_stack stack_list stack_wf stack_push stack_consume1 stack_consume2 stack_consume3
proof
  show "length (stack_list s) \<le> MAX_STACK_DEPTH" if "stack_wf s" for s
    using that by (simp add: stack_wf_def)
qed (fact stack_push_refines stack_consume1_refines stack_consume2_refines stack_consume3_refines)+

text \<open>
  C36. The array operations refine the list of at most 1024 words, top first: \<open>push\<close> (StackOverflow when full), \<open>dup\<close> at the
  positions the instructions use (1 and up) and \<open>swap\<close> at every position, and \<open>consume1\<close> to \<open>consume4\<close>, which return the topmost
  words in order and remove them (StackUnderflow when there are too few, and then nothing is removed). A new stack is the
  empty list, the bound on the depth is kept, and no access leaves the array.
\<close>

theorem stack_refinement:
  "stack_wf stack_new \<and> stack_list stack_new = [] \<and>
   refines stack_list stack_wf (stack_push v) (list_push v) \<and>
   refines stack_list stack_wf (stack_dup (Suc k)) (list_dup (Suc k)) \<and>
   refines stack_list stack_wf (stack_swap n) (list_swap n) \<and>
   refines stack_list stack_wf stack_consume1 (list_pop 1 (\<lambda>ys. ys ! 0)) \<and>
   refines stack_list stack_wf stack_consume2 (list_pop 2 (\<lambda>ys. (ys ! 0, ys ! 1))) \<and>
   refines stack_list stack_wf stack_consume3 (list_pop 3 (\<lambda>ys. (ys ! 0, ys ! 1, ys ! 2))) \<and>
   refines stack_list stack_wf stack_consume4 (list_pop 4 (\<lambda>ys. (ys ! 0, ys ! 1, ys ! 2, ys ! 3)))"
  by (intro conjI stack_wf_new stack_list_new stack_push_refines stack_dup_refines stack_swap_refines stack_consume1_refines
      stack_consume2_refines stack_consume3_refines stack_consume4_refines)

end
