(* ===== verification/EvmMemory.thy ===== *)
theory EvmMemory
  imports Bytes Params
begin

text \<open>
  The memory of a call, \<open>src/src/core/memory.rs\<close>: a growing byte vector and the gas its size has
  cost so far. A mutable slice is the pair of its bounds; writing through it checks the lengths as
  \<open>copy_from_slice\<close> does. The model of it is the infinite, zero-initialised byte array of the EVM
  (\<open>mem_byte\<close>), which growing the vector does not change.
\<close>

record evm_memory =
  mem_space :: bytes
  mem_last_gas :: gas

definition memory_new :: evm_memory where
  "memory_new = \<lparr>mem_space = [], mem_last_gas = 0\<rparr>"

definition to_word_size :: "nat \<Rightarrow> nat" where
  "to_word_size sz =
     (if sz > (2 ^ 64 - 1) - 31 then (2 ^ 64 - 1) div 32 + 1 else (sz + 31) div 32)"

text \<open>\<open>Vec::resize(n, 0)\<close>.\<close>

definition vec_resize :: "nat \<Rightarrow> bytes \<Rightarrow> bytes" where
  "vec_resize n xs = take n xs @ replicate (n - length xs) 0"

definition memory_resize :: "u256 \<Rightarrow> (evm_memory, gas) exec" where
  "memory_resize sz =
     (if sz > word_of_nat MAX_MEM_SIZE then throw OutOfMemory
      else bind (as_u64 sz) (\<lambda>size64.
           bind (gets (\<lambda>m. length (mem_space m))) (\<lambda>len.
           if size64 > len
           then let new_mem_size_words = to_word_size size64;
                    new_mem_size = new_mem_size_words * 32 mod 2 ^ 64
                in bind (modify (\<lambda>m. m\<lparr>mem_space := vec_resize new_mem_size (mem_space m)\<rparr>)) (\<lambda>_.
                   bind (u64_mul new_mem_size_words new_mem_size_words) (\<lambda>sqr.
                   bind (u64_mul new_mem_size_words GAS_MEM_RESIZE_WORD) (\<lambda>lin.
                   bind (u64_add lin (sqr div QUAD_COEF_DIV)) (\<lambda>new_gas.
                   bind (gets mem_last_gas) (\<lambda>last_gas.
                   bind (u64_sub new_gas last_gas) (\<lambda>fee.
                   bind (modify (\<lambda>m. m\<lparr>mem_last_gas := new_gas\<rparr>)) (\<lambda>_.
                   ret fee)))))))
           else ret 0)))"

text \<open>\<open>&mut self.space[off..end]\<close>: the bounds, checked.\<close>

definition memory_slice_range :: "nat \<Rightarrow> nat \<Rightarrow> (evm_memory, nat \<times> nat) exec" where
  "memory_slice_range off end' =
     bind (gets (\<lambda>m. length (mem_space m))) (\<lambda>len.
     if off \<le> end' \<and> end' \<le> len then ret (off, end') else panic)"

definition memory_get_slice_mut :: "u256 \<Rightarrow> u256 \<Rightarrow> (evm_memory, (nat \<times> nat) \<times> gas) exec" where
  "memory_get_slice_mut off len =
     bind (unwrap (u256_add off len)) (\<lambda>end'.
     bind (memory_resize end') (\<lambda>gas.
     bind (as_u64 off) (\<lambda>lo.
     bind (as_u64 end') (\<lambda>hi.
     bind (memory_slice_range lo hi) (\<lambda>sl. ret (sl, gas))))))"

text \<open>The bytes of a slice, and \<open>slice.copy_from_slice(data)\<close>.\<close>

definition memory_slice_bytes :: "nat \<times> nat \<Rightarrow> evm_memory \<Rightarrow> bytes" where
  "memory_slice_bytes sl m = take (snd sl - fst sl) (drop (fst sl) (mem_space m))"

definition memory_copy_from_slice :: "nat \<times> nat \<Rightarrow> bytes \<Rightarrow> (evm_memory, unit) exec" where
  "memory_copy_from_slice sl data =
     (if snd sl - fst sl \<noteq> length data then panic
      else bind (memory_slice_range (fst sl) (snd sl)) (\<lambda>_.
           modify (\<lambda>m. m\<lparr>mem_space :=
             take (fst sl) (mem_space m) @ data @ drop (snd sl) (mem_space m)\<rparr>)))"

definition memory_get_slice :: "u256 \<Rightarrow> u256 \<Rightarrow> (evm_memory, bytes \<times> gas) exec" where
  "memory_get_slice off len =
     bind (memory_get_slice_mut off len) (\<lambda>(sl, gas).
     bind (gets (memory_slice_bytes sl)) (\<lambda>data. ret (data, gas)))"

definition memory_len :: "evm_memory \<Rightarrow> nat" where
  "memory_len m = length (mem_space m)"

definition memory_set :: "u256 \<Rightarrow> u256 \<Rightarrow> bytes \<Rightarrow> (evm_memory, gas) exec" where
  "memory_set off len data =
     bind (memory_get_slice_mut off len) (\<lambda>(sl, gas).
     let min_len = min (snd sl - fst sl) (length data)
     in bind (memory_copy_from_slice (fst sl, fst sl + min_len) (take min_len data)) (\<lambda>_.
        ret gas))"

section \<open>Well-formed memories and the byte array they represent\<close>

definition mem_cost :: "nat \<Rightarrow> gas" where
  "mem_cost w = w * GAS_MEM_RESIZE_WORD + w * w div QUAD_COEF_DIV"

definition memory_wf :: "evm_memory \<Rightarrow> bool" where
  "memory_wf m \<longleftrightarrow>
     length (mem_space m) \<le> MAX_MEM_SIZE \<and> 32 dvd length (mem_space m) \<and>
     mem_last_gas m = mem_cost (length (mem_space m) div 32)"

definition mem_byte :: "evm_memory \<Rightarrow> nat \<Rightarrow> u8" where
  "mem_byte m i = (if i < length (mem_space m) then mem_space m ! i else 0)"

text \<open>
  The memory after an access that ends at byte \<open>n\<close>: its size is a whole number of words and never
  smaller than before, the new bytes are zero and the gas is the cost of the new size.
\<close>

definition grown_len :: "evm_memory \<Rightarrow> nat \<Rightarrow> nat" where
  "grown_len m n = max (length (mem_space m)) (32 * ((n + 31) div 32))"

definition memory_grow :: "nat \<Rightarrow> evm_memory \<Rightarrow> evm_memory" where
  "memory_grow n m =
     \<lparr>mem_space = vec_resize (grown_len m n) (mem_space m),
      mem_last_gas = mem_cost (grown_len m n div 32)\<rparr>"

definition grow_fee :: "nat \<Rightarrow> evm_memory \<Rightarrow> gas" where
  "grow_fee n m = mem_cost (grown_len m n div 32) - mem_cost (length (mem_space m) div 32)"

lemma memory_wf_new [simp]: "memory_wf memory_new"
  by (simp add: memory_wf_def memory_new_def mem_cost_def)

lemma mem_cost_mono: "v \<le> w \<Longrightarrow> mem_cost v \<le> mem_cost w"
  by (auto simp: mem_cost_def intro!: add_mono mult_le_mono div_le_mono)

lemma length_vec_resize [simp]: "length (vec_resize n xs) = n"
  by (simp add: vec_resize_def)

lemma vec_resize_nth:
  "length xs \<le> n \<Longrightarrow> i < n \<Longrightarrow> vec_resize n xs ! i = (if i < length xs then xs ! i else 0)"
  by (simp add: vec_resize_def nth_append)

lemma vec_resize_same [simp]: "vec_resize (length xs) xs = xs"
  by (simp add: vec_resize_def)

lemma grown_len_ge [simp]: "length (mem_space m) \<le> grown_len m n" "n \<le> grown_len m n"
proof -
  have "n \<le> 32 * ((n + 31) div 32)" by presburger
  then show "n \<le> grown_len m n" by (simp add: grown_len_def)
qed (simp add: grown_len_def)

lemma length_memory_grow [simp]: "length (mem_space (memory_grow n m)) = grown_len m n"
  by (simp add: memory_grow_def)

lemma mem_byte_grow [simp]: "mem_byte (memory_grow n m) = mem_byte m"
proof
  fix i
  have "i < length (mem_space m) \<Longrightarrow> i < grown_len m n"
    using grown_len_ge(1) [of m n] by linarith
  then show "mem_byte (memory_grow n m) i = mem_byte m i"
    by (simp add: mem_byte_def memory_grow_def vec_resize_nth)
qed

lemma memory_wf_grow:
  assumes "memory_wf m" and "n \<le> MAX_MEM_SIZE"
  shows "memory_wf (memory_grow n m)"
  using assms by (auto simp: memory_wf_def memory_grow_def grown_len_def max_def)

lemma memory_grow_noop:
  assumes "memory_wf m" and "n \<le> length (mem_space m)"
  shows "memory_grow n m = m"
proof -
  from assms have "grown_len m n = length (mem_space m)"
    by (auto simp: memory_wf_def grown_len_def)
  with assms(1) show ?thesis by (simp add: memory_grow_def memory_wf_def)
qed

lemma mem_words_no_overflow:
  fixes w :: nat
  assumes "w \<le> 0xffffffff"
  shows "w * w < 2 ^ 64" and "w * 3 + w * w div 512 < 2 ^ 64"
proof -
  have "w * w \<le> 0xffffffff * 0xffffffff" using assms by (intro mult_le_mono)
  then show "w * w < 2 ^ 64" by simp
  then show "w * 3 + w * w div 512 < 2 ^ 64" using assms by simp
qed

lemma memory_resize_grows:
  assumes m: "memory_wf m" and n: "unat sz \<le> MAX_MEM_SIZE" and gt: "length (mem_space m) < unat sz"
  shows "memory_resize sz m = Ok (grow_fee (unat sz) m) (memory_grow (unat sz) m)"
proof -
  define w where "w = (unat sz + 31) div 32"
  have w: "w \<le> 0xffffffff" using n by (simp add: w_def)
  have len: "grown_len m (unat sz) = w * 32"
    using gt grown_len_ge(2) [of "unat sz" m] by (auto simp: grown_len_def w_def max_def)
  have word: "to_word_size (unat sz) = w" using n by (simp add: to_word_size_def w_def)
  have le: "\<not> sz > word_of_nat MAX_MEM_SIZE" using n by (simp add: word_less_nat_alt unat_of_nat)
  have "length (mem_space m) div 32 \<le> w" using gt by (simp add: w_def)
  then have cost: "mem_last_gas m \<le> mem_cost w"
    using m mem_cost_mono by (simp add: memory_wf_def)
  show ?thesis
    using m le gt w n cost mem_words_no_overflow [OF w]
    by (simp add: memory_resize_def as_u64_def checked_as_u64_eq word exec_defs Let_def len
        memory_grow_def grow_fee_def mem_cost_def memory_wf_def)
qed

lemma memory_resize_eq:
  assumes m: "memory_wf m"
  shows "memory_resize sz m =
    (if unat sz \<le> MAX_MEM_SIZE then Ok (grow_fee (unat sz) m) (memory_grow (unat sz) m)
     else Err OutOfMemory m)"
proof (cases "unat sz \<le> MAX_MEM_SIZE")
  case n: True
  then have le: "\<not> sz > word_of_nat MAX_MEM_SIZE" by (simp add: word_less_nat_alt unat_of_nat)
  show ?thesis
  proof (cases "length (mem_space m) < unat sz")
    case True
    with memory_resize_grows [OF m n] n show ?thesis by simp
  next
    case False
    then have g: "memory_grow (unat sz) m = m" by (simp add: memory_grow_noop m)
    then have "grow_fee (unat sz) m = 0"
      using length_memory_grow [of "unat sz" m] by (simp add: grow_fee_def)
    with g False le n show ?thesis
      by (simp add: memory_resize_def as_u64_def checked_as_u64_eq exec_defs)
  qed
next
  case False
  then have "sz > word_of_nat MAX_MEM_SIZE" by (simp add: word_less_nat_alt unat_of_nat)
  with False show ?thesis by (simp add: memory_resize_def exec_defs)
qed

lemma memory_get_slice_mut_eq:
  assumes m: "memory_wf m"
  shows "memory_get_slice_mut off len m =
    (let n = unat off + unat len in
     if n \<ge> 2 ^ 256 then Panic
     else if n \<le> MAX_MEM_SIZE then Ok ((unat off, n), grow_fee n m) (memory_grow n m)
     else Err OutOfMemory m)"
proof (cases "unat off + unat len < 2 ^ 256")
  case True
  then have n: "unat (off + len) = unat off + unat len" by (simp add: unat_word_ariths)
  have le: "unat off + unat len \<le> grown_len m (unat off + unat len)" by simp
  show ?thesis
    using True le unfolding memory_get_slice_mut_def bind_def [of "unwrap _"]
    by (simp add: u256_add_def as_u64_def checked_as_u64_eq memory_slice_range_def Let_def
        exec_defs memory_resize_eq [OF m] n del: grown_len_ge)
next
  case False
  then show ?thesis by (simp add: memory_get_slice_mut_def u256_add_def exec_defs)
qed

lemma slice_bytes_mem_byte:
  assumes "hi \<le> length (mem_space m)"
  shows "memory_slice_bytes (lo, hi) m = map (mem_byte m) [lo..<hi]"
  using assms by (intro nth_equalityI) (auto simp: memory_slice_bytes_def mem_byte_def)

lemma mem_byte_copy:
  assumes "lo + length data \<le> length (mem_space m)"
  shows "mem_byte (m\<lparr>mem_space := take lo (mem_space m) @ data @ drop (lo + length data) (mem_space m)\<rparr>) i
    = (if lo \<le> i \<and> i < lo + length data then data ! (i - lo) else mem_byte m i)"
  using assms by (auto simp: mem_byte_def nth_append)

text \<open>Every operation keeps the invariant, whatever it returns.\<close>

lemma memory_get_slice_mut_wf: "pres (keeps memory_wf) (memory_get_slice_mut off len)"
proof -
  have "case memory_get_slice_mut off len m of Ok a t \<Rightarrow> keeps memory_wf m t
      | Err e t \<Rightarrow> keeps memory_wf m t | Panic \<Rightarrow> True" for m
  proof (cases "memory_wf m")
    case True
    then show ?thesis
      using memory_wf_grow [OF True] by (simp add: memory_get_slice_mut_eq Let_def keeps_def)
  qed (simp add: keeps_def split: outcome.split)
  then show ?thesis by (simp add: pres_def)
qed

lemma memory_copy_wf: "pres (keeps memory_wf) (memory_copy_from_slice sl data)"
proof -
  have "keeps memory_wf m t" if "memory_copy_from_slice sl data m = Ok a t" for m a t
  proof -
    have "length (mem_space t) = length (mem_space m)" "mem_last_gas t = mem_last_gas m"
      using that by (auto simp: memory_copy_from_slice_def memory_slice_range_def exec_defs split: if_splits)
    then show ?thesis by (simp add: keeps_def memory_wf_def)
  qed
  moreover have "memory_copy_from_slice sl data m \<noteq> Err e t" for m e t
    by (auto simp: memory_copy_from_slice_def memory_slice_range_def exec_defs split: if_splits)
  ultimately show ?thesis by (auto simp: pres_def split: outcome.split)
qed

lemma memory_get_slice_wf: "pres (keeps memory_wf) (memory_get_slice off len)"
  unfolding memory_get_slice_def
  by (intro keep.pres_rules memory_get_slice_mut_wf)

lemma memory_set_wf: "pres (keeps memory_wf) (memory_set off len data)"
  unfolding memory_set_def
  by (intro keep.pres_rules memory_get_slice_mut_wf memory_copy_wf)

section \<open>The interface of a byte memory\<close>

text \<open>
  What the frame's instructions rely on: an access within the limits charges the growth and never
  changes a byte that is not written, a read returns the bytes of the area, a write stores the data
  (cut to the area) at its start.
\<close>

locale byte_memory =
  fixes ok :: "'m \<Rightarrow> bool"
    and byte_at :: "'m \<Rightarrow> nat \<Rightarrow> u8"
    and fee :: "nat \<Rightarrow> 'm \<Rightarrow> gas"
    and load :: "u256 \<Rightarrow> u256 \<Rightarrow> ('m, bytes \<times> gas) exec"
    and store :: "u256 \<Rightarrow> u256 \<Rightarrow> bytes \<Rightarrow> ('m, gas) exec"
    and limit :: nat
  assumes load_ok: "ok m \<Longrightarrow> unat off + unat len \<le> limit \<Longrightarrow>
      \<exists>t. load off len m =
            Ok (map (byte_at m) [unat off..<unat off + unat len], fee (unat off + unat len) m) t
        \<and> ok t \<and> byte_at t = byte_at m"
    and store_ok: "ok m \<Longrightarrow> unat off + unat len \<le> limit \<Longrightarrow>
      \<exists>t. store off len data m = Ok (fee (unat off + unat len) m) t
        \<and> ok t \<and> byte_at t = (\<lambda>i. if unat off \<le> i \<and> i < unat off + min (unat len) (length data)
                                   then data ! (i - unat off) else byte_at m i)"
begin

lemma load_twice:
  assumes "ok m" and "unat off + unat len \<le> limit" and "load off len m = Ok (d, g) t"
  shows "\<exists>g' u. load off len t = Ok (d, g') u"
  using load_ok [OF assms(1,2)] assms(3) load_ok [OF _ assms(2)] by fastforce

lemma store_load:
  assumes m: "ok m" and lim: "unat off + unat len \<le> limit" and len: "length data = unat len"
  shows "\<exists>t. store off len data m = Ok (fee (unat off + unat len) m) t \<and> ok t
    \<and> (\<exists>g u. load off len t = Ok (data, g) u)"
proof -
  obtain t where st: "store off len data m = Ok (fee (unat off + unat len) m) t" "ok t"
    and b: "byte_at t = (\<lambda>i. if unat off \<le> i \<and> i < unat off + min (unat len) (length data)
                             then data ! (i - unat off) else byte_at m i)"
    using store_ok [OF m lim] by blast
  have "map (byte_at t) [unat off..<unat off + unat len] = data"
    by (rule nth_equalityI) (use len in \<open>auto simp: b\<close>)
  with load_ok [OF st(2) lim] st show ?thesis by auto
qed

lemma store_frame:
  assumes m: "ok m" and lim: "unat off + unat len \<le> limit" "unat off' + unat len' \<le> limit"
    and dis: "unat off + unat len \<le> unat off' \<or> unat off' + unat len' \<le> unat off"
    and st: "store off len data m = Ok g t"
  shows "\<exists>g' u. load off' len' t = Ok (map (byte_at m) [unat off'..<unat off' + unat len'], g') u"
proof -
  from store_ok [OF m lim(1), of data] st
  have t: "ok t" and b: "\<And>i. \<not> (unat off \<le> i \<and> i < unat off + unat len) \<Longrightarrow> byte_at t i = byte_at m i"
    by auto
  have "map (byte_at t) [unat off'..<unat off' + unat len'] = map (byte_at m) [unat off'..<unat off' + unat len']"
    using dis by (auto intro!: b)
  with load_ok [OF t lim(2)] show ?thesis by auto
qed

end

lemma memory_get_slice_ok:
  assumes "memory_wf m" and "unat off + unat len \<le> MAX_MEM_SIZE"
  shows "memory_get_slice off len m =
    Ok (map (mem_byte m) [unat off..<unat off + unat len], grow_fee (unat off + unat len) m)
       (memory_grow (unat off + unat len) m)"
  using assms
  by (simp add: memory_get_slice_def memory_get_slice_mut_eq Let_def exec_defs slice_bytes_mem_byte)

lemma memory_set_ok:
  assumes m: "memory_wf m" and lim: "unat off + unat len \<le> MAX_MEM_SIZE"
  shows "\<exists>t. memory_set off len data m = Ok (grow_fee (unat off + unat len) m) t \<and> memory_wf t
    \<and> mem_byte t = (\<lambda>i. if unat off \<le> i \<and> i < unat off + min (unat len) (length data)
                         then data ! (i - unat off) else mem_byte m i)"
proof -
  let ?n = "unat off + unat len" and ?l = "min (unat len) (length data)"
  let ?g = "memory_grow ?n m"
  let ?t = "?g\<lparr>mem_space := take (unat off) (mem_space ?g) @ take ?l data
              @ drop (unat off + length (take ?l data)) (mem_space ?g)\<rparr>"
  have g: "memory_wf ?g" using m lim by (rule memory_wf_grow)
  have fits: "unat off + length (take ?l data) \<le> length (mem_space ?g)"
    using grown_len_ge(2) [of ?n m] by (simp add: min_def del: grown_len_ge)
  have "memory_set off len data m = Ok (grow_fee ?n m) ?t"
    using m lim fits
    by (simp add: memory_set_def memory_get_slice_mut_eq Let_def exec_defs memory_copy_from_slice_def
        memory_slice_range_def)
  moreover have "length (mem_space ?t) = length (mem_space ?g)" using fits by simp
  then have "memory_wf ?t" using g by (simp add: memory_wf_def)
  moreover have "mem_byte ?t = (\<lambda>i. if unat off \<le> i \<and> i < unat off + ?l
                         then data ! (i - unat off) else mem_byte m i)"
    unfolding fun_eq_iff mem_byte_copy [OF fits] by (auto intro!: nth_take)
  ultimately show ?thesis by blast
qed

lemma memory_set_len:
  assumes m: "memory_wf m" and t: "memory_set off len data m = Ok g t"
  shows "length (mem_space t) = grown_len m (unat off + unat len)"
proof -
  let ?n = "unat off + unat len"
  have "unat off + min (unat len) (length data) \<le> grown_len m ?n"
    using grown_len_ge(2) [of ?n m] by (simp add: min_def del: grown_len_ge)
  then show ?thesis
    using t m by (auto simp: memory_set_def memory_get_slice_mut_eq Let_def exec_defs
        memory_copy_from_slice_def memory_slice_range_def split: if_splits)
qed

lemma grow_fee_zero:
  assumes "memory_wf t" and "n \<le> length (mem_space t)"
  shows "grow_fee n t = 0"
  using memory_grow_noop [OF assms] length_memory_grow [of n t] by (simp add: grow_fee_def)

interpretation mem: byte_memory memory_wf mem_byte grow_fee memory_get_slice memory_set MAX_MEM_SIZE
proof
  fix m :: evm_memory and off len :: u256
  assume "memory_wf m" and "unat off + unat len \<le> MAX_MEM_SIZE"
  then show "\<exists>t. memory_get_slice off len m =
        Ok (map (mem_byte m) [unat off..<unat off + unat len], grow_fee (unat off + unat len) m) t
      \<and> memory_wf t \<and> mem_byte t = mem_byte m"
    using memory_get_slice_ok [of m off len] memory_wf_grow mem_byte_grow by blast
next
  show "\<And>m off len data. memory_wf m \<Longrightarrow> unat off + unat len \<le> MAX_MEM_SIZE \<Longrightarrow>
      \<exists>t. memory_set off len data m = Ok (grow_fee (unat off + unat len) m) t \<and> memory_wf t
        \<and> mem_byte t = (\<lambda>i. if unat off \<le> i \<and> i < unat off + min (unat len) (length data)
                             then data ! (i - unat off) else mem_byte m i)"
    by (rule memory_set_ok)
qed

section \<open>Properties\<close>

text \<open>
  Growing the memory (\<open>Memory::resize\<close>) from a well-formed state never panics: up to
  \<open>MAX_MEM_SIZE\<close> it returns exactly the difference of the quadratic costs \<open>3 w + w\<^sup>2 / 512\<close> of the new
  and the old size in words, rounds the size up to whole words, keeps the invariant, and the bytes it
  represents are unchanged (new bytes are zero); above the limit it fails with \<open>OutOfMemory\<close> and
  leaves the state as it is.
\<close>

theorem memory_resize_correct:
  assumes "memory_wf m"
  shows "wp (memory_resize sz)
    (\<lambda>fee t. unat sz \<le> MAX_MEM_SIZE \<and> memory_wf t \<and> mem_byte t = mem_byte m
       \<and> length (mem_space t) = max (length (mem_space m)) (32 * ((unat sz + 31) div 32))
       \<and> mem_cost (length (mem_space m) div 32) + fee = mem_cost (length (mem_space t) div 32))
    (\<lambda>e t. e = OutOfMemory \<and> unat sz > MAX_MEM_SIZE \<and> t = m) m"
proof -
  have "mem_cost (length (mem_space m) div 32) \<le> mem_cost (grown_len m (unat sz) div 32)"
    by (intro mem_cost_mono div_le_mono) simp
  then show ?thesis
    using assms memory_wf_grow [OF assms, of "unat sz"]
    by (simp add: wp_def memory_resize_eq grow_fee_def) (simp add: grown_len_def)
qed

theorem memory_resize_witness:
  "wp (memory_resize 33)
    (\<lambda>fee t. unat (33 :: u256) \<le> MAX_MEM_SIZE \<and> memory_wf t \<and> mem_byte t = mem_byte memory_new
       \<and> length (mem_space t) = max (length (mem_space memory_new)) (32 * ((unat (33 :: u256) + 31) div 32))
       \<and> mem_cost (length (mem_space memory_new) div 32) + fee = mem_cost (length (mem_space t) div 32))
    (\<lambda>e t. e = OutOfMemory \<and> unat (33 :: u256) > MAX_MEM_SIZE \<and> t = memory_new) memory_new"
  by (rule memory_resize_correct) simp

text \<open>
  C37. What is written to the memory is read back: \<open>Memory::set\<close> of data as long as its area succeeds
  for every area below the limit and a following \<open>Memory::get_slice\<close> of the area returns the data;
  an area that does not overlap it still reads as before.
\<close>

theorem memory_set_get:
  assumes "memory_wf m" and "unat off + unat len \<le> MAX_MEM_SIZE" and "length data = unat len"
    and "unat off' + unat len' \<le> MAX_MEM_SIZE"
    and "unat off + unat len \<le> unat off' \<or> unat off' + unat len' \<le> unat off"
  shows "\<exists>g t. memory_set off len data m = Ok g t \<and> memory_wf t
    \<and> (\<exists>g' u. memory_get_slice off len t = Ok (data, g') u)
    \<and> (\<exists>g' u. memory_get_slice off' len' t =
          Ok (map (mem_byte m) [unat off'..<unat off' + unat len'], g') u)"
  using mem.store_load [OF assms(1-3)] mem.store_frame [OF assms(1,2,4,5)] by metis

theorem memory_set_get_witness:
  "\<exists>g t. memory_set 3 2 [7, 8] memory_new = Ok g t \<and> memory_wf t
    \<and> (\<exists>g' u. memory_get_slice 3 2 t = Ok ([7, 8], g') u)
    \<and> (\<exists>g' u. memory_get_slice 5 1 t =
          Ok (map (mem_byte memory_new) [unat (5 :: u256)..<unat (5 :: u256) + unat (1 :: u256)], g') u)"
  by (rule memory_set_get) simp_all

text \<open>
  \<open>Memory::get_slice\<close> on a well-formed memory, completely: it panics exactly when offset plus
  length exceeds \<open>2 ^ 256 - 1\<close> (the addition of \<open>U256\<close> overflows), an area that ends beyond
  \<open>MAX_MEM_SIZE\<close> is \<open>OutOfMemory\<close> with nothing changed, and otherwise it returns the bytes of the
  area with the fee of growing the memory to its end.
\<close>

theorem memory_get_slice_total:
  assumes "memory_wf m"
  shows "memory_get_slice off len m =
    (let n = unat off + unat len in
     if 2 ^ 256 \<le> n then Panic
     else if MAX_MEM_SIZE < n then Err OutOfMemory m
     else Ok (map (mem_byte m) [unat off..<n], grow_fee n m) (memory_grow n m))"
  using assms memory_get_slice_ok [OF assms, of off len]
  by (simp add: memory_get_slice_def memory_get_slice_mut_eq Let_def exec_defs)

theorem memory_get_slice_total_witness: "memory_get_slice (- 1) 32 memory_new = Panic"
  by (subst memory_get_slice_total) (simp_all add: unsigned_minus_1_eq_mask mask_eq_exp_minus_1)

end
