(* ===== verification/Opcode.thy ===== *)
theory Opcode
  imports Prelude
begin

text \<open>
  The opcodes, \<open>src/src/core/opcode.rs\<close>. The enumeration \<open>Opcode\<close> derives its conversion from \<open>u8\<close>
  from the discriminants. Its variants are grouped here by the blocks of the enumeration (arithmetic,
  comparison and bits, environment, block, memory and control flow, system); the families \<open>Push1\<close> ..
  \<open>Push32\<close>, \<open>Dup1\<close> .. \<open>Dup16\<close>, \<open>Swap1\<close> .. \<open>Swap16\<close> and \<open>Log0\<close> .. \<open>Log4\<close> are constructors with their
  number. \<open>OpPush\<close>, \<open>OpDup\<close> and \<open>OpSwap\<close> are the three internal opcodes the decoder of the
  interpreter produces for a whole family; they have the discriminants \<open>0xb0\<close> .. \<open>0xb2\<close>.
\<close>

datatype arith_op =
    OpAdd | OpMul | OpSub | OpDiv | OpSDiv | OpMod | OpSMod | OpAddMod | OpMulMod | OpExp |
    OpSignExtend

datatype logic_op =
    OpLt | OpGt | OpSlt | OpSgt | OpEql | OpIsZero | OpAnd | OpOr | OpXor | OpNot | OpByte |
    OpShl | OpShr | OpSar

datatype env_op =
    OpAddr | OpBalance | OpOrigin | OpCaller | OpCallValue | OpCallDataLoad | OpCallDataSize |
    OpCallDataCopy | OpCodeSize | OpCodeCopy | OpGasPrice | OpExtCodeSize | OpExtCodeCopy |
    OpReturnDataSize | OpReturnDataCopy | OpExtCodeHash

datatype block_op =
    OpBlockHash | OpCoinbase | OpTimestamp | OpNumber | OpDifficulty | OpGasLimit | OpChainId |
    OpSelfBalance | OpBaseFee

datatype flow_op =
    OpPop | OpMLoad | OpMStore | OpMStore8 | OpSLoad | OpSStore | OpJump | OpJumpI | OpPC |
    OpMSize | OpGas | OpJumpDest

datatype family_op =
    OpPush | OpDup | OpSwap

datatype system_op =
    OpCreate | OpCall | OpCallCode | OpReturn | OpDelegateCall | OpCreate2 | OpStaticCall |
    OpRevert | OpInvalid | OpSelfDestruct

datatype opcode =
    OpStop | OpSha3 | OpArith arith_op | OpLogic logic_op | OpEnv env_op | OpBlock block_op |
    OpFlow flow_op | OpFamily family_op | OpSystem system_op | OpPushN nat | OpDupN nat |
    OpSwapN nat | OpLogN nat

definition opcode_table :: "(u8 \<times> opcode) list" where
  "opcode_table =
     [(0x00, OpStop), (0x01, OpArith OpAdd), (0x02, OpArith OpMul), (0x03, OpArith OpSub),
      (0x04, OpArith OpDiv), (0x05, OpArith OpSDiv), (0x06, OpArith OpMod),
      (0x07, OpArith OpSMod), (0x08, OpArith OpAddMod), (0x09, OpArith OpMulMod),
      (0x0a, OpArith OpExp), (0x0b, OpArith OpSignExtend), (0x10, OpLogic OpLt),
      (0x11, OpLogic OpGt), (0x12, OpLogic OpSlt), (0x13, OpLogic OpSgt),
      (0x14, OpLogic OpEql), (0x15, OpLogic OpIsZero), (0x16, OpLogic OpAnd),
      (0x17, OpLogic OpOr), (0x18, OpLogic OpXor), (0x19, OpLogic OpNot),
      (0x1a, OpLogic OpByte), (0x1b, OpLogic OpShl), (0x1c, OpLogic OpShr),
      (0x1d, OpLogic OpSar), (0x20, OpSha3), (0x30, OpEnv OpAddr), (0x31, OpEnv OpBalance),
      (0x32, OpEnv OpOrigin), (0x33, OpEnv OpCaller), (0x34, OpEnv OpCallValue),
      (0x35, OpEnv OpCallDataLoad), (0x36, OpEnv OpCallDataSize), (0x37, OpEnv OpCallDataCopy),
      (0x38, OpEnv OpCodeSize), (0x39, OpEnv OpCodeCopy), (0x3a, OpEnv OpGasPrice),
      (0x3b, OpEnv OpExtCodeSize), (0x3c, OpEnv OpExtCodeCopy), (0x3d, OpEnv OpReturnDataSize),
      (0x3e, OpEnv OpReturnDataCopy), (0x3f, OpEnv OpExtCodeHash), (0x40, OpBlock OpBlockHash),
      (0x41, OpBlock OpCoinbase), (0x42, OpBlock OpTimestamp), (0x43, OpBlock OpNumber),
      (0x44, OpBlock OpDifficulty), (0x45, OpBlock OpGasLimit), (0x46, OpBlock OpChainId),
      (0x47, OpBlock OpSelfBalance), (0x48, OpBlock OpBaseFee), (0x50, OpFlow OpPop),
      (0x51, OpFlow OpMLoad), (0x52, OpFlow OpMStore), (0x53, OpFlow OpMStore8),
      (0x54, OpFlow OpSLoad), (0x55, OpFlow OpSStore), (0x56, OpFlow OpJump),
      (0x57, OpFlow OpJumpI), (0x58, OpFlow OpPC), (0x59, OpFlow OpMSize),
      (0x5a, OpFlow OpGas), (0x5b, OpFlow OpJumpDest), (0xb0, OpFamily OpPush),
      (0xb1, OpFamily OpDup), (0xb2, OpFamily OpSwap), (0xf0, OpSystem OpCreate),
      (0xf1, OpSystem OpCall), (0xf2, OpSystem OpCallCode), (0xf3, OpSystem OpReturn),
      (0xf4, OpSystem OpDelegateCall), (0xf5, OpSystem OpCreate2),
      (0xfa, OpSystem OpStaticCall), (0xfd, OpSystem OpRevert), (0xfe, OpSystem OpInvalid),
      (0xff, OpSystem OpSelfDestruct)]"

text \<open>\<open>Opcode::from_u8\<close>.\<close>

definition opcode_from_u8 :: "u8 \<Rightarrow> opcode option" where
  "opcode_from_u8 b =
     (if 0x60 \<le> b \<and> b \<le> 0x7f then Some (OpPushN (unat b - 0x5f))
      else if 0x80 \<le> b \<and> b \<le> 0x8f then Some (OpDupN (unat b - 0x7f))
      else if 0x90 \<le> b \<and> b \<le> 0x9f then Some (OpSwapN (unat b - 0x8f))
      else if 0xa0 \<le> b \<and> b \<le> 0xa4 then Some (OpLogN (unat b - 0xa0))
      else map_of opcode_table b)"

text \<open>The table gives different opcodes different discriminants, and no two bytes the same opcode.\<close>

lemma opcode_table_distinct:
  "distinct (map fst opcode_table)" "distinct (map snd opcode_table)"
  by (simp_all add: opcode_table_def)

lemma opcode_jumpdest_iff:
  "opcode_from_u8 b = Some (OpFlow OpJumpDest) \<longleftrightarrow> b = 0x5b"
proof
  assume "opcode_from_u8 b = Some (OpFlow OpJumpDest)"
  then have "map_of opcode_table b = Some (OpFlow OpJumpDest)"
    by (simp add: opcode_from_u8_def split: if_splits)
  then have "(b, OpFlow OpJumpDest) \<in> set opcode_table" by (rule map_of_SomeD)
  then show "b = 0x5b" by (simp add: opcode_table_def)
next
  show "b = 0x5b \<Longrightarrow> opcode_from_u8 b = Some (OpFlow OpJumpDest)"
    by (simp add: opcode_from_u8_def opcode_table_def)
qed

end
