(* ===== verification/PlainCode.thy ===== *)
theory PlainCode
  imports Bytes Opcode
begin

text \<open>
  Code objects: \<open>gen_code_bitmap\<close> of \<open>src/src/common.rs\<close> and \<open>PlainCode\<close> of
  \<open>src/src/core/exec.rs\<close>, the only implementation of the trait \<open>Code\<close>. The bitmap marks the bytes
  at which an instruction starts, so that a jump into the data of a push is refused. The reference is
  the inductive predicate \<open>inst_start\<close>: the positions a decoder reaches from the first byte.
  The hash function (the crate \<open>sha3\<close>) is a parameter.
\<close>

text \<open>The loop of \<open>gen_code_bitmap\<close>: \<open>nskip\<close> bytes of push data remain.\<close>

fun code_bitmap_loop :: "nat \<Rightarrow> bytes \<Rightarrow> bool list" where
  "code_bitmap_loop nskip [] = []"
| "code_bitmap_loop nskip (b # bs) =
     (if nskip > 0 then False # code_bitmap_loop (nskip - 1) bs
      else True # code_bitmap_loop (if 0x60 \<le> b \<and> b \<le> 0x7f then unat (b - 0x60 + 1) else 0) bs)"

definition gen_code_bitmap :: "bytes \<Rightarrow> bool list" where
  "gen_code_bitmap code = code_bitmap_loop 0 code"

record plain_code =
  code_bytes :: bytes
  code_bitmap :: "bool list"
  code_hash :: hash

definition PlainCode_new :: "(bytes \<Rightarrow> hash) \<Rightarrow> bytes \<Rightarrow> plain_code" where
  "PlainCode_new keccak code =
     \<lparr>code_bytes = code, code_bitmap = gen_code_bitmap code, code_hash = keccak code\<rparr>"

definition is_opcode :: "plain_code \<Rightarrow> nat \<Rightarrow> bool" where
  "is_opcode c dest = (if dest < length (code_bitmap c) then code_bitmap c ! dest else False)"

text \<open>\<open>self.code[dest]\<close> is in range where it is read: the bitmap is as long as the code.\<close>

definition is_valid_jumpdest :: "plain_code \<Rightarrow> u256 \<Rightarrow> bool" where
  "is_valid_jumpdest c dest =
     (case checked_as_u64 dest of
        None \<Rightarrow> False
      | Some dest \<Rightarrow>
          if is_opcode c dest
          then (case opcode_from_u8 (code_bytes c ! dest) of
                  None \<Rightarrow> False
                | Some op \<Rightarrow> op = OpFlow OpJumpDest)
          else False)"

section \<open>The positions of the instructions\<close>

definition push_len :: "u8 \<Rightarrow> nat" where
  "push_len b = (if 0x60 \<le> unat b \<and> unat b \<le> 0x7f then unat b - 0x5f else 0)"

inductive inst_start :: "bytes \<Rightarrow> nat \<Rightarrow> bool" where
  inst_start_0: "0 < length code \<Longrightarrow> inst_start code 0"
| inst_start_next:
    "inst_start code i \<Longrightarrow> i + 1 + push_len (code ! i) < length code \<Longrightarrow>
     inst_start code (i + 1 + push_len (code ! i))"

lemma inst_start_less: "inst_start code i \<Longrightarrow> i < length code"
  by (induction rule: inst_start.induct) auto

lemma not_inst_start_Nil [simp]: "\<not> inst_start [] i"
  using inst_start_less by fastforce

lemma inst_start_Cons_0 [simp]: "inst_start (b # bs) 0"
  by (rule inst_start_0) simp

lemma inst_start_skipI:
  assumes "inst_start (drop (push_len b) bs) i"
  shows "inst_start (b # bs) (Suc (i + push_len b))"
  using assms
proof (induction "drop (push_len b) bs" i rule: inst_start.induct)
  case inst_start_0
  then have "inst_start (b # bs) (0 + 1 + push_len ((b # bs) ! 0))"
    by (intro inst_start_next) simp_all
  then show ?case by simp
next
  case (inst_start_next i)
  let ?j = "Suc (i + push_len b)"
  have nth: "(b # bs) ! ?j = drop (push_len b) bs ! i"
    using inst_start_less [OF inst_start_next.hyps(1)] by (simp add: add.commute)
  have "inst_start (b # bs) (?j + 1 + push_len ((b # bs) ! ?j))"
    by (rule inst_start.inst_start_next [OF inst_start_next.hyps(2)])
      (use inst_start_next.hyps(3) in \<open>simp add: nth del: nth_Cons_Suc nth_drop\<close>)
  then show ?case by (simp add: nth algebra_simps del: nth_Cons_Suc nth_drop)
qed

lemma inst_start_skipD:
  assumes "inst_start (b # bs) j" and "j > 0"
  shows "push_len b < j \<and> inst_start (drop (push_len b) bs) (j - Suc (push_len b))"
  using assms
proof (induction "b # bs" j rule: inst_start.induct)
  case (inst_start_next i)
  let ?n = "push_len b"
  show ?case
  proof (cases "i = 0")
    case True
    with inst_start_next.hyps(3) show ?thesis by (auto intro!: inst_start_0)
  next
    case False
    with inst_start_next have i: "?n < i" and st: "inst_start (drop ?n bs) (i - Suc ?n)" by simp_all
    have nth: "(b # bs) ! i = drop ?n bs ! (i - Suc ?n)"
      using i inst_start_less [OF st] by (cases i) auto
    have "inst_start (drop ?n bs) (i - Suc ?n + 1 + push_len (drop ?n bs ! (i - Suc ?n)))"
      by (rule inst_start.inst_start_next [OF st]) 
        (use inst_start_next.hyps(3) i in \<open>simp add: nth del: nth_Cons_Suc nth_drop\<close>)
    moreover have "i - Suc ?n + 1 + push_len ((b # bs) ! i) = i + 1 + push_len ((b # bs) ! i) - Suc ?n"
      using i by simp
    ultimately show ?thesis using i by (simp add: nth)
  qed
qed simp

lemma inst_start_Cons_Suc:
  "inst_start (b # bs) (Suc i) \<longleftrightarrow> push_len b \<le> i \<and> inst_start (drop (push_len b) bs) (i - push_len b)"
  using inst_start_skipD [of b bs "Suc i"] inst_start_skipI [of b bs "i - push_len b"] by auto

section \<open>The bitmap marks exactly these positions\<close>

lemma length_code_bitmap_loop [simp]: "length (code_bitmap_loop n code) = length code"
  by (induction n code rule: code_bitmap_loop.induct) simp_all

lemma push_skip_eq:
  "(if 0x60 \<le> b \<and> b \<le> 0x7f then unat (b - 0x60 + 1) else 0) = push_len b" for b :: u8
proof (cases "0x60 \<le> b \<and> b \<le> 0x7f")
  case True
  then have r: "0x60 \<le> unat b" "unat b \<le> 0x7f" by (simp_all add: word_le_nat_alt)
  have "b - 0x60 + 1 = b - 0x5f" by simp
  moreover have "unat (b - 0x5f) = unat b - unat (0x5f :: u8)"
    by (rule unat_sub) (use r in \<open>simp add: word_le_nat_alt\<close>)
  ultimately show ?thesis using True r by (simp add: push_len_def)
next
  case False
  then have "\<not> (0x60 \<le> unat b \<and> unat b \<le> 0x7f)" by (simp add: word_le_nat_alt)
  with False show ?thesis by (auto simp: push_len_def)
qed

lemma code_bitmap_loop_nth:
  "i < length code \<Longrightarrow> code_bitmap_loop n code ! i \<longleftrightarrow> n \<le> i \<and> inst_start (drop n code) (i - n)"
proof (induction n code arbitrary: i rule: code_bitmap_loop.induct)
  case (2 n b bs)
  note eq = code_bitmap_loop.simps(2) [unfolded push_skip_eq]
  note IH = "2.IH" [unfolded push_skip_eq]
  show ?case
  proof (cases i)
    case 0
    then show ?thesis by (cases "n > 0") (simp_all add: eq del: code_bitmap_loop.simps)
  next
    case (Suc j)
    with "2.prems" have j: "j < length bs" by simp
    show ?thesis
    proof (cases "n > 0")
      case True
      with IH(1) [OF True j] Suc show ?thesis
        by (cases n) (simp_all add: eq del: code_bitmap_loop.simps)
    next
      case False
      with IH(2) [OF False j] Suc show ?thesis
        by (simp add: eq inst_start_Cons_Suc del: code_bitmap_loop.simps)
    qed
  qed
qed simp

text \<open>
  C31. \<open>gen_code_bitmap\<close> has one bit per byte of the code, set exactly at the positions where an
  instruction starts when the code is decoded from its first byte (push data is skipped, also where
  a push is cut off by the end of the code).
\<close>

theorem gen_code_bitmap_correct:
  "length (gen_code_bitmap code) = length code
    \<and> {i. i < length code \<and> gen_code_bitmap code ! i} = {i. inst_start code i}"
  by (auto simp: gen_code_bitmap_def code_bitmap_loop_nth inst_start_less)

section \<open>The interface of a code object\<close>

text \<open>
  What the interpreter relies on in the trait \<open>Code\<close>: a destination is valid exactly when it is the
  position of a \<open>JUMPDEST\<close> instruction of the bytes, and the hash is the hash of the bytes.
\<close>

locale code_object =
  fixes keccak :: "bytes \<Rightarrow> hash"
    and bytes_of :: "'c \<Rightarrow> bytes"
    and hash_of :: "'c \<Rightarrow> hash"
    and valid_dest :: "'c \<Rightarrow> u256 \<Rightarrow> bool"
    and genuine :: "'c \<Rightarrow> bool"
  assumes hash_law: "genuine c \<Longrightarrow> hash_of c = keccak (bytes_of c)"
    and dest_law: "genuine c \<Longrightarrow> length (bytes_of c) < 2 ^ 64 \<Longrightarrow>
      valid_dest c d \<longleftrightarrow> inst_start (bytes_of c) (unat d) \<and> bytes_of c ! unat d = 0x5b"
begin

lemma dest_in_code: "genuine c \<Longrightarrow> length (bytes_of c) < 2 ^ 64 \<Longrightarrow> valid_dest c d \<Longrightarrow>
    unat d < length (bytes_of c)"
  using dest_law inst_start_less by blast

text \<open>A destination fits in 64 bits: \<open>as_u64\<close> of a valid destination does not panic.\<close>

lemma dest_u64: "genuine c \<Longrightarrow> length (bytes_of c) < 2 ^ 64 \<Longrightarrow> valid_dest c d \<Longrightarrow>
    checked_as_u64 d = Some (unat d)"
  using dest_in_code [of c d] by (simp add: checked_as_u64_eq)

end

definition code_genuine :: "(bytes \<Rightarrow> hash) \<Rightarrow> plain_code \<Rightarrow> bool" where
  "code_genuine keccak c \<longleftrightarrow> c = PlainCode_new keccak (code_bytes c)"

lemma code_genuine_new [simp]: "code_genuine keccak (PlainCode_new keccak code)"
  by (simp add: code_genuine_def PlainCode_new_def)

lemma code_genuineD:
  assumes "code_genuine keccak c"
  shows "code_hash c = keccak (code_bytes c)" and "code_bitmap c = gen_code_bitmap (code_bytes c)"
  using assms unfolding code_genuine_def
  by (metis PlainCode_new_def plain_code.select_convs(2) plain_code.select_convs(3))+

lemma is_valid_jumpdest_iff:
  assumes c: "code_genuine keccak c" and len: "length (code_bytes c) < 2 ^ 64"
  shows "is_valid_jumpdest c d \<longleftrightarrow> inst_start (code_bytes c) (unat d) \<and> code_bytes c ! unat d = 0x5b"
proof (cases "unat d < 2 ^ 64")
  case True
  have "is_opcode c (unat d) \<longleftrightarrow> inst_start (code_bytes c) (unat d)"
    using inst_start_less [of "code_bytes c" "unat d"]
    by (auto simp: is_opcode_def code_genuineD [OF c] gen_code_bitmap_def code_bitmap_loop_nth)
  moreover have "(case opcode_from_u8 b of None \<Rightarrow> False | Some op \<Rightarrow> op = OpFlow OpJumpDest) \<longleftrightarrow> b = 0x5b" for b
    using opcode_jumpdest_iff [of b] by (auto split: option.split)
  ultimately show ?thesis
    using True by (simp add: is_valid_jumpdest_def checked_as_u64_eq)
next
  case False
  with len inst_start_less [of "code_bytes c" "unat d"] have "\<not> inst_start (code_bytes c) (unat d)"
    by auto
  with False show ?thesis by (simp add: is_valid_jumpdest_def checked_as_u64_eq)
qed

interpretation plain: code_object keccak code_bytes code_hash is_valid_jumpdest "code_genuine keccak"
  for keccak
  by unfold_locales (auto simp: code_genuineD is_valid_jumpdest_iff)

text \<open>
  Jump destinations of a code object made by \<open>PlainCode::new\<close>: \<open>is_valid_jumpdest\<close> holds of a
  256-bit destination exactly when it is the position of an instruction of the code and the byte
  there is \<open>JUMPDEST\<close>; a \<open>0x5b\<close> inside push data and everything outside the code is refused.
\<close>

theorem is_valid_jumpdest_correct:
  assumes "length code < 2 ^ 64"
  shows "is_valid_jumpdest (PlainCode_new keccak code) d
    \<longleftrightarrow> inst_start code (unat d) \<and> code ! unat d = 0x5b"
proof -
  have "code_bytes (PlainCode_new keccak code) = code" by (simp add: PlainCode_new_def)
  with plain.dest_law [OF code_genuine_new, of keccak code d] assms show ?thesis by simp
qed

theorem is_valid_jumpdest_witness:
  "is_valid_jumpdest (PlainCode_new (\<lambda>_. 0) [0x60, 0x5b, 0x5b]) 2
   \<and> (is_valid_jumpdest (PlainCode_new (\<lambda>_. 0) [0x60, 0x5b, 0x5b]) 2
     \<longleftrightarrow> inst_start [0x60, 0x5b, 0x5b] (unat (2 :: u256)) \<and> [0x60, 0x5b, 0x5b :: u8] ! unat (2 :: u256) = 0x5b)
   \<and> \<not> is_valid_jumpdest (PlainCode_new (\<lambda>_. 0) [0x60, 0x5b, 0x5b]) 1"
proof -
  have "opcode_from_u8 0x5b = Some (OpFlow OpJumpDest)" by (simp only: opcode_jumpdest_iff)
  then have "is_valid_jumpdest (PlainCode_new (\<lambda>_. 0) [0x60, 0x5b, 0x5b]) 2"
    and "\<not> is_valid_jumpdest (PlainCode_new (\<lambda>_. 0) [0x60, 0x5b, 0x5b]) 1"
    by (simp_all add: is_valid_jumpdest_def checked_as_u64_eq is_opcode_def PlainCode_new_def
        gen_code_bitmap_def)
  then show ?thesis
    using is_valid_jumpdest_correct [of "[0x60, 0x5b, 0x5b]" "\<lambda>_. 0" 2] by simp
qed

end
