(* ===== verification/WorldState.thy ===== *)
theory WorldState
  imports PlainCode
begin

text \<open>
  The world state: the traits \<open>WorldStateR\<close>, \<open>WorldStateW\<close> and \<open>WorldState\<close> of
  \<open>src/src/core/mod.rs\<close> and the functions every implementation inherits from \<open>Transferable\<close> and
  \<open>WorldStateExtra\<close> of \<open>src/src/core/exec.rs\<close>.

  \<^item> \<open>world\<close> is what a reader of the state can see: the methods of \<open>WorldStateR\<close>. A shared reader
    (\<open>Arc<dyn WorldStateR>\<close>) is a value of this type. It is also the abstract specification of a state.
  \<^item> \<open>'s world_state\<close> is the dictionary of the methods of an implementation with state type \<open>'s\<close>.
    The asynchronous reads are functions (a sequential execution awaits each of them); \<open>add_log\<close> is
    \<open>None\<close> where it panics; \<open>snapshot\<close> takes \<open>&self\<close> but may convert the state in place (interior
    mutability), so it returns the state it leaves and the snapshot.
  \<^item> the locale \<open>world_state\<close> states what the interpreter relies on: each write changes the visible
    world as its specification says, a snapshot sees the same world and is not affected by later
    writes, and a rollback restores it.
\<close>

record world =
  w_state :: "addr \<Rightarrow> hash \<Rightarrow> u256"
  w_balance :: "addr \<Rightarrow> wei"
  w_code :: "addr \<Rightarrow> plain_code"
  w_nonce :: "addr \<Rightarrow> nat"
  w_exist :: "addr \<Rightarrow> bool"

record 's world_state =
  ws_get_state :: "'s \<Rightarrow> addr \<Rightarrow> hash \<Rightarrow> u256"
  ws_get_balance :: "'s \<Rightarrow> addr \<Rightarrow> wei"
  ws_get_code :: "'s \<Rightarrow> addr \<Rightarrow> plain_code"
  ws_get_nonce :: "'s \<Rightarrow> addr \<Rightarrow> nat"
  ws_exist :: "'s \<Rightarrow> addr \<Rightarrow> bool"
  ws_set_state :: "addr \<Rightarrow> hash \<Rightarrow> u256 \<Rightarrow> 's \<Rightarrow> 's"
  ws_set_balance :: "addr \<Rightarrow> wei \<Rightarrow> 's \<Rightarrow> 's"
  ws_set_code :: "addr \<Rightarrow> bytes \<Rightarrow> 's \<Rightarrow> 's"
  ws_set_nonce :: "addr \<Rightarrow> nat \<Rightarrow> 's \<Rightarrow> 's"
  ws_create_account :: "addr \<Rightarrow> 's \<Rightarrow> 's"
  ws_delete_account :: "addr \<Rightarrow> 's \<Rightarrow> 's"
  ws_add_log :: "addr \<Rightarrow> hash list \<Rightarrow> bytes \<Rightarrow> u256 \<Rightarrow> 's \<Rightarrow> 's option"
  ws_snapshot :: "'s \<Rightarrow> 's \<times> 's"
  ws_rollback :: "'s \<Rightarrow> 's \<Rightarrow> 's"

section \<open>Transferable and WorldStateExtra\<close>

text \<open>A result \<open>Option<()>\<close> is a \<open>bool\<close>; an early return keeps the writes made before it.\<close>

definition add_balance :: "('s, 'z) world_state_scheme \<Rightarrow> addr \<Rightarrow> wei \<Rightarrow> 's \<Rightarrow> bool \<times> 's" where
  "add_balance ws addr val s =
     (case wei_checked_add (ws_get_balance ws s addr) val of
        None \<Rightarrow> (False, s)
      | Some b \<Rightarrow> (True, ws_set_balance ws addr b s))"

definition sub_balance :: "('s, 'z) world_state_scheme \<Rightarrow> addr \<Rightarrow> wei \<Rightarrow> 's \<Rightarrow> bool \<times> 's" where
  "sub_balance ws addr val s =
     (case wei_checked_sub (ws_get_balance ws s addr) val of
        None \<Rightarrow> (False, s)
      | Some b \<Rightarrow> (True, ws_set_balance ws addr b s))"

definition transfer_balance ::
  "('s, 'z) world_state_scheme \<Rightarrow> addr \<Rightarrow> addr \<Rightarrow> wei \<Rightarrow> 's \<Rightarrow> bool \<times> 's" where
  "transfer_balance ws src dst val s =
     (case sub_balance ws src val s of
        (False, t) \<Rightarrow> (False, t)
      | (True, t) \<Rightarrow> add_balance ws dst val t)"

definition is_empty :: "(bytes \<Rightarrow> hash) \<Rightarrow> ('s, 'z) world_state_scheme \<Rightarrow> 's \<Rightarrow> addr \<Rightarrow> bool" where
  "is_empty keccak ws s contract \<longleftrightarrow>
     ws_get_nonce ws s contract = 0 \<and> ws_get_balance ws s contract = 0 \<and>
     code_hash (ws_get_code ws s contract) = keccak []"

section \<open>The abstract world\<close>

definition view :: "('s, 'z) world_state_scheme \<Rightarrow> 's \<Rightarrow> world" where
  "view ws s = \<lparr>w_state = ws_get_state ws s, w_balance = ws_get_balance ws s, w_code = ws_get_code ws s,
     w_nonce = ws_get_nonce ws s, w_exist = ws_exist ws s\<rparr>"

lemma view_sel [simp]:
  "w_state (view ws s) = ws_get_state ws s"
  "w_balance (view ws s) = ws_get_balance ws s"
  "w_code (view ws s) = ws_get_code ws s"
  "w_nonce (view ws s) = ws_get_nonce ws s"
  "w_exist (view ws s) = ws_exist ws s"
  by (simp_all add: view_def)

definition world_set_state :: "addr \<Rightarrow> hash \<Rightarrow> u256 \<Rightarrow> world \<Rightarrow> world" where
  "world_set_state a k v w =
     w\<lparr>w_state := (w_state w)(a := (w_state w a)(k := v)), w_exist := (w_exist w)(a := True)\<rparr>"

definition world_set_balance :: "addr \<Rightarrow> wei \<Rightarrow> world \<Rightarrow> world" where
  "world_set_balance a v w = w\<lparr>w_balance := (w_balance w)(a := v), w_exist := (w_exist w)(a := True)\<rparr>"

definition world_set_code :: "(bytes \<Rightarrow> hash) \<Rightarrow> addr \<Rightarrow> bytes \<Rightarrow> world \<Rightarrow> world" where
  "world_set_code keccak a c w =
     w\<lparr>w_code := (w_code w)(a := PlainCode_new keccak c), w_exist := (w_exist w)(a := True)\<rparr>"

definition world_set_nonce :: "addr \<Rightarrow> nat \<Rightarrow> world \<Rightarrow> world" where
  "world_set_nonce a n w = w\<lparr>w_nonce := (w_nonce w)(a := n), w_exist := (w_exist w)(a := True)\<rparr>"

text \<open>
  The journal of a client: writes, snapshots and rollbacks in any order. Snapshots nest; a rollback
  goes back to the latest one (and uses it up). \<open>ws_step\<close> runs a step on an implementation,
  \<open>world_step\<close> on the abstract world.
\<close>

datatype ws_op = WSetState addr hash u256 | WSetBalance addr wei | WSetCode addr bytes
  | WSetNonce addr nat | WSnapshot | WRollback

fun ws_step :: "('s, 'z) world_state_scheme \<Rightarrow> ws_op \<Rightarrow> 's \<times> 's list \<Rightarrow> 's \<times> 's list" where
  "ws_step ws (WSetState a k v) (s, ss) = (ws_set_state ws a k v s, ss)"
| "ws_step ws (WSetBalance a b) (s, ss) = (ws_set_balance ws a b s, ss)"
| "ws_step ws (WSetCode a c) (s, ss) = (ws_set_code ws a c s, ss)"
| "ws_step ws (WSetNonce a n) (s, ss) = (ws_set_nonce ws a n s, ss)"
| "ws_step ws WSnapshot (s, ss) = (case ws_snapshot ws s of (t, u) \<Rightarrow> (t, u # ss))"
| "ws_step ws WRollback (s, []) = (s, [])"
| "ws_step ws WRollback (s, u # ss) = (ws_rollback ws u s, ss)"

fun world_step :: "(bytes \<Rightarrow> hash) \<Rightarrow> ws_op \<Rightarrow> world \<times> world list \<Rightarrow> world \<times> world list" where
  "world_step keccak (WSetState a k v) (w, saved) = (world_set_state a k v w, saved)"
| "world_step keccak (WSetBalance a b) (w, saved) = (world_set_balance a b w, saved)"
| "world_step keccak (WSetCode a c) (w, saved) = (world_set_code keccak a c w, saved)"
| "world_step keccak (WSetNonce a n) (w, saved) = (world_set_nonce a n w, saved)"
| "world_step keccak WSnapshot (w, saved) = (w, w # saved)"
| "world_step keccak WRollback (w, []) = (w, [])"
| "world_step keccak WRollback (w, u # saved) = (u, saved)"

text \<open>The sum of all balances.\<close>

definition total_supply :: "world \<Rightarrow> nat" where
  "total_supply w = (\<Sum>a \<in> UNIV. unat (w_balance w a))"

lemmas world_set_defs =
  world_set_state_def world_set_balance_def world_set_code_def world_set_nonce_def

lemma total_supply_set_balance:
  "total_supply (world_set_balance a v w) + unat (w_balance w a) = total_supply w + unat v"
proof -
  have "total_supply w = unat (w_balance w a) + (\<Sum>b \<in> UNIV - {a}. unat (w_balance w b))"
    unfolding total_supply_def by (rule sum.remove) simp_all
  moreover have "total_supply (world_set_balance a v w) = unat v + (\<Sum>b \<in> UNIV - {a}. unat (w_balance w b))"
    unfolding total_supply_def by (subst sum.remove [of _ a]) (auto simp: world_set_balance_def)
  ultimately show ?thesis by simp
qed

section \<open>The contract\<close>

locale world_state =
  fixes keccak :: "bytes \<Rightarrow> hash"
    and ws :: "('s, 'z) world_state_scheme"
    and ok :: "'s \<Rightarrow> bool"
  assumes set_state_law: "ok s \<Longrightarrow>
      ok (ws_set_state ws a k v s) \<and> view ws (ws_set_state ws a k v s) = world_set_state a k v (view ws s)"
    and set_balance_law: "ok s \<Longrightarrow>
      ok (ws_set_balance ws a b s) \<and> view ws (ws_set_balance ws a b s) = world_set_balance a b (view ws s)"
    and set_code_law: "ok s \<Longrightarrow>
      ok (ws_set_code ws a c s) \<and> view ws (ws_set_code ws a c s) = world_set_code keccak a c (view ws s)"
    and set_nonce_law: "ok s \<Longrightarrow>
      ok (ws_set_nonce ws a n s) \<and> view ws (ws_set_nonce ws a n s) = world_set_nonce a n (view ws s)"
    and create_account_law: "ok s \<Longrightarrow>
      ok (ws_create_account ws a s)
      \<and> w_balance (view ws (ws_create_account ws a s)) = w_balance (view ws s)
      \<and> w_code (view ws (ws_create_account ws a s)) = (w_code (view ws s))(a := PlainCode_new keccak [])
      \<and> w_nonce (view ws (ws_create_account ws a s)) = (w_nonce (view ws s))(a := 0)
      \<and> w_exist (view ws (ws_create_account ws a s)) = (w_exist (view ws s))(a := True)"
    and snapshot_law: "ok s \<Longrightarrow> ws_snapshot ws s = (t, u) \<Longrightarrow>
      ok t \<and> ok u \<and> view ws t = view ws s \<and> view ws u = view ws s"
    and rollback_law: "ok u \<Longrightarrow> ok (ws_rollback ws u s) \<and> view ws (ws_rollback ws u s) = view ws u"
begin

lemma read_after_write:
  assumes "ok s"
  shows "ws_get_state ws (ws_set_state ws a k v s) = (ws_get_state ws s)(a := (ws_get_state ws s a)(k := v))"
    and "ws_get_balance ws (ws_set_balance ws a b s) = (ws_get_balance ws s)(a := b)"
    and "ws_get_code ws (ws_set_code ws a c s) = (ws_get_code ws s)(a := PlainCode_new keccak c)"
    and "ws_get_nonce ws (ws_set_nonce ws a n s) = (ws_get_nonce ws s)(a := n)"
  using assms set_state_law [of s a k v] set_balance_law [of s a b] set_code_law [of s a c]
    set_nonce_law [of s a n]
  by (simp_all add: world_set_defs flip: view_sel)

lemma add_balance_view:
  assumes "ok s" and "add_balance ws a v s = (r, t)"
  shows "ok t \<and> (if r then unat (ws_get_balance ws s a) + unat v < 2 ^ 256
                     \<and> view ws t = world_set_balance a (ws_get_balance ws s a + v) (view ws s)
             else t = s \<and> 2 ^ 256 \<le> unat (ws_get_balance ws s a) + unat v)"
  using assms set_balance_law
  by (auto simp: add_balance_def wei_checked_add_def split: option.splits if_splits)

lemma sub_balance_view:
  assumes "ok s" and "sub_balance ws a v s = (r, t)"
  shows "ok t \<and> (if r then v \<le> ws_get_balance ws s a
                     \<and> view ws t = world_set_balance a (ws_get_balance ws s a - v) (view ws s)
             else t = s \<and> ws_get_balance ws s a < v)"
  using assms set_balance_law
  by (auto simp: sub_balance_def wei_checked_sub_def split: option.splits if_splits)

lemma transfer_balance_supply:
  assumes s: "ok s" and tr: "transfer_balance ws src dst v s = (True, t)"
  shows "ok t \<and> v \<le> ws_get_balance ws s src \<and> total_supply (view ws t) = total_supply (view ws s)"
proof -
  obtain u where u: "sub_balance ws src v s = (True, u)" and t: "add_balance ws dst v u = (True, t)"
    using tr by (auto simp: transfer_balance_def split: prod.splits bool.splits)
  let ?b = "ws_get_balance ws s src" and ?c = "ws_get_balance ws u dst"
  have 1: "ok u" "v \<le> ?b" "view ws u = world_set_balance src (?b - v) (view ws s)"
    using sub_balance_view [OF s u] by simp_all
  have 2: "ok t" "unat ?c + unat v < 2 ^ 256" "view ws t = world_set_balance dst (?c + v) (view ws u)"
    using add_balance_view [OF 1(1) t] by simp_all
  have "unat (?b - v) + unat v = unat ?b" using 1(2) by (simp add: unat_sub word_le_nat_alt)
  moreover have "unat (?c + v) = unat ?c + unat v" using 2(2) by (simp add: unat_word_ariths)
  moreover have "total_supply (view ws u) + unat ?b = total_supply (view ws s) + unat (?b - v)"
    using total_supply_set_balance [of src "?b - v" "view ws s"] by (simp flip: 1(3))
  moreover have "total_supply (view ws t) + unat ?c = total_supply (view ws u) + unat (?c + v)"
    using total_supply_set_balance [of dst "?c + v" "view ws u"] by (simp flip: 2(3))
  ultimately have "total_supply (view ws t) = total_supply (view ws s)" by linarith
  with 1 2 show ?thesis by simp
qed

lemma transfer_balance_fails:
  assumes s: "ok s" and tr: "transfer_balance ws src dst v s = (False, t)"
  shows "ok t \<and> (ws_get_balance ws s src < v \<and> t = s
    \<or> 2 ^ 256 \<le> unat (ws_get_balance ws t dst) + unat v)"
proof (cases "sub_balance ws src v s")
  case (Pair r u)
  note sub = sub_balance_view [OF s Pair]
  show ?thesis
  proof (cases r)
    case False
    with tr Pair sub s show ?thesis by (simp add: transfer_balance_def)
  next
    case True
    with tr Pair have "add_balance ws dst v u = (False, t)" by (simp add: transfer_balance_def)
    with add_balance_view [of u dst v False t] sub True show ?thesis by simp
  qed
qed

text \<open>A snapshot is not affected by what happens to the state it was taken from.\<close>

lemma rollback_restores:
  assumes "ok s" and "ws_snapshot ws s = (t, u)"
  shows "view ws (ws_rollback ws u s') = view ws s"
  using assms snapshot_law rollback_law by metis

definition abs_states :: "'s \<times> 's list \<Rightarrow> world \<times> world list" where
  "abs_states = map_prod (view ws) (map (view ws))"

lemma ws_step_simulates:
  assumes "ok s" and "list_all ok ss"
  shows "abs_states (ws_step ws op (s, ss)) = world_step keccak op (abs_states (s, ss))
    \<and> ok (fst (ws_step ws op (s, ss))) \<and> list_all ok (snd (ws_step ws op (s, ss)))"
proof (cases op)
  case WRollback
  with assms rollback_law show ?thesis by (cases ss) (auto simp: abs_states_def)
next
  case WSnapshot
  obtain t u where "ws_snapshot ws s = (t, u)" by fastforce
  with WSnapshot assms snapshot_law [OF assms(1)] show ?thesis by (simp add: abs_states_def)
qed (use assms set_state_law set_balance_law set_code_law set_nonce_law in \<open>simp_all add: abs_states_def\<close>)

lemma ws_run_simulates:
  assumes "ok s" and "list_all ok ss"
  shows "abs_states (fold (ws_step ws) ops (s, ss)) = fold (world_step keccak) ops (abs_states (s, ss))"
  using assms
proof (induction ops arbitrary: s ss)
  case (Cons op ops)
  then show ?case using ws_step_simulates [OF Cons.prems, of op]
    by (cases "ws_step ws op (s, ss)") simp
qed simp

lemma ws_run_view:
  "ok s \<Longrightarrow> view ws (fst (fold (ws_step ws) ops (s, []))) = fst (fold (world_step keccak) ops (view ws s, []))"
  using ws_run_simulates [of s "[]" ops] by (simp add: abs_states_def map_prod_def prod_eq_iff case_prod_beta)

end

text \<open>
  An implementation whose accounts can be created afresh and deleted: creation clears the storage,
  deletion makes the account invisible.
\<close>

locale full_world_state = world_state +
  assumes create_storage_law: "ok s \<Longrightarrow>
      w_state (view ws (ws_create_account ws a s)) = (w_state (view ws s))(a := (\<lambda>_. 0))"
    and delete_account_law: "ok s \<Longrightarrow> ok (ws_delete_account ws a s) \<and> view ws (ws_delete_account ws a s) =
      \<lparr>w_state = (w_state (view ws s))(a := (\<lambda>_. 0)), w_balance = (w_balance (view ws s))(a := 0),
       w_code = (w_code (view ws s))(a := PlainCode_new keccak []), w_nonce = (w_nonce (view ws s))(a := 0),
       w_exist = (w_exist (view ws s))(a := False)\<rparr>"
begin

lemma deleted_is_empty: "ok s \<Longrightarrow> is_empty keccak ws (ws_delete_account ws a s) a"
  using delete_account_law [of s a]
  by (simp add: is_empty_def PlainCode_new_def flip: view_sel)

lemma delete_supply:
  "ok s \<Longrightarrow> total_supply (view ws (ws_delete_account ws a s)) + unat (ws_get_balance ws s a)
     = total_supply (view ws s)"
  using delete_account_law [of s a] total_supply_set_balance [of a 0 "view ws s"]
  by (simp add: total_supply_def world_set_balance_def)

end

end
