(* ===== verification/CallFrame.thy ===== *)
theory CallFrame
  imports Alu EvmStack EvmMemory WorldState
begin

text \<open>
  Call frames, \<open>src/src/core/call.rs\<close>, with the kinds of a call of \<open>src/src/core/exec.rs\<close>: one
  definition per method of \<open>CallFrame\<close>. A frame is polymorphic in the world state \<open>'s\<close>, of which it
  keeps snapshots. The macros \<open>make_unary_op\<close>, \<open>make_binary_op\<close> and \<open>make_ternary_op\<close> are
  definitions with the function and the gas as parameters.
\<close>

datatype tx_aux = Sender addr | Contract addr

record 's tx_args =
  txa_snapshot :: 's
  txa_aux :: tx_aux

record 's call_args =
  ca_snapshot :: "'s option"
  ca_ret_off :: u256
  ca_ret_len :: u256

record 's create_args =
  cra_snapshot :: 's
  cra_contract_addr :: addr

datatype 's call_type = CallTx "'s tx_args" | CallCall "'s call_args" | CallCreate "'s create_args"

record 's call_frame =
  fr_pc :: nat
  fr_memory :: evm_memory
  fr_stack :: evm_stack
  fr_code :: plain_code
  fr_callee :: addr
  fr_caller :: addr
  fr_call_type :: "'s call_type"
  fr_input :: bytes
  fr_value :: wei
  fr_last_returned :: bytes
  fr_unused_gas :: gas
  fr_read_only :: bool
  fr_fork :: fork

definition frame_new ::
  "plain_code \<Rightarrow> bytes \<Rightarrow> wei \<Rightarrow> addr \<Rightarrow> addr \<Rightarrow> 's call_type \<Rightarrow> gas \<Rightarrow> bool \<Rightarrow> fork \<Rightarrow> 's call_frame" where
  "frame_new code input value callee caller call_type gas read_only fork =
     \<lparr>fr_pc = 0, fr_memory = memory_new, fr_stack = stack_new, fr_code = code, fr_callee = callee,
      fr_caller = caller, fr_call_type = call_type, fr_input = input, fr_value = value,
      fr_last_returned = [], fr_unused_gas = gas, fr_read_only = read_only, fr_fork = fork\<rparr>"

text \<open>Methods of the stack and of the memory of a frame.\<close>

definition on_stack :: "(evm_stack, 'a) exec \<Rightarrow> ('s call_frame, 'a) exec" where
  "on_stack = zoom fr_stack (\<lambda>st f. f\<lparr>fr_stack := st\<rparr>)"

definition on_memory :: "(evm_memory, 'a) exec \<Rightarrow> ('s call_frame, 'a) exec" where
  "on_memory = zoom fr_memory (\<lambda>m f. f\<lparr>fr_memory := m\<rparr>)"

definition use_gas :: "gas \<Rightarrow> ('s call_frame, unit) exec" where
  "use_gas gas =
     bind (gets fr_unused_gas) (\<lambda>unused_gas.
     if unused_gas < gas then throw OutOfGas
     else modify (\<lambda>f. f\<lparr>fr_unused_gas := unused_gas - gas\<rparr>))"

section \<open>Arithmetic\<close>

definition make_unary_op :: "(u256 \<Rightarrow> u256) \<Rightarrow> gas \<Rightarrow> ('s call_frame, unit) exec" where
  "make_unary_op alu gas =
     bind (on_stack stack_consume1) (\<lambda>a.
     bind (on_stack (stack_push (alu a))) (\<lambda>_.
     use_gas gas))"

definition make_binary_op :: "(u256 \<Rightarrow> u256 \<Rightarrow> u256) \<Rightarrow> gas \<Rightarrow> ('s call_frame, unit) exec" where
  "make_binary_op alu gas =
     bind (on_stack stack_consume2) (\<lambda>(a, b).
     bind (on_stack (stack_push (alu a b))) (\<lambda>_.
     use_gas gas))"

text \<open>The variant with a fork; the function may panic (\<open>None\<close>).\<close>

definition make_binary_op_fork ::
  "(u256 \<Rightarrow> u256 \<Rightarrow> u256 option) \<Rightarrow> gas \<Rightarrow> fork \<Rightarrow> ('s call_frame, unit) exec" where
  "make_binary_op_fork alu gas fork =
     bind (gets fr_fork) (\<lambda>f.
     if f < fork then throw InvalidOpcode
     else bind (on_stack stack_consume2) (\<lambda>(a, b).
          bind (unwrap (alu a b)) (\<lambda>r.
          bind (on_stack (stack_push r)) (\<lambda>_.
          use_gas gas))))"

definition make_ternary_op :: "(u256 \<Rightarrow> u256 \<Rightarrow> u256 \<Rightarrow> u256) \<Rightarrow> gas \<Rightarrow> ('s call_frame, unit) exec" where
  "make_ternary_op alu gas =
     bind (on_stack stack_consume3) (\<lambda>(a, b, c).
     bind (on_stack (stack_push (alu a b c))) (\<lambda>_.
     use_gas gas))"

definition frame_add :: "('s call_frame, unit) exec" where
  "frame_add = make_binary_op alu_add GAS_FASTEST"

definition frame_mul :: "('s call_frame, unit) exec" where
  "frame_mul = make_binary_op alu_mul GAS_FAST"

definition frame_sub :: "('s call_frame, unit) exec" where
  "frame_sub = make_binary_op alu_sub GAS_FASTEST"

definition frame_div :: "('s call_frame, unit) exec" where
  "frame_div = make_binary_op alu_div GAS_FAST"

definition frame_sdiv :: "('s call_frame, unit) exec" where
  "frame_sdiv = make_binary_op alu_sdiv GAS_FAST"

definition frame_rem :: "('s call_frame, unit) exec" where
  "frame_rem = make_binary_op alu_rem GAS_FAST"

definition frame_smod :: "('s call_frame, unit) exec" where
  "frame_smod = make_binary_op alu_smod GAS_FAST"

definition frame_add_mod :: "('s call_frame, unit) exec" where
  "frame_add_mod = make_ternary_op alu_add_mod GAS_MID"

definition frame_mul_mod :: "('s call_frame, unit) exec" where
  "frame_mul_mod = make_ternary_op alu_mul_mod GAS_MID"

definition frame_exp :: "('s call_frame, unit) exec" where
  "frame_exp =
     bind (on_stack stack_consume2) (\<lambda>(a, b).
     bind (on_stack (stack_push (alu_exp a b))) (\<lambda>_.
     bind (gets fr_fork) (\<lambda>fork.
     bind (gas_checked_mul
            (if fork \<ge> SpuriousDragon then GAS_EXP_BYTE_SPURIOUS_DRAGON else GAS_EXP_BYTE_FRONTIER)
            ((u256_bits b + 7) div 8)) use_gas)))"

definition frame_sign_extend :: "('s call_frame, unit) exec" where
  "frame_sign_extend = make_binary_op alu_sign_extend GAS_FAST"

definition frame_lt :: "('s call_frame, unit) exec" where
  "frame_lt = make_binary_op alu_lt GAS_FASTEST"

definition frame_gt :: "('s call_frame, unit) exec" where
  "frame_gt = make_binary_op alu_gt GAS_FASTEST"

definition frame_slt :: "('s call_frame, unit) exec" where
  "frame_slt = make_binary_op alu_slt GAS_FASTEST"

definition frame_sgt :: "('s call_frame, unit) exec" where
  "frame_sgt = make_binary_op alu_sgt GAS_FASTEST"

definition frame_eq :: "('s call_frame, unit) exec" where
  "frame_eq = make_binary_op alu_eq GAS_FASTEST"

definition frame_is_zero :: "('s call_frame, unit) exec" where
  "frame_is_zero = make_unary_op alu_is_zero GAS_FASTEST"

definition frame_and :: "('s call_frame, unit) exec" where
  "frame_and = make_binary_op alu_and GAS_FASTEST"

definition frame_or :: "('s call_frame, unit) exec" where
  "frame_or = make_binary_op alu_or GAS_FASTEST"

definition frame_xor :: "('s call_frame, unit) exec" where
  "frame_xor = make_binary_op alu_xor GAS_FASTEST"

definition frame_not :: "('s call_frame, unit) exec" where
  "frame_not = make_unary_op alu_not GAS_FASTEST"

definition frame_byte :: "('s call_frame, unit) exec" where
  "frame_byte = make_binary_op alu_byte GAS_FASTEST"

definition frame_shl :: "('s call_frame, unit) exec" where
  "frame_shl = make_binary_op_fork (\<lambda>a b. Some (alu_shl a b)) GAS_FASTEST Constantinople"

definition frame_shr :: "('s call_frame, unit) exec" where
  "frame_shr = make_binary_op_fork alu_shr GAS_FASTEST Constantinople"

definition frame_sar :: "('s call_frame, unit) exec" where
  "frame_sar = make_binary_op_fork (\<lambda>a b. Some (alu_sar a b)) GAS_FASTEST Constantinople"

section \<open>Hashing, environment and data\<close>

definition frame_sha3 :: "(bytes \<Rightarrow> hash) \<Rightarrow> ('s call_frame, unit) exec" where
  "frame_sha3 keccak =
     bind (use_gas GAS_SHA3) (\<lambda>_.
     bind (on_stack stack_consume2) (\<lambda>(off, len).
     bind (on_memory (memory_get_slice off len)) (\<lambda>(data, gas).
     bind (on_stack (stack_push (from_big_endian (hash_as_bytes (keccak data))))) (\<lambda>_.
     bind (gas_checked_mul (to_word_size (low_u64 len)) GAS_SHA3_WORD) (\<lambda>word_gas.
     bind (use_gas word_gas) (\<lambda>_.
     use_gas gas))))))"

text \<open>\<open>use_gas(GAS_QUICK)?; stack.push(..)\<close> of a value of the frame.\<close>

definition push_quick :: "('s call_frame \<Rightarrow> u256) \<Rightarrow> ('s call_frame, unit) exec" where
  "push_quick val =
     bind (use_gas GAS_QUICK) (\<lambda>_.
     bind (gets val) (\<lambda>v. on_stack (stack_push v)))"

definition frame_addr :: "('s call_frame, unit) exec" where
  "frame_addr = push_quick (\<lambda>f. u256_of_addr (fr_callee f))"

definition frame_caller :: "('s call_frame, unit) exec" where
  "frame_caller = push_quick (\<lambda>f. u256_of_addr (fr_caller f))"

definition frame_call_value :: "('s call_frame, unit) exec" where
  "frame_call_value = push_quick fr_value"

definition frame_call_data_load :: "('s call_frame, unit) exec" where
  "frame_call_data_load =
     bind (use_gas GAS_FASTEST) (\<lambda>_.
     bind (on_stack stack_consume1) (\<lambda>off.
     bind (gets fr_input) (\<lambda>input.
     bind (case checked_as_u64 off of
             Some off \<Rightarrow> bind (get_data input off 32) (\<lambda>data. ret (from_big_endian data))
           | None \<Rightarrow> ret 0) (\<lambda>data.
     on_stack (stack_push data)))))"

definition frame_call_data_size :: "('s call_frame, unit) exec" where
  "frame_call_data_size = push_quick (\<lambda>f. word_of_nat (length (fr_input f)))"

definition frame_code_size :: "('s call_frame, unit) exec" where
  "frame_code_size = push_quick (\<lambda>f. word_of_nat (length (code_bytes (fr_code f))))"

text \<open>\<open>checked_as_u64(&off).unwrap_or(u64::MAX)\<close>.\<close>

definition saturating_u64 :: "u256 \<Rightarrow> nat" where
  "saturating_u64 off = (case checked_as_u64 off of Some off \<Rightarrow> off | None \<Rightarrow> 2 ^ 64 - 1)"

definition frame_code_copy :: "('s call_frame, unit) exec" where
  "frame_code_copy =
     bind (use_gas GAS_FASTEST) (\<lambda>_.
     bind (on_stack stack_consume3) (\<lambda>(mem_off, code_off, len).
     bind (on_memory (memory_get_slice_mut mem_off len)) (\<lambda>(mem, gas).
     let len = low_u64 len; code_off = saturating_u64 code_off
     in bind (gets fr_code) (\<lambda>code.
        bind (get_data (code_bytes code) code_off len) (\<lambda>data.
        bind (on_memory (memory_copy_from_slice mem data)) (\<lambda>_.
        bind (gas_checked_mul (to_word_size len) GAS_COPY_WORD) (\<lambda>word_gas.
        bind (use_gas word_gas) (\<lambda>_.
        use_gas gas))))))))"

definition frame_call_data_copy :: "('s call_frame, unit) exec" where
  "frame_call_data_copy =
     bind (use_gas GAS_FASTEST) (\<lambda>_.
     bind (on_stack stack_consume3) (\<lambda>(mem_off, data_off, len).
     bind (on_memory (memory_get_slice_mut mem_off len)) (\<lambda>(mem, gas).
     let len = low_u64 len; data_off = saturating_u64 data_off
     in bind (gets fr_input) (\<lambda>input.
        bind (get_data input data_off len) (\<lambda>data.
        bind (on_memory (memory_copy_from_slice mem data)) (\<lambda>_.
        bind (use_gas gas) (\<lambda>_.
        bind (gas_checked_mul (to_word_size len) GAS_COPY_WORD) use_gas)))))))"

definition frame_return_data_size :: "('s call_frame, unit) exec" where
  "frame_return_data_size =
     bind (gets fr_fork) (\<lambda>fork.
     if fork < Byzantium then throw InvalidOpcode
     else push_quick (\<lambda>f. word_of_nat (length (fr_last_returned f))))"

text \<open>\<open>&self.last_returned[data_off..end]\<close> panics when the bounds are not ordered.\<close>

definition frame_return_data_copy :: "('s call_frame, unit) exec" where
  "frame_return_data_copy =
     bind (gets fr_fork) (\<lambda>fork.
     if fork < Byzantium then throw InvalidOpcode
     else bind (use_gas GAS_FASTEST) (\<lambda>_.
          bind (on_stack stack_consume3) (\<lambda>(mem_off, data_off, len).
          bind (ok_or ReturnDataOutOfBounds (checked_as_u64 (fst (overflowing_add data_off len)))) (\<lambda>end'.
          bind (gets fr_last_returned) (\<lambda>last_returned.
          if end' > length last_returned then throw ReturnDataOutOfBounds
          else bind (ok_or ReturnDataOutOfBounds (checked_as_u64 data_off)) (\<lambda>data_off.
               bind (on_memory (memory_get_slice_mut mem_off len)) (\<lambda>(mem, gas).
               bind (if data_off \<le> end' then ret (take (end' - data_off) (drop data_off last_returned))
                     else panic) (\<lambda>data.
               bind (on_memory (memory_copy_from_slice mem data)) (\<lambda>_.
               bind (use_gas gas) (\<lambda>_.
               bind (gas_checked_mul (to_word_size (low_u64 len)) GAS_COPY_WORD) use_gas))))))))))"

section \<open>Stack and memory\<close>

definition frame_pop :: "('s call_frame, unit) exec" where
  "frame_pop =
     bind (use_gas GAS_QUICK) (\<lambda>_.
     bind (on_stack stack_consume1) (\<lambda>_. ret ()))"

definition frame_mload :: "('s call_frame, unit) exec" where
  "frame_mload =
     bind (use_gas GAS_FASTEST) (\<lambda>_.
     bind (on_stack stack_consume1) (\<lambda>off.
     bind (on_memory (memory_get_slice off 32)) (\<lambda>(mem, gas).
     bind (on_stack (stack_push (from_big_endian mem))) (\<lambda>_.
     use_gas gas))))"

definition frame_mstore :: "('s call_frame, unit) exec" where
  "frame_mstore =
     bind (use_gas GAS_FASTEST) (\<lambda>_.
     bind (on_stack stack_consume2) (\<lambda>(off, val).
     bind (on_memory (memory_get_slice_mut off 32)) (\<lambda>(mem, gas).
     bind (on_memory (memory_copy_from_slice mem (to_big_endian val))) (\<lambda>_.
     use_gas gas))))"

definition frame_mstore8 :: "('s call_frame, unit) exec" where
  "frame_mstore8 =
     bind (use_gas GAS_FASTEST) (\<lambda>_.
     bind (on_stack stack_consume2) (\<lambda>(off, val).
     bind (on_memory (memory_get_slice_mut off 1)) (\<lambda>(mem, gas).
     bind (on_memory (memory_copy_from_slice mem [word_of_nat (low_u64 val)])) (\<lambda>_.
     use_gas gas))))"

definition frame_pc :: "('s call_frame, unit) exec" where
  "frame_pc = push_quick (\<lambda>f. word_of_nat (fr_pc f))"

definition frame_msize :: "('s call_frame, unit) exec" where
  "frame_msize = push_quick (\<lambda>f. word_of_nat (memory_len (fr_memory f)))"

definition frame_gas :: "('s call_frame, unit) exec" where
  "frame_gas = push_quick (\<lambda>f. word_of_nat (fr_unused_gas f))"

definition frame_push :: "bytes \<Rightarrow> ('s call_frame, unit) exec" where
  "frame_push data =
     bind (use_gas GAS_FASTEST) (\<lambda>_.
     if length data > 32 then panic
     else on_stack (stack_push (from_big_endian (replicate (32 - length data) 0 @ data))))"

definition frame_dup :: "nat \<Rightarrow> ('s call_frame, unit) exec" where
  "frame_dup pos =
     bind (use_gas GAS_FASTEST) (\<lambda>_. on_stack (stack_dup pos))"

definition frame_swap :: "nat \<Rightarrow> ('s call_frame, unit) exec" where
  "frame_swap pos =
     bind (use_gas GAS_FASTEST) (\<lambda>_. on_stack (stack_swap pos))"

section \<open>The arms of the interpreter's match that only touch the frame\<close>

primrec arith_arm :: "arith_op \<Rightarrow> ('s call_frame, unit) exec" where
  "arith_arm OpAdd = frame_add"
| "arith_arm OpMul = frame_mul"
| "arith_arm OpSub = frame_sub"
| "arith_arm OpDiv = frame_div"
| "arith_arm OpSDiv = frame_sdiv"
| "arith_arm OpMod = frame_rem"
| "arith_arm OpSMod = frame_smod"
| "arith_arm OpAddMod = frame_add_mod"
| "arith_arm OpMulMod = frame_mul_mod"
| "arith_arm OpExp = frame_exp"
| "arith_arm OpSignExtend = frame_sign_extend"

primrec logic_arm :: "logic_op \<Rightarrow> ('s call_frame, unit) exec" where
  "logic_arm OpLt = frame_lt"
| "logic_arm OpGt = frame_gt"
| "logic_arm OpSlt = frame_slt"
| "logic_arm OpSgt = frame_sgt"
| "logic_arm OpEql = frame_eq"
| "logic_arm OpIsZero = frame_is_zero"
| "logic_arm OpAnd = frame_and"
| "logic_arm OpOr = frame_or"
| "logic_arm OpXor = frame_xor"
| "logic_arm OpNot = frame_not"
| "logic_arm OpByte = frame_byte"
| "logic_arm OpShl = frame_shl"
| "logic_arm OpShr = frame_shr"
| "logic_arm OpSar = frame_sar"

text \<open>\<open>None\<close>: the arm is a method of the context.\<close>

definition env_frame_arm :: "env_op \<Rightarrow> ('s call_frame, unit) exec option" where
  "env_frame_arm op =
     (case op of
        OpAddr \<Rightarrow> Some frame_addr
      | OpCaller \<Rightarrow> Some frame_caller
      | OpCallValue \<Rightarrow> Some frame_call_value
      | OpCallDataLoad \<Rightarrow> Some frame_call_data_load
      | OpCallDataSize \<Rightarrow> Some frame_call_data_size
      | OpCallDataCopy \<Rightarrow> Some frame_call_data_copy
      | OpCodeSize \<Rightarrow> Some frame_code_size
      | OpCodeCopy \<Rightarrow> Some frame_code_copy
      | OpReturnDataSize \<Rightarrow> Some frame_return_data_size
      | OpReturnDataCopy \<Rightarrow> Some frame_return_data_copy
      | _ \<Rightarrow> None)"

definition flow_frame_arm :: "flow_op \<Rightarrow> ('s call_frame, unit) exec option" where
  "flow_frame_arm op =
     (case op of
        OpPop \<Rightarrow> Some frame_pop
      | OpMLoad \<Rightarrow> Some frame_mload
      | OpMStore \<Rightarrow> Some frame_mstore
      | OpMStore8 \<Rightarrow> Some frame_mstore8
      | OpPC \<Rightarrow> Some frame_pc
      | OpMSize \<Rightarrow> Some frame_msize
      | OpGas \<Rightarrow> Some frame_gas
      | OpJumpDest \<Rightarrow> Some (use_gas GAS_JUMPDEST)
      | _ \<Rightarrow> None)"

definition family_arm :: "family_op \<Rightarrow> bytes option \<Rightarrow> nat \<Rightarrow> ('s call_frame, unit) exec" where
  "family_arm op data pos =
     (case op of
        OpPush \<Rightarrow> bind (unwrap data) frame_push
      | OpDup \<Rightarrow> frame_dup pos
      | OpSwap \<Rightarrow> frame_swap pos)"

definition frame_arm ::
  "(bytes \<Rightarrow> hash) \<Rightarrow> opcode \<Rightarrow> bytes option \<Rightarrow> nat \<Rightarrow> ('s call_frame, unit) exec option" where
  "frame_arm keccak op data pos =
     (case op of
        OpArith a \<Rightarrow> Some (arith_arm a)
      | OpLogic l \<Rightarrow> Some (logic_arm l)
      | OpSha3 \<Rightarrow> Some (frame_sha3 keccak)
      | OpEnv e \<Rightarrow> env_frame_arm e
      | OpFlow f \<Rightarrow> flow_frame_arm f
      | OpFamily f \<Rightarrow> Some (family_arm f data pos)
      | _ \<Rightarrow> None)"

section \<open>What a frame instruction may change\<close>

definition frame_wf :: "'s call_frame \<Rightarrow> bool" where
  "frame_wf f \<longleftrightarrow> stack_wf (fr_stack f) \<and> memory_wf (fr_memory f)"

text \<open>
  The relation between the frames before and after an instruction: gas only shrinks, the invariant
  is kept, and everything but stack, memory and gas stays.
\<close>

definition frame_steps :: "'s call_frame \<Rightarrow> 's call_frame \<Rightarrow> bool" where
  "frame_steps f g \<longleftrightarrow>
     fr_unused_gas g \<le> fr_unused_gas f \<and> (frame_wf f \<longrightarrow> frame_wf g) \<and>
     g = f\<lparr>fr_stack := fr_stack g, fr_memory := fr_memory g, fr_unused_gas := fr_unused_gas g\<rparr>"

lemma frame_steps_refl: "frame_steps f f"
  by (simp add: frame_steps_def)

lemma frame_steps_trans: "frame_steps f g \<Longrightarrow> frame_steps g h \<Longrightarrow> frame_steps f h"
  unfolding frame_steps_def by (cases f, cases g, cases h) auto

interpretation fstep: run_rel frame_steps
  by unfold_locales (fact frame_steps_refl, fact frame_steps_trans)

lemma on_stack_steps: "pres (keeps stack_wf) m \<Longrightarrow> pres frame_steps (on_stack m)"
  unfolding on_stack_def
  by (erule pres_zoom) (simp add: frame_steps_def frame_wf_def keeps_def)

lemma on_memory_steps: "pres (keeps memory_wf) m \<Longrightarrow> pres frame_steps (on_memory m)"
  unfolding on_memory_def
  by (erule pres_zoom) (simp add: frame_steps_def frame_wf_def keeps_def)

lemma use_gas_eq:
  "use_gas g f = (if fr_unused_gas f < g then Err OutOfGas f
     else Ok () (f\<lparr>fr_unused_gas := fr_unused_gas f - g\<rparr>))"
  by (simp add: use_gas_def exec_defs)

lemma use_gas_steps: "pres frame_steps (use_gas g)"
  by (simp add: pres_def use_gas_eq frame_steps_def frame_wf_def)

lemma get_data_steps: "pres frame_steps (get_data src off len)"
  unfolding get_data_def by (intro fstep.pres_rules)

lemma gas_checked_mul_steps: "pres frame_steps (gas_checked_mul x y)"
  unfolding gas_checked_mul_def by (intro fstep.pres_rules)

lemmas frame_rules = fstep.pres_rules use_gas_steps get_data_steps gas_checked_mul_steps
  on_stack_steps [OF stack_ops_wf(1)] on_stack_steps [OF stack_ops_wf(2)] on_stack_steps [OF stack_ops_wf(3)]
  on_stack_steps [OF stack_ops_wf(4)] on_stack_steps [OF stack_ops_wf(5)] on_stack_steps [OF stack_ops_wf(6)]
  on_stack_steps [OF stack_ops_wf(7)]
  on_memory_steps [OF memory_get_slice_wf] on_memory_steps [OF memory_get_slice_mut_wf]
  on_memory_steps [OF memory_copy_wf]

lemma make_op_steps:
  "pres frame_steps (make_unary_op f1 g)" "pres frame_steps (make_binary_op f2 g)"
  "pres frame_steps (make_binary_op_fork fo g k)" "pres frame_steps (make_ternary_op f3 g)"
  "pres frame_steps (push_quick v)"
  unfolding make_unary_op_def make_binary_op_def make_binary_op_fork_def make_ternary_op_def push_quick_def
  by (intro frame_rules)+

lemma frame_exp_steps: "pres frame_steps frame_exp"
  unfolding frame_exp_def by (intro frame_rules)

lemma arith_arm_steps: "pres frame_steps (arith_arm op)"
  by (cases op) (simp_all add: make_op_steps frame_exp_steps frame_add_def frame_mul_def frame_sub_def
      frame_div_def frame_sdiv_def frame_rem_def frame_smod_def frame_add_mod_def frame_mul_mod_def
      frame_sign_extend_def)

lemma logic_arm_steps: "pres frame_steps (logic_arm op)"
  by (cases op) (simp_all add: make_op_steps frame_lt_def frame_gt_def frame_slt_def frame_sgt_def
      frame_eq_def frame_is_zero_def frame_and_def frame_or_def frame_xor_def frame_not_def
      frame_byte_def frame_shl_def frame_shr_def frame_sar_def)

lemma data_arm_steps:
  "pres frame_steps (frame_sha3 keccak)" "pres frame_steps frame_call_data_load"
  "pres frame_steps frame_call_data_copy" "pres frame_steps frame_code_copy"
  "pres frame_steps frame_return_data_size" "pres frame_steps frame_return_data_copy"
  unfolding frame_sha3_def frame_call_data_load_def frame_call_data_copy_def frame_code_copy_def
    frame_return_data_size_def frame_return_data_copy_def
  by (intro frame_rules make_op_steps)+

lemma memory_arm_steps:
  "pres frame_steps frame_pop" "pres frame_steps frame_mload" "pres frame_steps frame_mstore"
  "pres frame_steps frame_mstore8" "pres frame_steps (frame_push data)" "pres frame_steps (frame_dup pos)"
  "pres frame_steps (frame_swap pos)"
  unfolding frame_pop_def frame_mload_def frame_mstore_def frame_mstore8_def frame_push_def
    frame_dup_def frame_swap_def
  by (intro frame_rules)+

lemma env_frame_arm_steps: "env_frame_arm op = Some m \<Longrightarrow> pres frame_steps m"
  by (cases op) (auto simp: env_frame_arm_def data_arm_steps make_op_steps frame_addr_def frame_caller_def
      frame_call_value_def frame_call_data_size_def frame_code_size_def)

lemma flow_frame_arm_steps: "flow_frame_arm op = Some m \<Longrightarrow> pres frame_steps m"
  by (cases op) (auto simp: flow_frame_arm_def memory_arm_steps make_op_steps use_gas_steps
      frame_pc_def frame_msize_def frame_gas_def)

lemma family_arm_steps: "pres frame_steps (family_arm op data pos)"
  by (cases op) (auto simp: family_arm_def intro!: frame_rules memory_arm_steps)

text \<open>
  C40. The instructions that only touch the frame: whatever they return (a value or an error), they
  never give gas back, they keep the stack bound and the memory invariant, and they change nothing of
  the frame but its stack, its memory and its gas: neither the program counter, the code, the
  addresses, the input and the value of the call, the returned data nor the read-only flag.
\<close>

theorem frame_arm_steps:
  assumes "frame_arm keccak op data pos = Some m"
  shows "pres frame_steps m"
  using assms arith_arm_steps logic_arm_steps data_arm_steps(1) family_arm_steps
    env_frame_arm_steps flow_frame_arm_steps
  by (cases op) (auto simp: frame_arm_def)

theorem frame_arm_steps_witness:
  "frame_arm (\<lambda>_. 0) (OpFlow OpMLoad) None 0 = Some frame_mload \<and> pres frame_steps frame_mload"
  using frame_arm_steps [of "\<lambda>_. 0" "OpFlow OpMLoad" None 0 frame_mload]
  by (simp add: frame_arm_def flow_frame_arm_def)

section \<open>What the arithmetic instructions compute\<close>

text \<open>A computation on the stack, seen from the frame.\<close>

lemma on_stack_refines:
  assumes m: "refines stack_list stack_wf m n" and f: "frame_wf f"
  shows "n (stack_list (fr_stack f)) = Ok a ys \<Longrightarrow>
      \<exists>st. on_stack m f = Ok a (f\<lparr>fr_stack := st\<rparr>) \<and> stack_wf st \<and> stack_list st = ys"
    and "n (stack_list (fr_stack f)) = Err e ys \<Longrightarrow>
      \<exists>st. on_stack m f = Err e (f\<lparr>fr_stack := st\<rparr>) \<and> stack_wf st \<and> stack_list st = ys"
proof -
  have "stack_wf (fr_stack f)" using f by (simp add: frame_wf_def)
  note r = refinesD [OF m this]
  show "n (stack_list (fr_stack f)) = Ok a ys \<Longrightarrow>
      \<exists>st. on_stack m f = Ok a (f\<lparr>fr_stack := st\<rparr>) \<and> stack_wf st \<and> stack_list st = ys"
    using r by (cases "m (fr_stack f)") (auto simp: on_stack_def zoom_def)
  show "n (stack_list (fr_stack f)) = Err e ys \<Longrightarrow>
      \<exists>st. on_stack m f = Err e (f\<lparr>fr_stack := st\<rparr>) \<and> stack_wf st \<and> stack_list st = ys"
    using r by (cases "m (fr_stack f)") (auto simp: on_stack_def zoom_def)
qed

lemma on_stack_bind: "on_stack (bind m k) = bind (on_stack m) (\<lambda>a. on_stack (k a))"
  by (rule ext) (simp add: on_stack_def zoom_def bind_def split: outcome.split)

lemma on_stack_case: "on_stack (case p of (a, b) \<Rightarrow> k a b) = (case p of (a, b) \<Rightarrow> on_stack (k a b))"
  by (simp split: prod.split)

lemma make_binary_op_eq:
  "make_binary_op alu g = bind (on_stack (bind stack_consume2 (\<lambda>(a, b). stack_push (alu a b)))) (\<lambda>_. use_gas g)"
  by (simp add: make_binary_op_def on_stack_bind on_stack_case bind_assoc split_def)

text \<open>
  A binary instruction, completely, on a well-formed frame: with two operands and the gas it
  replaces them by the result of the arithmetic function (first operand on top) and charges the gas;
  without the gas it fails with \<open>OutOfGas\<close>; with fewer than two operands it fails with
  \<open>StackUnderflow\<close> and leaves the stack as it is. It never panics and never overflows the stack.
\<close>

theorem binary_op_correct:
  assumes "frame_wf f"
  shows "case stack_list (fr_stack f) of
      a # b # ys \<Rightarrow> \<exists>st. stack_wf st \<and> stack_list st = alu a b # ys \<and>
        make_binary_op alu g f =
          (if g \<le> fr_unused_gas f
           then Ok () (f\<lparr>fr_stack := st, fr_unused_gas := fr_unused_gas f - g\<rparr>)
           else Err OutOfGas (f\<lparr>fr_stack := st\<rparr>))
    | xs \<Rightarrow> \<exists>st. stack_list st = xs \<and> make_binary_op alu g f = Err StackUnderflow (f\<lparr>fr_stack := st\<rparr>)"
proof -
  let ?m = "bind stack_consume2 (\<lambda>(a, b). stack_push (alu a b))"
  let ?xs = "stack_list (fr_stack f)"
  note r = on_stack_refines [OF evm.binary_ref [of alu] assms]
  have len: "length ?xs \<le> MAX_STACK_DEPTH" using assms by (simp add: frame_wf_def stack_wf_def)
  consider (two) a b ys where "?xs = a # b # ys" | (few) "\<forall>a b ys. ?xs \<noteq> a # b # ys" by blast
  then show ?thesis
  proof cases
    case two
    with len obtain st where "on_stack ?m f = Ok () (f\<lparr>fr_stack := st\<rparr>)" "stack_wf st" "stack_list st = alu a b # ys"
      using r(1) [of "()" "alu a b # ys"] by (auto simp: list_push_def)
    with two show ?thesis by (auto simp: make_binary_op_eq bind_def use_gas_eq)
  next
    case few
    then have "(case ?xs of a # b # ys \<Rightarrow> list_push (alu a b) ys | _ \<Rightarrow> Err StackUnderflow ?xs) = Err StackUnderflow ?xs"
      by (auto split: list.split)
    from r(2) [OF this] obtain st where "on_stack ?m f = Err StackUnderflow (f\<lparr>fr_stack := st\<rparr>)" "stack_list st = ?xs"
      by blast
    with few show ?thesis by (auto simp: make_binary_op_eq bind_def split: list.split)
  qed
qed

text \<open>A frame of an otherwise empty call, with the given gas and operands.\<close>

definition sample_frame :: "gas \<Rightarrow> u256 list \<Rightarrow> nat call_frame" where
  "sample_frame gas xs =
     (frame_new (PlainCode_new (\<lambda>_. 0) []) [] 0 1 2
        (CallCall \<lparr>ca_snapshot = None, ca_ret_off = 0, ca_ret_len = 0\<rparr>) gas False London)
     \<lparr>fr_stack := \<lparr>stack_array = (\<lambda>i. rev xs ! i), stack_top = length xs\<rparr>\<rparr>"

lemma sample_frame_simps [simp]:
  "fr_unused_gas (sample_frame g xs) = g"
  "stack_list (fr_stack (sample_frame g xs)) = xs"
  "fr_memory (sample_frame g xs) = memory_new"
  "length xs \<le> MAX_STACK_DEPTH \<Longrightarrow> frame_wf (sample_frame g xs)"
  by (auto simp: sample_frame_def frame_new_def frame_wf_def stack_wf_def stack_list_def rev_nth
      intro!: nth_equalityI)

theorem binary_op_witness:
  "\<exists>st. stack_wf st \<and> stack_list st = [2] \<and>
     make_binary_op alu_sub 3 (sample_frame 10 [5, 3]) =
       Ok () ((sample_frame 10 [5, 3])\<lparr>fr_stack := st, fr_unused_gas := 7\<rparr>)"
  using binary_op_correct [of "sample_frame 10 [5, 3]" alu_sub 3]
  by (simp add: alu_sub_def overflowing_sub_def)

section \<open>Memory instructions\<close>

lemma memory_store_eq:
  assumes "memory_wf m" and "unat off + 32 \<le> MAX_MEM_SIZE" and "length d = 32"
  shows "memory_set off 32 d m = bind (memory_get_slice_mut off 32) (\<lambda>(sl, gas).
      bind (memory_copy_from_slice sl d) (\<lambda>_. ret gas)) m"
  using assms by (simp add: memory_set_def memory_get_slice_mut_eq Let_def exec_defs)

text \<open>The addresses below the limit that a word access may use.\<close>

definition word_area :: "u256 \<Rightarrow> bool" where
  "word_area off \<longleftrightarrow> unat off + 32 \<le> MAX_MEM_SIZE"

lemma consume1_frame:
  assumes "frame_wf f" and "stack_list (fr_stack f) = a # ys"
  shows "\<exists>st. on_stack stack_consume1 f = Ok a (f\<lparr>fr_stack := st\<rparr>) \<and> stack_wf st \<and> stack_list st = ys"
  by (rule on_stack_refines(1) [OF stack_consume1_refines assms(1)]) (simp add: assms(2) list_pop_def)

lemma consume2_frame:
  assumes "frame_wf f" and "stack_list (fr_stack f) = a # b # ys"
  shows "\<exists>st. on_stack stack_consume2 f = Ok (a, b) (f\<lparr>fr_stack := st\<rparr>) \<and> stack_wf st \<and> stack_list st = ys"
  by (rule on_stack_refines(1) [OF stack_consume2_refines assms(1)]) (simp add: assms(2) list_pop_def)

lemma push_frame:
  assumes "frame_wf f" and "length (stack_list (fr_stack f)) < MAX_STACK_DEPTH"
  shows "\<exists>st. on_stack (stack_push v) f = Ok () (f\<lparr>fr_stack := st\<rparr>) \<and> stack_wf st
    \<and> stack_list st = v # stack_list (fr_stack f)"
  by (rule on_stack_refines(1) [OF stack_push_refines assms(1)]) (use assms(2) in \<open>simp add: list_push_def\<close>)

lemma frame_mstore_ok:
  assumes f: "frame_wf f" and xs: "stack_list (fr_stack f) = off # v # ys" and area: "word_area off"
    and gas: "3 + grow_fee (unat off + 32) (fr_memory f) \<le> fr_unused_gas f"
    and set: "memory_set off 32 (to_big_endian v) (fr_memory f) = Ok fee t"
  shows "\<exists>st. stack_wf st \<and> stack_list st = ys \<and> frame_mstore f =
    Ok () (f\<lparr>fr_stack := st, fr_memory := t, fr_unused_gas := fr_unused_gas f - 3 - fee\<rparr>)"
proof -
  let ?f = "f\<lparr>fr_unused_gas := fr_unused_gas f - 3\<rparr>"
  obtain st where st: "on_stack stack_consume2 ?f = Ok (off, v) (?f\<lparr>fr_stack := st\<rparr>)" "stack_wf st" "stack_list st = ys"
    using consume2_frame [of ?f off v ys] f xs by (auto simp: frame_wf_def)
  have m: "memory_wf (fr_memory f)" and off: "unat off + 32 \<le> MAX_MEM_SIZE"
    using f area by (simp_all add: frame_wf_def word_area_def)
  have fee: "fee = grow_fee (unat off + 32) (fr_memory f)"
    using memory_set_ok [OF m, of off 32 "to_big_endian v"] off set by simp
  obtain sl u where sl: "memory_get_slice_mut off 32 (fr_memory f) = Ok (sl, fee) u"
    "memory_copy_from_slice sl (to_big_endian v) u = Ok () t"
    using set unfolding memory_store_eq [OF m off length_to_big_endian]
    by (auto simp: bind_Ok_conv ret_def split: prod.splits)
  show ?thesis
    using st sl gas fee
    by (auto simp: frame_mstore_def bind_def use_gas_eq on_memory_def zoom_def intro!: exI [of _ st])
qed

lemma frame_mload_ok:
  assumes f: "frame_wf f" and xs: "stack_list (fr_stack f) = off # ys" and area: "word_area off"
    and gas: "3 + grow_fee (unat off + 32) (fr_memory f) \<le> fr_unused_gas f"
    and load: "memory_get_slice off 32 (fr_memory f) = Ok (d, fee) t"
  shows "\<exists>st. stack_wf st \<and> stack_list st = from_big_endian d # ys \<and> frame_mload f =
    Ok () (f\<lparr>fr_stack := st, fr_memory := t, fr_unused_gas := fr_unused_gas f - 3 - fee\<rparr>)"
proof -
  let ?f = "f\<lparr>fr_unused_gas := fr_unused_gas f - 3\<rparr>"
  obtain st where st: "on_stack stack_consume1 ?f = Ok off (?f\<lparr>fr_stack := st\<rparr>)" "stack_wf st" "stack_list st = ys"
    using consume1_frame [of ?f off ys] f xs by (auto simp: frame_wf_def)
  have m: "memory_wf (fr_memory f)" and off: "unat off + 32 \<le> MAX_MEM_SIZE"
    using f area by (simp_all add: frame_wf_def word_area_def)
  have fee: "fee = grow_fee (unat off + 32) (fr_memory f)" "memory_wf t"
    using memory_get_slice_ok [OF m, of off 32] memory_wf_grow [OF m off] off load by auto
  let ?g = "?f\<lparr>fr_stack := st, fr_memory := t\<rparr>"
  have "length (stack_list (fr_stack f)) \<le> MAX_STACK_DEPTH" using f by (simp add: frame_wf_def stack_wf_def)
  then have "length ys < MAX_STACK_DEPTH" using xs by simp
  then obtain st' where st': "on_stack (stack_push (from_big_endian d)) ?g = Ok () (?g\<lparr>fr_stack := st'\<rparr>)"
    "stack_wf st'" "stack_list st' = from_big_endian d # ys"
    using push_frame [of ?g "from_big_endian d"] st fee(2) by (auto simp: frame_wf_def)
  show ?thesis
    using st st' load gas fee
    by (auto simp: frame_mload_def bind_def use_gas_eq on_memory_def zoom_def intro!: exI [of _ st'])
qed

text \<open>
  \<open>MSTORE\<close> followed by \<open>MLOAD\<close> of the same word returns it: for every offset below the memory
  limit, on a well-formed frame with enough gas, the two instructions succeed, leave the stored word
  on the stack and charge two base fees and the growth of the memory once.
\<close>

theorem mstore_mload:
  assumes f: "frame_wf f" and xs: "stack_list (fr_stack f) = off # v # off # ys" and area: "word_area off"
    and gas: "6 + grow_fee (unat off + 32) (fr_memory f) \<le> fr_unused_gas f"
  shows "\<exists>g. bind frame_mstore (\<lambda>_. frame_mload) f = Ok () g \<and> frame_wf g \<and> stack_list (fr_stack g) = v # ys
    \<and> fr_unused_gas g + 6 + grow_fee (unat off + 32) (fr_memory f) = fr_unused_gas f"
proof -
  let ?n = "unat off + 32" and ?fee = "grow_fee (unat off + 32) (fr_memory f)"
  have m: "memory_wf (fr_memory f)" and off: "unat off + unat (32 :: u256) \<le> MAX_MEM_SIZE"
    using f area by (simp_all add: frame_wf_def word_area_def)
  obtain t fee' u where t: "memory_set off 32 (to_big_endian v) (fr_memory f) = Ok ?fee t" "memory_wf t"
    and u: "memory_get_slice off 32 t = Ok (to_big_endian v, fee') u"
    using mem.store_load [OF m off, of "to_big_endian v"] by auto
  have "?n \<le> length (mem_space t)" using memory_set_len [OF m t(1)] by simp
  then have z: "grow_fee ?n t = 0" by (rule grow_fee_zero [OF t(2)])
  then have fee': "fee' = 0" "memory_wf u"
    using memory_get_slice_ok [OF t(2) off] memory_wf_grow [OF t(2) off] u by auto
  obtain st where st: "stack_wf st" "stack_list st = off # ys" "frame_mstore f =
      Ok () (f\<lparr>fr_stack := st, fr_memory := t, fr_unused_gas := fr_unused_gas f - 3 - ?fee\<rparr>)"
    using frame_mstore_ok [OF f xs area _ t(1)] gas by auto
  let ?g = "f\<lparr>fr_stack := st, fr_memory := t, fr_unused_gas := fr_unused_gas f - 3 - ?fee\<rparr>"
  have g: "frame_wf ?g" "stack_list (fr_stack ?g) = off # ys" using st t(2) by (simp_all add: frame_wf_def)
  have g3: "3 + grow_fee ?n (fr_memory ?g) \<le> fr_unused_gas ?g" using gas z by simp
  have u': "memory_get_slice off 32 (fr_memory ?g) = Ok (to_big_endian v, fee') u" using u by simp
  obtain st' where "stack_wf st'" "stack_list st' = v # ys" "frame_mload ?g =
      Ok () (?g\<lparr>fr_stack := st', fr_memory := u, fr_unused_gas := fr_unused_gas ?g - 3 - fee'\<rparr>)"
    using frame_mload_ok [OF g area g3 u'] by auto
  with st fee' gas show ?thesis by (auto simp: bind_def frame_wf_def)
qed

theorem mstore_mload_witness:
  "\<exists>g. bind frame_mstore (\<lambda>_. frame_mload) (sample_frame 100 [0, 77, 0]) = Ok () g \<and> frame_wf g
    \<and> stack_list (fr_stack g) = [77]
    \<and> fr_unused_gas g + 6 + grow_fee (unat (0 :: u256) + 32) (fr_memory (sample_frame 100 [0, 77, 0])) = 100"
  using mstore_mload [of "sample_frame 100 [0, 77, 0]" 0 77 "[]"]
  by (simp add: word_area_def grow_fee_def grown_len_def mem_cost_def memory_new_def)

end
