(* ===== verification/AccessList.thy ===== *)
theory AccessList
  imports Prelude
begin

text \<open>
  The access list of EIP-2929, \<open>AccessList\<close> of \<open>src/src/core/exec.rs\<close>: a map from an address to the
  index of its slot set, or \<open>-1\<close> when the address is warm but none of its slots is. The reference is the
  pair of the set of warm addresses and the set of warm slots.
\<close>

record tx_access_tuple =
  at_addr :: addr
  at_storage_keys :: "hash list"

record access_list =
  al_addrs :: "addr \<rightharpoonup> int"
  al_slots :: "hash set list"

text \<open>\<open>self.slots[idx as usize]\<close>: out of range is a panic.\<close>

definition slots_index :: "int \<Rightarrow> (access_list, hash set) exec" where
  "slots_index idx =
     bind (gets al_slots) (\<lambda>slots.
     if 0 \<le> idx \<and> nat idx < length slots then ret (slots ! nat idx) else panic)"

definition al_contains_addr :: "addr \<Rightarrow> (access_list, bool) exec" where
  "al_contains_addr addr = gets (\<lambda>al. al_addrs al addr \<noteq> None)"

definition al_contains :: "addr \<Rightarrow> hash \<Rightarrow> (access_list, bool \<times> bool) exec" where
  "al_contains addr slot =
     bind (gets al_addrs) (\<lambda>addrs.
     case addrs addr of
       Some idx \<Rightarrow>
         if idx = - 1 then ret (True, False)
         else bind (slots_index idx) (\<lambda>slot_set. ret (True, slot \<in> slot_set))
     | None \<Rightarrow> ret (False, False))"

definition al_add_addr :: "addr \<Rightarrow> (access_list, bool) exec" where
  "al_add_addr addr =
     bind (gets al_addrs) (\<lambda>addrs.
     case addrs addr of
       Some _ \<Rightarrow> ret False
     | None \<Rightarrow> bind (modify (\<lambda>al. al\<lparr>al_addrs := (al_addrs al)(addr \<mapsto> - 1)\<rparr>)) (\<lambda>_. ret True))"

definition al_add_slot :: "addr \<Rightarrow> hash \<Rightarrow> (access_list, bool \<times> bool) exec" where
  "al_add_slot addr slot =
     bind (gets al_addrs) (\<lambda>addrs.
     let idx = Option.bind (addrs addr) (\<lambda>v. if v = - 1 then None else Some v)
     in case idx of
          Some idx \<Rightarrow>
            bind (slots_index idx) (\<lambda>slot_set.
            bind (modify (\<lambda>al. al\<lparr>al_slots := (al_slots al)[nat idx := insert slot slot_set]\<rparr>)) (\<lambda>_.
            ret (False, slot \<notin> slot_set)))
        | None \<Rightarrow>
            bind (gets (\<lambda>al. int (length (al_slots al)))) (\<lambda>n.
            bind (modify (\<lambda>al. al\<lparr>al_addrs := (al_addrs al)(addr \<mapsto> n)\<rparr>)) (\<lambda>_.
            let addr_changed = (addrs addr = None)
            in bind (modify (\<lambda>al. al\<lparr>al_slots := al_slots al @ [{slot}]\<rparr>)) (\<lambda>_.
               ret (addr_changed, True)))))"

text \<open>A loop \<open>for x in xs\<close> whose body returns nothing.\<close>

primrec for_each :: "'a list \<Rightarrow> ('a \<Rightarrow> ('s, 'b) exec) \<Rightarrow> ('s, unit) exec" where
  "for_each [] body = ret ()"
| "for_each (x # xs) body = bind (body x) (\<lambda>_. for_each xs body)"

text \<open>\<open>AccessList::new\<close>: the statements that fill the empty list.\<close>

definition al_empty :: access_list where
  "al_empty = \<lparr>al_addrs = Map.empty, al_slots = []\<rparr>"

definition al_init ::
  "addr \<Rightarrow> addr option \<Rightarrow> addr list \<Rightarrow> tx_access_tuple list option \<Rightarrow> (access_list, unit) exec" where
  "al_init from' to precompiled access_list =
     bind (al_add_addr from') (\<lambda>_.
     bind (case to of None \<Rightarrow> ret () | Some to \<Rightarrow> bind (al_add_addr to) (\<lambda>_. ret ())) (\<lambda>_.
     bind (for_each precompiled al_add_addr) (\<lambda>_.
     case access_list of
       None \<Rightarrow> ret ()
     | Some ats \<Rightarrow>
         for_each ats (\<lambda>at.
           bind (al_add_addr (at_addr at)) (\<lambda>_.
           for_each (at_storage_keys at) (\<lambda>key. al_add_slot (at_addr at) key))))))"

section \<open>Warm sets\<close>

record warm =
  warm_addrs :: "addr set"
  warm_slots :: "(addr \<times> hash) set"

definition al_wf :: "access_list \<Rightarrow> bool" where
  "al_wf al \<longleftrightarrow>
     (\<forall>a i. al_addrs al a = Some i \<longrightarrow> i = - 1 \<or> 0 \<le> i \<and> i < int (length (al_slots al))) \<and>
     (\<forall>a b i. al_addrs al a = Some i \<and> al_addrs al b = Some i \<and> i \<noteq> - 1 \<longrightarrow> a = b)"

definition al_warm :: "access_list \<Rightarrow> warm" where
  "al_warm al =
     \<lparr>warm_addrs = dom (al_addrs al),
      warm_slots = {(a, k). \<exists>i. al_addrs al a = Some i \<and> i \<noteq> - 1 \<and> k \<in> al_slots al ! nat i}\<rparr>"

definition warm_contains :: "addr \<Rightarrow> hash \<Rightarrow> (warm, bool \<times> bool) exec" where
  "warm_contains a k = gets (\<lambda>w. (a \<in> warm_addrs w, (a, k) \<in> warm_slots w))"

definition warm_add_addr :: "addr \<Rightarrow> (warm, bool) exec" where
  "warm_add_addr a = bind (gets (\<lambda>w. a \<notin> warm_addrs w)) (\<lambda>new.
     bind (modify (\<lambda>w. w\<lparr>warm_addrs := insert a (warm_addrs w)\<rparr>)) (\<lambda>_. ret new))"

definition warm_add_slot :: "addr \<Rightarrow> hash \<Rightarrow> (warm, bool \<times> bool) exec" where
  "warm_add_slot a k = bind (gets (\<lambda>w. (a \<notin> warm_addrs w, (a, k) \<notin> warm_slots w))) (\<lambda>new.
     bind (modify (\<lambda>w. \<lparr>warm_addrs = insert a (warm_addrs w), warm_slots = insert (a, k) (warm_slots w)\<rparr>))
       (\<lambda>_. ret new))"

lemma al_wf_empty [simp]: "al_wf al_empty"
  by (simp add: al_wf_def al_empty_def)

lemma al_wf_index:
  "al_wf al \<Longrightarrow> al_addrs al a = Some i \<Longrightarrow> i \<noteq> - 1 \<Longrightarrow> 0 \<le> i \<and> nat i < length (al_slots al)"
  unfolding al_wf_def by (metis nat_less_iff)

lemma al_wf_inj:
  "al_wf al \<Longrightarrow> al_addrs al a = Some i \<Longrightarrow> al_addrs al b = Some i \<Longrightarrow> i \<noteq> - 1 \<Longrightarrow> a = b"
  unfolding al_wf_def by metis

lemma al_warm_slot:
  "al_addrs al a = Some i \<Longrightarrow> (a, k) \<in> warm_slots (al_warm al) \<longleftrightarrow> i \<noteq> - 1 \<and> k \<in> al_slots al ! nat i"
  by (simp add: al_warm_def)

lemma al_contains_refines: "refines al_warm al_wf (al_contains a k) (warm_contains a k)"
proof -
  have "map_state al_warm (al_contains a k al) = warm_contains a k (al_warm al) \<and> ends_in al_wf (al_contains a k al)"
    if "al_wf al" for al
  proof (cases "al_addrs al a")
    case None
    then show ?thesis using that by (auto simp: al_contains_def warm_contains_def exec_defs al_warm_def)
  next
    case (Some i)
    then show ?thesis using that al_wf_index [OF that Some]
      by (auto simp: al_contains_def warm_contains_def exec_defs slots_index_def al_warm_def)
  qed
  then show ?thesis by (simp add: refines_def)
qed

lemma al_add_addr_refines: "refines al_warm al_wf (al_add_addr a) (warm_add_addr a)"
proof -
  have "map_state al_warm (al_add_addr a al) = warm_add_addr a (al_warm al) \<and> ends_in al_wf (al_add_addr a al)"
    if "al_wf al" for al
  proof (cases "al_addrs al a")
    case None
    with that have "al_wf (al\<lparr>al_addrs := (al_addrs al)(a \<mapsto> - 1)\<rparr>)" by (auto simp: al_wf_def)
    with None show ?thesis
      by (auto simp: al_add_addr_def warm_add_addr_def exec_defs al_warm_def split: if_splits)
  next
    case (Some i)
    with that show ?thesis
      by (auto simp: al_add_addr_def warm_add_addr_def exec_defs al_warm_def insert_absorb)
  qed
  then show ?thesis by (simp add: refines_def)
qed

lemma al_add_slot_old:
  assumes wf: "al_wf al" and i: "al_addrs al a = Some i" "i \<noteq> - 1"
  shows "map_state al_warm (al_add_slot a k al) = warm_add_slot a k (al_warm al)
    \<and> ends_in al_wf (al_add_slot a k al)"
proof -
  let ?t = "al\<lparr>al_slots := (al_slots al)[nat i := insert k (al_slots al ! nat i)]\<rparr>"
  note ix = al_wf_index [OF wf i]
  have "al_add_slot a k al = Ok (False, k \<notin> al_slots al ! nat i) ?t"
    using i ix by (simp add: al_add_slot_def slots_index_def exec_defs)
  moreover have "al_wf ?t" using wf by (simp add: al_wf_def)
  moreover have "(b, c) \<in> warm_slots (al_warm ?t) \<longleftrightarrow> (b, c) \<in> insert (a, k) (warm_slots (al_warm al))" for b c
  proof (cases "al_addrs al b")
    case None
    with i show ?thesis by (auto simp: al_warm_def)
  next
    case (Some j)
    show ?thesis
    proof (cases "j = i")
      case True
      then have "b = a" using al_wf_inj [OF wf i(1) _ i(2)] Some by simp
      with i ix show ?thesis by (simp add: al_warm_slot [of ?t a i] al_warm_slot [of al a i])
    next
      case False
      then have "b \<noteq> a" using Some i by auto
      moreover have "j = - 1 \<or> nat j \<noteq> nat i" using False al_wf_index [OF wf Some] ix by arith
      ultimately show ?thesis
        using Some by (auto simp: al_warm_slot [of ?t b j] al_warm_slot [of al b j])
    qed
  qed
  then have "warm_slots (al_warm ?t) = insert (a, k) (warm_slots (al_warm al))" by auto
  then have "al_warm ?t = \<lparr>warm_addrs = insert a (warm_addrs (al_warm al)),
      warm_slots = insert (a, k) (warm_slots (al_warm al))\<rparr>"
    using i by (auto simp: al_warm_def)
  ultimately show ?thesis
    using i al_warm_slot [OF i(1), of k] by (auto simp: warm_add_slot_def exec_defs al_warm_def)
qed

lemma al_add_slot_new:
  assumes wf: "al_wf al" and none: "al_addrs al a = None \<or> al_addrs al a = Some (- 1)"
  shows "map_state al_warm (al_add_slot a k al) = warm_add_slot a k (al_warm al)
    \<and> ends_in al_wf (al_add_slot a k al)"
proof -
  let ?n = "int (length (al_slots al))"
  let ?t = "al\<lparr>al_addrs := (al_addrs al)(a \<mapsto> ?n), al_slots := al_slots al @ [{k}]\<rparr>"
  have eq: "al_add_slot a k al = Ok (al_addrs al a = None, True) ?t"
    using none by (auto simp: al_add_slot_def exec_defs)
  have less: "i < ?n \<and> 0 \<le> i" if "al_addrs al b = Some i" "i \<noteq> - 1" for b i
    using al_wf_index [OF wf that] by linarith
  have wf_t: "al_wf ?t"
    unfolding al_wf_def using wf less by (auto simp: al_wf_def) fastforce+
  have "warm_slots (al_warm ?t) = insert (a, k) (warm_slots (al_warm al))"
  proof -
    have "(b, c) \<in> warm_slots (al_warm ?t) \<longleftrightarrow> (b, c) \<in> insert (a, k) (warm_slots (al_warm al))" for b c
      using none less [of b] by (cases "b = a") (auto simp: al_warm_def nth_append nat_less_iff)
    then show ?thesis by auto
  qed
  then have warm_t: "al_warm ?t = \<lparr>warm_addrs = insert a (warm_addrs (al_warm al)),
      warm_slots = insert (a, k) (warm_slots (al_warm al))\<rparr>"
    by (auto simp: al_warm_def)
  have "(a, k) \<notin> warm_slots (al_warm al)" using none by (auto simp: al_warm_def)
  moreover have "a \<notin> warm_addrs (al_warm al) \<longleftrightarrow> al_addrs al a = None" by (auto simp: al_warm_def)
  ultimately show ?thesis using wf_t warm_t by (simp add: eq warm_add_slot_def exec_defs)
qed

lemma al_add_slot_refines: "refines al_warm al_wf (al_add_slot a k) (warm_add_slot a k)"
  unfolding refines_def using al_add_slot_old [of _ a _ k] al_add_slot_new [of _ a k]
  by (metis option.exhaust)

text \<open>Every operation keeps the list well-formed, whatever it returns.\<close>

lemma al_contains_addr_keeps: "pres (keeps al_wf) (al_contains_addr a)"
  by (simp add: pres_def al_contains_addr_def gets_def keeps_def)

lemmas al_ops_keep = al_contains_addr_keeps refines_keeps [OF al_contains_refines]
  refines_keeps [OF al_add_addr_refines] refines_keeps [OF al_add_slot_refines]

section \<open>Construction\<close>

text \<open>
  \<open>acts body abst good g\<close>: the statement succeeds on well-formed states and acts on the abstraction
  as \<open>g\<close> does.
\<close>

definition acts :: "('s, 'a) exec \<Rightarrow> ('s \<Rightarrow> 't) \<Rightarrow> ('s \<Rightarrow> bool) \<Rightarrow> ('t \<Rightarrow> 't) \<Rightarrow> bool" where
  "acts m abst good g \<longleftrightarrow> (\<forall>s. good s \<longrightarrow> (\<exists>a t. m s = Ok a t \<and> good t \<and> abst t = g (abst s)))"

lemma acts_ret: "acts (ret a) abst good (\<lambda>x. x)"
  by (simp add: acts_def ret_def)

lemma acts_bind: "acts m abst good g \<Longrightarrow> (\<And>a. acts (f a) abst good h) \<Longrightarrow> acts (bind m f) abst good (\<lambda>x. h (g x))"
  unfolding acts_def bind_def by fastforce

lemma acts_for_each:
  "(\<And>x. acts (body x) abst good (g x)) \<Longrightarrow> acts (for_each xs body) abst good (fold g xs)"
proof (induction xs)
  case Nil
  show ?case by (simp add: acts_def ret_def)
next
  case (Cons x xs)
  then show ?case using acts_bind [of "body x" abst good "g x" "\<lambda>_. for_each xs body" "fold g xs"]
    by (simp add: comp_def)
qed

definition warm_addr :: "addr \<Rightarrow> warm \<Rightarrow> warm" where
  "warm_addr a w = w\<lparr>warm_addrs := insert a (warm_addrs w)\<rparr>"

definition warm_slot :: "addr \<Rightarrow> hash \<Rightarrow> warm \<Rightarrow> warm" where
  "warm_slot a k w =
     \<lparr>warm_addrs = insert a (warm_addrs w), warm_slots = insert (a, k) (warm_slots w)\<rparr>"

lemma acts_refines:
  assumes "refines abst good m n" and "\<And>x. \<exists>r. n x = Ok r (g x)"
  shows "acts m abst good g"
  unfolding acts_def
proof (intro allI impI)
  fix s assume s: "good s"
  obtain r where "n (abst s) = Ok r (g (abst s))" using assms(2) by blast
  then have "map_state abst (m s) = Ok r (g (abst s))" using refinesD(1) [OF assms(1) s] by simp
  then obtain t where "m s = Ok r t" "abst t = g (abst s)" by (cases "m s") simp_all
  with refinesD(2) [OF assms(1) s] show "\<exists>a t. m s = Ok a t \<and> good t \<and> abst t = g (abst s)" by simp
qed

lemma acts_add_addr: "acts (al_add_addr a) al_warm al_wf (warm_addr a)"
  by (rule acts_refines [OF al_add_addr_refines]) (simp add: warm_add_addr_def warm_addr_def exec_defs)

lemma acts_add_slot: "acts (al_add_slot a k) al_warm al_wf (warm_slot a k)"
  by (rule acts_refines [OF al_add_slot_refines]) (simp add: warm_add_slot_def warm_slot_def exec_defs)

lemma fold_warm_addr:
  "fold warm_addr as w = w\<lparr>warm_addrs := set as \<union> warm_addrs w\<rparr>"
  by (induction as arbitrary: w) (simp_all add: warm_addr_def)

lemma fold_warm_slot:
  "a \<in> warm_addrs w \<Longrightarrow> fold (warm_slot a) ks w = w\<lparr>warm_slots := Pair a ` set ks \<union> warm_slots w\<rparr>"
  by (induction ks arbitrary: w) (simp_all add: warm_slot_def insert_absorb)

definition warm_tuple :: "tx_access_tuple \<Rightarrow> warm \<Rightarrow> warm" where
  "warm_tuple at w = fold (warm_slot (at_addr at)) (at_storage_keys at) (warm_addr (at_addr at) w)"

lemma fold_warm_tuple:
  "fold warm_tuple ats w =
     \<lparr>warm_addrs = at_addr ` set ats \<union> warm_addrs w,
      warm_slots = {(at_addr at, k) | at k. at \<in> set ats \<and> k \<in> set (at_storage_keys at)} \<union> warm_slots w\<rparr>"
proof (induction ats arbitrary: w)
  case (Cons at ats)
  have "warm_tuple at w = \<lparr>warm_addrs = insert (at_addr at) (warm_addrs w),
      warm_slots = Pair (at_addr at) ` set (at_storage_keys at) \<union> warm_slots w\<rparr>"
    unfolding warm_tuple_def by (subst fold_warm_slot) (simp_all add: warm_addr_def)
  with Cons show ?case by auto
qed simp

lemma acts_init:
  "acts (al_init f t ps als) al_warm al_wf
     (\<lambda>w. fold warm_tuple (case als of None \<Rightarrow> [] | Some ats \<Rightarrow> ats)
       (fold warm_addr ps (fold warm_addr (case t of None \<Rightarrow> [] | Some a \<Rightarrow> [a]) (warm_addr f w))))"
proof -
  have to: "acts (case t of None \<Rightarrow> ret () | Some to \<Rightarrow> bind (al_add_addr to) (\<lambda>_. ret ())) al_warm al_wf
      (fold warm_addr (case t of None \<Rightarrow> [] | Some a \<Rightarrow> [a]))"
    using acts_bind [OF acts_add_addr acts_ret] by (auto simp: acts_ret id_def comp_def split: option.split)
  have tup: "acts (bind (al_add_addr (at_addr at))
      (\<lambda>_. for_each (at_storage_keys at) (\<lambda>key. al_add_slot (at_addr at) key))) al_warm al_wf (warm_tuple at)" for at
    unfolding warm_tuple_def by (intro acts_bind acts_add_addr acts_for_each acts_add_slot)
  have ats: "acts (case als of None \<Rightarrow> ret () | Some ats \<Rightarrow> for_each ats (\<lambda>at.
           bind (al_add_addr (at_addr at)) (\<lambda>_.
           for_each (at_storage_keys at) (\<lambda>key. al_add_slot (at_addr at) key)))) al_warm al_wf
      (fold warm_tuple (case als of None \<Rightarrow> [] | Some ats \<Rightarrow> ats))"
    using acts_for_each [OF tup] by (auto simp: acts_ret id_def split: option.split)
  show ?thesis
    unfolding al_init_def by (intro acts_bind acts_add_addr acts_for_each to ats)
qed

section \<open>Properties\<close>

text \<open>
  C38. The access list implements the pair of warm sets of EIP-2929. On a well-formed list the queries
  and insertions answer and act as the set operations do, keep the list well-formed and never index out
  of range; and \<open>AccessList::new\<close> yields exactly the sender, the receiver, the precompiled contracts and
  the listed addresses as warm addresses, and the listed keys as warm slots.
\<close>

theorem access_list_refines:
  "refines al_warm al_wf (al_contains a k) (warm_contains a k)
   \<and> refines al_warm al_wf (al_add_addr a) (warm_add_addr a)
   \<and> refines al_warm al_wf (al_add_slot a k) (warm_add_slot a k)
   \<and> (\<exists>al. al_init f t ps als al_empty = Ok () al \<and> al_wf al
        \<and> warm_addrs (al_warm al) = {f} \<union> set_option t \<union> set ps \<union> at_addr ` set (concat (case als of None \<Rightarrow> [] | Some ats \<Rightarrow> [ats]))
        \<and> warm_slots (al_warm al) = {(at_addr at, k) | at k.
             at \<in> set (concat (case als of None \<Rightarrow> [] | Some ats \<Rightarrow> [ats])) \<and> k \<in> set (at_storage_keys at)})"
proof -
  have "al_warm al_empty = \<lparr>warm_addrs = {}, warm_slots = {}\<rparr>" by (simp add: al_warm_def al_empty_def)
  moreover obtain u al where "al_init f t ps als al_empty = Ok u al" "al_wf al"
    "al_warm al = fold warm_tuple (case als of None \<Rightarrow> [] | Some ats \<Rightarrow> ats)
       (fold warm_addr ps (fold warm_addr (case t of None \<Rightarrow> [] | Some a \<Rightarrow> [a]) (warm_addr f (al_warm al_empty))))"
    using acts_init [of f t ps als] unfolding acts_def by (metis al_wf_empty)
  ultimately show ?thesis
    using al_contains_refines al_add_addr_refines al_add_slot_refines
    by (auto simp: fold_warm_tuple fold_warm_addr warm_addr_def split: option.splits)
qed

end
