(* ===== verification/ExecContext.thy ===== *)
theory ExecContext
  imports CallFrame AccessList
begin

text \<open>
  The execution context of a transaction, \<open>TxExecContext\<close> of \<open>src/src/core/exec.rs\<close>, and the
  instructions that read or write the world state without starting or ending a call.

  \<^item> \<open>'s host\<close>: the world state the context is generic in, with the hash function and the RLP encoder of
    the address of a new contract (third-party crates) as parameters.
  \<^item> \<open>'s ctx\<close>: the fields of the context. The last element pushed on \<open>call_stack\<close> is the head of the list;
    the sets \<open>destroyed\<close> and \<open>dirty\<close> are lists without duplicates; the map of the precompiled contracts
    is an association list. The shared, locked state (\<open>Arc<RwLock<S>>\<close>) is the state itself: one
    transaction runs on it at a time.
  \<^item> An \<open>async\<close> method is its sequential execution; \<open>TxExecReady::wrap\<close> returns what it awaits.
\<close>

record 's host = "'s world_state" +
  h_keccak :: "bytes \<Rightarrow> hash"
  h_rlp_pair :: "bytes \<Rightarrow> nat \<Rightarrow> bytes"

record block_info =
  bi_coinbase :: addr
  bi_timestamp :: u256
  bi_number :: u256
  bi_difficulty :: u256
  bi_gas_limit :: nat
  bi_base_fee :: u256
  bi_fork :: fork

record exec_env =
  env_chain_id :: u256
  env_block :: block_info
  env_precompiled :: "(addr \<times> (bytes \<Rightarrow> bytes \<times> exec_result)) list"
  env_block_hash :: "nat \<Rightarrow> hash"

datatype tx_exec_result = TxSucceeded bytes gas "addr option" | TxReverted bytes gas exec_error

datatype tx_status = Running | Finished tx_exec_result

record 's ctx =
  cx_call_stack :: "'s call_frame list"
  cx_cur_call :: "'s call_frame"
  cx_state :: 's
  cx_committed_state :: 's
  cx_refund :: nat
  cx_access_list :: access_list
  cx_destroyed :: "addr list"
  cx_dirty :: "addr list"
  cx_status :: tx_status
  cx_origin :: addr
  cx_gas_price :: wei
  cx_env :: exec_env

section \<open>Access to the parts of the context\<close>

definition on_call :: "('s call_frame, 'a) exec \<Rightarrow> ('s ctx, 'a) exec" where
  "on_call = zoom cx_cur_call (\<lambda>f c. c\<lparr>cx_cur_call := f\<rparr>)"

definition on_access :: "(access_list, 'a) exec \<Rightarrow> ('s ctx, 'a) exec" where
  "on_access = zoom cx_access_list (\<lambda>al c. c\<lparr>cx_access_list := al\<rparr>)"

definition upd_state :: "('s \<Rightarrow> 's) \<Rightarrow> ('s ctx, unit) exec" where
  "upd_state g = modify (\<lambda>c. c\<lparr>cx_state := g (cx_state c)\<rparr>)"

definition dirty_insert :: "addr \<Rightarrow> ('s ctx, unit) exec" where
  "dirty_insert a = modify (\<lambda>c. c\<lparr>cx_dirty := List.insert a (cx_dirty c)\<rparr>)"

definition get_fork :: "('s ctx, fork) exec" where
  "get_fork = gets (\<lambda>c. fr_fork (cx_cur_call c))"

definition get_callee :: "('s ctx, addr) exec" where
  "get_callee = gets (\<lambda>c. fr_callee (cx_cur_call c))"

definition pop1 :: "('s ctx, u256) exec" where
  "pop1 = on_call (on_stack stack_consume1)"

definition pop2 :: "('s ctx, u256 \<times> u256) exec" where
  "pop2 = on_call (on_stack stack_consume2)"

definition pop3 :: "('s ctx, u256 \<times> u256 \<times> u256) exec" where
  "pop3 = on_call (on_stack stack_consume3)"

definition pop4 :: "('s ctx, u256 \<times> u256 \<times> u256 \<times> u256) exec" where
  "pop4 = on_call (on_stack stack_consume4)"

definition push1 :: "u256 \<Rightarrow> ('s ctx, unit) exec" where
  "push1 v = on_call (on_stack (stack_push v))"

definition charge :: "gas \<Rightarrow> ('s ctx, unit) exec" where
  "charge g = on_call (use_gas g)"

section \<open>Refunds\<close>

definition add_refund :: "nat \<Rightarrow> ('s ctx, unit) exec" where
  "add_refund gas =
     bind (gets cx_refund) (\<lambda>refund.
     bind (u64_add refund gas) (\<lambda>r.
     modify (\<lambda>c. c\<lparr>cx_refund := r\<rparr>)))"

definition sub_refund :: "nat \<Rightarrow> ('s ctx, unit) exec" where
  "sub_refund gas =
     bind (gets cx_refund) (\<lambda>refund.
     if gas > refund then panic
     else modify (\<lambda>c. c\<lparr>cx_refund := refund - gas\<rparr>))"

definition is_destroyed :: "addr \<Rightarrow> ('s ctx, bool) exec" where
  "is_destroyed addr = gets (\<lambda>c. addr \<in> set (cx_destroyed c))"

definition call_depth :: "('s ctx, nat) exec" where
  "call_depth = gets (\<lambda>c. length (cx_call_stack c))"

section \<open>Reads of accounts\<close>

text \<open>
  The EIP-2929 charge that \<open>balance\<close>, \<open>ext_code_size\<close>, \<open>ext_code_copy\<close> and \<open>ext_code_hash\<close> begin with
  from Berlin on: a warm read, and the surcharge for an address that becomes warm.
\<close>

definition access_account_berlin :: "addr \<Rightarrow> ('s ctx, unit) exec" where
  "access_account_berlin addr =
     bind (charge GAS_WARM_STORAGE_READ_COST_BERLIN) (\<lambda>_.
     bind (on_access (al_contains_addr addr)) (\<lambda>warm.
     when_do (\<not> warm)
       (bind (on_access (al_add_addr addr)) (\<lambda>_.
        charge (GAS_COLD_ACCOUNT_ACCESS_COST_BERLIN - GAS_WARM_STORAGE_READ_COST_BERLIN)))))"

definition ctx_balance :: "'s host \<Rightarrow> ('s ctx, unit) exec" where
  "ctx_balance h =
     bind pop1 (\<lambda>a.
     let addr = addr_of_u256 a
     in bind get_fork (\<lambda>fork.
        bind (if fork \<ge> Berlin then access_account_berlin addr
              else if fork \<ge> Istanbul then charge GAS_BALANCE_ISTANBUL
              else if fork \<ge> TangerineWhistle then charge GAS_BALANCE_TANGERINE
              else charge GAS_BALANCE_FRONTIER) (\<lambda>_.
        bind (gets (\<lambda>c. ws_get_balance h (cx_state c) addr)) (\<lambda>balance.
        push1 balance))))"

definition ctx_origin :: "('s ctx, unit) exec" where
  "ctx_origin =
     bind (charge GAS_QUICK) (\<lambda>_.
     bind (gets cx_origin) (\<lambda>origin. push1 (u256_of_addr origin)))"

definition ctx_ext_code_size :: "'s host \<Rightarrow> ('s ctx, unit) exec" where
  "ctx_ext_code_size h =
     bind pop1 (\<lambda>a.
     let addr = addr_of_u256 a
     in bind get_fork (\<lambda>fork.
        bind (if fork \<ge> Berlin then access_account_berlin addr
              else if fork \<ge> TangerineWhistle then charge GAS_EXT_CODE_SIZE_TANGERINE
              else charge GAS_EXT_CODE_SIZE_FRONTIER) (\<lambda>_.
        bind (gets (\<lambda>c. ws_get_code h (cx_state c) addr)) (\<lambda>code.
        push1 (word_of_nat (length (code_bytes code)))))))"

definition ctx_ext_code_copy :: "'s host \<Rightarrow> ('s ctx, unit) exec" where
  "ctx_ext_code_copy h =
     bind pop4 (\<lambda>(a, mem_off, code_off, len).
     let addr = addr_of_u256 a
     in bind get_fork (\<lambda>fork.
        bind (if fork \<ge> Berlin then access_account_berlin addr
              else if fork \<ge> TangerineWhistle then charge GAS_EXT_BASE_TANGERINE
              else charge GAS_EXT_BASE_FRONTIER) (\<lambda>_.
        let code_off = saturating_u64 code_off
        in bind (gets (\<lambda>c. ws_get_code h (cx_state c) addr)) (\<lambda>code.
           bind (on_call (on_memory (memory_get_slice_mut mem_off len))) (\<lambda>(mem, mem_gas).
           bind (as_u64 len) (\<lambda>len.
           bind (get_data (code_bytes code) code_off len) (\<lambda>data.
           bind (on_call (on_memory (memory_copy_from_slice mem data))) (\<lambda>_.
           bind (charge mem_gas) (\<lambda>_.
           bind (gas_checked_mul (to_word_size len) GAS_COPY_WORD) charge)))))))))"

definition ctx_ext_code_hash :: "'s host \<Rightarrow> ('s ctx, unit) exec" where
  "ctx_ext_code_hash h =
     bind get_fork (\<lambda>fork.
     if fork < Constantinople then throw InvalidOpcode
     else bind pop1 (\<lambda>a.
          let addr = addr_of_u256 a
          in bind (if fork \<ge> Berlin then access_account_berlin addr
                   else if fork \<ge> Istanbul then charge GAS_EXT_CODE_HASH_ISTANBUL
                   else charge GAS_EXT_CODE_HASH_CONSTANTINOPLE) (\<lambda>_.
             bind (gets (\<lambda>c. ws_get_code h (cx_state c) addr)) (\<lambda>code.
             push1 (u256_of_hash (code_hash code))))))"

section \<open>Block and transaction\<close>

definition ctx_block_hash :: "('s ctx, unit) exec" where
  "ctx_block_hash =
     bind (charge GAS_EXT) (\<lambda>_.
     bind pop1 (\<lambda>number.
     bind (gets cx_env) (\<lambda>env.
     push1 (case checked_as_u64 number of
              Some n \<Rightarrow>
                let upper = low_u64 (bi_number (env_block env));
                    lower = (if upper \<ge> 256 then upper - 256 else 0)
                in if n < lower \<or> n \<ge> upper then 0 else u256_of_hash (env_block_hash env n)
            | None \<Rightarrow> 0))))"

text \<open>\<open>use_gas(GAS_QUICK)?; stack.push(..)\<close> of a constant of the transaction.\<close>

definition push_quick_ctx :: "('s ctx \<Rightarrow> u256) \<Rightarrow> ('s ctx, unit) exec" where
  "push_quick_ctx val = bind (charge GAS_QUICK) (\<lambda>_. bind (gets val) push1)"

definition ctx_gas_price :: "('s ctx, unit) exec" where
  "ctx_gas_price = push_quick_ctx cx_gas_price"

definition ctx_coinbase :: "('s ctx, unit) exec" where
  "ctx_coinbase = push_quick_ctx (\<lambda>c. u256_of_addr (bi_coinbase (env_block (cx_env c))))"

definition ctx_timestamp :: "('s ctx, unit) exec" where
  "ctx_timestamp = push_quick_ctx (\<lambda>c. bi_timestamp (env_block (cx_env c)))"

definition ctx_number :: "('s ctx, unit) exec" where
  "ctx_number = push_quick_ctx (\<lambda>c. bi_number (env_block (cx_env c)))"

definition ctx_difficulty :: "('s ctx, unit) exec" where
  "ctx_difficulty = push_quick_ctx (\<lambda>c. bi_difficulty (env_block (cx_env c)))"

definition ctx_gas_limit :: "('s ctx, unit) exec" where
  "ctx_gas_limit = push_quick_ctx (\<lambda>c. word_of_nat (bi_gas_limit (env_block (cx_env c))))"

definition ctx_chain_id :: "('s ctx, unit) exec" where
  "ctx_chain_id =
     bind get_fork (\<lambda>fork.
     if fork < Istanbul then throw InvalidOpcode else push_quick_ctx (\<lambda>c. env_chain_id (cx_env c)))"

definition ctx_self_balance :: "'s host \<Rightarrow> ('s ctx, unit) exec" where
  "ctx_self_balance h =
     bind get_fork (\<lambda>fork.
     if fork < Istanbul then throw InvalidOpcode
     else bind (charge GAS_FAST) (\<lambda>_.
          bind get_callee (\<lambda>callee.
          bind (gets (\<lambda>c. ws_get_balance h (cx_state c) callee)) push1)))"

definition ctx_base_fee :: "('s ctx, unit) exec" where
  "ctx_base_fee =
     bind get_fork (\<lambda>fork.
     if fork < London then throw InvalidOpcode
     else push_quick_ctx (\<lambda>c. bi_base_fee (env_block (cx_env c))))"

section \<open>Storage\<close>

definition ctx_sload :: "'s host \<Rightarrow> ('s ctx, unit) exec" where
  "ctx_sload h =
     bind pop1 (\<lambda>k.
     let key = hash_of_u256 k
     in bind get_fork (\<lambda>fork.
        bind get_callee (\<lambda>callee.
        bind (if fork \<ge> Berlin then
                bind (on_access (al_contains callee key)) (\<lambda>(_, slot_exist).
                if \<not> slot_exist
                then bind (on_access (al_add_slot callee key)) (\<lambda>_. ret GAS_COLD_SLOAD_COST_BERLIN)
                else ret GAS_WARM_STORAGE_READ_COST_BERLIN)
              else if fork \<ge> Istanbul then ret GAS_SLOAD_ISTANBUL
              else if fork \<ge> TangerineWhistle then ret GAS_SLOAD_TANGERINE
              else ret GAS_SLOAD_FRONTIER) (\<lambda>gas.
        bind (charge gas) (\<lambda>_.
        bind (gets (\<lambda>c. ws_get_state h (cx_state c) callee key)) push1)))))"

definition ctx_sstore_istanbul_gas :: "'s host \<Rightarrow> hash \<Rightarrow> u256 \<Rightarrow> ('s ctx, unit) exec" where
  "ctx_sstore_istanbul_gas h key val =
     bind (gets (\<lambda>c. fr_unused_gas (cx_cur_call c))) (\<lambda>unused_gas.
     if unused_gas \<le> GAS_SSTORE_SENTRY_ISTANBUL then throw OutOfGas
     else bind get_callee (\<lambda>callee.
          bind (gets (\<lambda>c. ws_get_state h (cx_state c) callee key)) (\<lambda>cur.
          if cur = val then charge GAS_SLOAD_ISTANBUL
          else bind (gets (\<lambda>c. ws_get_state h (cx_committed_state c) callee key)) (\<lambda>orig.
               if orig = cur then
                 (if orig = 0 then charge GAS_SSTORE_SET_ISTANBUL
                  else bind (when_do (val = 0) (add_refund GAS_SSTORE_REFUND_ISTANBUL)) (\<lambda>_.
                       charge GAS_SSTORE_RESET_ISTANBUL))
               else
                 bind (when_do (orig \<noteq> 0)
                         (if cur = 0 then sub_refund GAS_SSTORE_REFUND_ISTANBUL
                          else when_do (val = 0) (add_refund GAS_SSTORE_REFUND_ISTANBUL))) (\<lambda>_.
                 bind (when_do (orig = val)
                         (add_refund (if orig = 0 then GAS_SSTORE_SET_ISTANBUL - GAS_SLOAD_ISTANBUL
                                      else GAS_SSTORE_RESET_ISTANBUL - GAS_SLOAD_ISTANBUL))) (\<lambda>_.
                 charge GAS_SLOAD_ISTANBUL))))))"

text \<open>\<open>assert!(addr_exist)\<close> is a panic where it fails.\<close>

definition ctx_sstore_berlin_london_gas :: "'s host \<Rightarrow> hash \<Rightarrow> u256 \<Rightarrow> nat \<Rightarrow> ('s ctx, unit) exec" where
  "ctx_sstore_berlin_london_gas h key val clearing_refund =
     bind (gets (\<lambda>c. fr_unused_gas (cx_cur_call c))) (\<lambda>unused_gas.
     if unused_gas \<le> GAS_SSTORE_SENTRY_ISTANBUL then throw OutOfGas
     else bind get_callee (\<lambda>callee.
          bind (on_access (al_contains callee key)) (\<lambda>(addr_exist, slot_exist).
          bind (if \<not> slot_exist
                then bind (on_access (al_add_slot callee key)) (\<lambda>_.
                     if addr_exist then ret GAS_COLD_SLOAD_COST_BERLIN else panic)
                else ret 0) (\<lambda>cost.
          bind (gets (\<lambda>c. ws_get_state h (cx_state c) callee key)) (\<lambda>cur.
          if cur = val then charge (cost + GAS_WARM_STORAGE_READ_COST_BERLIN)
          else bind (gets (\<lambda>c. ws_get_state h (cx_committed_state c) callee key)) (\<lambda>orig.
               if orig = cur then
                 (if orig = 0 then charge (cost + GAS_SSTORE_SET_ISTANBUL)
                  else bind (when_do (val = 0) (add_refund clearing_refund)) (\<lambda>_.
                       charge (cost + (GAS_SSTORE_RESET_ISTANBUL - GAS_COLD_SLOAD_COST_BERLIN))))
               else
                 bind (when_do (orig \<noteq> 0)
                         (if cur = 0 then sub_refund clearing_refund
                          else when_do (val = 0) (add_refund clearing_refund))) (\<lambda>_.
                 bind (when_do (orig = val)
                         (if orig = 0
                          then add_refund (GAS_SSTORE_SET_ISTANBUL - GAS_WARM_STORAGE_READ_COST_BERLIN)
                          else add_refund (GAS_SSTORE_RESET_ISTANBUL - GAS_COLD_SLOAD_COST_BERLIN
                                           - GAS_WARM_STORAGE_READ_COST_BERLIN))) (\<lambda>_.
                 charge (cost + GAS_WARM_STORAGE_READ_COST_BERLIN)))))))))"

definition ctx_sstore :: "'s host \<Rightarrow> ('s ctx, unit) exec" where
  "ctx_sstore h =
     bind (gets (\<lambda>c. fr_read_only (cx_cur_call c))) (\<lambda>read_only.
     if read_only then throw WriteProtection
     else bind pop2 (\<lambda>(k, val).
          let key = hash_of_u256 k
          in bind get_fork (\<lambda>fork.
             bind get_callee (\<lambda>callee.
             bind (if fork \<ge> Berlin then
                     ctx_sstore_berlin_london_gas h key val
                       (if fork \<ge> London then GAS_SSTORE_REFUND_LONDON else GAS_SSTORE_REFUND_ISTANBUL)
                   else if fork \<ge> Istanbul then ctx_sstore_istanbul_gas h key val
                   else if fork \<ge> Constantinople then
                     bind (gets (\<lambda>c. ws_get_state h (cx_state c) callee key)) (\<lambda>cur.
                     bind (if cur = 0 \<and> val \<noteq> 0 then ret GAS_SSTORE_SET
                           else if cur \<noteq> 0 \<and> val = 0
                           then bind (add_refund GAS_SSTORE_REFUND) (\<lambda>_. ret GAS_SSTORE_CLEAR)
                           else ret GAS_SSTORE_RESET) charge)
                   else ret ()) (\<lambda>_.
             bind (upd_state (ws_set_state h callee key val)) (\<lambda>_.
             dirty_insert callee))))))"

section \<open>Control flow and logs\<close>

definition ctx_jump :: "('s ctx, unit) exec" where
  "ctx_jump =
     bind (charge GAS_MID) (\<lambda>_.
     bind pop1 (\<lambda>dest.
     bind (gets (\<lambda>c. fr_code (cx_cur_call c))) (\<lambda>code.
     if \<not> is_valid_jumpdest code dest then throw InvalidJump
     else bind (as_u64 dest) (\<lambda>d.
          bind (u64_sub d 1) (\<lambda>pc.
          on_call (modify (\<lambda>f. f\<lparr>fr_pc := pc\<rparr>)))))))"

definition ctx_jumpi :: "('s ctx, unit) exec" where
  "ctx_jumpi =
     bind (charge GAS_SLOW) (\<lambda>_.
     bind pop2 (\<lambda>(dest, cond).
     when_do (cond \<noteq> 0)
       (bind (gets (\<lambda>c. fr_code (cx_cur_call c))) (\<lambda>code.
        if \<not> is_valid_jumpdest code dest then throw InvalidJump
        else bind (as_u64 dest) (\<lambda>d.
             bind (u64_sub d 1) (\<lambda>pc.
             on_call (modify (\<lambda>f. f\<lparr>fr_pc := pc\<rparr>))))))))"

primrec log_topics :: "nat \<Rightarrow> ('s ctx, hash list) exec" where
  "log_topics 0 = ret []"
| "log_topics (Suc n) = bind pop1 (\<lambda>t. bind (log_topics n) (\<lambda>ts. ret (hash_of_u256 t # ts)))"

definition ctx_log :: "'s host \<Rightarrow> nat \<Rightarrow> ('s ctx, unit) exec" where
  "ctx_log h num =
     bind (gets (\<lambda>c. fr_read_only (cx_cur_call c))) (\<lambda>read_only.
     if read_only then throw WriteProtection
     else bind (charge GAS_LOG) (\<lambda>_.
          bind (gas_checked_mul num GAS_LOG_TOPIC) (\<lambda>topic_gas.
          bind (charge topic_gas) (\<lambda>_.
          bind pop2 (\<lambda>(off, len).
          bind (ok_or OutOfMemory (checked_as_u64 len)) (\<lambda>len64.
          bind (gas_checked_mul len64 GAS_LOG_DATA) (\<lambda>data_gas.
          bind (charge data_gas) (\<lambda>_.
          bind (log_topics num) (\<lambda>topics.
          bind (on_call (on_memory (memory_get_slice off len))) (\<lambda>(mem, mem_gas).
          bind (gets (\<lambda>c. ws_add_log h (fr_callee (cx_cur_call c)) topics mem
                            (bi_number (env_block (cx_env c))) (cx_state c))) (\<lambda>logged.
          bind (unwrap logged) (\<lambda>state.
          bind (upd_state (\<lambda>_. state)) (\<lambda>_.
          charge mem_gas)))))))))))))"

end
