(* ===== verification/CoreSched.thy ===== *)
theory CoreSched
  imports ExecContext
begin

text \<open>
  The scheduling of a transaction: \<open>TxExecReady\<close>, \<open>ReadyList\<close> and \<open>TxExecHandle\<close> of \<open>src/src/core/exec.rs\<close>, the thread of
  \<open>Core\<close> in \<open>src/src/core/mod.rs\<close>, and \<open>run_single_tx\<close> of \<open>src/src/processor.rs\<close>. The future of a transaction is, for the
  scheduler, the sequence of what it awaits, each with the number of polls at which it is still pending. Most awaits are
  wrapped by \<open>TxExecReady::wrap\<close>, which pushes a notifier; those of \<open>create_account\<close> in \<open>create_\<close> and \<open>call_\<close> are not. The
  instructions between the awaits run within a poll and are the model of \<open>ExecLoop\<close>.

  Notifiers are shared: \<open>wrap\<close> keeps a reference to the one it has pushed, the scheduler the drained ones. They are
  addresses into a store. In the code a drained notifier is moved, so that the reference of \<open>wrap\<close> may not reach it any
  more; sharing is the more favourable reading.
\<close>

section \<open>Notifiers\<close>

text \<open>A notifier: its cell \<open>ready\<close>, and whether a waker is registered.\<close>

record tx_ready =
  rd_ready :: bool
  rd_waker :: bool

definition ready_new :: tx_ready where
  "ready_new = \<lparr>rd_ready = False, rd_waker = False\<rparr>"

definition set_ready :: "tx_ready \<Rightarrow> tx_ready" where
  "set_ready r = r\<lparr>rd_ready := True, rd_waker := False\<rparr>"

datatype 'a poll = Ready 'a | Pending

definition ready_poll :: "tx_ready \<Rightarrow> tx_ready \<times> unit poll" where
  "ready_poll r = (if rd_ready r then (r, Ready ()) else (r\<lparr>rd_waker := True\<rparr>, Pending))"

text \<open>The store: the notifier at an address is the element of the list.\<close>

type_synonym notifiers = "tx_ready list"

type_synonym ready_list = "nat list"

definition ready_push :: "notifiers \<Rightarrow> ready_list \<Rightarrow> notifiers \<times> ready_list" where
  "ready_push ns l = (ns @ [ready_new], l @ [length ns])"

definition ready_drain :: "ready_list \<Rightarrow> ready_list \<times> ready_list" where
  "ready_drain l = (l, [])"

section \<open>The future of a transaction\<close>

datatype await = Wrapped nat | Unwrapped nat

text \<open>
  What is still to be awaited, the notifier of the first of them once \<open>wrap\<close> has pushed it, and the result at the end. In a
  poll the future goes on as long as what it awaits is ready; \<open>wrap\<close> then sets its notifier.
\<close>

record tx_fut =
  tf_awaits :: "await list"
  tf_notifier :: "nat option"
  tf_result :: tx_exec_result

fun poll_awaits ::
  "await list \<Rightarrow> nat option \<Rightarrow> notifiers \<Rightarrow> ready_list \<Rightarrow> await list \<times> nat option \<times> notifiers \<times> ready_list" where
  "poll_awaits [] s ns l = ([], None, ns, l)"
| "poll_awaits (Unwrapped k # ws) s ns l =
     (case k of
        0 \<Rightarrow> poll_awaits ws None ns l
      | Suc n \<Rightarrow> (Unwrapped n # ws, None, ns, l))"
| "poll_awaits (Wrapped k # ws) s ns l =
     (let (ns, l) = (if s = None then ready_push ns l else (ns, l));
          s = (case s of None \<Rightarrow> last l | Some a \<Rightarrow> a)
      in case k of
           0 \<Rightarrow> poll_awaits ws None (ns[s := set_ready (ns ! s)]) l
         | Suc n \<Rightarrow> (Wrapped n # ws, Some s, ns, l))"

record tx_handle =
  th_fut :: tx_fut
  th_notifiers :: notifiers
  th_ready :: ready_list

definition drain_ready_list :: "tx_handle \<Rightarrow> ready_list \<times> tx_handle" where
  "drain_ready_list h = (let (drained, rest) = ready_drain (th_ready h) in (drained, h\<lparr>th_ready := rest\<rparr>))"

definition fut_poll :: "tx_handle \<Rightarrow> tx_handle \<times> tx_exec_result poll" where
  "fut_poll h =
     (case poll_awaits (tf_awaits (th_fut h)) (tf_notifier (th_fut h)) (th_notifiers h) (th_ready h) of
        (awaits, s, ns, l) \<Rightarrow>
          (h\<lparr>th_fut := (th_fut h)\<lparr>tf_awaits := awaits, tf_notifier := s\<rparr>, th_notifiers := ns, th_ready := l\<rparr>,
           if awaits = [] then Ready (tf_result (th_fut h)) else Pending))"

section \<open>Core\<close>

datatype tx_exec_state = RunningTx tx_handle | FinishedTx tx_exec_result

text \<open>One round of the thread: a received state is polled once if it is running, and sent back.\<close>

definition core_round :: "tx_exec_state \<Rightarrow> tx_exec_state" where
  "core_round b =
     (case b of
        RunningTx h \<Rightarrow> (case fut_poll h of (h', Ready res) \<Rightarrow> FinishedTx res | (h', Pending) \<Rightarrow> RunningTx h')
      | FinishedTx res \<Rightarrow> FinishedTx res)"

text \<open>The thread, over the states in its inbound channel; the outbound channel has them in the same order.\<close>

primrec core_thread :: "tx_exec_state list \<Rightarrow> tx_exec_state list" where
  "core_thread [] = []"
| "core_thread (b # bs) = core_round b # core_thread bs"

section \<open>The processor\<close>

text \<open>
  Where \<open>run_single_tx\<close> is: about to send the transaction to the core, awaiting the drained notifiers one after the other,
  or at its end. A step sends and receives, or polls the notifier that is awaited; a pending notifier is polled again in
  the next step, whether or not it was woken.
\<close>

datatype processor = Sending tx_exec_state | Awaiting ready_list tx_handle | Returned tx_exec_result

fun run_step :: "processor \<Rightarrow> processor" where
  "run_step (Sending tx) =
     (case hd (core_thread [tx]) of
        FinishedTx res \<Rightarrow> Returned res
      | RunningTx h \<Rightarrow> (case drain_ready_list h of (drained, h') \<Rightarrow> Awaiting drained h'))"
| "run_step (Awaiting [] h) = Sending (RunningTx h)"
| "run_step (Awaiting (r # rs) h) =
     (case ready_poll (th_notifiers h ! r) of
        (n, Ready _) \<Rightarrow> Awaiting rs h
      | (n, Pending) \<Rightarrow> Awaiting (r # rs) (h\<lparr>th_notifiers := (th_notifiers h)[r := n]\<rparr>))"
| "run_step (Returned res) = Returned res"

text \<open>\<open>run_single_tx\<close> after the given number of steps; \<open>None\<close> as long as it has not returned.\<close>

definition run_single_tx :: "nat \<Rightarrow> tx_exec_state \<Rightarrow> tx_exec_result option" where
  "run_single_tx steps tx = (case (run_step ^^ steps) (Sending tx) of Returned res \<Rightarrow> Some res | _ \<Rightarrow> None)"

definition tx_handle_new :: "await list \<Rightarrow> tx_exec_result \<Rightarrow> tx_handle" where
  "tx_handle_new awaits res =
     \<lparr>th_fut = \<lparr>tf_awaits = awaits, tf_notifier = None, tf_result = res\<rparr>, th_notifiers = [], th_ready = []\<rparr>"

section \<open>When a transaction finishes\<close>

text \<open>Ready at the poll at which it is first awaited, if it has a notifier.\<close>

fun immediate :: "await \<Rightarrow> bool" where
  "immediate (Wrapped k) \<longleftrightarrow> k = 0"
| "immediate (Unwrapped k) \<longleftrightarrow> True"

fun delay :: "await \<Rightarrow> nat" where
  "delay (Wrapped k) = k"
| "delay (Unwrapped k) = k"

definition all_ready :: "notifiers \<Rightarrow> ready_list \<Rightarrow> bool" where
  "all_ready ns l \<longleftrightarrow> (\<forall>a\<in>set l. a < length ns \<and> rd_ready (ns ! a))"

definition some_pending :: "notifiers \<Rightarrow> ready_list \<Rightarrow> bool" where
  "some_pending ns l \<longleftrightarrow> (\<exists>a\<in>set l. a < length ns \<and> \<not> rd_ready (ns ! a))"

lemma wrap_immediate:
  "poll_awaits (Wrapped 0 # ws) None ns l = poll_awaits ws None (ns @ [set_ready ready_new]) (l @ [length ns])"
  by (simp add: ready_push_def list_update_append)

lemma all_ready_push: "all_ready ns l \<Longrightarrow> all_ready (ns @ [set_ready n]) (l @ [length ns])"
  by (auto simp: all_ready_def nth_append set_ready_def)

text \<open>A poll in which no wrapped await is pending.\<close>

lemma poll_immediate:
  assumes "list_all immediate ws" and "all_ready ns l" and "poll_awaits ws None ns l = (ws', s, ns', l')"
  shows "s = None \<and> all_ready ns' l' \<and> list_all immediate ws' \<and> (ws' = [] \<or> sum_list (map delay ws') < sum_list (map delay ws))"
  using assms
proof (induction ws arbitrary: ns l)
  case (Cons w ws)
  show ?case
  proof (cases w)
    case (Wrapped k)
    with Cons.prems have "poll_awaits ws None (ns @ [set_ready ready_new]) (l @ [length ns]) = (ws', s, ns', l')" "k = 0"
      by (simp_all add: wrap_immediate del: poll_awaits.simps(3))
    with Wrapped Cons.IH [OF _ all_ready_push] Cons.prems show ?thesis by fastforce
  next
    case (Unwrapped k)
    then show ?thesis using Cons.IH [of ns l] Cons.prems by (cases k) auto
  qed
qed simp

text \<open>A poll of a future with a wrapped await that is pending at first: it is still to come, or its notifier is pending.\<close>

lemma poll_pending:
  assumes "\<not> list_all immediate ws" and "poll_awaits ws None ns l = (ws', s, ns', l')"
  shows "ws' \<noteq> [] \<and> (s = None \<and> \<not> list_all immediate ws' \<or> some_pending ns' l')"
  using assms
proof (induction ws arbitrary: ns l)
  case (Cons w ws)
  show ?case
  proof (cases w)
    case (Wrapped k)
    show ?thesis
    proof (cases k)
      case 0
      with Wrapped Cons.prems have "poll_awaits ws None (ns @ [set_ready ready_new]) (l @ [length ns]) = (ws', s, ns', l')"
        by (simp add: wrap_immediate del: poll_awaits.simps(3))
      with 0 Wrapped Cons.IH Cons.prems show ?thesis by fastforce
    next
      case (Suc n)
      with Wrapped Cons.prems(2) show ?thesis by (auto simp: ready_push_def some_pending_def ready_new_def)
    qed
  next
    case (Unwrapped k)
    then show ?thesis using Cons.IH [of ns l] Cons.prems by (cases k) auto
  qed
qed simp

text \<open>Between two polls of the transaction.\<close>

definition between :: "tx_exec_result \<Rightarrow> tx_handle \<Rightarrow> bool" where
  "between res h \<longleftrightarrow> tf_result (th_fut h) = res \<and> tf_notifier (th_fut h) = None \<and> th_ready h = []"

lemma await_ready:
  "all_ready (th_notifiers h) rs \<Longrightarrow> (run_step ^^ Suc (length rs)) (Awaiting rs h) = Sending (RunningTx h)"
proof (induction rs)
  case (Cons r rs)
  then have "run_step (Awaiting (r # rs) h) = Awaiting rs h" by (simp add: all_ready_def ready_poll_def)
  with Cons show ?case by (simp add: all_ready_def funpow_Suc_right del: funpow.simps)
qed simp

lemma returns_immediate:
  "between res h \<Longrightarrow> list_all immediate (tf_awaits (th_fut h)) \<Longrightarrow> \<exists>n. (run_step ^^ n) (Sending (RunningTx h)) = Returned res"
proof (induction "sum_list (map delay (tf_awaits (th_fut h)))" arbitrary: h rule: less_induct)
  case less
  obtain ws s ns l where poll: "poll_awaits (tf_awaits (th_fut h)) None (th_notifiers h) [] = (ws, s, ns, l)" by (metis prod_cases4)
  have "all_ready (th_notifiers h) []" by (simp add: all_ready_def)
  note ready = poll_immediate [OF less.prems(2) this poll]
  show ?case
  proof (cases "ws = []")
    case True
    with poll less.prems(1) have "run_step (Sending (RunningTx h)) = Returned res"
      by (simp add: between_def core_round_def fut_poll_def)
    then show ?thesis by (intro exI [of _ 1]) simp
  next
    case False
    let ?h = "h\<lparr>th_fut := (th_fut h)\<lparr>tf_awaits := ws, tf_notifier := s\<rparr>, th_notifiers := ns, th_ready := []\<rparr>"
    have "run_step (Sending (RunningTx h)) = Awaiting l ?h"
      using poll less.prems(1) False
      by (simp add: between_def core_round_def fut_poll_def drain_ready_list_def ready_drain_def)
    moreover have "(run_step ^^ Suc (length l)) (Awaiting l ?h) = Sending (RunningTx ?h)"
      by (rule await_ready) (use ready in simp)
    ultimately have again: "(run_step ^^ (Suc (length l) + 1)) (Sending (RunningTx h)) = Sending (RunningTx ?h)"
      by (simp add: funpow_swap1 del: run_step.simps)
    have "between res ?h" using less.prems(1) ready by (simp add: between_def)
    with less.hyps [of ?h] ready False obtain n where "(run_step ^^ n) (Sending (RunningTx ?h)) = Returned res" by auto
    then have "(run_step ^^ (n + (Suc (length l) + 1))) (Sending (RunningTx h)) = Returned res"
      by (simp only: funpow_add [of n] o_apply again)
    then show ?thesis by blast
  qed
qed

text \<open>The states of a scheduler that never returns.\<close>

fun stuck :: "processor \<Rightarrow> bool" where
  "stuck (Sending (RunningTx h)) \<longleftrightarrow> between (tf_result (th_fut h)) h \<and> \<not> list_all immediate (tf_awaits (th_fut h))"
| "stuck (Sending (FinishedTx _)) \<longleftrightarrow> False"
| "stuck (Awaiting rs h) \<longleftrightarrow>
     between (tf_result (th_fut h)) h \<and> \<not> list_all immediate (tf_awaits (th_fut h)) \<or> some_pending (th_notifiers h) rs"
| "stuck (Returned _) \<longleftrightarrow> False"

lemma some_pending_waker:
  "some_pending ns l \<Longrightarrow> \<not> rd_ready (ns ! r) \<Longrightarrow> some_pending (ns[r := (ns ! r)\<lparr>rd_waker := w\<rparr>]) l"
  unfolding some_pending_def by (metis length_list_update nth_list_update_eq nth_list_update_neq tx_ready.select_convs(1) tx_ready.surjective
      tx_ready.update_convs(2))

lemma stuck_step: "stuck p \<Longrightarrow> stuck (run_step p)"
proof (induction p rule: run_step.induct)
  case (1 tx)
  then obtain h where h: "tx = RunningTx h" "between (tf_result (th_fut h)) h" "\<not> list_all immediate (tf_awaits (th_fut h))"
    by (cases tx) simp_all
  obtain ws s ns l where poll: "poll_awaits (tf_awaits (th_fut h)) None (th_notifiers h) [] = (ws, s, ns, l)" by (metis prod_cases4)
  from poll_pending [OF h(3) poll] poll h(1,2) show ?case
    by (auto simp: between_def core_round_def fut_poll_def drain_ready_list_def ready_drain_def)
next
  case (2 h)
  then show ?case by (simp add: some_pending_def)
next
  case (3 r rs h)
  show ?case
  proof (cases "rd_ready (th_notifiers h ! r)")
    case True
    with 3 show ?thesis by (auto simp: ready_poll_def some_pending_def)
  next
    case False
    with 3 some_pending_waker [of "th_notifiers h" "r # rs" r True] show ?thesis by (auto simp: ready_poll_def between_def)
  qed
qed simp

lemma stuck_forever: "stuck p \<Longrightarrow> (run_step ^^ n) p \<noteq> Returned r"
proof -
  assume "stuck p"
  then have "stuck ((run_step ^^ n) p)" by (induction n) (simp_all add: stuck_step)
  then show ?thesis by auto
qed

lemma returned_once:
  assumes "(run_step ^^ m) p = Returned r" and "(run_step ^^ n) p = Returned r'"
  shows "r = r'"
proof -
  have stays: "(run_step ^^ k) (Returned x) = Returned x" for k x by (induction k) simp_all
  from assms show ?thesis
    using stays [of "n - m" r] stays [of "m - n" r']
    by (cases "m \<le> n") (metis funpow_add o_apply le_add_diff_inverse2 processor.inject(3) nat_le_linear)+
qed

text \<open>
  C24. \<open>run_single_tx\<close> returns, with the result of the transaction, exactly when every wrapped await of the transaction is ready at the poll
  at which it is first awaited. An unwrapped await may be pending any number of times: then the transaction is polled again and
  again. But when a wrapped await is pending, its notifier is among the drained ones, only another poll of the transaction could set
  it, and the transaction is not polled while the notifier is awaited: \<open>run_single_tx\<close> never returns.
\<close>

theorem run_single_tx_returns:
  "(\<exists>steps. run_single_tx steps (RunningTx (tx_handle_new awaits res)) = Some r) \<longleftrightarrow> r = res \<and> list_all immediate awaits"
proof -
  let ?h = "tx_handle_new awaits res"
  have start: "between res ?h" "tf_awaits (th_fut ?h) = awaits" by (simp_all add: between_def tx_handle_new_def)
  have iff: "run_single_tx steps (RunningTx ?h) = Some x \<longleftrightarrow> (run_step ^^ steps) (Sending (RunningTx ?h)) = Returned x" for steps x
    by (simp add: run_single_tx_def split: processor.split)
  show ?thesis
  proof (cases "list_all immediate awaits")
    case True
    then obtain n where "(run_step ^^ n) (Sending (RunningTx ?h)) = Returned res" using returns_immediate [OF start(1)] start(2) by auto
    with True iff show ?thesis by (auto dest: returned_once)
  next
    case False
    then have "stuck (Sending (RunningTx ?h))" using start by (auto simp: between_def)
    with False iff stuck_forever show ?thesis by blast
  qed
qed

end
