(* ===== verification/ExecCalls.thy ===== *)
theory ExecCalls
  imports ExecContext
begin

text \<open>
  Calls, contract creation and the end of a frame, \<open>src/src/core/exec.rs\<close>: \<open>call_begin\<close>,
  \<open>call_code_begin\<close>, \<open>delegate_call_begin\<close>, \<open>static_call_begin\<close>, \<open>create_begin\<close> and
  \<open>create2_begin\<close> suspend the current frame and push a new one (or finish at once when there is no code
  to run); \<open>call_end\<close>, \<open>create_end\<close> and \<open>tx_end\<close> hand the result of a frame to the one below it, or to
  the transaction. A result \<open>Result<(), ExecError>\<close> passed as a value is \<open>exec_result\<close>.
\<close>

section \<open>The call stack\<close>

definition call_push ::
  "plain_code \<Rightarrow> bytes \<Rightarrow> wei \<Rightarrow> addr \<Rightarrow> addr \<Rightarrow> 's call_type \<Rightarrow> gas \<Rightarrow> bool \<Rightarrow> ('s ctx, unit) exec" where
  "call_push code input value callee caller call_type gas read_only =
     modify (\<lambda>c. c\<lparr>cx_cur_call := frame_new code input value callee caller call_type gas
                      (fr_read_only (cx_cur_call c) \<or> read_only) (bi_fork (env_block (cx_env c))),
                  cx_call_stack := cx_cur_call c # cx_call_stack c\<rparr>)"

definition call_pop :: "('s ctx, 's call_frame) exec" where
  "call_pop =
     bind (gets cx_call_stack) (\<lambda>stack.
     case stack of
       [] \<Rightarrow> panic
     | frame # rest \<Rightarrow>
         bind (gets cx_cur_call) (\<lambda>cur.
         bind (modify (\<lambda>c. c\<lparr>cx_cur_call := frame, cx_call_stack := rest\<rparr>)) (\<lambda>_.
         ret cur)))"

definition advance_pc :: "nat \<Rightarrow> bool \<Rightarrow> ('s ctx, unit) exec" where
  "advance_pc skip enter_call =
     when_do (\<not> enter_call)
       (bind (gets (\<lambda>c. fr_pc (cx_cur_call c))) (\<lambda>pc.
        bind (u64_add skip 1) (\<lambda>n.
        bind (u64_add pc n) (\<lambda>pc'.
        on_call (modify (\<lambda>f. f\<lparr>fr_pc := pc'\<rparr>))))))"

text \<open>\<open>self.state.read().snapshot()\<close>.\<close>

definition take_snapshot :: "'s host \<Rightarrow> ('s ctx, 's) exec" where
  "take_snapshot h =
     bind (gets (\<lambda>c. ws_snapshot h (cx_state c))) (\<lambda>(state, snapshot).
     bind (upd_state (\<lambda>_. state)) (\<lambda>_. ret snapshot))"

definition transfer :: "'s host \<Rightarrow> addr \<Rightarrow> addr \<Rightarrow> wei \<Rightarrow> ('s ctx, bool) exec" where
  "transfer h src dst value =
     bind (gets (\<lambda>c. transfer_balance h src dst value (cx_state c))) (\<lambda>(done, state).
     bind (upd_state (\<lambda>_. state)) (\<lambda>_. ret done))"

section \<open>The end of a frame\<close>

definition create_post_processing :: "'s host \<Rightarrow> addr \<Rightarrow> bytes \<Rightarrow> exec_result \<Rightarrow> ('s ctx, unit) exec" where
  "create_post_processing h contract_addr data result =
     (case result of
        Some err \<Rightarrow>
          if err = Reverted then ret ()
          else bind (gets (\<lambda>c. fr_unused_gas (cx_cur_call c))) charge
      | None \<Rightarrow>
          bind get_fork (\<lambda>fork.
          if fork \<ge> SpuriousDragon \<and> length data > MAX_CODE_SIZE then throw MaxCodeSizeExceeded
          else if fork \<ge> London \<and> length data \<ge> 1 \<and> data ! 0 = 0xef then throw InvalidCode
          else bind (gas_checked_mul (length data) GAS_CREATE_DATA) (\<lambda>gas.
               bind (map_err CodeStoreOutOfGas (charge gas)) (\<lambda>_.
               bind (upd_state (ws_set_code h contract_addr data)) (\<lambda>_.
               dirty_insert contract_addr)))))"

definition create_end ::
  "'s host \<Rightarrow> 's create_args \<Rightarrow> bytes \<Rightarrow> gas \<Rightarrow> exec_result \<Rightarrow> ('s ctx, unit) exec" where
  "create_end h args data unused_gas result =
     bind (when_do (result \<noteq> None) (upd_state (ws_rollback h (cra_snapshot args)))) (\<lambda>_.
     bind (try_result (create_post_processing h (cra_contract_addr args) data result)) (\<lambda>result.
     bind (gets (\<lambda>c. fr_unused_gas (cx_cur_call c))) (\<lambda>own.
     bind (u64_add own unused_gas) (\<lambda>gas.
     bind (on_call (modify (\<lambda>f. f\<lparr>fr_unused_gas := gas\<rparr>))) (\<lambda>_.
     bind (push1 (case result of Some _ \<Rightarrow> 0 | None \<Rightarrow> u256_of_addr (cra_contract_addr args))) (\<lambda>_.
     on_call (modify (\<lambda>f. f\<lparr>fr_last_returned := (if result = Some Reverted then data else [])\<rparr>))))))))"

definition call_end ::
  "'s host \<Rightarrow> 's call_args \<Rightarrow> bytes \<Rightarrow> gas \<Rightarrow> exec_result \<Rightarrow> ('s ctx, unit) exec" where
  "call_end h args data unused_gas result =
     bind (when_do (result \<noteq> None)
             (case ca_snapshot args of
                Some snapshot \<Rightarrow> upd_state (ws_rollback h snapshot)
              | None \<Rightarrow> ret ())) (\<lambda>_.
     bind (if result = None \<or> result = Some Reverted
           then bind (on_call (on_memory (memory_set (ca_ret_off args) (ca_ret_len args) data))) (\<lambda>_.
                ret unused_gas)
           else ret 0) (\<lambda>unused_gas.
     bind (gets (\<lambda>c. fr_unused_gas (cx_cur_call c))) (\<lambda>own.
     bind (u64_add own unused_gas) (\<lambda>gas.
     bind (on_call (modify (\<lambda>f. f\<lparr>fr_unused_gas := gas\<rparr>))) (\<lambda>_.
     bind (push1 (if result \<noteq> None then 0 else 1)) (\<lambda>_.
     on_call (modify (\<lambda>f. f\<lparr>fr_last_returned := data\<rparr>))))))))"

definition delete_empty :: "'s host \<Rightarrow> addr \<Rightarrow> ('s ctx, unit) exec" where
  "delete_empty h acc =
     bind (gets (\<lambda>c. is_empty (h_keccak h) h (cx_state c) acc)) (\<lambda>empty.
     when_do empty (upd_state (ws_delete_account h acc)))"

definition tx_end ::
  "'s host \<Rightarrow> 's tx_args \<Rightarrow> bytes \<Rightarrow> gas \<Rightarrow> exec_result \<Rightarrow> ('s ctx, unit) exec" where
  "tx_end h args data unused_gas err =
     bind (gets cx_call_stack) (\<lambda>stack.
     if stack \<noteq> [] then panic
     else bind (case txa_aux args of
                  Contract addr \<Rightarrow>
                    bind (try_result (create_post_processing h addr data err)) (\<lambda>r. ret (r, Some addr))
                | Sender addr \<Rightarrow> bind (dirty_insert addr) (\<lambda>_. ret (err, None))) (\<lambda>(result, addr).
          bind (gets cx_status) (\<lambda>status.
          case status of
            Finished _ \<Rightarrow> panic
          | Running \<Rightarrow>
              bind get_fork (\<lambda>fork.
              bind (gets cx_dirty) (\<lambda>dirty.
              bind (when_do (fork \<ge> SpuriousDragon) (for_each dirty (delete_empty h))) (\<lambda>_.
              bind (modify (\<lambda>c. c\<lparr>cx_dirty := []\<rparr>)) (\<lambda>_.
              bind (gets cx_destroyed) (\<lambda>destroyed.
              bind (for_each destroyed (\<lambda>acc. upd_state (ws_delete_account h acc))) (\<lambda>_.
              bind (modify (\<lambda>c. c\<lparr>cx_destroyed := []\<rparr>)) (\<lambda>_.
              bind (case result of
                      Some err \<Rightarrow>
                        bind (upd_state (ws_rollback h (txa_snapshot args))) (\<lambda>_.
                        ret (TxReverted data unused_gas err))
                    | None \<Rightarrow> ret (TxSucceeded data unused_gas addr)) (\<lambda>r.
              modify (\<lambda>c. c\<lparr>cx_status := Finished r\<rparr>))))))))))))"

definition finish_call :: "'s host \<Rightarrow> bytes \<Rightarrow> exec_result \<Rightarrow> ('s ctx, unit) exec" where
  "finish_call h data err =
     bind call_pop (\<lambda>frame.
     case fr_call_type frame of
       CallTx args \<Rightarrow> tx_end h args data (fr_unused_gas frame) err
     | CallCreate args \<Rightarrow> create_end h args data (fr_unused_gas frame) err
     | CallCall args \<Rightarrow> call_end h args data (fr_unused_gas frame) err)"

text \<open>The macro \<open>return_without_callstack!\<close>; \<open>unreachable!()\<close> is a panic.\<close>

definition return_without_callstack ::
  "'s host \<Rightarrow> 's call_type \<Rightarrow> bytes \<Rightarrow> gas \<Rightarrow> exec_result \<Rightarrow> ('s ctx, unit) exec" where
  "return_without_callstack h args data unused_gas err =
     (case args of
        CallTx args \<Rightarrow> tx_end h args data unused_gas err
      | CallCall args \<Rightarrow>
          bind (try_result (call_end h args data unused_gas err)) (\<lambda>c.
          bind (advance_pc 0 False) (\<lambda>_. propagate c))
      | CallCreate _ \<Rightarrow> panic)"

section \<open>Contract creation\<close>

definition create_do ::
  "'s host \<Rightarrow> addr \<Rightarrow> addr \<Rightarrow> bytes \<Rightarrow> wei \<Rightarrow> gas \<Rightarrow> 's call_type \<Rightarrow> ('s ctx, unit) exec" where
  "create_do h contract_addr caller code value gas args =
     bind (gets cx_state) (\<lambda>state.
     if ws_get_balance h state caller < value then throw InsufficientBalance
     else bind (ok_or NonceIntOverflow
                 (if ws_get_nonce h state caller + 1 < 2 ^ 64
                  then Some (ws_get_nonce h state caller + 1) else None)) (\<lambda>nonce.
          let cnonce = ws_get_nonce h state contract_addr;
              hsh = code_hash (ws_get_code h state contract_addr)
          in bind (upd_state (ws_set_nonce h caller nonce)) (\<lambda>_.
             bind get_fork (\<lambda>fork.
             bind (when_do (fork \<ge> Berlin)
                     (bind (on_access (al_add_addr contract_addr)) (\<lambda>_. ret ()))) (\<lambda>_.
             if cnonce \<noteq> 0 then throw ContractAddrCollision
             else if hsh \<noteq> 0 \<and> hsh \<noteq> h_keccak h [] then throw ContractAddrCollision
             else bind (upd_state (ws_create_account h contract_addr)) (\<lambda>_.
                  bind (when_do (fork \<ge> SpuriousDragon) (upd_state (ws_set_nonce h contract_addr 1))) (\<lambda>_.
                  bind (transfer h caller contract_addr value) (\<lambda>done.
                  if \<not> done then panic
                  else bind (dirty_insert contract_addr) (\<lambda>_.
                       bind (dirty_insert caller) (\<lambda>_.
                       call_push (PlainCode_new (h_keccak h) code) [] value contract_addr caller args
                         gas False))))))))))"

definition create_begin :: "'s host \<Rightarrow> ('s ctx, unit) exec" where
  "create_begin h =
     bind (charge GAS_CREATE) (\<lambda>_.
     bind (gets (\<lambda>c. fr_read_only (cx_cur_call c))) (\<lambda>read_only.
     if read_only then throw WriteProtection
     else bind call_depth (\<lambda>depth.
     if depth = MAX_CALL_DEPTH then throw Depth
     else bind pop3 (\<lambda>(value, off, len).
          bind (on_call (on_memory (memory_get_slice off len))) (\<lambda>(code, mem_gas).
          bind (charge mem_gas) (\<lambda>_.
          bind get_fork (\<lambda>fork.
          bind (gets (\<lambda>c. fr_unused_gas (cx_cur_call c))) (\<lambda>gas_quota.
          let gas_quota = (if fork \<ge> TangerineWhistle then gas_quota - gas_quota div 64 else gas_quota)
          in bind (charge gas_quota) (\<lambda>_.
             bind get_callee (\<lambda>caller.
             bind (gets (\<lambda>c. ws_get_nonce h (cx_state c) caller)) (\<lambda>nonce.
             bind (take_snapshot h) (\<lambda>snapshot.
             let contract_addr = create_addr (h_keccak h) (h_rlp_pair h) caller nonce
             in create_do h contract_addr caller code value gas_quota
                  (CallCreate \<lparr>cra_snapshot = snapshot, cra_contract_addr = contract_addr\<rparr>)))))))))))))"

definition create2_begin :: "'s host \<Rightarrow> ('s ctx, unit) exec" where
  "create2_begin h =
     bind get_fork (\<lambda>fork.
     if fork < Constantinople then throw InvalidOpcode
     else bind (gets (\<lambda>c. fr_read_only (cx_cur_call c))) (\<lambda>read_only.
     if read_only then throw WriteProtection
     else bind call_depth (\<lambda>depth.
     if depth = MAX_CALL_DEPTH then throw Depth
     else bind (charge GAS_CREATE2) (\<lambda>_.
          bind pop4 (\<lambda>(value, off, len, salt).
          bind (on_call (on_memory (memory_get_slice off len))) (\<lambda>(code, mem_gas).
          bind (charge mem_gas) (\<lambda>_.
          bind (as_u64 len) (\<lambda>len64.
          bind (gas_checked_mul (to_word_size len64) GAS_SHA3_WORD) (\<lambda>hash_gas.
          bind (charge hash_gas) (\<lambda>_.
          bind (gets (\<lambda>c. fr_unused_gas (cx_cur_call c))) (\<lambda>gas_quota.
          let gas_quota = gas_quota - gas_quota div 64
          in bind (charge gas_quota) (\<lambda>_.
             bind get_callee (\<lambda>caller.
             let contract_addr = create_addr2 (h_keccak h) caller (to_big_endian salt)
                                   (hash_as_bytes (h_keccak h code))
             in bind (take_snapshot h) (\<lambda>snapshot.
                create_do h contract_addr caller code value gas_quota
                  (CallCreate \<lparr>cra_snapshot = snapshot, cra_contract_addr = contract_addr\<rparr>)))))))))))))))"

section \<open>The gas of a call\<close>

definition gas_call_common :: "u256 \<Rightarrow> ('s ctx, gas) exec" where
  "gas_call_common call_cost =
     bind get_fork (\<lambda>fork.
     bind (gets (\<lambda>c. fr_unused_gas (cx_cur_call c))) (\<lambda>unused_gas.
     let gas = unused_gas - unused_gas div 64
     in if fork \<ge> TangerineWhistle
           \<and> (case checked_as_u64 call_cost of Some cost \<Rightarrow> gas < cost | None \<Rightarrow> True)
        then ret gas
        else ok_or GasIntOverflow (checked_as_u64 call_cost)))"

definition use_gas_call_common_berlin :: "addr \<Rightarrow> ('s ctx, unit) exec" where
  "use_gas_call_common_berlin addr =
     bind get_fork (\<lambda>fork.
     bind (on_access (al_contains_addr addr)) (\<lambda>warm.
     when_do (fork \<ge> Berlin \<and> \<not> warm)
       (bind (on_access (al_add_addr addr)) (\<lambda>_.
        charge (GAS_COLD_ACCOUNT_ACCESS_COST_BERLIN - GAS_WARM_STORAGE_READ_COST_BERLIN)))))"

definition use_gas_call :: "'s host \<Rightarrow> u256 \<Rightarrow> addr \<Rightarrow> u256 \<Rightarrow> gas \<Rightarrow> ('s ctx, gas) exec" where
  "use_gas_call h val addr gas mem_gas =
     bind (use_gas_call_common_berlin addr) (\<lambda>_.
     bind (when_do (val \<noteq> 0)
             (bind get_fork (\<lambda>fork.
              bind (when_do (fork \<ge> SpuriousDragon)
                      (bind (gets (\<lambda>c. is_empty (h_keccak h) h (cx_state c) addr)) (\<lambda>empty.
                       when_do empty (charge GAS_CALL_NEW_ACCOUNT)))) (\<lambda>_.
              charge GAS_CALL_VALUE_TRANS)))) (\<lambda>_.
     bind (charge mem_gas) (\<lambda>_.
     bind (gas_call_common gas) (\<lambda>gas_tmp.
     bind (charge gas_tmp) (\<lambda>_. ret gas_tmp)))))"

definition use_gas_delegate_call :: "addr \<Rightarrow> u256 \<Rightarrow> gas \<Rightarrow> ('s ctx, gas) exec" where
  "use_gas_delegate_call addr gas mem_gas =
     bind (use_gas_call_common_berlin addr) (\<lambda>_.
     bind (charge mem_gas) (\<lambda>_.
     bind (gas_call_common gas) (\<lambda>gas_tmp.
     bind (charge gas_tmp) (\<lambda>_. ret gas_tmp))))"

definition use_gas_call_code :: "u256 \<Rightarrow> addr \<Rightarrow> u256 \<Rightarrow> gas \<Rightarrow> ('s ctx, gas) exec" where
  "use_gas_call_code val addr gas mem_gas =
     bind (use_gas_call_common_berlin addr) (\<lambda>_.
     bind (when_do (val \<noteq> 0) (charge GAS_CALL_VALUE_TRANS)) (\<lambda>_.
     bind (charge mem_gas) (\<lambda>_.
     bind (gas_call_common gas) (\<lambda>gas_tmp.
     bind (charge gas_tmp) (\<lambda>_. ret gas_tmp)))))"

definition use_gas_static_call :: "addr \<Rightarrow> u256 \<Rightarrow> gas \<Rightarrow> ('s ctx, gas) exec" where
  "use_gas_static_call addr gas mem_gas =
     bind (use_gas_call_common_berlin addr) (\<lambda>_.
     bind (charge mem_gas) (\<lambda>_.
     bind (gas_call_common gas) (\<lambda>gas_tmp.
     bind (charge gas_tmp) (\<lambda>_. ret gas_tmp))))"

text \<open>The base fee of the calls.\<close>

definition charge_call_base :: "('s ctx, unit) exec" where
  "charge_call_base =
     bind get_fork (\<lambda>fork.
     charge (if fork \<ge> Berlin then GAS_WARM_STORAGE_READ_COST_BERLIN
             else if fork \<ge> TangerineWhistle then GAS_CALL_TANGERINE
             else GAS_CALL_FRONTIER))"

section \<open>Calls\<close>

definition call_do ::
  "'s host \<Rightarrow> addr \<Rightarrow> addr \<Rightarrow> bytes \<Rightarrow> gas \<Rightarrow> wei \<Rightarrow> 's call_type \<Rightarrow> ('s ctx, unit) exec" where
  "call_do h callee caller input gas value args =
     bind call_depth (\<lambda>depth.
     if depth = MAX_CALL_DEPTH then throw Depth
     else bind (gets (\<lambda>c. ws_get_balance h (cx_state c) caller)) (\<lambda>balance.
     if balance < value then throw InsufficientBalance
     else bind (dirty_insert caller) (\<lambda>_.
          bind (dirty_insert callee) (\<lambda>_.
          bind (gets (\<lambda>c. map_of (env_precompiled (cx_env c)) callee)) (\<lambda>precompiled.
          bind (gets (\<lambda>c. ws_exist h (cx_state c) callee)) (\<lambda>exists.
          bind get_fork (\<lambda>fork.
          if \<not> exists \<and> precompiled = None \<and> fork \<ge> SpuriousDragon \<and> value = 0
          then return_without_callstack h args [] gas None
          else bind (when_do (\<not> exists) (upd_state (ws_create_account h callee))) (\<lambda>_.
               bind (transfer h caller callee value) (\<lambda>done.
               if \<not> done then panic
               else case precompiled of
                      None \<Rightarrow>
                        bind (gets (\<lambda>c. ws_get_code h (cx_state c) callee)) (\<lambda>code.
                        if code_bytes code \<noteq> []
                        then call_push code input value callee caller args gas False
                        else return_without_callstack h args [] gas None)
                    | Some contract \<Rightarrow>
                        case contract input of (data, err) \<Rightarrow>
                          return_without_callstack h args data gas err)))))))))"

definition call_begin :: "'s host \<Rightarrow> ('s ctx, unit) exec" where
  "call_begin h =
     bind charge_call_base (\<lambda>_.
     bind pop3 (\<lambda>(gas, a, val).
     bind pop2 (\<lambda>(in_off, in_len).
     bind pop2 (\<lambda>(ret_off, ret_len).
     bind (on_call (on_memory (memory_get_slice in_off in_len))) (\<lambda>(input, mem_gas).
     let addr = addr_of_u256 a
     in bind (gets (\<lambda>c. fr_read_only (cx_cur_call c))) (\<lambda>read_only.
        if read_only \<and> val \<noteq> 0 then throw WriteProtection
        else bind (use_gas_call h val addr gas mem_gas) (\<lambda>gas_quota.
             bind (if val = 0 then u64_add gas_quota GAS_CALL_STIPEND else ret gas_quota) (\<lambda>gas_quota.
             bind get_callee (\<lambda>caller.
             bind (take_snapshot h) (\<lambda>snapshot.
             call_do h addr caller input gas_quota val
               (CallCall \<lparr>ca_snapshot = Some snapshot, ca_ret_off = ret_off, ca_ret_len = ret_len\<rparr>)))))))))))"

text \<open>
  The last part of \<open>delegate_call_begin\<close>, \<open>call_code_begin\<close> and \<open>static_call_begin\<close>: run the precompiled
  contract found under \<open>callee\<close>, or push a frame for the code of \<open>addr\<close>.
\<close>

definition enter_code ::
  "'s host \<Rightarrow> addr \<Rightarrow> addr \<Rightarrow> addr \<Rightarrow> bytes \<Rightarrow> wei \<Rightarrow> 's call_args \<Rightarrow> gas \<Rightarrow> bool \<Rightarrow> ('s ctx, unit) exec" where
  "enter_code h addr callee caller input value args gas_quota read_only =
     bind (gets (\<lambda>c. map_of (env_precompiled (cx_env c)) callee)) (\<lambda>precompiled.
     case precompiled of
       None \<Rightarrow>
         bind (gets (\<lambda>c. ws_get_code h (cx_state c) addr)) (\<lambda>code.
         call_push code input value callee caller (CallCall args) gas_quota read_only)
     | Some contract \<Rightarrow>
         case contract input of (data, err) \<Rightarrow>
           return_without_callstack h (CallCall args) data gas_quota err)"

definition delegate_call_begin :: "'s host \<Rightarrow> ('s ctx, unit) exec" where
  "delegate_call_begin h =
     bind get_fork (\<lambda>fork.
     if fork < Homestead then throw InvalidOpcode
     else bind call_depth (\<lambda>depth.
     if depth = MAX_CALL_DEPTH then throw Depth
     else bind charge_call_base (\<lambda>_.
          bind pop2 (\<lambda>(gas, a).
          bind pop2 (\<lambda>(in_off, in_len).
          bind pop2 (\<lambda>(ret_off, ret_len).
          bind (on_call (on_memory (memory_get_slice in_off in_len))) (\<lambda>(input, mem_gas).
          let addr = addr_of_u256 a
          in bind (use_gas_delegate_call addr gas mem_gas) (\<lambda>gas_quota.
             bind (gets cx_cur_call) (\<lambda>cur.
             bind (take_snapshot h) (\<lambda>snapshot.
             enter_code h addr (fr_callee cur) (fr_caller cur) input (fr_value cur)
               \<lparr>ca_snapshot = Some snapshot, ca_ret_off = ret_off, ca_ret_len = ret_len\<rparr>
               gas_quota False))))))))))"

definition call_code_begin :: "'s host \<Rightarrow> ('s ctx, unit) exec" where
  "call_code_begin h =
     bind call_depth (\<lambda>depth.
     if depth = MAX_CALL_DEPTH then throw Depth
     else bind charge_call_base (\<lambda>_.
          bind pop3 (\<lambda>(gas, a, val).
          bind pop2 (\<lambda>(in_off, in_len).
          bind pop2 (\<lambda>(ret_off, ret_len).
          bind (on_call (on_memory (memory_get_slice in_off in_len))) (\<lambda>(input, mem_gas).
          let addr = addr_of_u256 a
          in bind (use_gas_call_code val addr gas mem_gas) (\<lambda>gas_quota.
             bind (if val = 0 then u64_add gas_quota GAS_CALL_STIPEND else ret gas_quota) (\<lambda>gas_quota.
             bind get_callee (\<lambda>callee.
             bind (take_snapshot h) (\<lambda>snapshot.
             bind (gets (\<lambda>c. ws_get_balance h (cx_state c) callee)) (\<lambda>balance.
             if balance < val then throw InsufficientBalance
             else enter_code h addr callee callee input val
                    \<lparr>ca_snapshot = Some snapshot, ca_ret_off = ret_off, ca_ret_len = ret_len\<rparr>
                    gas_quota False)))))))))))"

definition static_call_begin :: "'s host \<Rightarrow> ('s ctx, unit) exec" where
  "static_call_begin h =
     bind get_fork (\<lambda>fork.
     if fork < Byzantium then throw InvalidOpcode
     else bind call_depth (\<lambda>depth.
     if depth = MAX_CALL_DEPTH then throw Depth
     else bind (charge (if fork \<ge> Berlin then GAS_WARM_STORAGE_READ_COST_BERLIN else GAS_CALL_TANGERINE)) (\<lambda>_.
          bind pop2 (\<lambda>(gas, a).
          bind pop2 (\<lambda>(in_off, in_len).
          bind pop2 (\<lambda>(ret_off, ret_len).
          bind (on_call (on_memory (memory_get_slice in_off in_len))) (\<lambda>(input, mem_gas).
          let addr = addr_of_u256 a
          in bind (use_gas_static_call addr gas mem_gas) (\<lambda>gas_quota.
             bind get_callee (\<lambda>caller.
             enter_code h addr addr caller input 0
               \<lparr>ca_snapshot = None, ca_ret_off = ret_off, ca_ret_len = ret_len\<rparr>
               gas_quota True)))))))))"

section \<open>Return, revert and self-destruct\<close>

definition ctx_return :: "'s host \<Rightarrow> ('s ctx, unit) exec" where
  "ctx_return h =
     bind pop2 (\<lambda>(off, len).
     bind (on_call (on_memory (memory_get_slice off len))) (\<lambda>(retval, mem_gas).
     bind (charge mem_gas) (\<lambda>_.
     finish_call h retval None)))"

definition ctx_revert :: "'s host \<Rightarrow> ('s ctx, unit) exec" where
  "ctx_revert h =
     bind get_fork (\<lambda>fork.
     if fork < Byzantium then throw InvalidOpcode
     else bind pop2 (\<lambda>(off, len).
          bind (on_call (on_memory (memory_get_slice off len))) (\<lambda>(retval, mem_gas).
          bind (charge mem_gas) (\<lambda>_.
          finish_call h retval (Some Reverted)))))"

definition ctx_self_destruct :: "'s host \<Rightarrow> ('s ctx, unit) exec" where
  "ctx_self_destruct h =
     bind (gets (\<lambda>c. fr_read_only (cx_cur_call c))) (\<lambda>read_only.
     if read_only then throw WriteProtection
     else bind pop1 (\<lambda>b.
          let beneficiary = addr_of_u256 b
          in bind get_fork (\<lambda>fork.
             bind get_callee (\<lambda>callee.
             bind (on_access (al_contains_addr beneficiary)) (\<lambda>warm.
             bind (when_do (fork \<ge> Berlin \<and> \<not> warm)
                     (bind (on_access (al_add_addr beneficiary)) (\<lambda>_.
                      charge GAS_COLD_ACCOUNT_ACCESS_COST_BERLIN))) (\<lambda>_.
             bind (when_do (fork \<ge> TangerineWhistle)
                     (bind (charge GAS_SELF_DESTRUCT) (\<lambda>_.
                      bind (gets cx_state) (\<lambda>state.
                      bind (if fork \<ge> SpuriousDragon
                            then when_do (is_empty (h_keccak h) h state beneficiary
                                          \<and> ws_get_balance h state callee \<noteq> 0)
                                   (charge GAS_CREATE_BY_SELF_DESTRUCT)
                            else when_do (\<not> ws_exist h state beneficiary)
                                   (charge GAS_CREATE_BY_SELF_DESTRUCT)) (\<lambda>_.
                      bind (is_destroyed callee) (\<lambda>destroyed.
                      when_do (fork < London \<and> \<not> destroyed) (add_refund GAS_SELF_DESTRUCT_REFUND))))))) (\<lambda>_.
             bind (gets (\<lambda>c. ws_get_balance h (cx_state c) callee)) (\<lambda>balance.
             bind (upd_state (\<lambda>s. snd (add_balance h beneficiary balance s))) (\<lambda>_.
             bind (upd_state (ws_set_balance h callee 0)) (\<lambda>_.
             bind (modify (\<lambda>c. c\<lparr>cx_destroyed := List.insert callee (cx_destroyed c)\<rparr>)) (\<lambda>_.
             bind (dirty_insert callee) (\<lambda>_.
             bind (dirty_insert beneficiary) (\<lambda>_.
             finish_call h [] None)))))))))))))"

end
