(* ===== verification/ExecLoop.thy ===== *)
theory ExecLoop
  imports ExecCalls
begin

text \<open>
  The interpreter loop \<open>TxExecContext::exec\<close> and the start of a transaction, \<open>TxExecState::new\<close>, of
  \<open>src/src/core/exec.rs\<close>: decoding, the match over the opcodes, the unwinding of failed frames, the
  program counter, and the loop with a bound on the number of rounds (\<open>None\<close> when it is used up; a
  transaction of this interpreter need not end, since a call may return more gas than it was given).
\<close>

record inst =
  in_opcode :: opcode
  in_data :: "bytes option"
  in_pos :: nat

definition decode :: "bytes \<Rightarrow> nat \<Rightarrow> inst option" where
  "decode code pc =
     (let c = (if pc < length code then code ! pc else 0)
      in if 0x60 \<le> c \<and> c \<le> 0x7f then
           let base = pc + 1; n = unat (c - 0x60 + 1)
           in if base + n \<le> length code
              then Some \<lparr>in_opcode = OpFamily OpPush, in_data = Some (take n (drop base code)), in_pos = 0\<rparr>
              else None
         else if 0x80 \<le> c \<and> c \<le> 0x8f then
           Some \<lparr>in_opcode = OpFamily OpDup, in_data = None, in_pos = unat (c - 0x80 + 1)\<rparr>
         else if 0x90 \<le> c \<and> c \<le> 0x9f then
           Some \<lparr>in_opcode = OpFamily OpSwap, in_data = None, in_pos = unat (c - 0x90 + 1)\<rparr>
         else case opcode_from_u8 c of
                Some opcode \<Rightarrow> Some \<lparr>in_opcode = opcode, in_data = None, in_pos = 0\<rparr>
              | None \<Rightarrow> Some \<lparr>in_opcode = OpSystem OpInvalid, in_data = None, in_pos = 0\<rparr>)"

section \<open>The match over the opcodes\<close>

definition env_arm :: "'s host \<Rightarrow> env_op \<Rightarrow> ('s ctx, unit) exec" where
  "env_arm h op =
     (case env_frame_arm op of
        Some m \<Rightarrow> on_call m
      | None \<Rightarrow>
          (case op of
             OpBalance \<Rightarrow> ctx_balance h
           | OpOrigin \<Rightarrow> ctx_origin
           | OpGasPrice \<Rightarrow> ctx_gas_price
           | OpExtCodeSize \<Rightarrow> ctx_ext_code_size h
           | OpExtCodeCopy \<Rightarrow> ctx_ext_code_copy h
           | OpExtCodeHash \<Rightarrow> ctx_ext_code_hash h
           | _ \<Rightarrow> throw InvalidOpcode))"

definition block_arm :: "'s host \<Rightarrow> block_op \<Rightarrow> ('s ctx, unit) exec" where
  "block_arm h op =
     (case op of
        OpBlockHash \<Rightarrow> ctx_block_hash
      | OpCoinbase \<Rightarrow> ctx_coinbase
      | OpTimestamp \<Rightarrow> ctx_timestamp
      | OpNumber \<Rightarrow> ctx_number
      | OpDifficulty \<Rightarrow> ctx_difficulty
      | OpGasLimit \<Rightarrow> ctx_gas_limit
      | OpChainId \<Rightarrow> ctx_chain_id
      | OpSelfBalance \<Rightarrow> ctx_self_balance h
      | OpBaseFee \<Rightarrow> ctx_base_fee)"

definition flow_arm :: "'s host \<Rightarrow> flow_op \<Rightarrow> ('s ctx, unit) exec" where
  "flow_arm h op =
     (case flow_frame_arm op of
        Some m \<Rightarrow> on_call m
      | None \<Rightarrow>
          (case op of
             OpSLoad \<Rightarrow> ctx_sload h
           | OpSStore \<Rightarrow> ctx_sstore h
           | OpJump \<Rightarrow> ctx_jump
           | OpJumpI \<Rightarrow> ctx_jumpi
           | _ \<Rightarrow> throw InvalidOpcode))"

definition system_arm :: "'s host \<Rightarrow> system_op \<Rightarrow> ('s ctx, unit) exec" where
  "system_arm h op =
     (case op of
        OpCreate \<Rightarrow> create_begin h
      | OpCall \<Rightarrow> call_begin h
      | OpCallCode \<Rightarrow> call_code_begin h
      | OpReturn \<Rightarrow> ctx_return h
      | OpDelegateCall \<Rightarrow> delegate_call_begin h
      | OpCreate2 \<Rightarrow> create2_begin h
      | OpStaticCall \<Rightarrow> static_call_begin h
      | OpRevert \<Rightarrow> ctx_revert h
      | OpSelfDestruct \<Rightarrow> ctx_self_destruct h
      | OpInvalid \<Rightarrow> throw InvalidOpcode)"

definition exec_arm :: "'s host \<Rightarrow> inst \<Rightarrow> ('s ctx, unit) exec" where
  "exec_arm h i =
     (case in_opcode i of
        OpStop \<Rightarrow> finish_call h [] None
      | OpArith op \<Rightarrow> on_call (arith_arm op)
      | OpLogic op \<Rightarrow> on_call (logic_arm op)
      | OpSha3 \<Rightarrow> on_call (frame_sha3 (h_keccak h))
      | OpEnv op \<Rightarrow> env_arm h op
      | OpBlock op \<Rightarrow> block_arm h op
      | OpFlow op \<Rightarrow> flow_arm h op
      | OpLogN n \<Rightarrow> ctx_log h n
      | OpFamily op \<Rightarrow> on_call (family_arm op (in_data i) (in_pos i))
      | OpSystem op \<Rightarrow> system_arm h op
      | _ \<Rightarrow> throw InvalidOpcode)"

text \<open>The instructions that set \<open>enter_call\<close>.\<close>

definition enters_call :: "opcode \<Rightarrow> bool" where
  "enters_call op \<longleftrightarrow> op \<in> {OpSystem OpCreate, OpSystem OpCall, OpSystem OpCallCode,
     OpSystem OpDelegateCall, OpSystem OpCreate2, OpSystem OpStaticCall}"

section \<open>The loop\<close>

text \<open>
  \<open>while let Err(err) = succ\<close>: each round pops a frame, so as many rounds as there are frames are enough
  (a further one would pop from the empty stack, which panics).
\<close>

primrec unwind :: "'s host \<Rightarrow> nat \<Rightarrow> exec_result \<Rightarrow> ('s ctx, unit) exec" where
  "unwind h 0 succ = (case succ of None \<Rightarrow> ret () | Some _ \<Rightarrow> panic)"
| "unwind h (Suc n) succ =
     (case succ of
        None \<Rightarrow> ret ()
      | Some err \<Rightarrow> bind (try_result (finish_call h [] (Some err))) (unwind h n))"

definition step :: "'s host \<Rightarrow> ('s ctx, unit) exec" where
  "step h =
     bind (gets cx_cur_call) (\<lambda>call.
     bind (unwrap (decode (code_bytes (fr_code call)) (fr_pc call))) (\<lambda>i.
     bind (try_result (exec_arm h i)) (\<lambda>succ.
     bind (gets (\<lambda>c. length (cx_call_stack c))) (\<lambda>frames.
     bind (unwind h frames succ) (\<lambda>_.
     advance_pc (case in_data i of Some d \<Rightarrow> length d | None \<Rightarrow> 0) (enters_call (in_opcode i)))))))"

text \<open>The loop of \<open>exec\<close>, for at most the given number of rounds.\<close>

fun exec_loop :: "'s host \<Rightarrow> nat \<Rightarrow> 's ctx \<Rightarrow> ('s ctx, tx_exec_result) outcome option" where
  "exec_loop h fuel c =
     (case cx_status c of
        Finished res \<Rightarrow> Some (Ok res c)
      | Running \<Rightarrow>
          (case fuel of
             0 \<Rightarrow> None
           | Suc n \<Rightarrow>
               (case step h c of
                  Ok _ t \<Rightarrow> exec_loop h n t
                | Err e t \<Rightarrow> Some (Err e t)
                | Panic \<Rightarrow> Some Panic)))"

declare exec_loop.simps [simp del]

section \<open>The start of a transaction\<close>

text \<open>The context \<open>TxExecState::new\<close> builds, with a dummy frame that is never executed.\<close>

definition tx_context ::
  "'s host \<Rightarrow> addr \<Rightarrow> gas \<Rightarrow> wei \<Rightarrow> access_list \<Rightarrow> 's \<Rightarrow> 's \<Rightarrow> exec_env \<Rightarrow> 's ctx" where
  "tx_context h from' gas gas_price al state committed_state env =
     \<lparr>cx_call_stack = [],
      cx_cur_call = frame_new (PlainCode_new (h_keccak h) []) [] 0 0 0
        (CallCall \<lparr>ca_snapshot = None, ca_ret_off = 0, ca_ret_len = 0\<rparr>) gas False (bi_fork (env_block env)),
      cx_state = state, cx_committed_state = committed_state, cx_refund = 0, cx_access_list = al,
      cx_destroyed = [], cx_dirty = [], cx_status = Running, cx_origin = from', cx_gas_price = gas_price,
      cx_env = env\<rparr>"

text \<open>The first part of the transaction's future: begin the call or the creation.\<close>

definition tx_start :: "'s host \<Rightarrow> addr \<Rightarrow> addr option \<Rightarrow> wei \<Rightarrow> gas \<Rightarrow> bytes \<Rightarrow> ('s ctx, unit) exec" where
  "tx_start h from' to value gas input =
     (case to of
        Some to \<Rightarrow>
          bind (gets (\<lambda>c. ws_get_nonce h (cx_state c) from')) (\<lambda>nonce.
          bind (u64_add nonce 1) (\<lambda>n.
          bind (upd_state (ws_set_nonce h from' n)) (\<lambda>_.
          bind (take_snapshot h) (\<lambda>snapshot.
          call_do h to from' input gas value
            (CallTx \<lparr>txa_snapshot = snapshot, txa_aux = Sender from'\<rparr>)))))
      | None \<Rightarrow>
          bind (take_snapshot h) (\<lambda>snapshot.
          bind (gets (\<lambda>c. ws_get_nonce h (cx_state c) from')) (\<lambda>nonce.
          let contract_addr = create_addr (h_keccak h) (h_rlp_pair h) from' nonce
          in create_do h contract_addr from' input value gas
               (CallTx \<lparr>txa_snapshot = snapshot, txa_aux = Contract contract_addr\<rparr>))))"

definition tx_begin :: "'s host \<Rightarrow> addr \<Rightarrow> addr option \<Rightarrow> wei \<Rightarrow> gas \<Rightarrow> bytes \<Rightarrow> ('s ctx, unit) exec" where
  "tx_begin h from' to value gas input =
     bind (u64_sub gas 21000) (\<lambda>gas.
     bind (try_result (tx_start h from' to value gas input)) (\<lambda>res.
     case res of
       Some err \<Rightarrow> modify (\<lambda>c. c\<lparr>cx_status := Finished (TxReverted [] gas err)\<rparr>)
     | None \<Rightarrow> ret ()))"

definition tx_exec ::
  "'s host \<Rightarrow> nat \<Rightarrow> addr \<Rightarrow> addr option \<Rightarrow> wei \<Rightarrow> gas \<Rightarrow> wei \<Rightarrow> bytes \<Rightarrow> tx_access_tuple list option \<Rightarrow>
   's \<Rightarrow> 's \<Rightarrow> exec_env \<Rightarrow> ('s ctx, tx_exec_result) outcome option" where
  "tx_exec h fuel from' to value gas gas_price input access_list state committed_state env =
     (case al_init from' to (map fst (env_precompiled env)) access_list al_empty of
        Ok _ al \<Rightarrow>
          (case tx_begin h from' to value gas input
                  (tx_context h from' gas gas_price al state committed_state env) of
             Ok _ c \<Rightarrow> exec_loop h fuel c
           | Err e c \<Rightarrow> Some (Err e c)
           | Panic \<Rightarrow> Some Panic)
      | Err e _ \<Rightarrow> Some Panic
      | Panic \<Rightarrow> Some Panic)"

end
