(* ===== verification/DummyStore.thy ===== *)
theory DummyStore
  imports WorldState
begin

text \<open>
  The reference store of the tools, \<open>src/tools/src/dummy.rs\<close>: a map of accounts that implements the
  whole trait \<open>WorldState\<close> in place. A snapshot is a clone. Logs are only printed.
\<close>

record dummy_account =
  da_state :: "hash \<rightharpoonup> u256"
  da_balance :: wei
  da_nonce :: nat
  da_code :: plain_code

definition dummy_account_default :: "(bytes \<Rightarrow> hash) \<Rightarrow> dummy_account" where
  "dummy_account_default keccak =
     \<lparr>da_state = Map.empty, da_balance = 0, da_nonce = 0, da_code = PlainCode_new keccak []\<rparr>"

type_synonym dummy_store = "addr \<rightharpoonup> dummy_account"

definition dummy_new :: dummy_store where
  "dummy_new = Map.empty"

text \<open>\<open>get_account\<close>: the entry of the contract, inserted when absent, updated through the reference.\<close>

definition dummy_get_account ::
  "(bytes \<Rightarrow> hash) \<Rightarrow> addr \<Rightarrow> (dummy_account \<Rightarrow> dummy_account) \<Rightarrow> dummy_store \<Rightarrow> dummy_store" where
  "dummy_get_account keccak contract upd s =
     s(contract \<mapsto> upd (case s contract of None \<Rightarrow> dummy_account_default keccak | Some acc \<Rightarrow> acc))"

definition dummy_get_state :: "dummy_store \<Rightarrow> addr \<Rightarrow> hash \<Rightarrow> u256" where
  "dummy_get_state s contract key =
     (case Option.bind (s contract) (\<lambda>acc. da_state acc key) of None \<Rightarrow> 0 | Some v \<Rightarrow> v)"

definition dummy_get_balance :: "dummy_store \<Rightarrow> addr \<Rightarrow> wei" where
  "dummy_get_balance s account = (case s account of None \<Rightarrow> 0 | Some acc \<Rightarrow> da_balance acc)"

definition dummy_get_code :: "(bytes \<Rightarrow> hash) \<Rightarrow> dummy_store \<Rightarrow> addr \<Rightarrow> plain_code" where
  "dummy_get_code keccak s contract =
     (case s contract of None \<Rightarrow> PlainCode_new keccak [] | Some acc \<Rightarrow> da_code acc)"

definition dummy_get_nonce :: "dummy_store \<Rightarrow> addr \<Rightarrow> nat" where
  "dummy_get_nonce s contract = (case s contract of None \<Rightarrow> 0 | Some acc \<Rightarrow> da_nonce acc)"

definition dummy_exist :: "dummy_store \<Rightarrow> addr \<Rightarrow> bool" where
  "dummy_exist s contract = (s contract \<noteq> None)"

definition dummy_set_state :: "(bytes \<Rightarrow> hash) \<Rightarrow> addr \<Rightarrow> hash \<Rightarrow> u256 \<Rightarrow> dummy_store \<Rightarrow> dummy_store" where
  "dummy_set_state keccak contract key val =
     dummy_get_account keccak contract (\<lambda>acc. acc\<lparr>da_state := (da_state acc)(key \<mapsto> val)\<rparr>)"

definition dummy_set_balance :: "(bytes \<Rightarrow> hash) \<Rightarrow> addr \<Rightarrow> wei \<Rightarrow> dummy_store \<Rightarrow> dummy_store" where
  "dummy_set_balance keccak contract balance =
     dummy_get_account keccak contract (\<lambda>acc. acc\<lparr>da_balance := balance\<rparr>)"

definition dummy_set_code :: "(bytes \<Rightarrow> hash) \<Rightarrow> addr \<Rightarrow> bytes \<Rightarrow> dummy_store \<Rightarrow> dummy_store" where
  "dummy_set_code keccak contract code =
     dummy_get_account keccak contract (\<lambda>acc. acc\<lparr>da_code := PlainCode_new keccak code\<rparr>)"

definition dummy_set_nonce :: "(bytes \<Rightarrow> hash) \<Rightarrow> addr \<Rightarrow> nat \<Rightarrow> dummy_store \<Rightarrow> dummy_store" where
  "dummy_set_nonce keccak contract nonce =
     dummy_get_account keccak contract (\<lambda>acc. acc\<lparr>da_nonce := nonce\<rparr>)"

definition dummy_create_account :: "(bytes \<Rightarrow> hash) \<Rightarrow> addr \<Rightarrow> dummy_store \<Rightarrow> dummy_store" where
  "dummy_create_account keccak addr s =
     (let old_balance = dummy_get_balance s addr;
          acc = dummy_account_default keccak
      in s(addr \<mapsto> (if old_balance \<noteq> 0 then acc\<lparr>da_balance := old_balance\<rparr> else acc)))"

definition dummy_delete_account :: "addr \<Rightarrow> dummy_store \<Rightarrow> dummy_store" where
  "dummy_delete_account addr s = s(addr := None)"

definition dummy_add_log :: "addr \<Rightarrow> hash list \<Rightarrow> bytes \<Rightarrow> u256 \<Rightarrow> dummy_store \<Rightarrow> dummy_store option" where
  "dummy_add_log contract topics data block_number s = Some s"

definition dummy_snapshot :: "dummy_store \<Rightarrow> dummy_store \<times> dummy_store" where
  "dummy_snapshot s = (s, s)"

definition dummy_rollback :: "dummy_store \<Rightarrow> dummy_store \<Rightarrow> dummy_store" where
  "dummy_rollback state s = state"

definition dummy_ws :: "(bytes \<Rightarrow> hash) \<Rightarrow> dummy_store world_state" where
  "dummy_ws keccak =
     \<lparr>ws_get_state = dummy_get_state, ws_get_balance = dummy_get_balance,
      ws_get_code = dummy_get_code keccak, ws_get_nonce = dummy_get_nonce, ws_exist = dummy_exist,
      ws_set_state = dummy_set_state keccak, ws_set_balance = dummy_set_balance keccak,
      ws_set_code = dummy_set_code keccak, ws_set_nonce = dummy_set_nonce keccak,
      ws_create_account = dummy_create_account keccak, ws_delete_account = dummy_delete_account,
      ws_add_log = dummy_add_log, ws_snapshot = dummy_snapshot, ws_rollback = dummy_rollback\<rparr>"

lemmas dummy_reads = dummy_get_state_def dummy_get_balance_def dummy_get_code_def dummy_get_nonce_def
  dummy_exist_def

lemmas dummy_writes = dummy_set_state_def dummy_set_balance_def dummy_set_code_def dummy_set_nonce_def
  dummy_get_account_def dummy_create_account_def dummy_delete_account_def dummy_account_default_def

lemma dummy_ws_sel [simp]:
  "ws_get_state (dummy_ws keccak) = dummy_get_state"
  "ws_get_balance (dummy_ws keccak) = dummy_get_balance"
  "ws_get_code (dummy_ws keccak) = dummy_get_code keccak"
  "ws_get_nonce (dummy_ws keccak) = dummy_get_nonce"
  "ws_exist (dummy_ws keccak) = dummy_exist"
  "ws_set_state (dummy_ws keccak) = dummy_set_state keccak"
  "ws_set_balance (dummy_ws keccak) = dummy_set_balance keccak"
  "ws_set_code (dummy_ws keccak) = dummy_set_code keccak"
  "ws_set_nonce (dummy_ws keccak) = dummy_set_nonce keccak"
  "ws_create_account (dummy_ws keccak) = dummy_create_account keccak"
  "ws_delete_account (dummy_ws keccak) = dummy_delete_account"
  "ws_add_log (dummy_ws keccak) = dummy_add_log"
  "ws_snapshot (dummy_ws keccak) = dummy_snapshot"
  "ws_rollback (dummy_ws keccak) = dummy_rollback"
  by (simp_all add: dummy_ws_def)

lemma dummy_view:
  "view (dummy_ws keccak) s = \<lparr>w_state = dummy_get_state s, w_balance = dummy_get_balance s,
     w_code = dummy_get_code keccak s, w_nonce = dummy_get_nonce s, w_exist = dummy_exist s\<rparr>"
  by (simp add: view_def)

interpretation dummy: full_world_state keccak "dummy_ws keccak" "\<lambda>_. True" for keccak
  by unfold_locales
    (auto simp: dummy_view world_set_defs dummy_reads dummy_writes dummy_snapshot_def dummy_rollback_def
      fun_eq_iff Let_def split: option.splits)

text \<open>
  Transfers keep the money: when \<open>transfer_balance\<close> succeeds on the reference store, the sum of
  all balances is unchanged (also when the sender is the receiver) and the sender had the amount; when
  it fails, either the sender had less and nothing changed, or the receiver's balance would have
  overflowed.
\<close>

theorem dummy_transfer_conserves:
  "case transfer_balance (dummy_ws keccak) src dst v s of
     (True, t) \<Rightarrow> total_supply (view (dummy_ws keccak) t) = total_supply (view (dummy_ws keccak) s)
       \<and> v \<le> dummy_get_balance s src
   | (False, t) \<Rightarrow> dummy_get_balance s src < v \<and> t = s
       \<or> 2 ^ 256 \<le> unat (dummy_get_balance t dst) + unat v"
proof (cases "transfer_balance (dummy_ws keccak) src dst v s")
  case (Pair r t)
  then show ?thesis
    using dummy.transfer_balance_supply [of keccak src dst v s t]
      dummy.transfer_balance_fails [of keccak src dst v s t]
    by (cases r) simp_all
qed

end
