(* ===== verification/SampleHost.thy ===== *)
theory SampleHost
  imports ExecLoop DummyStore
begin

text \<open>
  The interpreter on the reference store: the host made of \<open>DummyStateStore\<close> (as the tools run it) and
  given hash and RLP functions, and small concrete contexts on which the theorems are applied.
\<close>

definition dummy_host :: "(bytes \<Rightarrow> hash) \<Rightarrow> (bytes \<Rightarrow> nat \<Rightarrow> bytes) \<Rightarrow> dummy_store host" where
  "dummy_host keccak rlp = world_state.extend (dummy_ws keccak) (host.fields keccak rlp)"

lemma dummy_host_sel [simp]:
  "ws_get_state (dummy_host keccak rlp) = dummy_get_state"
  "ws_get_balance (dummy_host keccak rlp) = dummy_get_balance"
  "ws_get_code (dummy_host keccak rlp) = dummy_get_code keccak"
  "ws_get_nonce (dummy_host keccak rlp) = dummy_get_nonce"
  "ws_exist (dummy_host keccak rlp) = dummy_exist"
  "ws_set_state (dummy_host keccak rlp) = dummy_set_state keccak"
  "ws_set_balance (dummy_host keccak rlp) = dummy_set_balance keccak"
  "ws_set_code (dummy_host keccak rlp) = dummy_set_code keccak"
  "ws_set_nonce (dummy_host keccak rlp) = dummy_set_nonce keccak"
  "ws_create_account (dummy_host keccak rlp) = dummy_create_account keccak"
  "ws_delete_account (dummy_host keccak rlp) = dummy_delete_account"
  "ws_add_log (dummy_host keccak rlp) = dummy_add_log"
  "ws_snapshot (dummy_host keccak rlp) = dummy_snapshot"
  "ws_rollback (dummy_host keccak rlp) = dummy_rollback"
  "h_keccak (dummy_host keccak rlp) = keccak"
  "h_rlp_pair (dummy_host keccak rlp) = rlp"
  by (simp_all add: dummy_host_def world_state.defs host.defs dummy_ws_def)

lemma dummy_host_view: "view (dummy_host keccak rlp) s = view (dummy_ws keccak) s"
  by (simp add: view_def)

interpretation dhost: full_world_state keccak "dummy_host keccak rlp" "\<lambda>_. True" for keccak rlp
  using dummy.full_world_state_axioms
  unfolding full_world_state_def full_world_state_axioms_def world_state_def dummy_host_view by simp

abbreviation no_hash :: "bytes \<Rightarrow> hash" where
  "no_hash \<equiv> (\<lambda>_. 0)"

abbreviation no_rlp :: "bytes \<Rightarrow> nat \<Rightarrow> bytes" where
  "no_rlp \<equiv> (\<lambda>_ _. [])"

definition sample_env :: "fork \<Rightarrow> exec_env" where
  "sample_env fork =
     \<lparr>env_chain_id = 1,
      env_block = \<lparr>bi_coinbase = 0, bi_timestamp = 0, bi_number = 0, bi_difficulty = 0, bi_gas_limit = 0,
                   bi_base_fee = 0, bi_fork = fork\<rparr>,
      env_precompiled = [], env_block_hash = (\<lambda>_. 0)\<rparr>"

text \<open>A running transaction with one frame: account 2 runs the given code, called by account 1.\<close>

definition sample_ctx :: "fork \<Rightarrow> bool \<Rightarrow> gas \<Rightarrow> bytes \<Rightarrow> u256 list \<Rightarrow> dummy_store ctx" where
  "sample_ctx fork ro gas code xs =
     (tx_context (dummy_host no_hash no_rlp) 1 gas 0
        \<lparr>al_addrs = [1 \<mapsto> - 1, 2 \<mapsto> - 1], al_slots = []\<rparr> dummy_new dummy_new (sample_env fork))
     \<lparr>cx_call_stack := [frame_new (PlainCode_new no_hash []) [] 0 0 0
        (CallCall \<lparr>ca_snapshot = None, ca_ret_off = 0, ca_ret_len = 0\<rparr>) gas False fork],
      cx_cur_call := (frame_new (PlainCode_new no_hash code) [] 0 2 1
        (CallTx \<lparr>txa_snapshot = dummy_new, txa_aux = Sender 1\<rparr>) gas ro fork)
        \<lparr>fr_stack := \<lparr>stack_array = (\<lambda>i. rev xs ! i), stack_top = length xs\<rparr>\<rparr>\<rparr>"

lemma sample_ctx_frame [simp]:
  "fr_unused_gas (cx_cur_call (sample_ctx fork ro gas code xs)) = gas"
  "fr_read_only (cx_cur_call (sample_ctx fork ro gas code xs)) = ro"
  "fr_fork (cx_cur_call (sample_ctx fork ro gas code xs)) = fork"
  "fr_callee (cx_cur_call (sample_ctx fork ro gas code xs)) = 2"
  "fr_pc (cx_cur_call (sample_ctx fork ro gas code xs)) = 0"
  "fr_code (cx_cur_call (sample_ctx fork ro gas code xs)) = PlainCode_new no_hash code"
  "fr_memory (cx_cur_call (sample_ctx fork ro gas code xs)) = memory_new"
  "fr_call_type (cx_cur_call (sample_ctx fork ro gas code xs)) = CallTx \<lparr>txa_snapshot = dummy_new, txa_aux = Sender 1\<rparr>"
  "stack_list (fr_stack (cx_cur_call (sample_ctx fork ro gas code xs))) = xs"
  "length xs \<le> MAX_STACK_DEPTH \<Longrightarrow> frame_wf (cx_cur_call (sample_ctx fork ro gas code xs))"
  by (auto simp: sample_ctx_def tx_context_def frame_new_def frame_wf_def stack_wf_def stack_list_def rev_nth
      intro!: nth_equalityI)

lemma sample_ctx_sel [simp]:
  "cx_status (sample_ctx fork ro gas code xs) = Running"
  "cx_state (sample_ctx fork ro gas code xs) = dummy_new"
  "cx_committed_state (sample_ctx fork ro gas code xs) = dummy_new"
  "cx_refund (sample_ctx fork ro gas code xs) = 0"
  "length (cx_call_stack (sample_ctx fork ro gas code xs)) = 1"
  "al_wf (cx_access_list (sample_ctx fork ro gas code xs))"
  by (auto simp: sample_ctx_def tx_context_def al_wf_def split: if_splits)

end
