(* ===== verification/ExecArith.thy ===== *)
theory ExecArith
  imports SampleHost
begin

text \<open>
  The arithmetic and logic instructions of the interpreter against a reference on integers: which operands they take, what they
  push, what they cost, and every way they fail.
\<close>

section \<open>The reference\<close>

text \<open>
  The result of an arithmetic instruction on the operands, the top of the stack first. \<open>SIGNEXTEND\<close> is the one of the code,
  which keeps the higher bits when the sign bit is clear.
\<close>

primrec arith_ref :: "arith_op \<Rightarrow> u256 \<Rightarrow> u256 \<Rightarrow> u256 \<Rightarrow> u256" where
  "arith_ref OpAdd a b _ = word_of_nat (unat a + unat b)"
| "arith_ref OpMul a b _ = word_of_nat (unat a * unat b)"
| "arith_ref OpSub a b _ = word_of_int (uint a - uint b)"
| "arith_ref OpDiv a b _ = (if b = 0 then 0 else word_of_nat (unat a div unat b))"
| "arith_ref OpSDiv a b _ = (if b = 0 then 0 else word_of_int (sint a sdiv sint b))"
| "arith_ref OpMod a b _ = (if b = 0 then 0 else word_of_nat (unat a mod unat b))"
| "arith_ref OpSMod a b _ = (if b = 0 then 0 else word_of_int (sint a smod sint b))"
| "arith_ref OpAddMod a b n = (if n = 0 then 0 else word_of_nat ((unat a + unat b) mod unat n))"
| "arith_ref OpMulMod a b n = (if n = 0 then 0 else word_of_nat ((unat a * unat b) mod unat n))"
| "arith_ref OpExp a b _ = word_of_nat (unat a ^ unat b)"
| "arith_ref OpSignExtend a b _ =
     (if bit b (extend_width a - 1) then word_of_int (signed_take_bit (extend_width a - 1) (uint b)) else b)"

text \<open>
  The logic instructions. \<open>SHR\<close> panics at amounts of \<open>2^64\<close> and more, \<open>BYTE\<close> is the last byte for every larger index.
\<close>

primrec logic_ref :: "logic_op \<Rightarrow> u256 \<Rightarrow> u256 \<Rightarrow> u256 option" where
  "logic_ref OpLt a b = Some (of_bool (unat a < unat b))"
| "logic_ref OpGt a b = Some (of_bool (unat a > unat b))"
| "logic_ref OpSlt a b = Some (of_bool (sint a < sint b))"
| "logic_ref OpSgt a b = Some (of_bool (sint a > sint b))"
| "logic_ref OpEql a b = Some (of_bool (unat a = unat b))"
| "logic_ref OpIsZero a _ = Some (of_bool (unat a = 0))"
| "logic_ref OpAnd a b = Some (word_of_int (and (uint a) (uint b)))"
| "logic_ref OpOr a b = Some (word_of_int (or (uint a) (uint b)))"
| "logic_ref OpXor a b = Some (word_of_int (xor (uint a) (uint b)))"
| "logic_ref OpNot a _ = Some (word_of_int (- uint a - 1))"
| "logic_ref OpByte a b = Some (word_of_nat (unat (to_big_endian b ! min 31 (unat a))))"
| "logic_ref OpShl a b = Some (word_of_nat (unat b * 2 ^ unat a))"
| "logic_ref OpShr a b = (if unat a < 2 ^ 64 then Some (word_of_nat (unat b div 2 ^ unat a)) else None)"
| "logic_ref OpSar a b = Some (word_of_int (sint b div 2 ^ unat a))"

definition arith_arity :: "arith_op \<Rightarrow> nat" where
  "arith_arity op = (if op \<in> {OpAddMod, OpMulMod} then 3 else 2)"

definition logic_arity :: "logic_op \<Rightarrow> nat" where
  "logic_arity op = (if op \<in> {OpIsZero, OpNot} then 1 else 2)"

text \<open>The costs: \<open>EXP\<close> is charged by the bytes of its exponent.\<close>

definition arith_cost :: "fork \<Rightarrow> arith_op \<Rightarrow> u256 \<Rightarrow> gas" where
  "arith_cost fork op b =
     (if op = OpExp then (if fork \<ge> SpuriousDragon then 50 else 10) * ((u256_bits b + 7) div 8)
      else if op \<in> {OpAdd, OpSub} then 3 else if op \<in> {OpAddMod, OpMulMod} then 8 else 5)"

section \<open>Operands and results on the stack\<close>

definition replaced :: "nat \<Rightarrow> u256 \<Rightarrow> 's call_frame \<Rightarrow> 's call_frame" where
  "replaced n v f = f\<lparr>fr_stack :=
     \<lparr>stack_array = (stack_array (fr_stack f))(stack_top (fr_stack f) - n := v), stack_top = stack_top (fr_stack f) - n + 1\<rparr>\<rparr>"

lemma replaced_stack:
  assumes "frame_wf f" "0 < n" "n \<le> stack_top (fr_stack f)"
  shows "stack_wf (fr_stack (replaced n v f))" "stack_list (fr_stack (replaced n v f)) = v # drop n (stack_list (fr_stack f))"
proof -
  let ?s = "fr_stack f"
  show "stack_wf (fr_stack (replaced n v f))" using assms by (auto simp: replaced_def stack_wf_def frame_wf_def)
  have "stack_list (fr_stack (replaced n v f)) = v # stack_list (?s\<lparr>stack_top := stack_top ?s - n\<rparr>)"
    using stack_list_push [of "?s\<lparr>stack_top := stack_top ?s - n\<rparr>" v] by (simp add: replaced_def stack_list_def)
  with stack_list_drop [OF assms(3)] show "stack_list (fr_stack (replaced n v f)) = v # drop n (stack_list ?s)" by simp
qed

text \<open>What an instruction with \<open>n\<close> operands, the given result and cost does to a frame.\<close>

definition computes :: "nat \<Rightarrow> (u256 list \<Rightarrow> u256 option) \<Rightarrow> (u256 list \<Rightarrow> gas) \<Rightarrow> ('s call_frame, unit) exec \<Rightarrow> 's call_frame \<Rightarrow> bool" where
  "computes n res cost m f \<longleftrightarrow> (let xs = stack_list (fr_stack f) in
     m f = (if length xs < n then Err StackUnderflow f
            else case res xs of
              None \<Rightarrow> Panic
            | Some r \<Rightarrow> if cost xs \<le> fr_unused_gas f
                then Ok () ((replaced n r f)\<lparr>fr_unused_gas := fr_unused_gas f - cost xs\<rparr>)
                else Err OutOfGas (replaced n r f)))"

lemma stack_list_Nil [simp]: "stack_list s = [] \<longleftrightarrow> stack_top s = 0"
  by (simp flip: length_0_conv)

lemma stack_depth: "frame_wf f \<Longrightarrow> stack_top (fr_stack f) \<le> MAX_STACK_DEPTH"
  by (simp add: frame_wf_def stack_wf_def)

lemma on_stack_push_rest:
  assumes "frame_wf f" "0 < n" "n \<le> stack_top (fr_stack f)"
  shows "on_stack (stack_push v) (f\<lparr>fr_stack := fr_stack f\<lparr>stack_top := stack_top (fr_stack f) - n\<rparr>\<rparr>) = Ok () (replaced n v f)"
  using stack_depth [OF assms(1)] assms(2,3)
  by (auto simp: on_stack_def zoom_def stack_push_def stack_assign_def replaced_def exec_defs)

lemma on_stack_consume:
  assumes "frame_wf f"
  shows "on_stack stack_consume1 f = (if stack_top (fr_stack f) < 1 then Err StackUnderflow f
      else Ok (stack_list (fr_stack f) ! 0) (f\<lparr>fr_stack := fr_stack f\<lparr>stack_top := stack_top (fr_stack f) - 1\<rparr>\<rparr>))"
    and "on_stack stack_consume2 f = (if stack_top (fr_stack f) < 2 then Err StackUnderflow f
      else Ok (stack_list (fr_stack f) ! 0, stack_list (fr_stack f) ! 1) (f\<lparr>fr_stack := fr_stack f\<lparr>stack_top := stack_top (fr_stack f) - 2\<rparr>\<rparr>))"
    and "on_stack stack_consume3 f = (if stack_top (fr_stack f) < 3 then Err StackUnderflow f
      else Ok (stack_list (fr_stack f) ! 0, stack_list (fr_stack f) ! 1, stack_list (fr_stack f) ! 2)
        (f\<lparr>fr_stack := fr_stack f\<lparr>stack_top := stack_top (fr_stack f) - 3\<rparr>\<rparr>))"
  using stack_depth [OF assms]
  by (auto simp: on_stack_def zoom_def stack_consume1_def stack_consume2_def stack_consume3_def stack_index_def stack_list_nth
      Let_def exec_defs intro!: arg_cong [where f = "stack_array _"])

lemma unary_computes: "frame_wf f \<Longrightarrow> computes 1 (\<lambda>xs. Some (alu (xs ! 0))) (\<lambda>_. g) (make_unary_op alu g) f"
  by (simp add: computes_def make_unary_op_def bind_def on_stack_consume on_stack_push_rest use_gas_eq) (simp add: replaced_def)

lemma binary_computes: "frame_wf f \<Longrightarrow> computes 2 (\<lambda>xs. Some (alu (xs ! 0) (xs ! 1))) (\<lambda>_. g) (make_binary_op alu g) f"
  by (simp add: computes_def make_binary_op_def bind_def on_stack_consume on_stack_push_rest use_gas_eq) (simp add: replaced_def)

lemma ternary_computes:
  "frame_wf f \<Longrightarrow> computes 3 (\<lambda>xs. Some (alu (xs ! 0) (xs ! 1) (xs ! 2))) (\<lambda>_. g) (make_ternary_op alu g) f"
  by (simp add: computes_def make_ternary_op_def bind_def on_stack_consume on_stack_push_rest use_gas_eq) (simp add: replaced_def)

lemma fork_computes:
  assumes "frame_wf f" "\<not> fr_fork f < fork"
  shows "computes 2 (\<lambda>xs. alu (xs ! 0) (xs ! 1)) (\<lambda>_. g) (make_binary_op_fork alu g fork) f"
  using assms
  by (simp add: computes_def make_binary_op_fork_def bind_def gets_def unwrap_def ret_def panic_def on_stack_consume on_stack_push_rest use_gas_eq
      split: option.split) (simp add: replaced_def)

text \<open>\<open>EXP\<close> is a binary instruction whose cost is known once its exponent is taken; the product is never out of range.\<close>

lemma exp_computes:
  assumes "frame_wf f"
  shows "computes 2 (\<lambda>xs. Some (alu_exp (xs ! 0) (xs ! 1))) (\<lambda>xs. arith_cost (fr_fork f) OpExp (xs ! 1)) frame_exp f"
proof -
  have "c * ((u256_bits b + 7) div 8) < 2 ^ 64" if "c \<le> 50" for b and c :: nat
  proof -
    have "(u256_bits b + 7) div 8 \<le> 64" using u256_bits_le [of b] by simp
    from mult_le_mono [OF that this] show ?thesis by simp
  qed
  then have "gas_checked_mul (if k \<ge> SpuriousDragon then GAS_EXP_BYTE_SPURIOUS_DRAGON else GAS_EXP_BYTE_FRONTIER) ((u256_bits b + 7) div 8) s =
      Ok (arith_cost k OpExp b) s" for k b and s :: "'a call_frame"
    by (simp add: gas_checked_mul_def arith_cost_def ok_or_def ret_def del: power_numeral)
  with assms show ?thesis
    by (simp add: computes_def frame_exp_def bind_def gets_def on_stack_consume on_stack_push_rest use_gas_eq) (simp add: replaced_def)
qed

section \<open>The functions of the arithmetic unit are the reference\<close>

lemma u256_of_unat: "unat x = n \<Longrightarrow> x = word_of_nat n" for x :: u256
  by auto

lemma sign_extend_ref: "alu_sign_extend a b = arith_ref OpSignExtend a b c"
proof (cases "bit b (extend_width a - 1)")
  case True
  have w: "8 \<le> extend_width a" "extend_width a \<le> 256" by (rule extend_width_bounds)+
  have "bit (alu_sign_extend a b) n = bit (word_of_int (signed_take_bit (extend_width a - 1) (uint b)) :: u256) n" if "n < 256" for n
    using w True that
    by (cases "n = extend_width a - 1") (auto simp: bit_alu_sign_extend bit_word_of_int_iff bit_signed_take_bit_iff bit_uint_iff min_def)
  with True show ?thesis by (auto intro!: bit_word_eqI)
qed (simp add: alu_sign_extend_eq)

lemmas unsigned_alu = alu_add_def overflowing_add_def alu_mul_def overflowing_mul_def alu_sub_def overflowing_sub_def alu_div_def
  checked_div_def alu_rem_def checked_rem_def alu_exp_def overflowing_pow_def

lemma unsigned_ref:
  "alu_add a b = arith_ref OpAdd a b c" "alu_mul a b = arith_ref OpMul a b c" "alu_sub a b = arith_ref OpSub a b c"
  "alu_div a b = arith_ref OpDiv a b c" "alu_rem a b = arith_ref OpMod a b c" "alu_exp a b = arith_ref OpExp a b c"
  by (simp_all add: unsigned_alu word_arith_nat_div word_arith_nat_mod)

lemma modular_ref: "alu_add_mod a b c = arith_ref OpAddMod a b c" "alu_mul_mod a b c = arith_ref OpMulMod a b c"
  by (simp_all add: u256_of_unat [OF alu_add_mod_correct] u256_of_unat [OF alu_mul_mod_correct])

lemma signed_ref: "alu_sdiv a b = arith_ref OpSDiv a b c" "alu_smod a b = arith_ref OpSMod a b c"
  by (simp_all add: alu_sdiv_correct alu_smod_correct)

lemmas arith_refs = unsigned_ref signed_ref modular_ref sign_extend_ref

lemma compare_ref:
  "Some (alu_lt a b) = logic_ref OpLt a b" "Some (alu_gt a b) = logic_ref OpGt a b" "Some (alu_slt a b) = logic_ref OpSlt a b"
  "Some (alu_sgt a b) = logic_ref OpSgt a b" "Some (alu_eq a b) = logic_ref OpEql a b" "Some (alu_is_zero a) = logic_ref OpIsZero a b"
  by (simp_all add: alu_lt_def alu_gt_def alu_eq_def alu_is_zero_def alu_signed_compare bool_to_u256_def word_less_nat_alt unat_eq_0 flip: word_unat_eq_iff)

lemma bits_ref:
  "Some (alu_and a b) = logic_ref OpAnd a b" "Some (alu_or a b) = logic_ref OpOr a b" "Some (alu_xor a b) = logic_ref OpXor a b"
  by (auto simp: alu_and_def alu_or_def alu_xor_def bit_simps intro!: bit_word_eqI)

lemma not_ref: "Some (alu_not a) = logic_ref OpNot a b"
  by (simp add: alu_not_def not_eq_complement)

lemma shifts_ref:
  "Some (alu_byte a b) = logic_ref OpByte a b" "Some (alu_shl a b) = logic_ref OpShl a b" "alu_shr a b = logic_ref OpShr a b"
  "Some (alu_sar a b) = logic_ref OpSar a b"
proof -
  show "Some (alu_byte a b) = logic_ref OpByte a b" by (simp add: u256_of_unat [OF alu_byte_correct])
  show "Some (alu_sar a b) = logic_ref OpSar a b" unfolding logic_ref.simps alu_sar_correct [symmetric] by simp
qed (simp_all add: alu_shl_correct alu_shr_correct)

section \<open>The instructions\<close>

lemma arith_computes:
  assumes "frame_wf f"
  shows "computes (arith_arity op) (\<lambda>xs. Some (arith_ref op (xs ! 0) (xs ! 1) (xs ! 2))) (\<lambda>xs. arith_cost (fr_fork f) op (xs ! 1)) (arith_arm op) f"
  using binary_computes [OF assms] ternary_computes [OF assms] exp_computes [OF assms]
  by (cases op) (simp_all add: arith_arity_def arith_cost_def frame_add_def frame_mul_def frame_sub_def frame_div_def frame_sdiv_def frame_rem_def
      frame_smod_def frame_add_mod_def frame_mul_mod_def frame_sign_extend_def arith_refs [symmetric] del: arith_ref.simps)

lemmas logic_refs = compare_ref bits_ref not_ref shifts_ref

definition logic_since :: "logic_op \<Rightarrow> fork" where
  "logic_since op = (if op \<in> {OpShl, OpShr, OpSar} then Constantinople else Frontier)"

lemma logic_computes:
  assumes "frame_wf f" "logic_since op \<le> fr_fork f"
  shows "computes (logic_arity op) (\<lambda>xs. logic_ref op (xs ! 0) (xs ! 1)) (\<lambda>_. 3) (logic_arm op) f"
  using unary_computes [OF assms(1)] binary_computes [OF assms(1)] fork_computes [OF assms(1)] fork_computes [OF assms(1), where alu = "\<lambda>a b. Some (alu a b)" for alu] assms(2)
  by (cases op) (simp_all add: logic_arity_def logic_since_def frame_lt_def frame_gt_def frame_slt_def frame_sgt_def frame_eq_def frame_is_zero_def
      frame_and_def frame_or_def frame_xor_def frame_not_def frame_byte_def frame_shl_def frame_shr_def frame_sar_def
      logic_refs [symmetric] del: logic_ref.simps)

lemma logic_too_early: "fr_fork f < logic_since op \<Longrightarrow> logic_arm op f = Err InvalidOpcode f"
  by (cases op) (simp_all add: logic_since_def frame_shl_def frame_shr_def frame_sar_def make_binary_op_fork_def bind_def gets_def throw_def)

text \<open>Both groups, by their opcodes.\<close>

definition word_arity :: "opcode \<Rightarrow> nat option" where
  "word_arity op = (case op of OpArith a \<Rightarrow> Some (arith_arity a) | OpLogic l \<Rightarrow> Some (logic_arity l) | _ \<Rightarrow> None)"

definition word_since :: "opcode \<Rightarrow> fork" where
  "word_since op = (case op of OpLogic l \<Rightarrow> logic_since l | _ \<Rightarrow> Frontier)"

definition word_ref :: "opcode \<Rightarrow> u256 list \<Rightarrow> u256 option" where
  "word_ref op xs = (case op of OpArith a \<Rightarrow> Some (arith_ref a (xs ! 0) (xs ! 1) (xs ! 2)) | OpLogic l \<Rightarrow> logic_ref l (xs ! 0) (xs ! 1) | _ \<Rightarrow> None)"

definition word_cost :: "fork \<Rightarrow> opcode \<Rightarrow> u256 list \<Rightarrow> gas" where
  "word_cost fork op xs = (case op of OpArith a \<Rightarrow> arith_cost fork a (xs ! 1) | _ \<Rightarrow> 3)"

text \<open>
  C20. The arithmetic and logic instructions, completely. On a well-formed frame each of the twenty-five takes its operands
  from the top of the stack, pushes the result that the reference on integers gives and charges its cost; nothing else
  of the context changes. The shifts do not exist before Constantinople. With too few operands the instruction fails and
  changes nothing, without the gas it fails after the push, and only \<open>SHR\<close> with a huge amount panics.
\<close>

theorem word_instructions:
  assumes "frame_wf (cx_cur_call c)" and "word_arity (in_opcode i) = Some n"
  shows "let op = in_opcode i; f = cx_cur_call c; xs = stack_list (fr_stack f); cost = word_cost (fr_fork f) op xs in
    if fr_fork f < word_since op then exec_arm h i c = Err InvalidOpcode c
    else if length xs < n then exec_arm h i c = Err StackUnderflow c
    else case word_ref op xs of
      None \<Rightarrow> exec_arm h i c = Panic
    | Some r \<Rightarrow> \<exists>st. stack_wf st \<and> stack_list st = r # drop n xs \<and>
        exec_arm h i c =
          (if cost \<le> fr_unused_gas f then Ok () (c\<lparr>cx_cur_call := f\<lparr>fr_stack := st, fr_unused_gas := fr_unused_gas f - cost\<rparr>\<rparr>)
           else Err OutOfGas (c\<lparr>cx_cur_call := f\<lparr>fr_stack := st\<rparr>\<rparr>))"
proof -
  let ?f = "cx_cur_call c" and ?op = "in_opcode i"
  let ?xs = "stack_list (fr_stack ?f)"
  obtain m where m: "exec_arm h i = on_call m" and
    runs: "if fr_fork ?f < word_since ?op then m ?f = Err InvalidOpcode ?f
      else computes n (word_ref ?op) (word_cost (fr_fork ?f) ?op) m ?f"
    using assms(2) arith_computes [OF assms(1)] logic_computes [OF assms(1)] logic_too_early [of ?f]
    by (auto simp: word_arity_def word_since_def word_ref_def [abs_def] word_cost_def [abs_def] exec_arm_def not_less less_fork_def less_eq_fork_def
        split: opcode.splits)
  have "0 < n" using assms(2) by (auto simp: word_arity_def arith_arity_def logic_arity_def split: opcode.splits if_splits)
  from replaced_stack [OF assms(1) this] have stack: "\<exists>st. stack_wf st \<and> stack_list st = r # drop n ?xs \<and> replaced n r ?f = ?f\<lparr>fr_stack := st\<rparr>"
    if "\<not> length ?xs < n" for r
    using that by (intro exI [of _ "fr_stack (replaced n r ?f)"]) (simp add: replaced_def)
  show ?thesis
  proof (cases "\<not> fr_fork ?f < word_since ?op \<and> \<not> length ?xs < n \<and> word_ref ?op ?xs \<noteq> None")
    case True
    then obtain r st where "word_ref ?op ?xs = Some r" "stack_wf st" "stack_list st = r # drop n ?xs" "replaced n r ?f = ?f\<lparr>fr_stack := st\<rparr>"
      using stack by blast
    with runs True show ?thesis
      by (auto simp: m on_call_def zoom_def computes_def Let_def intro!: exI [of _ st])
  next
    case False
    with runs show ?thesis by (auto simp: m on_call_def zoom_def computes_def Let_def)
  qed
qed

theorem word_instructions_witness:
  "\<exists>st. stack_wf st \<and> stack_list st = [- 3, 9] \<and>
     exec_arm (dummy_host no_hash no_rlp) \<lparr>in_opcode = OpArith OpSDiv, in_data = None, in_pos = 0\<rparr> (sample_ctx London False 10 [5] [- 7, 2, 9]) =
       Ok () ((sample_ctx London False 10 [5] [- 7, 2, 9])\<lparr>cx_cur_call := (cx_cur_call (sample_ctx London False 10 [5] [- 7, 2, 9]))
         \<lparr>fr_stack := st, fr_unused_gas := 5\<rparr>\<rparr>)"
proof -
  let ?c = "sample_ctx London False 10 [5] [- 7, 2, 9]" and ?i = "\<lparr>in_opcode = OpArith OpSDiv, in_data = None, in_pos = 0\<rparr>"
  have "frame_wf (cx_cur_call ?c)" "word_arity (in_opcode ?i) = Some 2" by (simp_all add: word_arity_def arith_arity_def)
  from word_instructions [OF this, of "dummy_host no_hash no_rlp"]
  show ?thesis by (simp add: word_since_def word_ref_def word_cost_def arith_cost_def Let_def signed_divide_int_def)
qed

end
