(* ===== verification/ExecSteps.thy ===== *)
theory ExecSteps
  imports SampleHost
begin

text \<open>
  What the instructions that neither start nor end a call may change in the context, and that a
  transaction without calls ends.
\<close>

section \<open>Quiet instructions\<close>

text \<open>
  \<open>ctx_quiet\<close>: the frame changes as \<open>frame_steps\<close> allows, the access list stays well-formed, and of the
  rest only the world state, the refund counter, the access list and the dirty set may change.
\<close>

definition ctx_quiet :: "'s ctx \<Rightarrow> 's ctx \<Rightarrow> bool" where
  "ctx_quiet c t \<longleftrightarrow>
     frame_steps (cx_cur_call c) (cx_cur_call t) \<and> keeps al_wf (cx_access_list c) (cx_access_list t) \<and>
     t = c\<lparr>cx_cur_call := cx_cur_call t, cx_state := cx_state t, cx_refund := cx_refund t,
           cx_access_list := cx_access_list t, cx_dirty := cx_dirty t\<rparr>"

text \<open>\<open>ctx_reading\<close>: quiet, and the world state is not touched.\<close>

definition ctx_reading :: "'s ctx \<Rightarrow> 's ctx \<Rightarrow> bool" where
  "ctx_reading c t \<longleftrightarrow> ctx_quiet c t \<and> cx_state t = cx_state c"

lemma ctx_quiet_refl: "ctx_quiet c c"
  by (simp add: ctx_quiet_def frame_steps_refl keeps_def)

lemma ctx_quiet_trans: "ctx_quiet c t \<Longrightarrow> ctx_quiet t u \<Longrightarrow> ctx_quiet c u"
  unfolding ctx_quiet_def keeps_def
  by (cases c, cases t, cases u) (auto intro: frame_steps_trans)

interpretation quiet: run_rel ctx_quiet
  by unfold_locales (fact ctx_quiet_refl, fact ctx_quiet_trans)

interpretation reading: run_rel ctx_reading
  by unfold_locales (auto simp: ctx_reading_def intro: ctx_quiet_refl ctx_quiet_trans)

lemma reading_quiet: "pres ctx_reading m \<Longrightarrow> pres ctx_quiet m"
  by (auto simp: pres_def ctx_reading_def split: outcome.splits)

lemma on_call_reading: "pres frame_steps m \<Longrightarrow> pres ctx_reading (on_call m)"
  unfolding on_call_def by (erule pres_zoom) (simp add: ctx_reading_def ctx_quiet_def keeps_def)

lemma on_access_reading: "pres (keeps al_wf) m \<Longrightarrow> pres ctx_reading (on_access m)"
  unfolding on_access_def
  by (erule pres_zoom) (simp add: ctx_reading_def ctx_quiet_def frame_steps_refl)

lemma refund_reading: "pres ctx_reading (add_refund g)" "pres ctx_reading (sub_refund g)"
proof -
  have "ctx_reading c (c\<lparr>cx_refund := r\<rparr>)" for c :: "'s ctx" and r
    by (simp add: ctx_reading_def ctx_quiet_def frame_steps_refl keeps_def)
  then show "pres ctx_reading (add_refund g :: ('s ctx, unit) exec)"
    and "pres ctx_reading (sub_refund g :: ('s ctx, unit) exec)"
    unfolding add_refund_def sub_refund_def by (auto intro!: reading.pres_rules reading.pres_modify)
qed

lemma upd_state_quiet: "pres ctx_quiet (upd_state g)"
  unfolding upd_state_def
  by (rule quiet.pres_modify) (simp add: ctx_quiet_def frame_steps_refl keeps_def)

lemma dirty_insert_reading: "pres ctx_reading (dirty_insert a)"
  unfolding dirty_insert_def
  by (rule reading.pres_modify) (simp add: ctx_reading_def ctx_quiet_def frame_steps_refl keeps_def)

lemma stack_ops_reading:
  "pres ctx_reading pop1" "pres ctx_reading pop2" "pres ctx_reading pop3" "pres ctx_reading pop4"
  "pres ctx_reading (push1 v)" "pres ctx_reading (charge g)"
  unfolding pop1_def pop2_def pop3_def pop4_def push1_def charge_def
  by (intro on_call_reading frame_rules)+

lemma memory_ops_reading:
  "pres ctx_reading (on_call (on_memory (memory_get_slice off len)))"
  "pres ctx_reading (on_call (on_memory (memory_get_slice_mut off len)))"
  "pres ctx_reading (on_call (on_memory (memory_copy_from_slice sl data)))"
  "pres ctx_reading (on_call (on_memory (memory_set off len data)))"
  by (intro on_call_reading on_memory_steps memory_get_slice_wf memory_get_slice_mut_wf memory_copy_wf
      memory_set_wf)+

lemma access_ops_reading:
  "pres ctx_reading (on_access (al_contains_addr a))" "pres ctx_reading (on_access (al_contains a k))"
  "pres ctx_reading (on_access (al_add_addr a))" "pres ctx_reading (on_access (al_add_slot a k))"
  by (intro on_access_reading al_ops_keep)+

lemma pure_ops_reading:
  "pres ctx_reading get_fork" "pres ctx_reading get_callee" "pres ctx_reading call_depth"
  "pres ctx_reading (is_destroyed a)" "pres ctx_reading (as_u64 x)"
  "pres ctx_reading (gas_checked_mul n k)" "pres ctx_reading (get_data src off len)"
  unfolding get_fork_def get_callee_def call_depth_def is_destroyed_def as_u64_def gas_checked_mul_def
    get_data_def
  by (intro reading.pres_rules)+

lemmas reading_rules = reading.pres_rules refund_reading dirty_insert_reading stack_ops_reading
  memory_ops_reading access_ops_reading pure_ops_reading

lemma access_account_reading: "pres ctx_reading (access_account_berlin a)"
  unfolding access_account_berlin_def by (intro reading_rules)

lemma ctx_env_reading:
  "pres ctx_reading (ctx_balance h)" "pres ctx_reading ctx_origin" "pres ctx_reading (ctx_ext_code_size h)"
  "pres ctx_reading (ctx_ext_code_copy h)" "pres ctx_reading (ctx_ext_code_hash h)"
  "pres ctx_reading ctx_block_hash" "pres ctx_reading (push_quick_ctx v)" "pres ctx_reading ctx_chain_id"
  "pres ctx_reading (ctx_self_balance h)" "pres ctx_reading ctx_base_fee"
  unfolding ctx_balance_def ctx_origin_def ctx_ext_code_size_def ctx_ext_code_copy_def
    ctx_ext_code_hash_def ctx_block_hash_def push_quick_ctx_def ctx_chain_id_def ctx_self_balance_def
    ctx_base_fee_def
  by (intro reading_rules access_account_reading)+

lemma ctx_sload_reading: "pres ctx_reading (ctx_sload h)"
  unfolding ctx_sload_def by (intro reading_rules)

lemma sstore_gas_reading:
  "pres ctx_reading (ctx_sstore_istanbul_gas h k v)"
  "pres ctx_reading (ctx_sstore_berlin_london_gas h k v r)"
  unfolding ctx_sstore_istanbul_gas_def ctx_sstore_berlin_london_gas_def
  by (intro reading_rules)+

lemma log_topics_reading: "pres ctx_reading (log_topics n)"
  by (induction n) (auto intro!: reading_rules)

lemma ctx_sstore_quiet: "pres ctx_quiet (ctx_sstore h)"
  unfolding ctx_sstore_def
  by (intro quiet.pres_rules upd_state_quiet reading_quiet [OF stack_ops_reading(2)]
      reading_quiet [OF pure_ops_reading(1)] reading_quiet [OF pure_ops_reading(2)]
      reading_quiet [OF sstore_gas_reading(1)] reading_quiet [OF sstore_gas_reading(2)]
      reading_quiet [OF refund_reading(1)] reading_quiet [OF stack_ops_reading(6)]
      reading_quiet [OF dirty_insert_reading])

lemma ctx_log_quiet: "pres ctx_quiet (ctx_log h n)"
  unfolding ctx_log_def
  by (intro quiet.pres_rules upd_state_quiet reading_quiet [OF stack_ops_reading(2)]
      reading_quiet [OF stack_ops_reading(6)] reading_quiet [OF pure_ops_reading(6)]
      reading_quiet [OF log_topics_reading] reading_quiet [OF memory_ops_reading(1)])

section \<open>The arms of the match\<close>

text \<open>The opcodes that neither jump nor start or end a frame.\<close>

definition quiet_op :: "opcode \<Rightarrow> bool" where
  "quiet_op op \<longleftrightarrow> op \<noteq> OpStop \<and> op \<noteq> OpFlow OpJump \<and> op \<noteq> OpFlow OpJumpI \<and> (\<forall>s. op \<noteq> OpSystem s)"

text \<open>Quiet, and in a read-only frame the world state stays as it is.\<close>

definition ctx_protected :: "'s ctx \<Rightarrow> 's ctx \<Rightarrow> bool" where
  "ctx_protected c t \<longleftrightarrow> ctx_quiet c t \<and> (fr_read_only (cx_cur_call c) \<longrightarrow> cx_state t = cx_state c)"

lemma reading_protected: "pres ctx_reading m \<Longrightarrow> pres ctx_protected m"
  by (auto simp: pres_def ctx_reading_def ctx_protected_def split: outcome.splits)

lemma guarded_protected:
  assumes "pres ctx_quiet m" and "\<And>c. fr_read_only (cx_cur_call c) \<Longrightarrow> m c = Err WriteProtection c"
  shows "pres ctx_protected m"
  unfolding pres_def
proof
  fix c
  show "case m c of Ok a t \<Rightarrow> ctx_protected c t | Err e t \<Rightarrow> ctx_protected c t | Panic \<Rightarrow> True"
  proof (cases "fr_read_only (cx_cur_call c)")
    case True
    then show ?thesis by (simp add: assms(2) ctx_protected_def ctx_quiet_refl)
  next
    case False
    then show ?thesis
      using assms(1) by (auto simp: pres_def ctx_protected_def split: outcome.splits)
  qed
qed

lemma sstore_read_only: "fr_read_only (cx_cur_call c) \<Longrightarrow> ctx_sstore h c = Err WriteProtection c"
  by (simp add: ctx_sstore_def exec_defs)

lemma log_read_only: "fr_read_only (cx_cur_call c) \<Longrightarrow> ctx_log h n c = Err WriteProtection c"
  by (simp add: ctx_log_def exec_defs)

lemma throw_reading: "pres ctx_reading (throw e)"
  by (rule reading.pres_throw)

lemma block_arm_reading: "pres ctx_reading (block_arm h op)"
  by (cases op) (simp_all add: block_arm_def ctx_env_reading ctx_coinbase_def ctx_timestamp_def
      ctx_number_def ctx_difficulty_def ctx_gas_limit_def)

lemma env_arm_reading: "pres ctx_reading (env_arm h op)"
proof (cases "env_frame_arm op :: ('a call_frame, unit) exec option")
  case (Some m)
  then show ?thesis using on_call_reading [OF env_frame_arm_steps] by (simp add: env_arm_def)
next
  case None
  then show ?thesis
    by (cases op) (simp_all add: env_arm_def ctx_env_reading ctx_gas_price_def throw_reading)
qed

lemma flow_arm_protected:
  assumes "op \<noteq> OpJump" and "op \<noteq> OpJumpI"
  shows "pres ctx_protected (flow_arm h op)"
proof (cases "flow_frame_arm op :: ('a call_frame, unit) exec option")
  case (Some m)
  then show ?thesis using reading_protected [OF on_call_reading [OF flow_frame_arm_steps]]
    by (simp add: flow_arm_def)
next
  case None
  have "pres ctx_protected (ctx_sstore h)" by (rule guarded_protected [OF ctx_sstore_quiet sstore_read_only])
  with None assms show ?thesis
    by (cases op) (simp_all add: flow_arm_def reading_protected ctx_sload_reading throw_reading)
qed

lemma quiet_arm_protected:
  assumes "quiet_op (in_opcode i)"
  shows "pres ctx_protected (exec_arm h i)"
proof (cases "in_opcode i")
  case (OpFlow op)
  with assms have "op \<noteq> OpJump" "op \<noteq> OpJumpI" by (auto simp: quiet_op_def)
  with OpFlow show ?thesis by (simp add: exec_arm_def flow_arm_protected)
next
  case (OpLogN n)
  then show ?thesis
    using guarded_protected [OF ctx_log_quiet log_read_only] by (simp add: exec_arm_def)
qed (use assms in \<open>simp_all add: exec_arm_def quiet_op_def reading_protected on_call_reading arith_arm_steps
      logic_arm_steps data_arm_steps(1) env_arm_reading block_arm_reading family_arm_steps throw_reading\<close>)

text \<open>
  The instructions that neither jump nor start or end a call: whatever they return, they do not
  give gas back, they keep the stack bound, the memory invariant and the access list, and they leave
  the call stack, the status, the self-destruct list, the committed state and the environment alone;
  in a read-only frame they do not change the world state.
\<close>

theorem quiet_arm_safe:
  assumes "quiet_op (in_opcode i)"
  shows "pres (\<lambda>c t. ctx_quiet c t \<and> (fr_read_only (cx_cur_call c) \<longrightarrow> cx_state t = cx_state c)) (exec_arm h i)"
  using quiet_arm_protected [OF assms] by (simp add: ctx_protected_def [abs_def])

theorem quiet_arm_witness:
  "quiet_op (in_opcode \<lparr>in_opcode = OpFlow OpSStore, in_data = None, in_pos = 0\<rparr>)
    \<and> pres (\<lambda>c t. ctx_quiet c t \<and> (fr_read_only (cx_cur_call c) \<longrightarrow> cx_state t = cx_state c))
        (exec_arm (dummy_host no_hash no_rlp) \<lparr>in_opcode = OpFlow OpSStore, in_data = None, in_pos = 0\<rparr>)"
proof -
  have "quiet_op (in_opcode \<lparr>in_opcode = OpFlow OpSStore, in_data = None, in_pos = 0\<rparr>)"
    by (simp add: quiet_op_def)
  then show ?thesis using quiet_arm_safe by blast
qed

end
