(* ===== verification/ExecTermination.thy ===== *)
theory ExecTermination
  imports ExecSteps
begin

text \<open>
  A transaction whose code has no call or create instruction ends: every round of the loop finishes the
  transaction, panics, or uses gas, or advances the program counter without giving gas back.
\<close>

definition tx_finished :: "'s ctx \<Rightarrow> bool" where
  "tx_finished c \<longleftrightarrow> (\<exists>r. cx_status c = Finished r)"

text \<open>The one frame of a transaction is running, above the dummy frame.\<close>

definition top_level :: "'s ctx \<Rightarrow> bool" where
  "top_level c \<longleftrightarrow>
     cx_status c = Running \<and> (\<exists>d. cx_call_stack c = [d]) \<and>
     (\<exists>args. fr_call_type (cx_cur_call c) = CallTx args)"

section \<open>Ending the transaction\<close>

lemma for_each_infallible: "(\<And>x. infallible (body x)) \<Longrightarrow> infallible (for_each xs body)"
  by (induction xs) (simp_all add: infallible_rules)

lemma upd_infallible:
  "infallible (upd_state g)" "infallible (dirty_insert a)" "infallible (delete_empty h acc)"
  "infallible (take_snapshot h)" "infallible (transfer h src dst v)" "infallible get_fork"
  "infallible get_callee" "infallible call_depth"
  unfolding upd_state_def dirty_insert_def delete_empty_def take_snapshot_def transfer_def get_fork_def
    get_callee_def call_depth_def
  by (intro infallible_rules)+

lemma infallible_cases:
  "infallible m \<Longrightarrow> infallible (case st of Running \<Rightarrow> m | Finished r \<Rightarrow> panic)"
  "(\<And>a. infallible (p a)) \<Longrightarrow> (\<And>a. infallible (q a)) \<Longrightarrow>
     infallible (case aux of Sender a \<Rightarrow> p a | Contract a \<Rightarrow> q a)"
  by (cases st; simp add: infallible_basic) (cases aux; simp)

lemma ok_ends_status: "ok_ends P m \<Longrightarrow> ok_ends P (case st of Running \<Rightarrow> m | Finished r \<Rightarrow> panic)"
  by (cases st) (simp_all add: ok_ends_panic)

lemma tx_end_infallible: "infallible (tx_end h args data g err)"
  unfolding tx_end_def
  by (intro infallible_rules upd_infallible for_each_infallible infallible_cases)

lemma tx_end_finishes: "ok_ends tx_finished (tx_end h args data g err)"
  unfolding tx_end_def by (intro ok_ends_rules ok_ends_status) (simp add: tx_finished_def)

text \<open>Finishing the transaction's frame ends the transaction.\<close>

lemma finish_top:
  assumes "top_level c"
  shows "finish_call h data err c = Panic \<or> (\<exists>t. finish_call h data err c = Ok () t \<and> tx_finished t)"
proof -
  obtain d args where c: "cx_call_stack c = [d]" "fr_call_type (cx_cur_call c) = CallTx args"
    using assms by (auto simp: top_level_def)
  let ?c = "c\<lparr>cx_cur_call := d, cx_call_stack := []\<rparr>"
  have eq: "finish_call h data err c = tx_end h args data (fr_unused_gas (cx_cur_call c)) err ?c"
    using c by (simp add: finish_call_def call_pop_def exec_defs)
  show ?thesis
    using tx_end_infallible [of h args data _ err] tx_end_finishes [of h args data _ err]
    unfolding eq infallible_def ok_ends_def
    by (cases "tx_end h args data (fr_unused_gas (cx_cur_call c)) err ?c") auto
qed

lemma unwind_top:
  assumes "top_level c"
  shows "unwind h 1 (Some e) c = Panic \<or> (\<exists>t. unwind h 1 (Some e) c = Ok () t \<and> tx_finished t)"
  using finish_top [OF assms, of h "[]" "Some e"]
  by (auto simp: bind_def try_result_def ret_def)

section \<open>The instructions that end the frame\<close>

text \<open>The call stack, the status and the kind of the frame stay.\<close>

definition ctx_same :: "'s ctx \<Rightarrow> 's ctx \<Rightarrow> bool" where
  "ctx_same c t \<longleftrightarrow> cx_call_stack t = cx_call_stack c \<and> cx_status t = cx_status c
     \<and> fr_call_type (cx_cur_call t) = fr_call_type (cx_cur_call c)"

interpretation same: run_rel ctx_same
  by unfold_locales (simp_all add: ctx_same_def)

lemma frame_steps_static:
  assumes "frame_steps f g"
  shows "fr_call_type g = fr_call_type f \<and> fr_pc g = fr_pc f \<and> fr_code g = fr_code f
    \<and> fr_unused_gas g \<le> fr_unused_gas f \<and> fr_read_only g = fr_read_only f \<and> fr_fork g = fr_fork f
    \<and> fr_callee g = fr_callee f"
  using assms unfolding frame_steps_def by (cases g) auto

lemma ctx_quiet_same:
  assumes "ctx_quiet c t"
  shows "ctx_same c t"
proof -
  have "cx_call_stack t = cx_call_stack c \<and> cx_status t = cx_status c"
    using assms unfolding ctx_quiet_def by (cases t) auto
  moreover have "frame_steps (cx_cur_call c) (cx_cur_call t)" using assms by (simp add: ctx_quiet_def)
  ultimately show ?thesis using frame_steps_static by (auto simp: ctx_same_def)
qed

lemma quiet_same: "pres ctx_quiet m \<Longrightarrow> pres ctx_same m"
  by (auto simp: pres_def ctx_quiet_same split: outcome.splits)

lemma same_top: "top_level c \<Longrightarrow> ctx_same c t \<Longrightarrow> top_level t"
  by (simp add: top_level_def ctx_same_def)

lemma top_prefix: "pres ctx_same m \<Longrightarrow> triple top_level m (\<lambda>_. top_level) (\<lambda>_. top_level)"
  by (erule triple_pres) (rule same_top)

lemma finish_triple: "triple top_level (finish_call h data err) (\<lambda>_. tx_finished) (\<lambda>_. top_level)"
  unfolding triple_def using finish_top [of _ h data err] by fastforce

lemma reading_same: "pres ctx_reading m \<Longrightarrow> pres ctx_same m"
  by (rule quiet_same) (rule reading_quiet)

lemma top_throw: "triple top_level (throw e) (\<lambda>_. tx_finished) (\<lambda>_. top_level)"
  by (simp add: triple_throw)

lemma triple_prod: "(\<And>a b. triple P (f a b) Q E) \<Longrightarrow> triple P (case x of (a, b) \<Rightarrow> f a b) Q E"
  by (cases x) simp

lemmas top_rules = triple_bind [OF top_prefix] triple_prod triple_if finish_triple top_throw
  reading_same reading_rules

lemma return_top: "triple top_level (ctx_return h) (\<lambda>_. tx_finished) (\<lambda>_. top_level)"
  unfolding ctx_return_def by (intro top_rules)

lemma revert_top: "triple top_level (ctx_revert h) (\<lambda>_. tx_finished) (\<lambda>_. top_level)"
  unfolding ctx_revert_def by (intro top_rules)

lemma destroyed_same: "pres ctx_same (modify (\<lambda>c. c\<lparr>cx_destroyed := f c\<rparr>))"
  by (rule same.pres_modify) (simp add: ctx_same_def)

lemma self_destruct_top: "triple top_level (ctx_self_destruct h) (\<lambda>_. tx_finished) (\<lambda>_. top_level)"
  unfolding ctx_self_destruct_def Let_def
  by (intro top_rules destroyed_same quiet_same [OF upd_state_quiet])

section \<open>Jumps use gas\<close>

text \<open>As \<open>ctx_same\<close>, with the same code and no gas given back; the program counter may change.\<close>

definition ctx_code :: "'s ctx \<Rightarrow> 's ctx \<Rightarrow> bool" where
  "ctx_code c t \<longleftrightarrow> ctx_same c t \<and> fr_code (cx_cur_call t) = fr_code (cx_cur_call c)
     \<and> fr_unused_gas (cx_cur_call t) \<le> fr_unused_gas (cx_cur_call c)"

interpretation ccode: run_rel ctx_code
  by unfold_locales (auto simp: ctx_code_def intro: same.R_refl same.R_trans)

lemma ctx_quiet_code: "ctx_quiet c t \<Longrightarrow> ctx_code c t"
  using ctx_quiet_same [of c t] frame_steps_static [of "cx_cur_call c" "cx_cur_call t"]
  by (simp add: ctx_code_def ctx_quiet_def)

lemma reading_code: "pres ctx_reading m \<Longrightarrow> pres ctx_code m"
  using ctx_quiet_code by (fastforce simp: pres_def ctx_reading_def split: outcome.splits)

lemma set_pc_code: "pres ctx_code (on_call (modify (\<lambda>f. f\<lparr>fr_pc := n\<rparr>)))"
  by (simp add: pres_def on_call_def zoom_def modify_def ctx_code_def ctx_same_def)

lemma charge_strict:
  assumes "bind (charge g) (\<lambda>_. m) c = Ok a t" and "pres ctx_code m" and "g > 0"
  shows "ctx_code c t \<and> fr_unused_gas (cx_cur_call t) < fr_unused_gas (cx_cur_call c)"
proof -
  obtain u where u: "charge g c = Ok () u" "m u = Ok a t" using assms(1) by (auto simp: bind_Ok_conv)
  have cu: "ctx_code c u" and less: "fr_unused_gas (cx_cur_call u) < fr_unused_gas (cx_cur_call c)"
    using u(1) assms(3)
    by (auto simp: charge_def on_call_def zoom_def use_gas_eq ctx_code_def ctx_same_def split: if_splits)
  have ut: "ctx_code u t" by (rule pres_OkD [OF assms(2) u(2)])
  then have "fr_unused_gas (cx_cur_call t) \<le> fr_unused_gas (cx_cur_call u)" by (simp add: ctx_code_def)
  with less ccode.R_trans [OF cu ut] show ?thesis by simp
qed

lemmas code_rules = ccode.pres_rules set_pc_code reading_code [OF stack_ops_reading(1)]
  reading_code [OF stack_ops_reading(2)] reading_code [OF pure_ops_reading(5)]

lemma jump_Ok:
  assumes "ctx_jump c = Ok a t"
  shows "ctx_code c t \<and> fr_unused_gas (cx_cur_call t) < fr_unused_gas (cx_cur_call c)"
  by (rule charge_strict [OF assms [unfolded ctx_jump_def]]) (intro code_rules, simp)

lemma jumpi_Ok:
  assumes "ctx_jumpi c = Ok a t"
  shows "ctx_code c t \<and> fr_unused_gas (cx_cur_call t) < fr_unused_gas (cx_cur_call c)"
  by (rule charge_strict [OF assms [unfolded ctx_jumpi_def]]) (intro code_rules, simp)

lemma code_same: "pres ctx_code m \<Longrightarrow> pres ctx_same m"
  by (auto simp: pres_def ctx_code_def split: outcome.splits)

lemma jump_same: "pres ctx_same ctx_jump" "pres ctx_same ctx_jumpi"
  unfolding ctx_jump_def ctx_jumpi_def
  by (intro code_same code_rules reading_code [OF stack_ops_reading(6)])+

section \<open>One round of the loop\<close>

text \<open>
  The order in which a call-free execution goes down: less gas, or the same gas and less code ahead.
\<close>

definition goes_down :: "'s ctx \<Rightarrow> 's ctx \<Rightarrow> bool" where
  "goes_down c t \<longleftrightarrow> top_level t \<and> fr_code (cx_cur_call t) = fr_code (cx_cur_call c) \<and>
     (fr_unused_gas (cx_cur_call t) < fr_unused_gas (cx_cur_call c) \<or>
      fr_unused_gas (cx_cur_call t) = fr_unused_gas (cx_cur_call c) \<and>
      fr_pc (cx_cur_call c) < fr_pc (cx_cur_call t) \<and>
      fr_pc (cx_cur_call t) \<le> length (code_bytes (fr_code (cx_cur_call c))))"

lemma decode_stop:
  assumes "length code \<le> pc" and "decode code pc = Some i"
  shows "in_opcode i = OpStop"
proof -
  have "opcode_from_u8 0 = Some OpStop" by (simp add: opcode_from_u8_def opcode_table_def)
  then show ?thesis using assms by (auto simp: decode_def)
qed

lemma decode_data:
  assumes "pc < length code" and "decode code pc = Some i"
  shows "pc + (case in_data i of Some d \<Rightarrow> length d | None \<Rightarrow> 0) + 1 \<le> length code"
  using assms by (auto simp: decode_def Let_def split: if_splits option.splits)

lemma advance_pc_top:
  assumes "top_level c"
  shows "advance_pc n False c = Panic \<or> (\<exists>t. advance_pc n False c = Ok () t \<and> top_level t
    \<and> fr_pc (cx_cur_call t) = fr_pc (cx_cur_call c) + n + 1 \<and> fr_code (cx_cur_call t) = fr_code (cx_cur_call c)
    \<and> fr_unused_gas (cx_cur_call t) = fr_unused_gas (cx_cur_call c))"
  using assms by (auto simp: advance_pc_def exec_defs on_call_def top_level_def)

lemma advance_pc_finished:
  assumes "tx_finished c"
  shows "advance_pc n b c = Panic \<or> (\<exists>t. advance_pc n b c = Ok () t \<and> tx_finished t)"
  using assms by (auto simp: advance_pc_def exec_defs on_call_def tx_finished_def)

definition call_free :: "bytes \<Rightarrow> bool" where
  "call_free code \<longleftrightarrow>
     list_all (\<lambda>pc. case decode code pc of None \<Rightarrow> True | Some i \<Rightarrow> \<not> enters_call (in_opcode i)) [0..<length code]"

lemma call_freeD:
  assumes "call_free code" and "decode code pc = Some i"
  shows "\<not> enters_call (in_opcode i)"
proof (cases "pc < length code")
  case True
  with assms show ?thesis by (auto simp: call_free_def list_all_iff split: option.splits)
next
  case False
  then show ?thesis using decode_stop [OF _ assms(2)] by (simp add: enters_call_def)
qed

text \<open>A round whose instruction fails, or ends the transaction.\<close>

lemma step_eq:
  assumes "decode (code_bytes (fr_code (cx_cur_call c))) (fr_pc (cx_cur_call c)) = Some i"
  shows "step h c = bind (try_result (exec_arm h i)) (\<lambda>succ.
     bind (gets (\<lambda>c. length (cx_call_stack c))) (\<lambda>frames.
     bind (unwind h frames succ) (\<lambda>_.
     advance_pc (case in_data i of Some d \<Rightarrow> length d | None \<Rightarrow> 0) (enters_call (in_opcode i))))) c"
  using assms by (simp add: step_def bind_def [of "gets _"] gets_def unwrap_def)

lemma round_Err:
  assumes "top_level t"
  shows "bind (gets (\<lambda>c. length (cx_call_stack c))) (\<lambda>frames.
      bind (unwind h frames (Some e)) (\<lambda>_. advance_pc n b)) t = Panic
    \<or> (\<exists>u. bind (gets (\<lambda>c. length (cx_call_stack c))) (\<lambda>frames.
      bind (unwind h frames (Some e)) (\<lambda>_. advance_pc n b)) t = Ok () u \<and> tx_finished u)"
proof -
  have len: "length (cx_call_stack t) = 1" using assms by (auto simp: top_level_def)
  show ?thesis
    using unwind_top [OF assms, of h e] advance_pc_finished [of _ n b]
    by (fastforce simp: bind_def gets_def len simp del: unwind.simps)
qed

lemma unwind_None: "unwind h n None = ret ()"
  by (cases n) simp_all

lemma round_Ok:
  "bind (gets (\<lambda>c. length (cx_call_stack c))) (\<lambda>frames.
     bind (unwind h frames None) (\<lambda>_. m)) t = m t"
  by (simp add: unwind_None bind_def gets_def ret_def)

lemma arm_ends:
  assumes "in_opcode i = OpStop \<or> (\<exists>s. in_opcode i = OpSystem s)" and "\<not> enters_call (in_opcode i)"
  shows "triple top_level (exec_arm h i) (\<lambda>_. tx_finished) (\<lambda>_. top_level)"
proof (cases "in_opcode i = OpStop")
  case True
  then show ?thesis by (simp add: exec_arm_def finish_triple)
next
  case False
  with assms obtain s where "in_opcode i = OpSystem s" by blast
  with assms(2) show ?thesis
    by (cases s) (simp_all add: exec_arm_def system_arm_def enters_call_def return_top revert_top
        self_destruct_top top_throw)
qed

lemma arm_goes_on:
  assumes i: "quiet_op (in_opcode i) \<or> in_opcode i = OpFlow OpJump \<or> in_opcode i = OpFlow OpJumpI"
    and c: "top_level c"
  shows "case exec_arm h i c of
      Ok _ t \<Rightarrow> top_level t \<and> fr_code (cx_cur_call t) = fr_code (cx_cur_call c) \<and>
        (fr_unused_gas (cx_cur_call t) < fr_unused_gas (cx_cur_call c) \<or>
         fr_unused_gas (cx_cur_call t) = fr_unused_gas (cx_cur_call c) \<and> fr_pc (cx_cur_call t) = fr_pc (cx_cur_call c))
    | Err _ t \<Rightarrow> top_level t | Panic \<Rightarrow> True"
proof (cases "quiet_op (in_opcode i)")
  case True
  have "case exec_arm h i c of Ok a t \<Rightarrow> ctx_quiet c t | Err e t \<Rightarrow> ctx_quiet c t | Panic \<Rightarrow> True"
    using quiet_arm_protected [OF True, of h]
    by (auto simp: pres_def ctx_protected_def split: outcome.splits)
  moreover have "ctx_quiet c t \<Longrightarrow> top_level t" for t
    using same_top [OF c] ctx_quiet_same by blast
  moreover have "ctx_quiet c t \<Longrightarrow> fr_code (cx_cur_call t) = fr_code (cx_cur_call c)
      \<and> fr_pc (cx_cur_call t) = fr_pc (cx_cur_call c)
      \<and> fr_unused_gas (cx_cur_call t) \<le> fr_unused_gas (cx_cur_call c)" for t
    using frame_steps_static by (auto simp: ctx_quiet_def)
  ultimately show ?thesis by (fastforce split: outcome.splits)
next
  case False
  with i have "exec_arm h i = ctx_jump \<or> exec_arm h i = ctx_jumpi"
    by (auto simp: exec_arm_def flow_arm_def flow_frame_arm_def)
  moreover have "ctx_code c t \<Longrightarrow> top_level t \<and> fr_code (cx_cur_call t) = fr_code (cx_cur_call c)" for t
    using same_top [OF c] by (auto simp: ctx_code_def)
  moreover have "ctx_same c t \<Longrightarrow> top_level t" for t by (rule same_top [OF c])
  ultimately show ?thesis
    using jump_Ok [of c] jumpi_Ok [of c] pres_ErrD [OF jump_same(1), of c] pres_ErrD [OF jump_same(2), of c]
    by (auto split: outcome.splits)
qed

lemma opcode_kinds:
  "quiet_op op \<or> op = OpFlow OpJump \<or> op = OpFlow OpJumpI \<or> op = OpStop \<or> (\<exists>s. op = OpSystem s)"
  by (auto simp: quiet_op_def)

lemma step_top:
  assumes c: "top_level c" and free: "call_free (code_bytes (fr_code (cx_cur_call c)))"
  shows "step h c = Panic \<or> (\<exists>t. step h c = Ok () t \<and> (tx_finished t \<or> goes_down c t))"
proof (cases "decode (code_bytes (fr_code (cx_cur_call c))) (fr_pc (cx_cur_call c))")
  case None
  then show ?thesis by (simp add: step_def exec_defs)
next
  case (Some i)
  let ?n = "case in_data i of Some d \<Rightarrow> length d | None \<Rightarrow> 0"
  have no: "\<not> enters_call (in_opcode i)" using call_freeD [OF free Some] .
  note st = step_eq [OF Some, of h]
  have err: ?thesis if "exec_arm h i c = Err e t" "top_level t" for e t
    using round_Err [OF that(2), of h e ?n "enters_call (in_opcode i)"] that(1)
    unfolding st by (auto simp: bind_def [of "try_result _"] try_result_def)
  have ok: "exec_arm h i c = Ok a t \<Longrightarrow> step h c = advance_pc ?n False t" for a t
    unfolding st using no by (simp add: bind_def [of "try_result _"] try_result_def round_Ok)
  show ?thesis
  proof (cases "in_opcode i = OpStop \<or> (\<exists>s. in_opcode i = OpSystem s)")
    case True
    note tr = arm_ends [OF True no, of h]
    show ?thesis
    proof (cases "exec_arm h i c")
      case (Ok a t)
      with triple_OkD [OF tr c] advance_pc_finished [of t ?n False] ok show ?thesis by metis
    next
      case (Err e t)
      with triple_ErrD [OF tr c] err show ?thesis by blast
    qed (simp add: st bind_def [of "try_result _"] try_result_def)
  next
    case False
    then have "quiet_op (in_opcode i) \<or> in_opcode i = OpFlow OpJump \<or> in_opcode i = OpFlow OpJumpI"
      using opcode_kinds [of "in_opcode i"] by blast
    note go = arm_goes_on [OF this c, of h]
    have pc: "fr_pc (cx_cur_call c) + ?n + 1 \<le> length (code_bytes (fr_code (cx_cur_call c)))"
      using decode_data [OF _ Some] decode_stop [OF _ Some] False by linarith
    show ?thesis
    proof (cases "exec_arm h i c")
      case (Ok a t)
      with go have "top_level t" by simp
      from advance_pc_top [OF this, of ?n] Ok ok go pc show ?thesis
        by (auto simp: goes_down_def)
    next
      case (Err e t)
      with go err show ?thesis by simp
    qed (simp add: st bind_def [of "try_result _"] try_result_def)
  qed
qed

section \<open>Termination\<close>

text \<open>How many rounds are enough.\<close>

definition rounds_left :: "'s ctx \<Rightarrow> nat" where
  "rounds_left c =
     fr_unused_gas (cx_cur_call c) * (length (code_bytes (fr_code (cx_cur_call c))) + 2)
     + (length (code_bytes (fr_code (cx_cur_call c))) + 1 - fr_pc (cx_cur_call c))"

lemma goes_down_rounds: "goes_down c t \<Longrightarrow> rounds_left t < rounds_left c"
proof -
  assume d: "goes_down c t"
  let ?n = "length (code_bytes (fr_code (cx_cur_call c)))"
  let ?g = "fr_unused_gas (cx_cur_call c)" and ?g' = "fr_unused_gas (cx_cur_call t)"
  show ?thesis
  proof (cases "?g' < ?g")
    case True
    then have "Suc ?g' * (?n + 2) \<le> ?g * (?n + 2)" by (intro mult_le_mono1) simp
    then show ?thesis using d by (simp add: rounds_left_def goes_down_def)
  next
    case False
    then show ?thesis using d by (auto simp: rounds_left_def goes_down_def)
  qed
qed

lemma exec_loop_Finished: "cx_status c = Finished r \<Longrightarrow> exec_loop h n c = Some (Ok r c)"
  by (simp add: exec_loop.simps)

lemma exec_loop_enough:
  "top_level c \<Longrightarrow> call_free (code_bytes (fr_code (cx_cur_call c))) \<Longrightarrow> rounds_left c < fuel \<Longrightarrow>
    \<exists>r. exec_loop h fuel c = Some r \<and> (\<forall>e t. r \<noteq> Err e t)"
proof (induction fuel arbitrary: c)
  case (Suc fuel)
  have run: "exec_loop h (Suc fuel) c =
      (case step h c of Ok _ t \<Rightarrow> exec_loop h fuel t | Err e t \<Rightarrow> Some (Err e t) | Panic \<Rightarrow> Some Panic)"
    using Suc.prems(1) by (simp add: exec_loop.simps top_level_def)
  from step_top [OF Suc.prems(1,2), of h] show ?case
  proof (elim disjE exE conjE)
    fix t assume t: "step h c = Ok () t" "tx_finished t"
    then show ?case by (auto simp: run tx_finished_def exec_loop_Finished)
  next
    fix t assume t: "step h c = Ok () t" "goes_down c t"
    then show ?case using Suc.IH [of t] Suc.prems goes_down_rounds [OF t(2)]
      by (simp add: run goes_down_def)
  qed (simp add: run)
qed simp

text \<open>
  C13. A transaction without calls ends: when the code of the running frame of a transaction contains
  no call or create instruction, the loop ends (with a result of the transaction or a panic) within
  \<open>gas * (size + 2) + size + 2\<close> rounds, for every world state.
\<close>

theorem call_free_terminates:
  assumes "top_level c" and "call_free (code_bytes (fr_code (cx_cur_call c)))"
    and "fr_unused_gas (cx_cur_call c) * (length (code_bytes (fr_code (cx_cur_call c))) + 2)
         + length (code_bytes (fr_code (cx_cur_call c))) + 2 \<le> fuel"
  shows "\<exists>r. exec_loop h fuel c = Some r \<and> (\<forall>e t. r \<noteq> Err e t)"
  by (rule exec_loop_enough [OF assms(1,2)]) (use assms(3) in \<open>simp add: rounds_left_def\<close>)

text \<open>The program \<open>PC; JUMPDEST; PUSH1 1; JUMP\<close> would run for ever if it were not for the gas.\<close>

definition sample_loop :: bytes where
  "sample_loop = [0x58, 0x5b, 0x60, 0x01, 0x56]"

theorem call_free_terminates_witness:
  "\<exists>r. exec_loop (dummy_host no_hash no_rlp) 1000 (sample_ctx London False 100 sample_loop []) = Some r
    \<and> (\<forall>e t. r \<noteq> Err e t)"
proof (rule call_free_terminates)
  show "top_level (sample_ctx London False 100 sample_loop [])"
    by (simp add: top_level_def) (simp add: sample_ctx_def tx_context_def)
  show "call_free (code_bytes (fr_code (cx_cur_call (sample_ctx London False 100 sample_loop []))))"
    by (simp add: PlainCode_new_def sample_loop_def call_free_def decode_def opcode_from_u8_def
        opcode_table_def enters_call_def upt_rec)
qed (simp add: PlainCode_new_def sample_loop_def)

end
