(* ===== verification/ExecInvariant.thy ===== *)
theory ExecInvariant
  imports ExecTermination
begin

text \<open>
  The invariant of a running transaction: the call depth is bounded, every frame has a bounded stack and
  a well-formed memory, the access list is well-formed, and a frame above a read-only frame is read-only.
  Every round of the loop keeps it.
\<close>

definition ctx_inv :: "'s ctx \<Rightarrow> bool" where
  "ctx_inv c \<longleftrightarrow>
     length (cx_call_stack c) \<le> MAX_CALL_DEPTH \<and>
     list_all frame_wf (cx_cur_call c # cx_call_stack c) \<and> al_wf (cx_access_list c) \<and>
     successively (\<lambda>f g. fr_read_only g \<longrightarrow> fr_read_only f) (cx_cur_call c # cx_call_stack c)"

text \<open>There is room for another frame.\<close>

definition ctx_room :: "'s ctx \<Rightarrow> bool" where
  "ctx_room c \<longleftrightarrow> ctx_inv c \<and> length (cx_call_stack c) < MAX_CALL_DEPTH"

lemma successively_head:
  "successively R (f # fs) \<longleftrightarrow> (fs = [] \<or> R f (hd fs)) \<and> successively R fs"
  by (cases fs) simp_all

lemma ctx_inv_frame:
  assumes "ctx_inv c" and "fr_read_only f = fr_read_only (cx_cur_call c)" and "frame_wf f"
  shows "ctx_inv (c\<lparr>cx_cur_call := f\<rparr>)"
  using assms by (simp add: ctx_inv_def successively_head)

lemma quiet_stack: "ctx_quiet c t \<Longrightarrow> cx_call_stack t = cx_call_stack c"
  using ctx_quiet_same by (auto simp: ctx_same_def)

lemma quiet_inv:
  assumes q: "ctx_quiet c t" and c: "ctx_inv c"
  shows "ctx_inv t"
proof -
  have "frame_steps (cx_cur_call c) (cx_cur_call t)" and al: "keeps al_wf (cx_access_list c) (cx_access_list t)"
    using q unfolding ctx_quiet_def by blast+
  then have "fr_read_only (cx_cur_call t) = fr_read_only (cx_cur_call c)"
    and "frame_wf (cx_cur_call c) \<longrightarrow> frame_wf (cx_cur_call t)"
    using frame_steps_static [of "cx_cur_call c" "cx_cur_call t"] unfolding frame_steps_def by blast+
  with c al quiet_stack [OF q] show ?thesis
    unfolding ctx_inv_def keeps_def by (simp add: successively_head)
qed

lemma quiet_room: "ctx_quiet c t \<Longrightarrow> ctx_room c \<Longrightarrow> ctx_room t"
  using quiet_inv quiet_stack unfolding ctx_room_def by metis

lemma quiet_keeps: "pres ctx_quiet m \<Longrightarrow> pres (keeps ctx_inv) m"
  using quiet_inv by (fastforce simp: pres_def keeps_def split: outcome.splits)

lemma reading_keeps: "pres ctx_reading m \<Longrightarrow> pres (keeps ctx_inv) m"
  by (rule quiet_keeps) (rule reading_quiet)

section \<open>Updates of single fields\<close>

lemma set_frame_keeps:
  assumes "\<And>f. fr_read_only (g f) = fr_read_only f" and "\<And>f. fr_stack (g f) = fr_stack f"
    and "\<And>f. fr_memory (g f) = fr_memory f"
  shows "pres (keeps ctx_inv) (on_call (modify g))"
  using ctx_inv_frame assms
  by (auto simp: pres_def keeps_def on_call_def zoom_def modify_def frame_wf_def ctx_inv_def successively_head)

lemma field_keeps:
  "pres (keeps ctx_inv) (on_call (modify (\<lambda>f. f\<lparr>fr_unused_gas := n\<rparr>)))"
  "pres (keeps ctx_inv) (on_call (modify (\<lambda>f. f\<lparr>fr_last_returned := d\<rparr>)))"
  "pres (keeps ctx_inv) (on_call (modify (\<lambda>f. f\<lparr>fr_pc := p\<rparr>)))"
  by (rule set_frame_keeps; simp)+

lemma ctx_field_keeps:
  "pres (keeps ctx_inv) (modify (\<lambda>c. c\<lparr>cx_dirty := f1 c\<rparr>))"
  "pres (keeps ctx_inv) (modify (\<lambda>c. c\<lparr>cx_destroyed := f2 c\<rparr>))"
  "pres (keeps ctx_inv) (modify (\<lambda>c. c\<lparr>cx_status := st\<rparr>))"
  by (rule keep.pres_modify; simp add: keeps_def ctx_inv_def)+

lemma call_pop_keeps: "pres (keeps ctx_inv) call_pop"
proof -
  have "ctx_inv c \<Longrightarrow> cx_call_stack c = f # rest \<Longrightarrow> ctx_inv (c\<lparr>cx_cur_call := f, cx_call_stack := rest\<rparr>)" for c f rest
    by (simp add: ctx_inv_def)
  then show ?thesis
    by (auto simp: pres_def keeps_def call_pop_def exec_defs split: list.splits)
qed

lemma call_push_room:
  "triple ctx_room (call_push code input value callee caller ct gas ro) (\<lambda>_. ctx_inv) (\<lambda>_. ctx_inv)"
  unfolding call_push_def
  by (rule triple_modify) (auto simp: ctx_room_def ctx_inv_def frame_new_def frame_wf_def)

section \<open>Rules\<close>

lemma for_each_pres: "(\<And>x. pres (keeps P) (body x)) \<Longrightarrow> pres (keeps P) (for_each xs body)"
  by (induction xs) (simp_all add: keep.pres_rules)

lemma pres_status: "pres R m \<Longrightarrow> pres R n \<Longrightarrow> pres R (case st of Running \<Rightarrow> m | Finished r \<Rightarrow> n)"
  by (cases st) simp_all

lemma pres_aux:
  "(\<And>a. pres R (p a)) \<Longrightarrow> (\<And>a. pres R (q a)) \<Longrightarrow> pres R (case aux of Sender a \<Rightarrow> p a | Contract a \<Rightarrow> q a)"
  by (cases aux) simp_all

lemma pres_call_type:
  "(\<And>a. pres R (u a)) \<Longrightarrow> (\<And>a. pres R (v a)) \<Longrightarrow> (\<And>a. pres R (w a)) \<Longrightarrow>
     pres R (case ct of CallTx a \<Rightarrow> u a | CallCall a \<Rightarrow> v a | CallCreate a \<Rightarrow> w a)"
  by (cases ct) simp_all

lemma call_state_quiet:
  "pres ctx_quiet (take_snapshot h)" "pres ctx_quiet (transfer h src dst v)" "pres ctx_quiet (delete_empty h a)"
  unfolding take_snapshot_def transfer_def delete_empty_def
  by (intro quiet.pres_rules upd_state_quiet)+

lemmas inv_rules = keep.pres_rules field_keeps ctx_field_keeps call_pop_keeps for_each_pres pres_status pres_aux pres_call_type
  quiet_keeps [OF upd_state_quiet] quiet_keeps [OF call_state_quiet(1)] quiet_keeps [OF call_state_quiet(2)]
  quiet_keeps [OF call_state_quiet(3)] reading_keeps [OF dirty_insert_reading]
  reading_keeps [OF stack_ops_reading(1)] reading_keeps [OF stack_ops_reading(2)]
  reading_keeps [OF stack_ops_reading(5)] reading_keeps [OF stack_ops_reading(6)]
  reading_keeps [OF memory_ops_reading(1)] reading_keeps [OF memory_ops_reading(4)]
  reading_keeps [OF access_ops_reading(1)] reading_keeps [OF access_ops_reading(3)]
  reading_keeps [OF pure_ops_reading(1)] reading_keeps [OF pure_ops_reading(2)]
  reading_keeps [OF pure_ops_reading(4)] reading_keeps [OF pure_ops_reading(6)]
  reading_keeps [OF refund_reading(1)]

section \<open>The end of a frame\<close>

lemma post_keeps: "pres (keeps ctx_inv) (create_post_processing h a data r)"
  unfolding create_post_processing_def by (intro inv_rules)

lemma advance_pc_keeps: "pres (keeps ctx_inv) (advance_pc n b)"
  unfolding advance_pc_def by (intro inv_rules)

lemma end_keeps:
  "pres (keeps ctx_inv) (create_end h cra data g r)" "pres (keeps ctx_inv) (call_end h ca data g r)"
  "pres (keeps ctx_inv) (tx_end h txa data g r)"
  unfolding create_end_def call_end_def tx_end_def by (intro inv_rules post_keeps)+

lemma finish_keeps: "pres (keeps ctx_inv) (finish_call h data r)"
  unfolding finish_call_def by (intro inv_rules end_keeps)

lemma return_without_keeps: "pres (keeps ctx_inv) (return_without_callstack h args data g r)"
  unfolding return_without_callstack_def by (intro inv_rules end_keeps advance_pc_keeps)

lemma frame_end_keeps:
  "pres (keeps ctx_inv) (ctx_return h)" "pres (keeps ctx_inv) (ctx_revert h)"
  "pres (keeps ctx_inv) (ctx_self_destruct h)"
  unfolding ctx_return_def ctx_revert_def ctx_self_destruct_def
  by (intro inv_rules finish_keeps)+

lemma unwind_keeps: "pres (keeps ctx_inv) (unwind h n r)"
  by (induction n arbitrary: r) (auto intro!: inv_rules finish_keeps)

section \<open>The start of a frame\<close>

lemma room_bind:
  assumes "pres ctx_quiet m" and "\<And>a. triple ctx_room (f a) (\<lambda>_. ctx_inv) (\<lambda>_. ctx_inv)"
  shows "triple ctx_room (bind m f) (\<lambda>_. ctx_inv) (\<lambda>_. ctx_inv)"
proof (rule triple_bind)
  have "triple ctx_room m (\<lambda>_. ctx_room) (\<lambda>_. ctx_room)"
    using assms(1) by (rule triple_pres) (rule quiet_room)
  then show "triple ctx_room m (\<lambda>_. ctx_room) (\<lambda>_. ctx_inv)"
    by (rule triple_weaken) (simp_all add: ctx_room_def)
qed (rule assms(2))

lemma room_keeps:
  assumes "pres (keeps ctx_inv) m"
  shows "triple ctx_room m (\<lambda>_. ctx_inv) (\<lambda>_. ctx_inv)"
  by (rule triple_weaken [OF assms [folded triple_keeps]]) (simp_all add: ctx_room_def)

lemma depth_guard:
  assumes "triple ctx_room m (\<lambda>_. ctx_inv) (\<lambda>_. ctx_inv)"
  shows "pres (keeps ctx_inv) (bind call_depth (\<lambda>depth. if depth = MAX_CALL_DEPTH then throw Depth else m))"
  unfolding pres_def
proof
  fix c
  let ?d = "bind call_depth (\<lambda>depth. if depth = MAX_CALL_DEPTH then throw Depth else m)"
  have eq: "?d c = (if length (cx_call_stack c) = MAX_CALL_DEPTH then Err Depth c else m c)"
    by (simp add: call_depth_def bind_def gets_def throw_def)
  show "case ?d c of Ok a t \<Rightarrow> keeps ctx_inv c t | Err e t \<Rightarrow> keeps ctx_inv c t | Panic \<Rightarrow> True"
  proof (cases "ctx_inv c \<and> length (cx_call_stack c) \<noteq> MAX_CALL_DEPTH")
    case True
    then have "ctx_room c" by (simp add: ctx_room_def ctx_inv_def)
    with assms True show ?thesis
      unfolding eq triple_def keeps_def by (auto split: outcome.split_asm outcome.split)
  next
    case False
    then show ?thesis unfolding eq keeps_def by (auto split: outcome.split)
  qed
qed

lemma room_option:
  "triple P m Q E \<Longrightarrow> (\<And>a. triple P (f a) Q E) \<Longrightarrow> triple P (case x of None \<Rightarrow> m | Some a \<Rightarrow> f a) Q E"
  by (cases x) simp_all

lemma triple_Let: "(\<And>a. triple P (f a) Q E) \<Longrightarrow> triple P (let a = x in f a) Q E"
  by simp

lemma call_gas_reading:
  "pres ctx_reading (gas_call_common x)" "pres ctx_reading (use_gas_call_common_berlin a)"
  "pres ctx_reading charge_call_base"
  unfolding gas_call_common_def use_gas_call_common_berlin_def charge_call_base_def
  by (intro reading_rules)+

lemma use_gas_call_reading:
  "pres ctx_reading (use_gas_call h v a x g)" "pres ctx_reading (use_gas_delegate_call a x g)"
  "pres ctx_reading (use_gas_call_code v a x g)" "pres ctx_reading (use_gas_static_call a x g)"
  unfolding use_gas_call_def use_gas_delegate_call_def use_gas_call_code_def use_gas_static_call_def
  by (intro reading_rules call_gas_reading)+

lemmas room_rules = room_bind triple_if triple_prod room_option triple_Let call_push_room triple_panic
  room_keeps [OF return_without_keeps] room_keeps [OF keep.pres_throw]
  quiet.pres_rules upd_state_quiet call_state_quiet reading_quiet reading_rules
  call_gas_reading use_gas_call_reading

lemma create_do_room: "triple ctx_room (create_do h a caller code v g args) (\<lambda>_. ctx_inv) (\<lambda>_. ctx_inv)"
  unfolding create_do_def by (intro room_rules)

lemma enter_code_room:
  "triple ctx_room (enter_code h addr callee caller input v args g ro) (\<lambda>_. ctx_inv) (\<lambda>_. ctx_inv)"
  unfolding enter_code_def by (intro room_rules)

lemma call_do_keeps: "pres (keeps ctx_inv) (call_do h callee caller input g v args)"
  unfolding call_do_def by (intro depth_guard room_rules)

lemma begin_keeps:
  "pres (keeps ctx_inv) (create_begin h)" "pres (keeps ctx_inv) (create2_begin h)"
  "pres (keeps ctx_inv) (delegate_call_begin h)" "pres (keeps ctx_inv) (call_code_begin h)"
  "pres (keeps ctx_inv) (static_call_begin h)"
  unfolding create_begin_def create2_begin_def delegate_call_begin_def call_code_begin_def static_call_begin_def
  by (intro depth_guard inv_rules create_do_room enter_code_room room_rules)+

lemma call_begin_keeps: "pres (keeps ctx_inv) (call_begin h)"
  unfolding call_begin_def
  by (intro inv_rules call_do_keeps reading_keeps [OF call_gas_reading(3)]
      reading_keeps [OF stack_ops_reading(3)] reading_keeps [OF use_gas_call_reading(1)])

section \<open>A round of the loop\<close>

lemma jump_keeps: "pres (keeps ctx_inv) ctx_jump" "pres (keeps ctx_inv) ctx_jumpi"
  unfolding ctx_jump_def ctx_jumpi_def
  by (intro inv_rules reading_keeps [OF pure_ops_reading(5)])+

lemma exec_arm_keeps: "pres (keeps ctx_inv) (exec_arm h i)"
proof -
  consider "quiet_op (in_opcode i)" | "in_opcode i = OpFlow OpJump" | "in_opcode i = OpFlow OpJumpI"
    | "in_opcode i = OpStop" | s where "in_opcode i = OpSystem s"
    using opcode_kinds by blast
  then show ?thesis
  proof cases
    case 1
    then have "pres ctx_quiet (exec_arm h i)"
      using quiet_arm_protected by (fastforce simp: pres_def ctx_protected_def split: outcome.splits)
    then show ?thesis by (rule quiet_keeps)
  next
    case (5 s)
    then show ?thesis
      by (cases s) (simp_all add: exec_arm_def system_arm_def begin_keeps call_begin_keeps frame_end_keeps
          keep.pres_throw)
  qed (simp_all add: exec_arm_def flow_arm_def flow_frame_arm_def jump_keeps finish_keeps)
qed

lemma step_keeps: "pres (keeps ctx_inv) (step h)"
  unfolding step_def by (intro inv_rules exec_arm_keeps unwind_keeps advance_pc_keeps)

section \<open>Reachable states\<close>

text \<open>The rounds of the loop as a transition relation.\<close>

inductive tx_step :: "'s host \<Rightarrow> 's ctx \<Rightarrow> 's ctx \<Rightarrow> bool" for h where
  tx_step: "cx_status c = Running \<Longrightarrow> step h c = Ok () t \<Longrightarrow> tx_step h c t"

inductive_cases tx_stepE: "tx_step h c t"

text \<open>The states of a transaction started by \<open>TxExecState::new\<close> on a given world.\<close>

inductive tx_reaches :: "'s host \<Rightarrow> 's ctx \<Rightarrow> 's ctx \<Rightarrow> bool" for h c where
  tx_reaches_start: "tx_reaches h c c"
| tx_reaches_step: "tx_reaches h c t \<Longrightarrow> tx_step h t u \<Longrightarrow> tx_reaches h c u"

lemma tx_start_room:
  "triple ctx_room (tx_start h from' to value gas input) (\<lambda>_. ctx_inv) (\<lambda>_. ctx_inv)"
  unfolding tx_start_def by (intro room_rules create_do_room room_keeps [OF call_do_keeps])

lemma tx_begin_room:
  "triple ctx_room (tx_begin h from' to value gas input) (\<lambda>_. ctx_inv) (\<lambda>_. ctx_inv)"
proof -
  have fin: "triple ctx_inv (case res of
       Some err \<Rightarrow> modify (\<lambda>c. c\<lparr>cx_status := Finished (TxReverted [] g err)\<rparr>) | None \<Rightarrow> ret ())
      (\<lambda>_. ctx_inv) (\<lambda>_. ctx_inv)" for res g
    unfolding triple_keeps by (intro inv_rules)
  show ?thesis
    unfolding tx_begin_def
    by (rule room_bind, rule quiet.pres_u64_sub, rule triple_bind [where R = "\<lambda>_. ctx_inv"],
        rule triple_try_result, rule tx_start_room, rule fin)
qed

lemma tx_context_room: "al_wf al \<Longrightarrow> ctx_room (tx_context h from' gas gp al s cs env)"
  by (simp add: ctx_room_def ctx_inv_def tx_context_def frame_new_def frame_wf_def)

lemma tx_reaches_inv: "tx_reaches h c t \<Longrightarrow> ctx_inv c \<Longrightarrow> ctx_inv t"
proof (induction rule: tx_reaches.induct)
  case (tx_reaches_step t u)
  then show ?case
    using pres_OkD [OF step_keeps] by (auto simp: keeps_def elim: tx_stepE)
qed

text \<open>
  C5. The invariant of a transaction: in every state reached by the rounds of the loop from the start
  of a transaction, the call depth is at most \<open>MAX_CALL_DEPTH\<close>, every frame has a stack of at most 1024
  words and a memory whose gas is accounted for, the access list never indexes out of range, and no
  frame called from a read-only frame can write.
\<close>

theorem tx_invariant:
  assumes "al_init from' to (map fst (env_precompiled env)) acl al_empty = Ok () al"
    and "tx_begin h from' to value gas input (tx_context h from' gas gp al s cs env) = Ok () c"
    and "tx_reaches h c t"
  shows "length (cx_call_stack t) \<le> MAX_CALL_DEPTH
    \<and> list_all (\<lambda>f. stack_wf (fr_stack f) \<and> memory_wf (fr_memory f)) (cx_cur_call t # cx_call_stack t)
    \<and> al_wf (cx_access_list t)
    \<and> successively (\<lambda>f g. fr_read_only g \<longrightarrow> fr_read_only f) (cx_cur_call t # cx_call_stack t)"
proof -
  have "al_wf al"
    using acts_init [of from' to "map fst (env_precompiled env)" acl] assms(1) al_wf_empty
    unfolding acts_def by fastforce
  then have "ctx_inv c"
    using triple_OkD [OF tx_begin_room tx_context_room assms(2)] by simp
  with tx_reaches_inv [OF assms(3)] have "ctx_inv t" by blast
  then show ?thesis unfolding ctx_inv_def frame_wf_def [abs_def] by blast
qed

text \<open>A transaction from account 1 to account 2, which does not exist.\<close>

lemma sample_tx_begin:
  "\<exists>al c. al_init 1 (Some 2) (map fst (env_precompiled (sample_env London))) None al_empty = Ok () al
    \<and> tx_begin (dummy_host no_hash no_rlp) 1 (Some 2) 0 30000 []
        (tx_context (dummy_host no_hash no_rlp) 1 30000 0 al dummy_new dummy_new (sample_env London)) = Ok () c"
  by (simp add: al_init_def al_add_addr_def al_empty_def exec_defs sample_env_def tx_begin_def tx_start_def
      tx_context_def take_snapshot_def upd_state_def dummy_snapshot_def call_do_def call_depth_def
      dirty_insert_def dummy_new_def get_fork_def frame_new_def return_without_callstack_def tx_end_def
      dummy_reads dummy_set_nonce_def dummy_get_account_def delete_empty_def is_empty_def
      dummy_account_default_def PlainCode_new_def dummy_delete_account_def)

theorem tx_invariant_witness:
  "\<exists>al c. al_init 1 (Some 2) (map fst (env_precompiled (sample_env London))) None al_empty = Ok () al
    \<and> tx_begin (dummy_host no_hash no_rlp) 1 (Some 2) 0 30000 []
        (tx_context (dummy_host no_hash no_rlp) 1 30000 0 al dummy_new dummy_new (sample_env London)) = Ok () c
    \<and> length (cx_call_stack c) \<le> MAX_CALL_DEPTH"
proof -
  obtain al c where ac: "al_init 1 (Some 2) (map fst (env_precompiled (sample_env London))) None al_empty = Ok () al"
    "tx_begin (dummy_host no_hash no_rlp) 1 (Some 2) 0 30000 []
        (tx_context (dummy_host no_hash no_rlp) 1 30000 0 al dummy_new dummy_new (sample_env London)) = Ok () c"
    using sample_tx_begin by blast
  from tx_invariant [OF this tx_reaches_start] ac show ?thesis by blast
qed

end
