(* ===== verification/ExecStorage.thy ===== *)
theory ExecStorage
  imports ExecInvariant
begin

text \<open>
  Storage and jumps: what \<open>SSTORE\<close> charges and refunds, that \<open>SLOAD\<close> reads what \<open>SSTORE\<close> has written,
  on every world state that keeps its contract, and where a jump goes.
\<close>

section \<open>Stack and gas of the current frame\<close>

definition put_stack :: "evm_stack \<Rightarrow> 's ctx \<Rightarrow> 's ctx" where
  "put_stack st c = c\<lparr>cx_cur_call := (cx_cur_call c)\<lparr>fr_stack := st\<rparr>\<rparr>"

definition put_gas :: "gas \<Rightarrow> 's ctx \<Rightarrow> 's ctx" where
  "put_gas g c = c\<lparr>cx_cur_call := (cx_cur_call c)\<lparr>fr_unused_gas := g\<rparr>\<rparr>"

abbreviation ctx_stack :: "'s ctx \<Rightarrow> u256 list" where
  "ctx_stack c \<equiv> stack_list (fr_stack (cx_cur_call c))"

abbreviation ctx_gas :: "'s ctx \<Rightarrow> gas" where
  "ctx_gas c \<equiv> fr_unused_gas (cx_cur_call c)"

lemma put_sel [simp]:
  "cx_cur_call (put_stack st c) = (cx_cur_call c)\<lparr>fr_stack := st\<rparr>"
  "cx_cur_call (put_gas g c) = (cx_cur_call c)\<lparr>fr_unused_gas := g\<rparr>"
  "cx_state (put_stack st c) = cx_state c" "cx_state (put_gas g c) = cx_state c"
  "cx_committed_state (put_stack st c) = cx_committed_state c"
  "cx_committed_state (put_gas g c) = cx_committed_state c"
  "cx_access_list (put_stack st c) = cx_access_list c" "cx_access_list (put_gas g c) = cx_access_list c"
  "cx_refund (put_stack st c) = cx_refund c" "cx_refund (put_gas g c) = cx_refund c"
  "cx_call_stack (put_stack st c) = cx_call_stack c" "cx_call_stack (put_gas g c) = cx_call_stack c"
  "cx_env (put_stack st c) = cx_env c" "cx_env (put_gas g c) = cx_env c"
  "cx_dirty (put_stack st c) = cx_dirty c" "cx_dirty (put_gas g c) = cx_dirty c"
  by (simp_all add: put_stack_def put_gas_def)

lemma charge_eq:
  "charge g c = (if ctx_gas c < g then Err OutOfGas c else Ok () (put_gas (ctx_gas c - g) c))"
  by (simp add: charge_def on_call_def zoom_def use_gas_eq put_gas_def)

lemma on_stack_ctx:
  assumes "refines stack_list stack_wf m n" and "frame_wf (cx_cur_call c)" and "n (ctx_stack c) = Ok a ys"
  shows "\<exists>st. on_call (on_stack m) c = Ok a (put_stack st c) \<and> stack_wf st \<and> stack_list st = ys"
  using on_stack_refines(1) [OF assms] by (auto simp: on_call_def zoom_def put_stack_def)

lemma pop1_ctx:
  "frame_wf (cx_cur_call c) \<Longrightarrow> ctx_stack c = a # ys \<Longrightarrow>
    \<exists>st. pop1 c = Ok a (put_stack st c) \<and> stack_wf st \<and> stack_list st = ys"
  unfolding pop1_def by (rule on_stack_ctx [OF stack_consume1_refines]) (simp_all add: list_pop_def)

lemma pop2_ctx:
  "frame_wf (cx_cur_call c) \<Longrightarrow> ctx_stack c = a # b # ys \<Longrightarrow>
    \<exists>st. pop2 c = Ok (a, b) (put_stack st c) \<and> stack_wf st \<and> stack_list st = ys"
  unfolding pop2_def by (rule on_stack_ctx [OF stack_consume2_refines]) (simp_all add: list_pop_def)

lemma pop3_ctx:
  "frame_wf (cx_cur_call c) \<Longrightarrow> ctx_stack c = a # b # d # ys \<Longrightarrow>
    \<exists>st. pop3 c = Ok (a, b, d) (put_stack st c) \<and> stack_wf st \<and> stack_list st = ys"
  unfolding pop3_def by (rule on_stack_ctx [OF stack_consume3_refines]) (simp_all add: list_pop_def)

lemma push1_ctx:
  "frame_wf (cx_cur_call c) \<Longrightarrow> length (ctx_stack c) < MAX_STACK_DEPTH \<Longrightarrow>
    \<exists>st. push1 v c = Ok () (put_stack st c) \<and> stack_wf st \<and> stack_list st = v # ctx_stack c"
  unfolding push1_def by (rule on_stack_ctx [OF stack_push_refines]) (simp_all add: list_push_def)

lemma frame_wf_put [simp]:
  "frame_wf ((cx_cur_call c)\<lparr>fr_stack := st\<rparr>) \<longleftrightarrow> stack_wf st \<and> memory_wf (fr_memory (cx_cur_call c))"
  "frame_wf ((cx_cur_call c)\<lparr>fr_unused_gas := g\<rparr>) \<longleftrightarrow> frame_wf (cx_cur_call c)"
  by (simp_all add: frame_wf_def)

section \<open>Metering\<close>

text \<open>Only gas, refund counter and access list change.\<close>

definition ctx_metered :: "'s ctx \<Rightarrow> 's ctx \<Rightarrow> bool" where
  "ctx_metered c t \<longleftrightarrow> keeps al_wf (cx_access_list c) (cx_access_list t) \<and>
     (\<exists>g r al. t = (put_gas g c)\<lparr>cx_refund := r, cx_access_list := al\<rparr>)"

lemma ctx_meteredI:
  "keeps al_wf (cx_access_list c) al \<Longrightarrow> ctx_metered c ((put_gas g c)\<lparr>cx_refund := r, cx_access_list := al\<rparr>)"
  unfolding ctx_metered_def by (intro conjI exI) simp_all

lemma ctx_meteredE:
  assumes "ctx_metered c t"
  obtains g r al where "t = (put_gas g c)\<lparr>cx_refund := r, cx_access_list := al\<rparr>"
    and "keeps al_wf (cx_access_list c) al"
  using assms that unfolding ctx_metered_def by auto

lemma ctx_metered_trans: "ctx_metered c t \<Longrightarrow> ctx_metered t u \<Longrightarrow> ctx_metered c u"
proof -
  assume "ctx_metered c t"
  then obtain g r al where t: "t = (put_gas g c)\<lparr>cx_refund := r, cx_access_list := al\<rparr>"
    and al: "keeps al_wf (cx_access_list c) al" by (rule ctx_meteredE)
  assume "ctx_metered t u"
  then obtain g' r' al' where u: "u = (put_gas g' t)\<lparr>cx_refund := r', cx_access_list := al'\<rparr>"
    and "keeps al_wf (cx_access_list t) al'" by (rule ctx_meteredE)
  then have "keeps al_wf (cx_access_list c) al'" using al by (simp add: t keeps_def)
  moreover have "u = (put_gas g' c)\<lparr>cx_refund := r', cx_access_list := al'\<rparr>"
    by (simp add: t u put_gas_def)
  ultimately show ?thesis by (simp add: ctx_meteredI)
qed

lemma ctx_metered_refl: "ctx_metered c c"
  using ctx_meteredI [of c "cx_access_list c" "cx_refund c" "ctx_gas c"] by (simp add: keeps_def put_gas_def)

lemma ctx_metered_upd:
  "ctx_metered c (put_gas g c)" "ctx_metered c (c\<lparr>cx_refund := r\<rparr>)"
  "keeps al_wf (cx_access_list c) al \<Longrightarrow> ctx_metered c (c\<lparr>cx_access_list := al\<rparr>)"
  using ctx_meteredI [of c "cx_access_list c" "cx_refund c" g]
    ctx_meteredI [of c "cx_access_list c" r "ctx_gas c"] ctx_meteredI [of c al "cx_refund c" "ctx_gas c"]
  by (simp_all add: keeps_def put_gas_def)

interpretation metered: run_rel ctx_metered
  by unfold_locales (fact ctx_metered_refl, fact ctx_metered_trans)

lemma access_metered: "pres (keeps al_wf) m \<Longrightarrow> pres ctx_metered (on_access m)"
  unfolding on_access_def by (erule pres_zoom) (rule ctx_metered_upd(3))

lemma charge_metered: "pres ctx_metered (charge g)"
  by (simp add: pres_def charge_eq ctx_metered_refl ctx_metered_upd)

lemma refund_metered: "pres ctx_metered (add_refund g)" "pres ctx_metered (sub_refund g)"
  unfolding add_refund_def sub_refund_def
  by (intro metered.pres_rules metered.pres_modify ctx_metered_upd)+

lemma get_metered: "pres ctx_metered get_callee" "pres ctx_metered get_fork"
  unfolding get_callee_def get_fork_def by (intro metered.pres_rules)+

lemmas metered_rules = metered.pres_rules charge_metered refund_metered get_metered
  access_metered [OF al_ops_keep(1)] access_metered [OF al_ops_keep(2)] access_metered [OF al_ops_keep(3)]
  access_metered [OF al_ops_keep(4)]

lemma sstore_gas_metered:
  "pres ctx_metered (ctx_sstore_istanbul_gas h k v)"
  "pres ctx_metered (ctx_sstore_berlin_london_gas h k v r)"
  unfolding ctx_sstore_istanbul_gas_def ctx_sstore_berlin_london_gas_def by (intro metered_rules)+

text \<open>
  Net gas metering, as EIP-2200 introduced it: the cost and the change of the refund counter, from the costs of a read, of creating
  and of changing a slot and the refund for clearing it, and from the original, the current and the new value of the slot.
\<close>

definition net_metering :: "gas \<Rightarrow> gas \<Rightarrow> gas \<Rightarrow> gas \<Rightarrow> u256 \<Rightarrow> u256 \<Rightarrow> u256 \<Rightarrow> gas \<times> int" where
  "net_metering read create change clear orig cur new =
     (if cur = new then (read, 0)
      else if orig = cur then (if orig = 0 then create else change, if orig \<noteq> 0 \<and> new = 0 then int clear else 0)
      else (read,
            (if orig \<noteq> 0 \<and> cur = 0 then - int clear else 0) + (if orig \<noteq> 0 \<and> new = 0 then int clear else 0)
            + (if orig = new then int (if orig = 0 then create else change) - int read else 0)))"

text \<open>What both gas functions do once the original and the current value are read; \<open>extra\<close> is the price of a cold slot.\<close>

definition net_charge :: "gas \<Rightarrow> gas \<Rightarrow> gas \<Rightarrow> gas \<Rightarrow> gas \<Rightarrow> u256 \<Rightarrow> u256 \<Rightarrow> u256 \<Rightarrow> ('s ctx, unit) exec" where
  "net_charge extra read create change clear orig cur v =
     (if cur = v then charge (extra + read)
      else if orig = cur then
        (if orig = 0 then charge (extra + create)
         else bind (when_do (v = 0) (add_refund clear)) (\<lambda>_. charge (extra + change)))
      else bind (when_do (orig \<noteq> 0) (if cur = 0 then sub_refund clear else when_do (v = 0) (add_refund clear))) (\<lambda>_.
           bind (when_do (orig = v) (add_refund (if orig = 0 then create - read else change - read))) (\<lambda>_.
           charge (extra + read))))"

lemma add_refund_eq:
  "cx_refund c + g < 2 ^ 64 \<Longrightarrow> add_refund g c = Ok () (c\<lparr>cx_refund := cx_refund c + g\<rparr>)"
  by (simp add: add_refund_def exec_defs)

lemma sub_refund_eq:
  "sub_refund g c = (if g \<le> cx_refund c then Ok () (c\<lparr>cx_refund := cx_refund c - g\<rparr>) else Panic)"
  by (simp add: sub_refund_def exec_defs)

lemma net_charge_eq:
  assumes costs: "(read, create, change, clear) \<in> {(800, 20000, 5000, 15000), (100, 20000, 2900, 15000), (100, 20000, 2900, 4800)}"
    and refund: "cx_refund c + 40000 < 2 ^ 64" and net: "net_metering read create change clear orig cur v = (cost, delta)"
  shows "net_charge extra read create change clear orig cur v c =
    (if orig \<noteq> 0 \<and> cur = 0 \<and> v \<noteq> 0 \<and> cx_refund c < clear then Panic
     else charge (extra + cost) (c\<lparr>cx_refund := nat (int (cx_refund c) + delta)\<rparr>))"
proof -
  have cost: "cost = fst (net_metering read create change clear orig cur v)"
    and delta: "delta = snd (net_metering read create change clear orig cur v)"
    using net by simp_all
  note red = net_charge_def add_refund_eq sub_refund_eq bind_def ret_def cost delta net_metering_def nat_add_distrib nat_diff_distrib'
  show ?thesis
  proof (cases "cur = v \<or> orig = cur")
    case True
    then show ?thesis using refund costs by (elim insertE; cases "cur = v"; cases "orig = 0"; cases "v = 0") (simp_all add: red)
  next
    case False
    then show ?thesis
      using refund costs
      by (elim insertE; cases "orig = 0"; cases "cur = 0"; cases "v = 0"; cases "orig = v"; cases "cx_refund c < clear")
        (simp_all add: red)
  qed
qed

lemma sstore_istanbul_read:
  assumes "orig = ws_get_state h (cx_committed_state c) (fr_callee (cx_cur_call c)) k"
    and "cur = ws_get_state h (cx_state c) (fr_callee (cx_cur_call c)) k"
  shows "ctx_sstore_istanbul_gas h k v c =
    (if ctx_gas c \<le> 2300 then Err OutOfGas c else net_charge 0 800 20000 5000 15000 orig cur v c)"
  unfolding ctx_sstore_istanbul_gas_def assms net_charge_def
  by (simp add: bind_def [of "gets _"] bind_def [of get_callee] gets_def get_callee_def throw_def)

section \<open>Reading and writing storage\<close>

text \<open>The cost of \<open>SLOAD\<close> and what it makes warm.\<close>

definition sload_cost :: "fork \<Rightarrow> bool \<Rightarrow> gas" where
  "sload_cost fork is_warm =
     (if fork \<ge> Berlin then if is_warm then 100 else 2100
      else if fork \<ge> Istanbul then 800 else if fork \<ge> TangerineWhistle then 200 else 50)"

lemma contains_ctx:
  assumes "al_wf (cx_access_list c)"
  shows "on_access (al_contains a k) c =
    Ok (a \<in> warm_addrs (al_warm (cx_access_list c)), (a, k) \<in> warm_slots (al_warm (cx_access_list c))) c"
  using refinesD(1) [OF al_contains_refines [of a k] assms]
  by (cases "al_contains a k (cx_access_list c)")
    (auto simp: warm_contains_def gets_def on_access_def zoom_def al_contains_def bind_def slots_index_def
      ret_def panic_def split: option.splits if_splits outcome.splits)

lemma add_slot_ctx:
  assumes "al_wf (cx_access_list c)"
  shows "\<exists>r al. on_access (al_add_slot a k) c = Ok r (c\<lparr>cx_access_list := al\<rparr>) \<and> al_wf al
    \<and> al_warm al = warm_slot a k (al_warm (cx_access_list c))"
  using refinesD [OF al_add_slot_refines [of a k] assms]
  by (cases "al_add_slot a k (cx_access_list c)")
    (auto simp: warm_add_slot_def exec_defs on_access_def warm_slot_def)

text \<open>The part of \<open>sload\<close> that determines the cost.\<close>

definition sload_gas :: "fork \<Rightarrow> addr \<Rightarrow> hash \<Rightarrow> ('s ctx, gas) exec" where
  "sload_gas fork callee key =
     (if fork \<ge> Berlin then
        bind (on_access (al_contains callee key)) (\<lambda>(_, slot_exist).
        if \<not> slot_exist
        then bind (on_access (al_add_slot callee key)) (\<lambda>_. ret GAS_COLD_SLOAD_COST_BERLIN)
        else ret GAS_WARM_STORAGE_READ_COST_BERLIN)
      else if fork \<ge> Istanbul then ret GAS_SLOAD_ISTANBUL
      else if fork \<ge> TangerineWhistle then ret GAS_SLOAD_TANGERINE
      else ret GAS_SLOAD_FRONTIER)"

lemma ctx_sload_eq:
  "ctx_sload h = bind pop1 (\<lambda>k. bind get_fork (\<lambda>fork. bind get_callee (\<lambda>callee.
     bind (sload_gas fork callee k) (\<lambda>gas. bind (charge gas) (\<lambda>_.
     bind (gets (\<lambda>c. ws_get_state h (cx_state c) callee k)) push1)))))"
  by (simp add: ctx_sload_def sload_gas_def Let_def)

lemma warm_slot_absorb:
  "(a, k) \<in> warm_slots (al_warm al) \<Longrightarrow> warm_slot a k (al_warm al) = al_warm al"
  by (auto simp: warm_slot_def al_warm_def insert_absorb)

lemma sload_gas_eq:
  assumes "al_wf (cx_access_list c)"
  shows "\<exists>al. sload_gas fork a k c =
      Ok (sload_cost fork ((a, k) \<in> warm_slots (al_warm (cx_access_list c)))) (c\<lparr>cx_access_list := al\<rparr>)
    \<and> al_wf al \<and> al_warm al = (if fork \<ge> Berlin then warm_slot a k (al_warm (cx_access_list c))
                                else al_warm (cx_access_list c))"
proof (cases "fork \<ge> Berlin \<and> (a, k) \<notin> warm_slots (al_warm (cx_access_list c))")
  case True
  moreover obtain r al where "on_access (al_add_slot a k) c = Ok r (c\<lparr>cx_access_list := al\<rparr>)" "al_wf al"
    "al_warm al = warm_slot a k (al_warm (cx_access_list c))"
    using add_slot_ctx [OF assms] by blast
  ultimately show ?thesis
    by (intro exI [of _ al]) (simp add: sload_gas_def sload_cost_def bind_def contains_ctx [OF assms] ret_def)
next
  case False
  then show ?thesis
    using assms
    by (intro exI [of _ "cx_access_list c"])
      (auto simp: sload_gas_def sload_cost_def bind_def contains_ctx [OF assms] ret_def warm_slot_absorb)
qed

lemma sload_functional:
  assumes wf: "frame_wf (cx_cur_call c)" "al_wf (cx_access_list c)" and st: "ctx_stack c = k # ys"
    and callee: "a = fr_callee (cx_cur_call c)" and fork: "fork = fr_fork (cx_cur_call c)"
    and cost: "cost = sload_cost fork ((a, k) \<in> warm_slots (al_warm (cx_access_list c)))"
  shows "if ctx_gas c < cost then \<exists>t. ctx_sload h c = Err OutOfGas t \<and> cx_state t = cx_state c
    else \<exists>t. ctx_sload h c = Ok () t \<and> ctx_stack t = ws_get_state h (cx_state c) a k # ys
      \<and> ctx_gas t = ctx_gas c - cost \<and> cx_state t = cx_state c
      \<and> al_warm (cx_access_list t) = (if fork \<ge> Berlin then warm_slot a k (al_warm (cx_access_list c))
                                       else al_warm (cx_access_list c))"
proof -
  obtain st' where pop: "pop1 c = Ok k (put_stack st' c)" and st': "stack_wf st'" "stack_list st' = ys"
    using pop1_ctx [OF wf(1) st] by blast
  let ?c1 = "put_stack st' c"
  obtain al where gas: "sload_gas fork a k ?c1 = Ok cost (?c1\<lparr>cx_access_list := al\<rparr>)"
    and al: "al_warm al = (if fork \<ge> Berlin then warm_slot a k (al_warm (cx_access_list c))
                           else al_warm (cx_access_list c))"
    using sload_gas_eq [of ?c1 fork a k] wf(2) cost by auto
  let ?c2 = "?c1\<lparr>cx_access_list := al\<rparr>"
  let ?c3 = "put_gas (ctx_gas c - cost) ?c2"
  have run: "ctx_sload h c = (if ctx_gas c < cost then Err OutOfGas ?c2
      else push1 (ws_get_state h (cx_state c) a k) ?c3)"
    by (simp add: ctx_sload_eq bind_def pop get_fork_def get_callee_def gets_def charge_eq gas
        flip: callee fork)
  have "length ys < MAX_STACK_DEPTH" using wf(1) st
    by (metis Suc_le_lessD frame_wf_def length_Cons length_stack_list stack_wf_def)
  moreover have "frame_wf (cx_cur_call ?c3)" using wf(1) st' by (simp add: frame_wf_def)
  ultimately obtain st2 where "push1 (ws_get_state h (cx_state c) a k) ?c3 = Ok () (put_stack st2 ?c3)"
    and "stack_list st2 = ws_get_state h (cx_state c) a k # ys"
    using push1_ctx [of ?c3 "ws_get_state h (cx_state c) a k"] st' by auto
  with al run show ?thesis by simp
qed

text \<open>The part of \<open>sstore\<close> that charges.\<close>

definition sstore_gas :: "'s host \<Rightarrow> fork \<Rightarrow> addr \<Rightarrow> hash \<Rightarrow> u256 \<Rightarrow> ('s ctx, unit) exec" where
  "sstore_gas h fork callee key val =
     (if fork \<ge> Berlin then
        ctx_sstore_berlin_london_gas h key val
          (if fork \<ge> London then GAS_SSTORE_REFUND_LONDON else GAS_SSTORE_REFUND_ISTANBUL)
      else if fork \<ge> Istanbul then ctx_sstore_istanbul_gas h key val
      else if fork \<ge> Constantinople then
        bind (gets (\<lambda>c. ws_get_state h (cx_state c) callee key)) (\<lambda>cur.
        bind (if cur = 0 \<and> val \<noteq> 0 then ret GAS_SSTORE_SET
              else if cur \<noteq> 0 \<and> val = 0
              then bind (add_refund GAS_SSTORE_REFUND) (\<lambda>_. ret GAS_SSTORE_CLEAR)
              else ret GAS_SSTORE_RESET) charge)
      else ret ())"

lemma ctx_sstore_eq:
  "ctx_sstore h =
     bind (gets (\<lambda>c. fr_read_only (cx_cur_call c))) (\<lambda>read_only.
     if read_only then throw WriteProtection
     else bind pop2 (\<lambda>(k, val). bind get_fork (\<lambda>fork. bind get_callee (\<lambda>callee.
          bind (sstore_gas h fork callee k val) (\<lambda>_.
          bind (upd_state (ws_set_state h callee k val)) (\<lambda>_.
          dirty_insert callee))))))"
  unfolding ctx_sstore_def sstore_gas_def Let_def hash_of_u256_id by (rule refl)

lemma sstore_gas_all_metered: "pres ctx_metered (sstore_gas h fork a k v)"
  unfolding sstore_gas_def by (intro metered_rules sstore_gas_metered)

text \<open>After Berlin: a cold slot is made warm and costs 2100 gas more; the account of the frame must be warm.\<close>

lemma sstore_berlin_read:
  assumes wf: "al_wf (cx_access_list c)" and a: "a = fr_callee (cx_cur_call c)"
    and "orig = ws_get_state h (cx_committed_state c) a k" and "cur = ws_get_state h (cx_state c) a k"
    and cold: "cold \<longleftrightarrow> (a, k) \<notin> warm_slots (al_warm (cx_access_list c))"
  shows "\<exists>al. al_wf al \<and> al_warm al = warm_slot a k (al_warm (cx_access_list c)) \<and>
    ctx_sstore_berlin_london_gas h k v clear c =
      (if ctx_gas c \<le> 2300 then Err OutOfGas c
       else if cold \<and> a \<notin> warm_addrs (al_warm (cx_access_list c)) then Panic
       else net_charge (if cold then 2100 else 0) 100 20000 2900 clear orig cur v (c\<lparr>cx_access_list := al\<rparr>))"
proof (cases cold)
  case True
  obtain r al where al: "on_access (al_add_slot a k) c = Ok r (c\<lparr>cx_access_list := al\<rparr>)" "al_wf al"
    "al_warm al = warm_slot a k (al_warm (cx_access_list c))"
    using add_slot_ctx [OF wf] by blast
  show ?thesis
    using al True cold assms(3,4)
    by (intro exI [of _ al]) (simp add: ctx_sstore_berlin_london_gas_def net_charge_def bind_def [of "gets _"] bind_def [of get_callee]
        bind_def [of "on_access _"] bind_def [of "bind (on_access _) _"] bind_def [of "ret _"] gets_def get_callee_def throw_def ret_def panic_def contains_ctx [OF wf] flip: a)
next
  case False
  then show ?thesis
    using wf cold assms(3,4) warm_slot_absorb [of a k "cx_access_list c"]
    by (intro exI [of _ "cx_access_list c"]) (simp add: ctx_sstore_berlin_london_gas_def net_charge_def bind_def [of "gets _"]
        bind_def [of get_callee] bind_def [of "on_access _"] bind_def [of "ret _"] gets_def get_callee_def throw_def ret_def
        contains_ctx [OF wf] flip: a)
qed

text \<open>
  The price of \<open>SSTORE\<close> by fork: EIP-2200 from Istanbul on, with the costs of EIP-2929 from Berlin on and the refund of EIP-3529 from
  London on; in Constantinople the rule of the first version; before it the code takes nothing.
\<close>

definition clearing_refund :: "fork \<Rightarrow> gas" where
  "clearing_refund fork = (if fork \<ge> London then 4800 else 15000)"

definition sstore_price :: "fork \<Rightarrow> bool \<Rightarrow> u256 \<Rightarrow> u256 \<Rightarrow> u256 \<Rightarrow> gas \<times> int" where
  "sstore_price fork cold orig cur new =
     (if fork \<ge> Berlin then
        (case net_metering 100 20000 2900 (clearing_refund fork) orig cur new of (cost, delta) \<Rightarrow>
           ((if cold then 2100 else 0) + cost, delta))
      else if fork \<ge> Istanbul then net_metering 800 20000 5000 15000 orig cur new
      else if fork \<ge> Constantinople then
        (if cur = 0 \<and> new \<noteq> 0 then 20000 else 5000, if cur \<noteq> 0 \<and> new = 0 then 15000 else 0)
      else (0, 0))"

definition sstore_panics :: "fork \<Rightarrow> bool \<Rightarrow> bool \<Rightarrow> u256 \<Rightarrow> u256 \<Rightarrow> u256 \<Rightarrow> gas \<Rightarrow> bool" where
  "sstore_panics fork cold_addr cold orig cur new refund \<longleftrightarrow>
     fork \<ge> Berlin \<and> cold \<and> cold_addr \<or>
     fork \<ge> Istanbul \<and> orig \<noteq> 0 \<and> cur = 0 \<and> new \<noteq> 0 \<and> refund < clearing_refund fork"

lemma sstore_gas_eq:
  assumes wf: "al_wf (cx_access_list c)" and a: "a = fr_callee (cx_cur_call c)" and refund: "cx_refund c + 40000 < 2 ^ 64"
    and vals: "orig = ws_get_state h (cx_committed_state c) a k" "cur = ws_get_state h (cx_state c) a k"
    and cold: "cold \<longleftrightarrow> (a, k) \<notin> warm_slots (al_warm (cx_access_list c))"
    and price: "sstore_price fork cold orig cur v = (cost, delta)"
  shows "\<exists>al. al_wf al \<and>
    al_warm al = (if fork \<ge> Berlin then warm_slot a k (al_warm (cx_access_list c)) else al_warm (cx_access_list c)) \<and>
    sstore_gas h fork a k v c =
      (if fork \<ge> Istanbul \<and> ctx_gas c \<le> 2300 then Err OutOfGas c
       else if sstore_panics fork (a \<notin> warm_addrs (al_warm (cx_access_list c))) cold orig cur v (cx_refund c) then Panic
       else charge cost (c\<lparr>cx_access_list := al, cx_refund := nat (int (cx_refund c) + delta)\<rparr>))"
proof -
  consider "fork \<ge> Berlin" | "fork \<ge> Istanbul" "\<not> fork \<ge> Berlin" | "\<not> fork \<ge> Istanbul" by blast
  then show ?thesis
  proof cases
    case 1
    obtain al where al: "al_wf al" "al_warm al = warm_slot a k (al_warm (cx_access_list c))"
      "ctx_sstore_berlin_london_gas h k v (clearing_refund fork) c =
        (if ctx_gas c \<le> 2300 then Err OutOfGas c
         else if cold \<and> a \<notin> warm_addrs (al_warm (cx_access_list c)) then Panic
         else net_charge (if cold then 2100 else 0) 100 20000 2900 (clearing_refund fork) orig cur v (c\<lparr>cx_access_list := al\<rparr>))"
      using sstore_berlin_read [OF wf a vals cold] by blast
    obtain cost' where net: "net_metering 100 20000 2900 (clearing_refund fork) orig cur v = (cost', delta)"
      "cost = (if cold then 2100 else 0) + cost'"
      using price 1 by (auto simp: sstore_price_def split: prod.splits)
    have "net_charge (if cold then 2100 else 0) 100 20000 2900 (clearing_refund fork) orig cur v (c\<lparr>cx_access_list := al\<rparr>) =
        (if orig \<noteq> 0 \<and> cur = 0 \<and> v \<noteq> 0 \<and> cx_refund c < clearing_refund fork then Panic
         else charge cost (c\<lparr>cx_access_list := al, cx_refund := nat (int (cx_refund c) + delta)\<rparr>))"
      using net_charge_eq [OF _ _ net(1), of "c\<lparr>cx_access_list := al\<rparr>"] refund net(2) by (simp add: clearing_refund_def)
    moreover have "sstore_gas h fork a k v = ctx_sstore_berlin_london_gas h k v (clearing_refund fork)"
      using 1 by (simp add: sstore_gas_def clearing_refund_def)
    ultimately show ?thesis using al 1 by (intro exI [of _ al]) (auto simp: sstore_panics_def)
  next
    case 2
    then have "net_metering 800 20000 5000 15000 orig cur v = (cost, delta)" using price by (simp add: sstore_price_def)
    from net_charge_eq [OF _ _ this, of c 0] refund have
      "net_charge 0 800 20000 5000 15000 orig cur v c = (if orig \<noteq> 0 \<and> cur = 0 \<and> v \<noteq> 0 \<and> cx_refund c < 15000 then Panic
         else charge cost (c\<lparr>cx_refund := nat (int (cx_refund c) + delta)\<rparr>))" by simp
    with 2 wf sstore_istanbul_read [of orig h c k cur v] vals show ?thesis
      by (intro exI [of _ "cx_access_list c"]) (simp add: sstore_gas_def sstore_panics_def clearing_refund_def a)
  next
    case 3
    then show ?thesis
      using price refund wf vals
      by (intro exI [of _ "cx_access_list c"]; cases "fork \<ge> Constantinople"; cases "cur = 0"; cases "v = 0")
        (simp_all add: sstore_gas_def sstore_price_def sstore_panics_def bind_def gets_def ret_def add_refund_eq charge_eq nat_add_distrib
          put_gas_def)
  qed
qed

text \<open>
  C18. What \<open>SSTORE\<close> does in a frame that may write, on every fork: it takes the key and the value from the stack; from Istanbul on
  it is out of gas at or below the sentry of 2300 gas; it changes the refund counter and charges as the rules of the fork prescribe
  for the committed, the current and the new value and the warmth of the slot, makes the slot warm from Berlin on, and, if the gas is
  enough, stores the value. It panics exactly when, from Istanbul on, a slot whose committed value is not 0 and that is 0 now gets another
  value while the refund counter is below the refund of a clearing, which is to be taken back, or when a cold slot of a cold account
  is written from Berlin on. The refund counter is assumed to be 40000 or more below 2^64, so that adding to it does not overflow.
\<close>

theorem sstore_metering:
  assumes "frame_wf (cx_cur_call c)" and "al_wf (cx_access_list c)" and "\<not> fr_read_only (cx_cur_call c)" and "ctx_stack c = k # v # ys"
    and "cx_refund c + 40000 < 2 ^ 64" and "fork = fr_fork (cx_cur_call c)" and "a = fr_callee (cx_cur_call c)"
    and "orig = ws_get_state h (cx_committed_state c) a k" and "cur = ws_get_state h (cx_state c) a k"
    and "warm = al_warm (cx_access_list c)" and "sstore_price fork ((a, k) \<notin> warm_slots warm) orig cur v = (cost, delta)"
  shows "\<exists>st al. stack_list st = ys \<and> al_warm al = (if fork \<ge> Berlin then warm_slot a k warm else warm) \<and>
    ctx_sstore h c =
      (let c\<^sub>1 = put_stack st c; t = c\<^sub>1\<lparr>cx_access_list := al, cx_refund := nat (int (cx_refund c) + delta)\<rparr> in
       if fork \<ge> Istanbul \<and> ctx_gas c \<le> 2300 then Err OutOfGas c\<^sub>1
       else if sstore_panics fork (a \<notin> warm_addrs warm) ((a, k) \<notin> warm_slots warm) orig cur v (cx_refund c) then Panic
       else if ctx_gas c < cost then Err OutOfGas t
       else Ok () ((put_gas (ctx_gas c - cost) t)\<lparr>cx_state := ws_set_state h a k v (cx_state c), cx_dirty := List.insert a (cx_dirty c)\<rparr>))"
proof -
  obtain st where pop: "pop2 c = Ok (k, v) (put_stack st c)" and st: "stack_list st = ys"
    using pop2_ctx [OF assms(1,4)] by blast
  obtain al where al: "al_warm al = (if fork \<ge> Berlin then warm_slot a k warm else warm)"
    and gas: "sstore_gas h fork a k v (put_stack st c) =
      (if fork \<ge> Istanbul \<and> ctx_gas c \<le> 2300 then Err OutOfGas (put_stack st c)
       else if sstore_panics fork (a \<notin> warm_addrs warm) ((a, k) \<notin> warm_slots warm) orig cur v (cx_refund c) then Panic
       else charge cost ((put_stack st c)\<lparr>cx_access_list := al, cx_refund := nat (int (cx_refund c) + delta)\<rparr>))"
    using sstore_gas_eq [of "put_stack st c" a orig h k cur "(a, k) \<notin> warm_slots warm" fork v cost delta] assms(2,5,7-11) by (auto cong: if_cong)
  have "ctx_sstore h c = bind (sstore_gas h fork a k v) (\<lambda>_. bind (upd_state (ws_set_state h a k v)) (\<lambda>_. dirty_insert a)) (put_stack st c)"
    using assms(3,6,7) by (simp add: ctx_sstore_eq bind_def [of "gets _"] bind_def [of pop2] bind_def [of get_fork] bind_def [of get_callee]
        gets_def pop get_fork_def get_callee_def)
  with al st gas show ?thesis
    by (intro exI [of _ st] exI [of _ al])
      (simp add: Let_def bind_def charge_eq upd_state_def dirty_insert_def modify_def put_gas_def)
qed

text \<open>After London, a warm slot cleared by this transaction is set back to its committed value.\<close>

theorem sstore_metering_witness:
  "\<exists>t. ctx_sstore (dummy_host no_hash no_rlp)
     ((sample_ctx London False 50000 [] [7, 5])\<lparr>cx_refund := 4800, cx_committed_state := dummy_set_state no_hash 2 7 5 dummy_new\<rparr>) = Ok () t
    \<and> ctx_gas t = 47800 \<and> cx_refund t = 2800 \<and> ws_get_state (dummy_host no_hash no_rlp) (cx_state t) 2 7 = 5"
proof -
  let ?c = "(sample_ctx London False 50000 [] [7, 5])\<lparr>cx_refund := 4800, cx_committed_state := dummy_set_state no_hash 2 7 5 dummy_new\<rparr>"
  let ?h = "dummy_host no_hash no_rlp"
  have warm: "al_warm (cx_access_list ?c) = \<lparr>warm_addrs = {1, 2}, warm_slots = {}\<rparr>"
    by (auto simp: al_warm_def sample_ctx_def tx_context_def split: if_splits)
  have price: "sstore_price London ((2, 7) \<notin> warm_slots \<lparr>warm_addrs = {1, 2}, warm_slots = {}\<rparr>) 5 0 5 = (2200, - 2000)"
    by (simp add: sstore_price_def net_metering_def clearing_refund_def)
  have "ws_get_state ?h (cx_committed_state ?c) 2 7 = 5" "ws_get_state ?h (cx_state ?c) 2 7 = 0"
    by (simp_all add: dummy_reads dummy_get_account_def dummy_set_state_def dummy_new_def dummy_account_default_def)
  from sstore_metering [of ?c 7 5 "[]" London 2 5 ?h 0, OF _ _ _ _ _ _ _ this(1) [symmetric] this(2) [symmetric] warm [symmetric] price]
  show ?thesis
    by (auto simp: Let_def sstore_panics_def clearing_refund_def put_gas_def dummy_reads dummy_get_account_def dummy_set_state_def
        dummy_new_def dummy_account_default_def)
qed

lemma sstore_effect:
  assumes wf: "frame_wf (cx_cur_call c)" and st: "ctx_stack c = k # v # ys"
    and callee: "a = fr_callee (cx_cur_call c)" and run: "ctx_sstore h c = Ok () t"
  shows "cx_state t = ws_set_state h a k v (cx_state c) \<and> ctx_stack t = ys
    \<and> a \<in> set (cx_dirty t) \<and> fr_callee (cx_cur_call t) = a"
proof -
  obtain st' where pop: "pop2 c = Ok (k, v) (put_stack st' c)" and st': "stack_list st' = ys"
    using pop2_ctx [OF wf st] by blast
  have ro: "\<not> fr_read_only (cx_cur_call c)"
    using run sstore_read_only [of c h] by auto
  let ?fork = "fr_fork (cx_cur_call c)"
  obtain u where u: "sstore_gas h ?fork a k v (put_stack st' c) = Ok () u"
    and t: "t = u\<lparr>cx_state := ws_set_state h a k v (cx_state u), cx_dirty := List.insert a (cx_dirty u)\<rparr>"
    using run ro callee
    by (auto simp: ctx_sstore_eq bind_def gets_def pop get_fork_def get_callee_def upd_state_def modify_def
        dirty_insert_def split: outcome.splits)
  have "ctx_metered (put_stack st' c) u"
    by (rule pres_OkD [OF sstore_gas_all_metered u])
  then obtain g r al where "u = (put_gas g (put_stack st' c))\<lparr>cx_refund := r, cx_access_list := al\<rparr>"
    by (rule ctx_meteredE)
  with t st' callee show ?thesis by simp
qed

text \<open>
  C17. Storage: on every world state that keeps its contract, after a successful \<open>SSTORE\<close> of \<open>v\<close> under \<open>k\<close>,
  an \<open>SLOAD\<close> in a frame of the same account with enough gas succeeds, costs what the fork and the warmth
  of the slot determine, and pushes \<open>v\<close> for \<open>k\<close> and the old value for every other key.
\<close>

theorem sstore_sload_roundtrip:
  assumes "world_state keccak h ok" and "ok (cx_state c)"
    and "frame_wf (cx_cur_call c)" and "ctx_stack c = k # v # ys" and "ctx_sstore h c = Ok () t"
    and "cx_state u = cx_state t" and "fr_callee (cx_cur_call u) = fr_callee (cx_cur_call c)"
    and "frame_wf (cx_cur_call u)" and "al_wf (cx_access_list u)" and "ctx_stack u = k' # zs"
    and "cost = sload_cost (fr_fork (cx_cur_call u))
                  ((fr_callee (cx_cur_call u), k') \<in> warm_slots (al_warm (cx_access_list u)))"
    and "cost \<le> ctx_gas u"
  shows "\<exists>w. ctx_sload h u = Ok () w
    \<and> ctx_stack w = (if k' = k then v else ws_get_state h (cx_state c) (fr_callee (cx_cur_call c)) k') # zs
    \<and> ctx_gas w = ctx_gas u - cost"
proof -
  have "cx_state u = ws_set_state h (fr_callee (cx_cur_call c)) k v (cx_state c)"
    using sstore_effect [OF assms(3,4) refl assms(5)] assms(6) by simp
  then have "ws_get_state h (cx_state u) (fr_callee (cx_cur_call u)) k'
      = (if k' = k then v else ws_get_state h (cx_state c) (fr_callee (cx_cur_call c)) k')"
    using world_state.read_after_write(1) [OF assms(1,2)] assms(7) by simp
  with sload_functional [OF assms(8,9,10) refl refl assms(11), of h] assms(12) show ?thesis
    by (auto split: if_splits)
qed

text \<open>Account 2 writes 9 under 7 and reads it back.\<close>

lemma sample_sstore:
  "\<exists>t. ctx_sstore (dummy_host no_hash no_rlp) (sample_ctx Istanbul False 50000 [] [7, 9]) = Ok () t"
proof -
  let ?h = "dummy_host no_hash no_rlp" and ?c = "sample_ctx Istanbul False 50000 [] [7, 9]"
  obtain st where "pop2 ?c = Ok (7, 9) (put_stack st ?c)"
    using pop2_ctx [of ?c 7 9 "[]"] by auto
  moreover have "ctx_sstore_istanbul_gas ?h 7 9 (put_stack st ?c) = Ok () (put_gas 30000 (put_stack st ?c))"
    by (simp add: sstore_istanbul_read [OF refl refl] net_charge_def charge_eq dummy_reads dummy_get_account_def
        dummy_new_def dummy_account_default_def)
  ultimately show ?thesis
    by (simp add: ctx_sstore_eq sstore_gas_def bind_def gets_def get_fork_def get_callee_def upd_state_def
        dirty_insert_def modify_def)
qed

theorem sstore_sload_witness:
  "\<exists>t w. ctx_sstore (dummy_host no_hash no_rlp) (sample_ctx Istanbul False 50000 [] [7, 9]) = Ok () t
    \<and> ctx_sload (dummy_host no_hash no_rlp) ((sample_ctx Berlin False 50000 [] [7])\<lparr>cx_state := cx_state t\<rparr>) = Ok () w
    \<and> ctx_stack w = [9] \<and> ctx_gas w = 47900"
proof -
  let ?h = "dummy_host no_hash no_rlp" and ?c = "sample_ctx Istanbul False 50000 [] [7, 9]"
  have ws: "world_state no_hash ?h (\<lambda>_. True)" by (rule dhost.world_state_axioms)
  obtain t where t: "ctx_sstore ?h ?c = Ok () t" using sample_sstore by blast
  let ?u = "(sample_ctx Berlin False 50000 [] [7])\<lparr>cx_state := cx_state t\<rparr>"
  have "(2, 7) \<notin> warm_slots (al_warm (cx_access_list ?u))"
    by (simp add: sample_ctx_def tx_context_def al_warm_def)
  then have "2100 = sload_cost (fr_fork (cx_cur_call ?u))
      ((fr_callee (cx_cur_call ?u), 7) \<in> warm_slots (al_warm (cx_access_list ?u)))"
    by (simp add: sload_cost_def)
  from sstore_sload_roundtrip [OF ws _ _ _ t _ _ _ _ _ this, of 7 9 "[]" "[]"] t show ?thesis by simp
qed

section \<open>Jumps\<close>

text \<open>
  C30. A jump: with 8 gas and the destination on the stack, \<open>JUMP\<close> fails with \<open>InvalidJump\<close> unless the
  destination is a \<open>JUMPDEST\<close> of the code outside the data of a \<open>PUSH\<close>; it then sets the program counter to
  the position before it, from which the loop advances to it, and panics for the destination 0, which has no
  position before it.
\<close>

theorem jump_functional:
  assumes "frame_wf (cx_cur_call c)" and "ctx_stack c = dest # ys" and "8 \<le> ctx_gas c"
    and "fr_code (cx_cur_call c) = PlainCode_new keccak code" and "length code < 2 ^ 64"
  shows "if \<not> (inst_start code (unat dest) \<and> code ! unat dest = 0x5b)
    then \<exists>t. ctx_jump c = Err InvalidJump t
    else if dest = 0 then ctx_jump c = Panic
    else \<exists>t u. ctx_jump c = Ok () t \<and> ctx_stack t = ys \<and> ctx_gas t = ctx_gas c - 8
           \<and> advance_pc 0 False t = Ok () u \<and> fr_pc (cx_cur_call u) = unat dest"
proof -
  let ?c1 = "put_gas (ctx_gas c - 8) c"
  have "frame_wf (cx_cur_call ?c1)" using assms(1) by simp
  then obtain st where pop: "pop1 ?c1 = Ok dest (put_stack st ?c1)" and st: "stack_list st = ys"
    using pop1_ctx [of ?c1 dest ys] assms(2) by auto
  have valid: "is_valid_jumpdest (fr_code (cx_cur_call c)) dest
      \<longleftrightarrow> inst_start code (unat dest) \<and> code ! unat dest = 0x5b"
    using is_valid_jumpdest_iff [OF code_genuine_new, of keccak code dest] assms(4,5)
    by (simp add: PlainCode_new_def)
  have small: "unat dest < 2 ^ 64" if "inst_start code (unat dest)"
    using inst_start_less [OF that] assms(5) by simp
  have run: "ctx_jump c =
      (if \<not> is_valid_jumpdest (fr_code (cx_cur_call c)) dest then Err InvalidJump (put_stack st ?c1)
       else bind (as_u64 dest) (\<lambda>d. bind (u64_sub d 1) (\<lambda>pc. on_call (modify (\<lambda>f. f\<lparr>fr_pc := pc\<rparr>))))
              (put_stack st ?c1))"
    using assms(3) pop by (simp add: ctx_jump_def bind_def charge_eq gets_def throw_def)
  show ?thesis
  proof (cases "inst_start code (unat dest) \<and> code ! unat dest = 0x5b")
    case True
    note s64 = small [OF conjunct1 [OF True]]
    show ?thesis
    proof (cases "dest = 0")
      case False
      then have "1 \<le> unat dest" by (simp add: Suc_le_eq unat_gt_0)
      with True False s64 st show ?thesis
        by (simp add: run valid as_u64_def checked_as_u64_eq exec_defs on_call_def advance_pc_def)
    qed (use True s64 valid in \<open>simp add: run as_u64_def checked_as_u64_eq exec_defs\<close>)
  qed (auto simp: run valid)
qed

text \<open>\<open>PUSH1 0x5b\<close>, \<open>JUMPDEST\<close>: position 2 is a destination, position 1 is push data.\<close>

theorem jump_witness:
  "(\<exists>t u. ctx_jump (sample_ctx London False 50000 [0x60, 0x5b, 0x5b] [2]) = Ok () t
     \<and> advance_pc 0 False t = Ok () u \<and> fr_pc (cx_cur_call u) = 2)
   \<and> (\<exists>t. ctx_jump (sample_ctx London False 50000 [0x60, 0x5b, 0x5b] [1]) = Err InvalidJump t)"
proof -
  let ?c = "\<lambda>d. sample_ctx London False 50000 [0x60, 0x5b, 0x5b] [d]"
  have "inst_start [0x60, 0x5b, 0x5b] 2 \<and> \<not> inst_start [0x60, 0x5b, 0x5b] 1"
    using code_bitmap_loop_nth [of 2 "[0x60, 0x5b, 0x5b]" 0] code_bitmap_loop_nth [of 1 "[0x60, 0x5b, 0x5b]" 0]
    by simp
  then show ?thesis
    using jump_functional [of "?c 2" 2 "[]" no_hash "[0x60, 0x5b, 0x5b]"]
      jump_functional [of "?c 1" 1 "[]" no_hash "[0x60, 0x5b, 0x5b]"] by simp blast
qed

end
