(* ===== verification/ExecReturns.thy ===== *)
theory ExecReturns
  imports ExecStorage
begin

text \<open>
  How a frame ends: what the frame below it, or the transaction, gets from a frame that returns, reverts
  or fails, that a failed call or transaction leaves the world as it was, and where the decoder goes
  after each instruction.
\<close>

section \<open>Calls\<close>

lemma finish_call_eq:
  assumes "cx_call_stack c = p # rest"
  shows "finish_call h data r c =
    (case fr_call_type (cx_cur_call c) of
       CallTx args \<Rightarrow> tx_end h args data (ctx_gas c) r
     | CallCreate args \<Rightarrow> create_end h args data (ctx_gas c) r
     | CallCall args \<Rightarrow> call_end h args data (ctx_gas c) r) (c\<lparr>cx_cur_call := p, cx_call_stack := rest\<rparr>)"
  using assms by (simp add: finish_call_def call_pop_def exec_defs split: call_type.split)

text \<open>The last lines of \<open>call_end\<close> and \<open>create_end\<close>: return the gas, push the result, keep the data.\<close>

definition resume_frame :: "gas \<Rightarrow> u256 \<Rightarrow> bytes \<Rightarrow> ('s ctx, unit) exec" where
  "resume_frame gas v data =
     bind (gets (\<lambda>c. fr_unused_gas (cx_cur_call c))) (\<lambda>own.
     bind (u64_add own gas) (\<lambda>gas.
     bind (on_call (modify (\<lambda>f. f\<lparr>fr_unused_gas := gas\<rparr>))) (\<lambda>_.
     bind (push1 v) (\<lambda>_.
     on_call (modify (\<lambda>f. f\<lparr>fr_last_returned := data\<rparr>))))))"

lemma resume_frame_ok:
  assumes "frame_wf (cx_cur_call c)" and "length (ctx_stack c) < MAX_STACK_DEPTH" and "ctx_gas c + gas < 2 ^ 64"
  shows "\<exists>st. resume_frame gas v data c =
      Ok () (c\<lparr>cx_cur_call := (cx_cur_call c)\<lparr>fr_unused_gas := ctx_gas c + gas, fr_stack := st, fr_last_returned := data\<rparr>\<rparr>)
    \<and> stack_list st = v # ctx_stack c"
proof -
  let ?c1 = "put_gas (ctx_gas c + gas) c"
  obtain st where "push1 v ?c1 = Ok () (put_stack st ?c1)" and "stack_list st = v # ctx_stack c"
    using push1_ctx [of ?c1 v] assms by auto
  with assms(3) show ?thesis
    by (intro exI [of _ st])
      (simp add: resume_frame_def bind_def gets_def u64_add_def on_call_def zoom_def modify_def ret_def
        put_gas_def put_stack_def)
qed

lemma call_end_eq:
  "call_end h args data gas r =
     bind (when_do (r \<noteq> None)
             (case ca_snapshot args of
                Some snapshot \<Rightarrow> upd_state (ws_rollback h snapshot)
              | None \<Rightarrow> ret ())) (\<lambda>_.
     if r = None \<or> r = Some Reverted
     then bind (on_call (on_memory (memory_set (ca_ret_off args) (ca_ret_len args) data))) (\<lambda>_.
          resume_frame gas (if r \<noteq> None then 0 else 1) data)
     else resume_frame 0 0 data)"
  unfolding call_end_def resume_frame_def by (cases "r = None \<or> r = Some Reverted") (auto simp: bind_assoc)

text \<open>Account 2, with 50000 gas, has called account 3 with 700 gas; the callee runs the given code.\<close>

definition sample_call :: "bytes \<Rightarrow> dummy_store ctx" where
  "sample_call code = (sample_ctx London False 50000 [] [])
     \<lparr>cx_cur_call := frame_new (PlainCode_new no_hash code) [] 0 3 2
        (CallCall \<lparr>ca_snapshot = Some dummy_new, ca_ret_off = 0, ca_ret_len = 0\<rparr>) 700 False London,
      cx_call_stack := cx_cur_call (sample_ctx London False 50000 [] [])
        # cx_call_stack (sample_ctx London False 50000 [] [])\<rparr>"

lemma sample_call_sel [simp]:
  "fr_call_type (cx_cur_call (sample_call code)) =
     CallCall \<lparr>ca_snapshot = Some dummy_new, ca_ret_off = 0, ca_ret_len = 0\<rparr>"
  "ctx_gas (sample_call code) = 700" "fr_pc (cx_cur_call (sample_call code)) = 0"
  "fr_code (cx_cur_call (sample_call code)) = PlainCode_new no_hash code"
  "cx_call_stack (sample_call code) = cx_cur_call (sample_ctx London False 50000 [] [])
     # cx_call_stack (sample_ctx London False 50000 [] [])"
  "cx_state (sample_call code) = dummy_new"
  by (simp_all add: sample_call_def frame_new_def)

lemma failed_call_resumes:
  assumes "fr_call_type (cx_cur_call c) = CallCall args" and "ca_snapshot args = Some s"
    and "cx_call_stack c = p # rest" and "frame_wf p"
    and "length (stack_list (fr_stack p)) < MAX_STACK_DEPTH" and "fr_unused_gas p < 2 ^ 64"
    and "err \<noteq> Reverted"
  shows "\<exists>st. finish_call h data (Some err) c =
      Ok () (c\<lparr>cx_call_stack := rest, cx_state := ws_rollback h s (cx_state c),
               cx_cur_call := p\<lparr>fr_stack := st, fr_last_returned := data\<rparr>\<rparr>)
    \<and> stack_list st = 0 # stack_list (fr_stack p)"
proof -
  let ?c2 = "c\<lparr>cx_cur_call := p, cx_call_stack := rest, cx_state := ws_rollback h s (cx_state c)\<rparr>"
  have "finish_call h data (Some err) c = resume_frame 0 0 data ?c2"
    using assms(1,2,7)
    by (simp add: finish_call_eq [OF assms(3)] call_end_eq bind_def upd_state_def modify_def)
  then show ?thesis
    using resume_frame_ok [of ?c2 0 0 data] assms(4-6) by auto
qed

text \<open>
  C6. A failed call: when a call that has taken a snapshot fails with an error other than \<open>Reverted\<close>, the
  caller resumes with 0 on its stack, with its own gas and memory (the gas of the failed frame is lost),
  and on every world state that keeps its contract the world is what it was at the snapshot.
\<close>

theorem failed_call_restores:
  assumes "world_state keccak h ok" and "ok s\<^sub>0" and "ws_snapshot h s\<^sub>0 = (s\<^sub>1, s)"
    and "fr_call_type (cx_cur_call c) = CallCall args" and "ca_snapshot args = Some s"
    and "cx_call_stack c = p # rest" and "frame_wf p"
    and "length (stack_list (fr_stack p)) < MAX_STACK_DEPTH" and "fr_unused_gas p < 2 ^ 64"
    and "err \<noteq> Reverted"
  shows "\<exists>t. finish_call h data (Some err) c = Ok () t \<and> view h (cx_state t) = view h s\<^sub>0
    \<and> cx_call_stack t = rest \<and> ctx_stack t = 0 # stack_list (fr_stack p) \<and> ctx_gas t = fr_unused_gas p
    \<and> fr_memory (cx_cur_call t) = fr_memory p \<and> fr_pc (cx_cur_call t) = fr_pc p"
  using failed_call_resumes [OF assms(4-10), of h data] world_state.rollback_restores [OF assms(1-3)]
  by auto

theorem failed_call_witness:
  "\<exists>t. finish_call (dummy_host no_hash no_rlp) [] (Some OutOfGas)
         ((sample_call [])\<lparr>cx_state := dummy_set_state no_hash 3 7 9 dummy_new\<rparr>) = Ok () t
    \<and> ws_get_state (dummy_host no_hash no_rlp) (cx_state t) 3 7 = 0
    \<and> ctx_stack t = [0] \<and> ctx_gas t = 50000"
proof -
  let ?h = "dummy_host no_hash no_rlp" and ?p = "cx_cur_call (sample_ctx London False 50000 [] [])"
  let ?c = "(sample_call [])\<lparr>cx_state := dummy_set_state no_hash 3 7 9 dummy_new\<rparr>"
  have ws: "world_state no_hash ?h (\<lambda>_. True)" by (rule dhost.world_state_axioms)
  have "ws_snapshot ?h dummy_new = (dummy_new, dummy_new)" by (simp add: dummy_snapshot_def)
  from failed_call_restores [OF ws TrueI this,
      of ?c "\<lparr>ca_snapshot = Some dummy_new, ca_ret_off = 0, ca_ret_len = 0\<rparr>" ?p _ OutOfGas "[]"]
  obtain t where t: "finish_call ?h [] (Some OutOfGas) ?c = Ok () t" "view ?h (cx_state t) = view ?h dummy_new"
    "ctx_stack t = [0]" "ctx_gas t = 50000"
    by auto
  have "ws_get_state ?h (cx_state t) 3 7 = ws_get_state ?h dummy_new 3 7"
    using arg_cong [OF t(2), of w_state] by (simp only: view_sel)
  also have "\<dots> = 0"
    by (simp add: dummy_reads dummy_get_account_def dummy_new_def dummy_account_default_def)
  finally show ?thesis using t by blast
qed

text \<open>
  C21. A call that returns: the caller resumes with 1 on its stack and with the gas that is left of both
  frames; the data are written to the part of its memory that the call reserved for them, and the fee
  for that part is not charged.
\<close>

theorem returning_call_functional:
  assumes "fr_call_type (cx_cur_call c) = CallCall args" and "cx_call_stack c = p # rest" and "frame_wf p"
    and "length (stack_list (fr_stack p)) < MAX_STACK_DEPTH" and "fr_unused_gas p + ctx_gas c < 2 ^ 64"
    and "memory_set (ca_ret_off args) (ca_ret_len args) data (fr_memory p) = Ok fee mem"
  shows "\<exists>t. finish_call h data None c = Ok () t \<and> cx_state t = cx_state c
    \<and> cx_call_stack t = rest \<and> ctx_stack t = 1 # stack_list (fr_stack p)
    \<and> ctx_gas t = fr_unused_gas p + ctx_gas c
    \<and> fr_memory (cx_cur_call t) = mem \<and> fr_last_returned (cx_cur_call t) = data
    \<and> fr_pc (cx_cur_call t) = fr_pc p"
proof -
  let ?c1 = "c\<lparr>cx_call_stack := rest, cx_cur_call := p\<lparr>fr_memory := mem\<rparr>\<rparr>"
  have "memory_wf mem"
    using assms(3,6) pres_OkD [OF memory_set_wf assms(6)] by (simp add: frame_wf_def keeps_def)
  then have "frame_wf (cx_cur_call ?c1)" using assms(3) by (simp add: frame_wf_def)
  then obtain st where "resume_frame (ctx_gas c) 1 data ?c1 = Ok () (?c1\<lparr>cx_cur_call := p\<lparr>fr_memory := mem,
        fr_unused_gas := fr_unused_gas p + ctx_gas c, fr_stack := st, fr_last_returned := data\<rparr>\<rparr>)"
    and st: "stack_list st = 1 # stack_list (fr_stack p)"
    using resume_frame_ok [of ?c1 "ctx_gas c" 1 data] assms(4,5) by auto
  moreover have "finish_call h data None c = resume_frame (ctx_gas c) 1 data ?c1"
    using assms(1,6)
    by (simp add: finish_call_eq [OF assms(2)] call_end_eq bind_def on_call_def on_memory_def zoom_def)
  ultimately show ?thesis by (simp add: st)
qed

theorem returning_call_witness:
  "\<exists>t. finish_call (dummy_host no_hash no_rlp) [1, 2] None (sample_call []) = Ok () t
    \<and> ctx_stack t = [1] \<and> ctx_gas t = 50700"
proof -
  let ?h = "dummy_host no_hash no_rlp" and ?p = "cx_cur_call (sample_ctx London False 50000 [] [])"
  obtain fee mem where "memory_set 0 0 [1, 2] memory_new = Ok fee mem"
    by (auto simp: memory_set_def memory_get_slice_mut_def u256_add_def memory_resize_def as_u64_def
        checked_as_u64_eq memory_slice_range_def memory_copy_from_slice_def exec_defs)
  with returning_call_functional [of "sample_call []"
      "\<lparr>ca_snapshot = Some dummy_new, ca_ret_off = 0, ca_ret_len = 0\<rparr>" ?p _ "[1, 2]" fee mem ?h]
  show ?thesis by auto
qed

section \<open>The end of a transaction\<close>

text \<open>Deletion of the empty accounts among the dirty ones, and of the destroyed ones.\<close>

definition drop_empty :: "(bytes \<Rightarrow> hash) \<Rightarrow> ('s, 'z) world_state_scheme \<Rightarrow> addr \<Rightarrow> 's \<Rightarrow> 's" where
  "drop_empty keccak ws a s = (if is_empty keccak ws s a then ws_delete_account ws a s else s)"

lemma for_each_upd:
  "for_each xs (\<lambda>a. upd_state (g a)) c = Ok () (c\<lparr>cx_state := fold g xs (cx_state c)\<rparr>)"
  by (induction xs arbitrary: c) (simp_all add: upd_state_def exec_defs)

lemma delete_empty_eq: "delete_empty h a = upd_state (drop_empty (h_keccak h) h a)"
  by (rule ext) (simp add: delete_empty_def upd_state_def drop_empty_def exec_defs)

lemma for_each_delete_empty:
  "for_each xs (delete_empty h) c = Ok () (c\<lparr>cx_state := fold (drop_empty (h_keccak h) h) xs (cx_state c)\<rparr>)"
proof -
  have "delete_empty h = (\<lambda>a. upd_state (drop_empty (h_keccak h) h a))" by (rule ext) (rule delete_empty_eq)
  then show ?thesis by (simp only: for_each_upd)
qed

definition swept :: "'s host \<Rightarrow> fork \<Rightarrow> addr list \<Rightarrow> addr list \<Rightarrow> 's \<Rightarrow> 's" where
  "swept h fork dirty destroyed s = fold (ws_delete_account h) destroyed
     (if fork \<ge> SpuriousDragon then fold (drop_empty (h_keccak h) h) dirty s else s)"

text \<open>The part of \<open>tx_end\<close> before the sweep, and what follows it.\<close>

definition tx_verdict ::
  "'s host \<Rightarrow> 's tx_args \<Rightarrow> bytes \<Rightarrow> exec_result \<Rightarrow> ('s ctx, exec_result \<times> addr option) exec" where
  "tx_verdict h args data err =
     (case txa_aux args of
        Contract addr \<Rightarrow> bind (try_result (create_post_processing h addr data err)) (\<lambda>r. ret (r, Some addr))
      | Sender addr \<Rightarrow> bind (dirty_insert addr) (\<lambda>_. ret (err, None)))"

lemma tx_end_eq:
  assumes "cx_call_stack c = []" and "tx_verdict h args data r c = Ok (err, addr) c\<^sub>1" and "cx_status c\<^sub>1 = Running"
    and "S = swept h (fr_fork (cx_cur_call c\<^sub>1)) (cx_dirty c\<^sub>1) (cx_destroyed c\<^sub>1) (cx_state c\<^sub>1)"
  shows "tx_end h args data gas r c =
    Ok () (c\<^sub>1\<lparr>cx_state := (case err of None \<Rightarrow> S | Some _ \<Rightarrow> ws_rollback h (txa_snapshot args) S),
             cx_dirty := [], cx_destroyed := [],
             cx_status := Finished (case err of None \<Rightarrow> TxSucceeded data gas addr | Some e \<Rightarrow> TxReverted data gas e)\<rparr>)"
  unfolding tx_end_def tx_verdict_def [symmetric] assms(4) swept_def
  using assms(1-3)
  by (cases err) (simp_all add: exec_defs get_fork_def for_each_upd for_each_delete_empty,
      simp_all add: upd_state_def exec_defs)

lemma verdict_sender:
  "txa_aux args = Sender a \<Longrightarrow> tx_verdict h args data r c = Ok (r, None) (c\<lparr>cx_dirty := List.insert a (cx_dirty c)\<rparr>)"
  by (simp add: tx_verdict_def dirty_insert_def exec_defs)

lemma tx_end_sender:
  assumes "cx_call_stack c = []" and "cx_status c = Running" and "txa_aux args = Sender a"
    and "S = swept h (fr_fork (cx_cur_call c)) (List.insert a (cx_dirty c)) (cx_destroyed c) (cx_state c)"
  shows "tx_end h args data gas r c =
    Ok () (c\<lparr>cx_state := (case r of None \<Rightarrow> S | Some _ \<Rightarrow> ws_rollback h (txa_snapshot args) S),
             cx_dirty := [], cx_destroyed := [],
             cx_status := Finished (case r of None \<Rightarrow> TxSucceeded data gas None | Some e \<Rightarrow> TxReverted data gas e)\<rparr>)"
  using tx_end_eq [OF assms(1) verdict_sender [OF assms(3)], where S = S and gas = gas] assms(2,4) by simp

text \<open>
  Why the code that a creation returns is refused: its size, its first byte, or the gas of the frame that pays for its storage.
\<close>

definition deploy_error :: "fork \<Rightarrow> gas \<Rightarrow> bytes \<Rightarrow> exec_result" where
  "deploy_error fork gas data =
     (if fork \<ge> SpuriousDragon \<and> length data > 24576 then Some MaxCodeSizeExceeded
      else if fork \<ge> London \<and> data \<noteq> [] \<and> hd data = 0xef then Some InvalidCode
      else if 2 ^ 64 \<le> 200 * length data then Some GasIntOverflow
      else if gas < 200 * length data then Some CodeStoreOutOfGas
      else None)"

lemma verdict_failed:
  assumes "txa_aux args = Contract a"
  shows "\<exists>g. tx_verdict h args data (Some e) c = Ok (None, Some a) (put_gas g c)"
proof (cases "e = Reverted")
  case True
  then have "tx_verdict h args data (Some e) c = Ok (None, Some a) (put_gas (ctx_gas c) c)"
    using assms by (simp add: tx_verdict_def create_post_processing_def try_result_def bind_def ret_def put_gas_def)
  then show ?thesis by blast
next
  case False
  then show ?thesis
    using assms by (simp add: tx_verdict_def create_post_processing_def try_result_def bind_def gets_def charge_eq ret_def) blast
qed

lemma verdict_returned:
  assumes "txa_aux args = Contract a"
  shows "tx_verdict h args data None c =
    (case deploy_error (fr_fork (cx_cur_call c)) (ctx_gas c) data of
       Some e \<Rightarrow> Ok (Some e, Some a) c
     | None \<Rightarrow> Ok (None, Some a) ((put_gas (ctx_gas c - 200 * length data) c)
         \<lparr>cx_state := ws_set_code h a data (cx_state c), cx_dirty := List.insert a (cx_dirty c)\<rparr>))"
proof -
  have "length data \<ge> 1 \<and> data ! 0 = 0xef \<longleftrightarrow> data \<noteq> [] \<and> hd data = 0xef"
    by (cases data) auto
  then show ?thesis
    using assms
    by (auto simp: tx_verdict_def create_post_processing_def deploy_error_def try_result_def bind_def gets_def get_fork_def throw_def
        ret_def gas_checked_mul_def map_err_def charge_eq upd_state_def dirty_insert_def modify_def put_gas_def mult.commute
        ok_or_def Let_def split: if_splits)
qed

section \<open>Creations that fail\<close>

text \<open>
  A failed creation still pushes the address of the contract, with the gas of the failed frame and without
  that of the creating frame: \<open>create_post_processing\<close> returns \<open>Ok(())\<close> for every failure.
\<close>

lemma failed_create_pushes_address:
  assumes "fr_call_type (cx_cur_call c) = CallCreate args" and "cx_call_stack c = p # rest" and "frame_wf p"
    and "length (stack_list (fr_stack p)) < MAX_STACK_DEPTH" and "ctx_gas c < 2 ^ 64" and "err \<noteq> Reverted"
  shows "\<exists>t. finish_call h data (Some err) c = Ok () t
    \<and> ctx_stack t = u256_of_addr (cra_contract_addr args) # stack_list (fr_stack p) \<and> ctx_gas t = ctx_gas c"
proof -
  let ?c1 = "c\<lparr>cx_call_stack := rest, cx_state := ws_rollback h (cra_snapshot args) (cx_state c),
      cx_cur_call := p\<lparr>fr_unused_gas := 0\<rparr>\<rparr>"
  have "frame_wf (cx_cur_call ?c1)" using assms(3) by (simp add: frame_wf_def)
  then obtain st where "resume_frame (ctx_gas c) (u256_of_addr (cra_contract_addr args)) [] ?c1 =
      Ok () (?c1\<lparr>cx_cur_call := p\<lparr>fr_unused_gas := ctx_gas c, fr_stack := st, fr_last_returned := []\<rparr>\<rparr>)"
    and "stack_list st = u256_of_addr (cra_contract_addr args) # stack_list (fr_stack p)"
    using resume_frame_ok [of ?c1 "ctx_gas c" "u256_of_addr (cra_contract_addr args)" "[]"] assms(4,5) by auto
  moreover have "finish_call h data (Some err) c
      = resume_frame (ctx_gas c) (u256_of_addr (cra_contract_addr args)) [] ?c1"
    using assms(1,6)
    by (simp add: finish_call_eq [OF assms(2)] create_end_def create_post_processing_def resume_frame_def
        try_result_def bind_def gets_def charge_eq upd_state_def modify_def put_gas_def ret_def)
  ultimately show ?thesis by simp
qed

text \<open>A creation transaction whose code fails is reported as succeeded, and the world is not rolled back.\<close>

lemma failed_creation_succeeds:
  assumes "cx_status c = Running" and "cx_call_stack c = [p]"
    and "fr_call_type (cx_cur_call c) = CallTx args" and "txa_aux args = Contract a"
  shows "\<exists>t. finish_call h data (Some err) c = Ok () t
    \<and> cx_status t = Finished (TxSucceeded data (ctx_gas c) (Some a))
    \<and> cx_state t = swept h (fr_fork p) (cx_dirty c) (cx_destroyed c) (cx_state c)"
  using assms
  by (cases "err = Reverted")
    (simp_all add: finish_call_eq tx_end_def create_post_processing_def swept_def try_result_def
      bind_def gets_def charge_eq modify_def put_gas_def ret_def get_fork_def for_each_upd
      for_each_delete_empty when_do_def)

section \<open>Decoding\<close>

text \<open>The number of bytes after the opcode that the instruction uses.\<close>

definition inst_skip :: "inst \<Rightarrow> nat" where
  "inst_skip i = (case in_data i of Some d \<Rightarrow> length d | None \<Rightarrow> 0)"

lemma decode_push:
  assumes "pc < length code" and "0 < push_len (code ! pc)"
  shows "decode code pc =
    (if pc + 1 + push_len (code ! pc) \<le> length code
     then Some \<lparr>in_opcode = OpFamily OpPush, in_data = Some (take (push_len (code ! pc)) (drop (pc + 1) code)), in_pos = 0\<rparr>
     else None)"
proof -
  have "0x60 \<le> code ! pc \<and> code ! pc \<le> 0x7f"
    using assms(2) push_skip_eq [of "code ! pc"] by (auto split: if_splits)
  moreover have "unat (code ! pc - 0x60 + 1) = push_len (code ! pc)"
    using calculation push_skip_eq [of "code ! pc"] by simp
  ultimately show ?thesis using assms(1) by (simp add: decode_def Let_def)
qed

lemma decode_other:
  assumes "pc < length code" and "push_len (code ! pc) = 0"
  shows "\<exists>i. decode code pc = Some i \<and> in_data i = None"
proof -
  have "\<not> (0x60 \<le> code ! pc \<and> code ! pc \<le> 0x7f)"
    using assms(2) by (auto simp: push_len_def word_le_nat_alt split: if_splits)
  with assms(1) show ?thesis by (auto simp: decode_def Let_def split: option.split)
qed

lemma decode_outside: "pc \<ge> length code \<Longrightarrow> decode code pc = Some \<lparr>in_opcode = OpStop, in_data = None, in_pos = 0\<rparr>"
  by (simp add: decode_def opcode_from_u8_def opcode_table_def)

lemma decode_start:
  assumes "inst_start code pc"
  shows "case decode code pc of
      None \<Rightarrow> length code < pc + 1 + push_len (code ! pc)
    | Some i \<Rightarrow> pc + 1 + push_len (code ! pc) \<le> length code \<and> inst_skip i = push_len (code ! pc)
        \<and> (in_data i \<noteq> None \<longrightarrow> in_data i = Some (take (inst_skip i) (drop (pc + 1) code)))
        \<and> (inst_start code (pc + 1 + push_len (code ! pc)) \<or> pc + 1 + push_len (code ! pc) = length code)"
proof -
  note less = inst_start_less [OF assms]
  let ?n = "push_len (code ! pc)"
  have reach: "inst_start code (pc + 1 + ?n) \<or> pc + 1 + ?n = length code" if "pc + 1 + ?n \<le> length code"
    using inst_start_next [OF assms] that by linarith
  show ?thesis
  proof (cases "?n = 0")
    case True
    then obtain i where "decode code pc = Some i" "in_data i = None" using decode_other [OF less] by blast
    with True less reach show ?thesis by (auto simp: inst_skip_def)
  next
    case False
    with decode_push [OF less] reach show ?thesis by (auto simp: inst_skip_def min_def add.commute)
  qed
qed

text \<open>A round whose instruction succeeds and neither jumps nor starts or ends a frame.\<close>

lemma quiet_round:
  assumes "decode (code_bytes (fr_code (cx_cur_call c))) (fr_pc (cx_cur_call c)) = Some i" and "quiet_op (in_opcode i)"
    and "exec_arm h i c = Ok () u" and "fr_pc (cx_cur_call c) + inst_skip i + 1 < 2 ^ 64"
  shows "step h c = Ok () (u\<lparr>cx_cur_call := (cx_cur_call u)\<lparr>fr_pc := fr_pc (cx_cur_call c) + inst_skip i + 1\<rparr>\<rparr>)"
proof -
  have "ctx_quiet c u" using pres_OkD [OF quiet_arm_protected [OF assms(2)] assms(3)] by (simp add: ctx_protected_def)
  then have "cx_cur_call u = (cx_cur_call c)\<lparr>fr_stack := fr_stack (cx_cur_call u), fr_memory := fr_memory (cx_cur_call u),
      fr_unused_gas := ctx_gas u\<rparr>"
    by (simp only: ctx_quiet_def frame_steps_def)
  from arg_cong [OF this, of fr_pc] have "fr_pc (cx_cur_call u) = fr_pc (cx_cur_call c)" by simp
  moreover have "\<not> enters_call (in_opcode i)" using assms(2) by (auto simp: quiet_op_def enters_call_def)
  ultimately show ?thesis
    using assms(1,3,4)
    by (simp add: step_def bind_def gets_def unwrap_def ret_def try_result_def unwind_None advance_pc_def u64_add_def on_call_def zoom_def
        modify_def flip: inst_skip_def)
qed

text \<open>
  C32. The loop goes from instruction to instruction. Outside the code the decoder reads \<open>STOP\<close>. At the start of an instruction it
  takes exactly the push data that follow; when the end of the code cuts them off, the round of the loop panics. Otherwise, when the
  instruction succeeds and neither jumps nor starts or ends a call, the round changes the context as the instruction does and moves the
  program counter past the instruction and its data, which is again the start of an instruction or the end of the code.
\<close>

theorem loop_advances:
  assumes "code = code_bytes (fr_code (cx_cur_call c))" and "pc = fr_pc (cx_cur_call c)" and "length code < 2 ^ 64"
    and "n = push_len (code ! pc)"
  shows "(pc \<ge> length code \<longrightarrow> decode code pc = Some \<lparr>in_opcode = OpStop, in_data = None, in_pos = 0\<rparr>)
   \<and> (inst_start code pc \<longrightarrow>
       (case decode code pc of
          None \<Rightarrow> length code < pc + 1 + n \<and> step h c = Panic
        | Some i \<Rightarrow> pc + 1 + n \<le> length code \<and> inst_skip i = n
            \<and> (in_data i \<noteq> None \<longrightarrow> in_data i = Some (take n (drop (pc + 1) code)))
            \<and> (inst_start code (pc + 1 + n) \<or> pc + 1 + n = length code)
            \<and> (\<forall>u. quiet_op (in_opcode i) \<and> exec_arm h i c = Ok () u \<longrightarrow>
                 step h c = Ok () (u\<lparr>cx_cur_call := (cx_cur_call u)\<lparr>fr_pc := pc + 1 + n\<rparr>\<rparr>))))"
proof (intro conjI impI)
  show "decode code pc = Some \<lparr>in_opcode = OpStop, in_data = None, in_pos = 0\<rparr>" if "pc \<ge> length code"
    using that by (rule decode_outside)
  assume start: "inst_start code pc"
  show "case decode code pc of
      None \<Rightarrow> length code < pc + 1 + n \<and> step h c = Panic
    | Some i \<Rightarrow> pc + 1 + n \<le> length code \<and> inst_skip i = n
        \<and> (in_data i \<noteq> None \<longrightarrow> in_data i = Some (take n (drop (pc + 1) code)))
        \<and> (inst_start code (pc + 1 + n) \<or> pc + 1 + n = length code)
        \<and> (\<forall>u. quiet_op (in_opcode i) \<and> exec_arm h i c = Ok () u \<longrightarrow>
             step h c = Ok () (u\<lparr>cx_cur_call := (cx_cur_call u)\<lparr>fr_pc := pc + 1 + n\<rparr>\<rparr>))"
  proof (cases "decode code pc")
    case None
    with decode_start [OF start] assms show ?thesis by (simp add: step_def bind_def gets_def unwrap_def panic_def)
  next
    case (Some i)
    note at = decode_start [OF start, unfolded Some option.case, folded assms(4)]
    have "step h c = Ok () (u\<lparr>cx_cur_call := (cx_cur_call u)\<lparr>fr_pc := pc + 1 + n\<rparr>\<rparr>)"
      if "quiet_op (in_opcode i)" "exec_arm h i c = Ok () u" for u
      using quiet_round [of c i h u] that Some at assms by (simp add: add.commute add.left_commute)
    with Some at show ?thesis by (elim conjE) simp
  qed
qed

text \<open>A \<open>PUSH1\<close> is executed and the loop is behind its data byte.\<close>

theorem loop_advances_witness:
  "\<exists>t. step (dummy_host no_hash no_rlp) (sample_ctx London False 50000 [0x60, 0x5b, 0x5b] []) = Ok () t \<and> fr_pc (cx_cur_call t) = 2"
proof -
  let ?h = "dummy_host no_hash no_rlp" and ?code = "[0x60, 0x5b, 0x5b]" and ?i = "\<lparr>in_opcode = OpFamily OpPush, in_data = Some [0x5b], in_pos = 0\<rparr>"
  let ?c = "sample_ctx London False 50000 ?code []"
  have l: "push_len 0x60 = 1" by (simp add: push_len_def)
  have c: "?code = code_bytes (fr_code (cx_cur_call ?c))" "0 = fr_pc (cx_cur_call ?c)" by (simp_all add: PlainCode_new_def)
  have "decode ?code 0 = Some ?i" using decode_push [of 0 ?code] l by simp
  moreover have "quiet_op (in_opcode ?i)" by (simp add: quiet_op_def)
  moreover obtain u where "exec_arm ?h ?i ?c = Ok () u"
  proof -
    let ?c1 = "put_gas 49997 ?c" and ?v = "from_big_endian (replicate 31 0 @ [0x5b])"
    obtain st where "push1 ?v ?c1 = Ok () (put_stack st ?c1)" using push1_ctx [of ?c1 ?v] by auto
    then have "exec_arm ?h ?i ?c = Ok () (put_stack st ?c1)"
      by (auto simp: exec_arm_def family_arm_def frame_push_def on_call_def zoom_def bind_def use_gas_eq unwrap_def ret_def push1_def
          put_gas_def put_stack_def split: outcome.splits)
    then show thesis by (rule that)
  qed
  ultimately show ?thesis using loop_advances [OF c, of 1 ?h] l by auto
qed

text \<open>
  A \<open>PUSH\<close> that runs out of gas in a called frame: the loop advances the program counter of the calling
  frame, which has resumed, by the length of the push.
\<close>

lemma failed_push_shifts_caller:
  assumes "fr_call_type (cx_cur_call c) = CallCall args" and "ca_snapshot args = Some s"
    and "cx_call_stack c = p # rest" and "frame_wf p"
    and "length (stack_list (fr_stack p)) < MAX_STACK_DEPTH" and "fr_unused_gas p < 2 ^ 64"
    and "decode (code_bytes (fr_code (cx_cur_call c))) (fr_pc (cx_cur_call c))
      = Some \<lparr>in_opcode = OpFamily OpPush, in_data = Some d, in_pos = 0\<rparr>"
    and "ctx_gas c < 3" and "fr_pc p + length d + 1 < 2 ^ 64"
  shows "\<exists>t. step h c = Ok () t \<and> cx_call_stack t = rest \<and> fr_pc (cx_cur_call t) = fr_pc p + length d + 1"
proof -
  have arm: "exec_arm h \<lparr>in_opcode = OpFamily OpPush, in_data = Some d, in_pos = 0\<rparr> c = Err OutOfGas c"
    using assms(8) by (simp add: exec_arm_def family_arm_def frame_push_def on_call_def exec_defs use_gas_eq)
  obtain st where "finish_call h [] (Some OutOfGas) c =
      Ok () (c\<lparr>cx_call_stack := rest, cx_state := ws_rollback h s (cx_state c),
               cx_cur_call := p\<lparr>fr_stack := st, fr_last_returned := []\<rparr>\<rparr>)"
    using failed_call_resumes [OF assms(1-6), of OutOfGas h "[]"] by auto
  then show ?thesis
    using arm assms(3,7,9)
    by (simp add: step_def exec_defs advance_pc_def enters_call_def on_call_def unwind_None)
qed

section \<open>Calls without value\<close>

lemma capped_le: "(if x - y < n then x - y else n) \<le> x" for x y n :: nat
  by (simp split: if_split) linarith

lemma get_empty_slice: "memory_wf m \<Longrightarrow> memory_get_slice 0 0 m = Ok ([], 0) m"
  using memory_get_slice_ok [of m 0 0] memory_grow_noop [of m 0] grow_fee_zero [of m 0] by simp

lemma set_empty_slice: "memory_wf m \<Longrightarrow> memory_set 0 0 [] m = Ok 0 m"
  using memory_grow_noop [of m 0] grow_fee_zero [of m 0]
  by (simp add: memory_set_def memory_get_slice_mut_eq Let_def exec_defs memory_copy_from_slice_def
      memory_slice_range_def)

lemma get_empty_slice_ctx:
  "frame_wf (cx_cur_call c) \<Longrightarrow> on_call (on_memory (memory_get_slice 0 0)) c = Ok ([], 0) c"
  by (simp add: on_call_def on_memory_def zoom_def get_empty_slice frame_wf_def)

lemma set_empty_slice_ctx:
  "frame_wf (cx_cur_call c) \<Longrightarrow> on_call (on_memory (memory_set 0 0 [])) c = Ok 0 c"
  by (simp add: on_call_def on_memory_def zoom_def set_empty_slice frame_wf_def)

text \<open>
  A \<open>CALL\<close> without value to an account that does not exist: \<open>call_begin\<close> adds the stipend of 2300 gas to
  the gas of the call when the value is zero, and the caller gets it back, so that it has 2200 gas more
  after the call than before.
\<close>

lemma zero_value_call_gains:
  assumes wf: "frame_wf (cx_cur_call c)" and st: "ctx_stack c = g # a # 0 # 0 # 0 # 0 # 0 # ys"
    and fork: "fr_fork (cx_cur_call c) = London"
    and warm: "al_addrs (cx_access_list c) (addr_of_u256 a) \<noteq> None"
    and depth: "length (cx_call_stack c) < MAX_CALL_DEPTH"
    and snap: "ws_snapshot h (cx_state c) = (s1, s)" and none: "\<not> ws_exist h s1 (addr_of_u256 a)"
    and pre: "map_of (env_precompiled (cx_env c)) (addr_of_u256 a) = None"
    and gas: "100 \<le> ctx_gas c" "ctx_gas c + 2200 < 2 ^ 64" "checked_as_u64 g = Some n"
    and pc: "fr_pc (cx_cur_call c) + 1 < 2 ^ 64"
  shows "\<exists>t. call_begin h c = Ok () t \<and> ctx_stack t = 1 # ys \<and> ctx_gas t = ctx_gas c + 2200"
proof -
  let ?c1 = "put_gas (ctx_gas c - 100) c"
  obtain st1 where p1: "pop3 ?c1 = Ok (g, a, 0) (put_stack st1 ?c1)" and s1: "stack_wf st1" "stack_list st1 = 0 # 0 # 0 # 0 # ys"
    using pop3_ctx [of ?c1] wf st by auto
  let ?c2 = "put_stack st1 ?c1"
  have w2: "frame_wf (cx_cur_call ?c2)" using wf s1 by (simp add: frame_wf_def)
  obtain st2 where p2: "pop2 ?c2 = Ok (0, 0) (put_stack st2 ?c2)" and s2: "stack_wf st2" "stack_list st2 = 0 # 0 # ys"
    using pop2_ctx [OF w2] s1 by auto
  let ?c3 = "put_stack st2 ?c2"
  have w3: "frame_wf (cx_cur_call ?c3)" using wf s2 by (simp add: frame_wf_def)
  obtain st3 where p3: "pop2 ?c3 = Ok (0, 0) (put_stack st3 ?c3)" and s3: "stack_wf st3" "stack_list st3 = ys"
    using pop2_ctx [OF w3] s2 by auto
  let ?c4 = "put_stack st3 ?c3"
  have w4: "frame_wf (cx_cur_call ?c4)" using wf s3 by (simp add: frame_wf_def)
  let ?avail = "ctx_gas c - 100"
  define q where "q = (if ?avail - ?avail div 64 < n then ?avail - ?avail div 64 else n)"
  have q: "q \<le> ?avail" unfolding q_def by (rule capped_le)
  have "gas_call_common g ?c4 = Ok q ?c4"
    using gas(3) fork
    by (simp add: gas_call_common_def bind_def gets_def get_fork_def ok_or_def ret_def q_def Let_def del: diff_diff_left)
  then have use: "use_gas_call h 0 (addr_of_u256 a) g 0 ?c4 = Ok q (put_gas (?avail - q) ?c4)"
    using warm fork q
    by (simp add: use_gas_call_def use_gas_call_common_berlin_def bind_def gets_def get_fork_def
        on_access_def zoom_def al_contains_addr_def charge_eq ret_def put_gas_def put_stack_def)
  let ?c5 = "put_gas (?avail - q) ?c4"
  have w5: "frame_wf (cx_cur_call ?c5)" using wf s3 by (simp add: frame_wf_def)
  let ?args = "\<lparr>ca_snapshot = Some s, ca_ret_off = 0, ca_ret_len = 0\<rparr>"
  let ?c6 = "?c5\<lparr>cx_state := s1, cx_dirty := List.insert (addr_of_u256 a) (List.insert (fr_callee (cx_cur_call c)) (cx_dirty c))\<rparr>"
  have q64: "q + 2300 < 2 ^ 64" using q gas(1,2) by simp
  have enter: "call_begin h c = bind (try_result (call_end h ?args [] (q + 2300) None)) (\<lambda>r.
      bind (advance_pc 0 False) (\<lambda>_. propagate r)) ?c6"
    using use gas p1 p2 p3 depth snap none pre fork w4 q64
    by (simp add: call_begin_def charge_call_base_def bind_def gets_def get_fork_def charge_eq Let_def
        get_empty_slice_ctx get_callee_def take_snapshot_def u64_add_def ret_def upd_state_def modify_def call_do_def call_depth_def
        dirty_insert_def return_without_callstack_def)
  have w6: "frame_wf (cx_cur_call ?c6)" using w5 by simp
  have "length ys < MAX_STACK_DEPTH"
    using wf length_stack_list [of "fr_stack (cx_cur_call c)"] by (simp add: frame_wf_def stack_wf_def st)
  then obtain st4 where r: "resume_frame (q + 2300) 1 [] ?c6 =
      Ok () (?c6\<lparr>cx_cur_call := (cx_cur_call ?c6)\<lparr>fr_unused_gas := ctx_gas ?c6 + (q + 2300), fr_stack := st4, fr_last_returned := []\<rparr>\<rparr>)"
    and st4: "stack_list st4 = 1 # ys"
    using resume_frame_ok [OF w6, of "q + 2300" 1 "[]"] q gas s3 by auto
  have "call_end h ?args [] (q + 2300) None ?c6 = resume_frame (q + 2300) 1 [] ?c6"
    using set_empty_slice_ctx [OF w6] by (simp add: call_end_eq bind_def)
  then show ?thesis
    using r st4 q gas pc
    by (simp add: enter try_result_def bind_def advance_pc_def gets_def u64_add_def ret_def on_call_def zoom_def
        modify_def propagate_def)
qed

section \<open>Write protection\<close>

lemma call_with_value_protected:
  assumes wf: "frame_wf (cx_cur_call c)" and st: "ctx_stack c = g # a # val # off # len # roff # rlen # ys"
    and ro: "fr_read_only (cx_cur_call c)" and val: "val \<noteq> 0"
    and base: "base = (if fr_fork (cx_cur_call c) \<ge> Berlin then 100 else if fr_fork (cx_cur_call c) \<ge> TangerineWhistle then 700 else 40)"
  shows "if ctx_gas c < base then call_begin h c = Err OutOfGas c
    else case memory_get_slice off len (fr_memory (cx_cur_call c)) of
      Ok _ _ \<Rightarrow> \<exists>t. call_begin h c = Err WriteProtection t \<and> cx_state t = cx_state c \<and> cx_call_stack t = cx_call_stack c
    | Err e _ \<Rightarrow> \<exists>t. call_begin h c = Err e t \<and> cx_state t = cx_state c \<and> cx_call_stack t = cx_call_stack c
    | Panic \<Rightarrow> call_begin h c = Panic"
proof -
  have charge: "charge_call_base c = (if ctx_gas c < base then Err OutOfGas c else Ok () (put_gas (ctx_gas c - base) c))"
    by (simp add: charge_call_base_def bind_def get_fork_def gets_def charge_eq base)
  let ?c1 = "put_gas (ctx_gas c - base) c"
  obtain st1 where p1: "pop3 ?c1 = Ok (g, a, val) (put_stack st1 ?c1)" and s1: "stack_wf st1" "stack_list st1 = off # len # roff # rlen # ys"
    using pop3_ctx [of ?c1] wf st by auto
  let ?c2 = "put_stack st1 ?c1"
  obtain st2 where p2: "pop2 ?c2 = Ok (off, len) (put_stack st2 ?c2)" and s2: "stack_wf st2" "stack_list st2 = roff # rlen # ys"
    using pop2_ctx [of ?c2 off len] wf s1 by (auto simp: frame_wf_def)
  let ?c3 = "put_stack st2 ?c2"
  obtain st3 where p3: "pop2 ?c3 = Ok (roff, rlen) (put_stack st3 ?c3)"
    using pop2_ctx [of ?c3 roff rlen] wf s2 by (auto simp: frame_wf_def)
  show ?thesis
    using charge p1 p2 p3 ro val
    by (cases "memory_get_slice off len (fr_memory (cx_cur_call c))")
      (simp_all add: call_begin_def bind_def Let_def gets_def throw_def on_call_def on_memory_def zoom_def split: prod.split)
qed

text \<open>
  C19. Write protection: in a read-only frame \<open>SSTORE\<close>, \<open>LOG\<close> and \<open>SELFDESTRUCT\<close> fail with \<open>WriteProtection\<close> before anything is changed,
  \<open>CREATE2\<close> (where it exists) does, \<open>CREATE\<close> does after its gas has been charged, and a \<open>CALL\<close> with a value does after its base gas has been
  charged and its input read from memory (or it fails there). The world and the call stack are not changed.
\<close>

theorem write_protection:
  assumes "fr_read_only (cx_cur_call c)"
    and "base = (if fr_fork (cx_cur_call c) \<ge> Berlin then 100 else if fr_fork (cx_cur_call c) \<ge> TangerineWhistle then 700 else 40)"
  shows "ctx_sstore h c = Err WriteProtection c \<and> ctx_log h n c = Err WriteProtection c
    \<and> ctx_self_destruct h c = Err WriteProtection c
    \<and> create2_begin h c = Err (if fr_fork (cx_cur_call c) < Constantinople then InvalidOpcode else WriteProtection) c
    \<and> create_begin h c = (if ctx_gas c < GAS_CREATE then Err OutOfGas c else Err WriteProtection (put_gas (ctx_gas c - GAS_CREATE) c))
    \<and> (\<forall>g a val off len roff rlen ys. frame_wf (cx_cur_call c) \<and> ctx_stack c = g # a # val # off # len # roff # rlen # ys \<and> val \<noteq> 0 \<longrightarrow>
        (if ctx_gas c < base then call_begin h c = Err OutOfGas c
         else case memory_get_slice off len (fr_memory (cx_cur_call c)) of
           Ok _ _ \<Rightarrow> \<exists>t. call_begin h c = Err WriteProtection t \<and> cx_state t = cx_state c \<and> cx_call_stack t = cx_call_stack c
         | Err e _ \<Rightarrow> \<exists>t. call_begin h c = Err e t \<and> cx_state t = cx_state c \<and> cx_call_stack t = cx_call_stack c
         | Panic \<Rightarrow> call_begin h c = Panic))"
proof (intro conjI allI impI)
  show "ctx_sstore h c = Err WriteProtection c" by (rule sstore_read_only [OF assms(1)])
  show "ctx_log h n c = Err WriteProtection c" by (rule log_read_only [OF assms(1)])
  show "ctx_self_destruct h c = Err WriteProtection c" using assms(1) by (simp add: ctx_self_destruct_def exec_defs)
  show "create2_begin h c = Err (if fr_fork (cx_cur_call c) < Constantinople then InvalidOpcode else WriteProtection) c"
    using assms(1) by (simp add: create2_begin_def exec_defs get_fork_def)
  show "create_begin h c = (if ctx_gas c < GAS_CREATE then Err OutOfGas c else Err WriteProtection (put_gas (ctx_gas c - GAS_CREATE) c))"
    using assms(1) by (simp add: create_begin_def bind_def gets_def throw_def charge_eq)
qed (use call_with_value_protected [OF _ _ assms(1) _ assms(2)] in blast)

text \<open>A \<open>CALL\<close> that sends 5 wei from a read-only frame.\<close>

theorem write_protection_witness:
  "\<exists>t. call_begin (dummy_host no_hash no_rlp) (sample_ctx London True 9000 [] [50, 3, 5, 0, 0, 0, 0]) = Err WriteProtection t
    \<and> ctx_sstore (dummy_host no_hash no_rlp) (sample_ctx London True 9000 [] [50, 3, 5, 0, 0, 0, 0])
      = Err WriteProtection (sample_ctx London True 9000 [] [50, 3, 5, 0, 0, 0, 0])"
proof -
  let ?h = "dummy_host no_hash no_rlp" and ?c = "sample_ctx London True 9000 [] [50, 3, 5, 0, 0, 0, 0]"
  have "memory_wf memory_new" using sample_ctx_frame(10) [of "[]" London True 0 "[]"] by (simp add: frame_wf_def)
  then have "memory_get_slice 0 0 memory_new = Ok ([], 0) memory_new" by (rule get_empty_slice)
  with write_protection [of ?c _ ?h 0, OF _ refl] show ?thesis by auto
qed

end
