(* ===== verification/ExecAtomic.thy ===== *)
theory ExecAtomic
  imports ExecReturns
begin

text \<open>
  Atomicity of transactions: a transaction that is reported as reverted has changed nothing of the world but
  the nonce of its sender, and a creation not even that, unless it was refused for the address of the contract. The frames of a running transaction carry the arguments it was started with
  (\<open>tx_running\<close>); every round of the loop keeps that, or ends the transaction in a state where a revert has
  restored the world (\<open>tx_settled\<close>).
\<close>

definition tx_frame :: "'s tx_args \<Rightarrow> 's call_frame \<Rightarrow> bool" where
  "tx_frame args f \<longleftrightarrow> (\<forall>a. fr_call_type f = CallTx a \<longrightarrow> a = args)"

definition tx_running :: "'s tx_args \<Rightarrow> 's ctx \<Rightarrow> bool" where
  "tx_running args c \<longleftrightarrow> cx_status c = Running \<and> list_all (tx_frame args) (cx_cur_call c # cx_call_stack c)"

definition tx_settled :: "'s host \<Rightarrow> 's tx_args \<Rightarrow> 's ctx \<Rightarrow> bool" where
  "tx_settled h args c \<longleftrightarrow> list_all (tx_frame args) (cx_cur_call c # cx_call_stack c) \<and>
     (\<forall>d g e. cx_status c = Finished (TxReverted d g e) \<longrightarrow>
        view h (cx_state c) = view h (txa_snapshot args) \<and> ((\<exists>a. txa_aux args = Contract a) \<longrightarrow> e \<noteq> ContractAddrCollision))"

text \<open>A rollback to the snapshot the transaction was started with shows the world of the snapshot.\<close>

definition restores :: "'s host \<Rightarrow> 's tx_args \<Rightarrow> bool" where
  "restores h args \<longleftrightarrow> (\<forall>s. view h (ws_rollback h (txa_snapshot args) s) = view h (txa_snapshot args))"

lemma running_settled: "tx_running args c \<Longrightarrow> tx_settled h args c"
  by (simp add: tx_running_def tx_settled_def)

section \<open>Computations that keep the transaction running\<close>

lemma pres_mono: "pres R m \<Longrightarrow> (\<And>s t. R s t \<Longrightarrow> R' s t) \<Longrightarrow> pres R' m"
  by (auto simp: pres_def split: outcome.splits)

lemma same_running: "ctx_same c t \<Longrightarrow> tx_running args c \<Longrightarrow> tx_running args t"
  by (simp add: tx_running_def tx_frame_def ctx_same_def)

lemma quiet_running: "pres ctx_quiet m \<Longrightarrow> pres (keeps (tx_running args)) m"
  unfolding keeps_def by (erule pres_mono) (intro impI, rule same_running [OF ctx_quiet_same])

lemma reading_running: "pres ctx_reading m \<Longrightarrow> pres (keeps (tx_running args)) m"
  by (rule quiet_running) (rule reading_quiet)

lemma field_running:
  "pres (keeps (tx_running args)) (on_call (modify (\<lambda>f. f\<lparr>fr_unused_gas := n\<rparr>)))"
  "pres (keeps (tx_running args)) (on_call (modify (\<lambda>f. f\<lparr>fr_last_returned := d\<rparr>)))"
  "pres (keeps (tx_running args)) (on_call (modify (\<lambda>f. f\<lparr>fr_pc := p\<rparr>)))"
  "pres (keeps (tx_running args)) (modify (\<lambda>c. c\<lparr>cx_destroyed := f1 c\<rparr>))"
  by (simp_all add: pres_def keeps_def tx_running_def tx_frame_def on_call_def zoom_def modify_def)

lemma call_pop_running: "pres (keeps (tx_running args)) call_pop"
  by (auto simp: pres_def keeps_def tx_running_def call_pop_def exec_defs split: list.splits)

lemma call_push_running:
  "(\<And>a. ct \<noteq> CallTx a) \<Longrightarrow>
    pres (keeps (tx_running args)) (call_push code input value callee caller ct gas ro)"
  by (simp add: call_push_def pres_def keeps_def tx_running_def modify_def tx_frame_def frame_new_def)

lemmas running_rules = keep.pres_rules field_running call_pop_running for_each_pres
  quiet_running [OF upd_state_quiet] quiet_running [OF call_state_quiet(1)] quiet_running [OF call_state_quiet(2)]
  reading_running [OF dirty_insert_reading] reading_running [OF stack_ops_reading(1)]
  reading_running [OF stack_ops_reading(2)] reading_running [OF stack_ops_reading(3)]
  reading_running [OF stack_ops_reading(4)] reading_running [OF stack_ops_reading(5)]
  reading_running [OF stack_ops_reading(6)] reading_running [OF memory_ops_reading(1)]
  reading_running [OF memory_ops_reading(4)] reading_running [OF access_ops_reading(1)]
  reading_running [OF access_ops_reading(3)] reading_running [OF pure_ops_reading(1)]
  reading_running [OF pure_ops_reading(2)] reading_running [OF pure_ops_reading(3)]
  reading_running [OF pure_ops_reading(4)] reading_running [OF pure_ops_reading(5)]
  reading_running [OF pure_ops_reading(6)] reading_running [OF refund_reading(1)]
  reading_running [OF call_gas_reading(3)] reading_running [OF use_gas_call_reading(1)]
  reading_running [OF use_gas_call_reading(2)] reading_running [OF use_gas_call_reading(3)]
  reading_running [OF use_gas_call_reading(4)]

lemma end_running:
  "pres (keeps (tx_running args)) (create_post_processing h a data r)"
  "pres (keeps (tx_running args)) (create_end h cra data g r)"
  "pres (keeps (tx_running args)) (call_end h ca data g r)"
  "pres (keeps (tx_running args)) (advance_pc n b)"
  unfolding create_end_def call_end_def create_post_processing_def advance_pc_def
  by (intro running_rules)+

lemma return_without_running:
  "pres (keeps (tx_running args)) (return_without_callstack h (CallCall ca) data g r)"
  unfolding return_without_callstack_def call_type.case by (intro running_rules end_running)

lemma call_do_running:
  "pres (keeps (tx_running args)) (call_do h callee caller input g v (CallCall ca))"
  unfolding call_do_def by (intro running_rules return_without_running call_push_running) simp

lemma create_do_running:
  "pres (keeps (tx_running args)) (create_do h a caller code v g (CallCreate cra))"
  unfolding create_do_def by (intro running_rules call_push_running) simp

lemma enter_code_running:
  "pres (keeps (tx_running args)) (enter_code h addr callee caller input v ca g ro)"
  unfolding enter_code_def by (intro running_rules return_without_running call_push_running) simp

lemma begin_running:
  "pres (keeps (tx_running args)) (create_begin h)" "pres (keeps (tx_running args)) (create2_begin h)"
  "pres (keeps (tx_running args)) (delegate_call_begin h)" "pres (keeps (tx_running args)) (call_code_begin h)"
  "pres (keeps (tx_running args)) (static_call_begin h)" "pres (keeps (tx_running args)) (call_begin h)"
  unfolding create_begin_def create2_begin_def delegate_call_begin_def call_code_begin_def
    static_call_begin_def call_begin_def
  by (intro running_rules create_do_running enter_code_running call_do_running)+

lemma jump_running: "pres (keeps (tx_running args)) ctx_jump" "pres (keeps (tx_running args)) ctx_jumpi"
  unfolding ctx_jump_def ctx_jumpi_def by (intro running_rules)+

section \<open>Computations that may end the transaction\<close>

text \<open>From a running transaction: it is settled, or it fails and is still running.\<close>

abbreviation settles :: "'s host \<Rightarrow> 's tx_args \<Rightarrow> ('s ctx, 'a) exec \<Rightarrow> bool" where
  "settles h args m \<equiv> triple (tx_running args) m (\<lambda>_. tx_settled h args) (\<lambda>_. tx_running args)"

lemma settles_running: "pres (keeps (tx_running args)) m \<Longrightarrow> settles h args m"
  unfolding triple_keeps [symmetric] by (erule triple_weaken) (simp_all add: running_settled)

lemma settles_bind:
  assumes "pres (keeps (tx_running args)) m" and "\<And>a. settles h args (f a)"
  shows "settles h args (bind m f)"
  by (rule triple_bind [OF assms(1) [folded triple_keeps] assms(2)])

lemma triple_at:
  "triple P m Q E \<Longrightarrow> P s \<Longrightarrow> case m s of Ok a t \<Rightarrow> Q a t | Err e t \<Rightarrow> E e t | Panic \<Rightarrow> True"
  unfolding triple_def by blast

lemma deploy_error_cases: "deploy_error fork gas data \<noteq> Some ContractAddrCollision"
  by (simp add: deploy_error_def)

text \<open>Before the sweep the transaction is still running, and an error of a creation is one of its code.\<close>

lemma verdict_running:
  assumes "tx_running args c"
  obtains err addr c\<^sub>1 where "tx_verdict h args data r c = Ok (err, addr) c\<^sub>1" "tx_running args c\<^sub>1"
    "(\<exists>a. txa_aux args = Contract a) \<Longrightarrow> err \<noteq> Some ContractAddrCollision"
proof (cases "txa_aux args")
  case (Sender a)
  then show thesis using that verdict_sender [OF Sender] assms by (simp add: tx_running_def)
next
  case (Contract a)
  show thesis
  proof (cases r)
    case (Some e)
    obtain g where "tx_verdict h args data r c = Ok (None, Some a) (put_gas g c)" using verdict_failed [OF Contract] Some by blast
    moreover have "tx_running args (put_gas g c)" using assms by (simp add: tx_running_def tx_frame_def put_gas_def)
    ultimately show thesis using that by blast
  next
    case None
    show thesis
    proof (cases "deploy_error (fr_fork (cx_cur_call c)) (ctx_gas c) data")
      case error: None
      show thesis
        by (rule that) (simp add: None verdict_returned [OF Contract] error,
            use assms in \<open>simp add: tx_running_def tx_frame_def put_gas_def\<close>, simp)
    next
      case (Some e)
      show thesis
        by (rule that) (simp add: None verdict_returned [OF Contract] Some, rule assms, use Some deploy_error_cases in metis)
    qed
  qed
qed

lemma settles_tx_end:
  assumes "restores h args"
  shows "settles h args (tx_end h args data gas r)"
  unfolding triple_def
proof (intro allI impI)
  fix c assume c: "tx_running args c"
  let ?m = "tx_end h args data gas r"
  show "case ?m c of Ok x t \<Rightarrow> tx_settled h args t | Err e t \<Rightarrow> tx_running args t | Panic \<Rightarrow> True"
  proof (cases "cx_call_stack c")
    case Nil
    obtain err addr c\<^sub>1 where verdict: "tx_verdict h args data r c = Ok (err, addr) c\<^sub>1" "tx_running args c\<^sub>1"
      "(\<exists>a. txa_aux args = Contract a) \<Longrightarrow> err \<noteq> Some ContractAddrCollision" using verdict_running [OF c] by blast
    then show ?thesis
      using tx_end_eq [OF Nil verdict(1) _ refl, of gas] assms
      by (cases err) (auto simp: tx_running_def tx_settled_def restores_def)
  next
    case Cons
    then show ?thesis by (simp add: tx_end_def exec_defs)
  qed
qed

lemma settles_finish:
  assumes "restores h args"
  shows "settles h args (finish_call h data r)"
  unfolding triple_def
proof (intro allI impI)
  fix c assume c: "tx_running args c"
  show "case finish_call h data r c of Ok x t \<Rightarrow> tx_settled h args t | Err e t \<Rightarrow> tx_running args t | Panic \<Rightarrow> True"
  proof (cases "cx_call_stack c")
    case Nil
    then show ?thesis by (simp add: finish_call_def call_pop_def exec_defs)
  next
    case (Cons p rest)
    let ?c = "c\<lparr>cx_cur_call := p, cx_call_stack := rest\<rparr>"
    have run: "tx_running args ?c" using c Cons by (simp add: tx_running_def)
    have ct: "fr_call_type (cx_cur_call c) = CallTx a \<Longrightarrow> a = args" for a
      using c by (simp add: tx_running_def tx_frame_def)
    show ?thesis
      unfolding finish_call_eq [OF Cons]
    proof (cases "fr_call_type (cx_cur_call c)")
      case (CallTx a)
      with ct triple_at [OF settles_tx_end [OF assms] run] show
        "case (case fr_call_type (cx_cur_call c) of
             CallTx args \<Rightarrow> tx_end h args data (ctx_gas c) r
           | CallCall args \<Rightarrow> call_end h args data (ctx_gas c) r
           | CallCreate args \<Rightarrow> create_end h args data (ctx_gas c) r) ?c of
           Ok x t \<Rightarrow> tx_settled h args t | Err e t \<Rightarrow> tx_running args t | Panic \<Rightarrow> True" by simp
    qed (use triple_at [OF settles_running [OF end_running(2)] run] triple_at [OF settles_running [OF end_running(3)] run]
        in simp_all)
  qed
qed

section \<open>A round of the loop\<close>

lemma settles_arm:
  assumes "restores h args"
  shows "settles h args (exec_arm h i)"
proof -
  note fin = settles_finish [OF assms]
  have ends: "settles h args (ctx_return h)" "settles h args (ctx_revert h)" "settles h args (ctx_self_destruct h)"
    unfolding ctx_return_def ctx_revert_def ctx_self_destruct_def
    by (intro settles_bind triple_if triple_prod triple_Let fin running_rules settles_running [OF keep.pres_throw])+
  consider "quiet_op (in_opcode i)" | "in_opcode i = OpFlow OpJump" | "in_opcode i = OpFlow OpJumpI"
    | "in_opcode i = OpStop" | s where "in_opcode i = OpSystem s"
    using opcode_kinds by blast
  then show ?thesis
  proof cases
    case 1
    then have "pres ctx_quiet (exec_arm h i)"
      by (intro pres_mono [OF quiet_arm_protected]) (simp_all add: ctx_protected_def)
    then show ?thesis by (intro settles_running quiet_running)
  next
    case (5 s)
    then show ?thesis
      by (cases s) (simp_all add: exec_arm_def system_arm_def begin_running settles_running ends keep.pres_throw)
  qed (simp_all add: exec_arm_def flow_arm_def flow_frame_arm_def jump_running settles_running fin)
qed

lemma settles_unwind:
  assumes "restores h args"
  shows "triple (if r = None then tx_settled h args else tx_running args) (unwind h n r)
    (\<lambda>_. tx_settled h args) (\<lambda>_. tx_running args)"
proof (induction n arbitrary: r)
  case 0
  show ?case by (cases r) (simp_all add: triple_ret triple_panic)
next
  case (Suc n)
  show ?case
  proof (cases r)
    case (Some e)
    have "triple (tx_running args) (try_result (finish_call h [] r))
        (\<lambda>r. if r = None then tx_settled h args else tx_running args) (\<lambda>_. tx_running args)"
      using settles_finish [OF assms, of "[]" r] unfolding triple_def try_result_def
      by (auto split: outcome.splits)
    with Some Suc.IH show ?thesis by (auto intro: triple_bind)
  qed (simp add: triple_ret)
qed

lemma advance_settled: "pres (keeps (tx_settled h args)) (advance_pc n b)"
  by (simp add: pres_def keeps_def advance_pc_def exec_defs on_call_def tx_settled_def tx_frame_def)

lemma settles_step:
  assumes "restores h args"
    and "tx_running args c" and "step h c = Ok () t"
  shows "tx_settled h args t"
proof -
  obtain i succ c1 c2 where arm: "try_result (exec_arm h i) c = Ok succ c1"
    and unw: "unwind h (length (cx_call_stack c1)) succ c1 = Ok () c2"
    and adv: "advance_pc (case in_data i of Some d \<Rightarrow> length d | None \<Rightarrow> 0) (enters_call (in_opcode i)) c2 = Ok () t"
    using assms(3) by (auto simp: step_def bind_Ok_conv gets_def unwrap_def ret_def panic_def split: option.splits)
  have "if succ = None then tx_settled h args c1 else tx_running args c1"
    using arm triple_at [OF settles_arm [OF assms(1)] assms(2), of i]
    by (auto simp: try_result_def split: outcome.splits)
  then have "tx_settled h args c2"
    using triple_OkD [OF settles_unwind [OF assms(1)] _ unw] by (cases succ) simp_all
  then show ?thesis
    using pres_OkD [OF advance_settled adv] by (simp add: keeps_def)
qed

lemma tx_reaches_settled:
  assumes "tx_reaches h c t" and "tx_settled h args c"
    and "restores h args"
  shows "tx_settled h args t"
  using assms(1,2)
proof (induction rule: tx_reaches.induct)
  case (tx_reaches_step t u)
  then have "cx_status t = Running" "step h t = Ok () u" by (auto elim: tx_stepE)
  moreover from this tx_reaches_step have "tx_running args t" by (simp add: tx_settled_def tx_running_def)
  ultimately show ?case using settles_step [OF assms(3)] by blast
qed

section \<open>The start of a transaction\<close>

text \<open>A call that is refused leaves the context as it is.\<close>

definition errs_same :: "('s, 'a) exec \<Rightarrow> bool" where
  "errs_same m \<longleftrightarrow> (\<forall>s e t. m s = Err e t \<longrightarrow> t = s)"

lemma errs_same_rules:
  "errs_same (throw e)" "(\<And>a. errs_same (f a)) \<Longrightarrow> errs_same (bind (gets g) f)"
  "errs_same m \<Longrightarrow> errs_same n \<Longrightarrow> errs_same (if b then m else n)"
  "infallible m \<Longrightarrow> errs_same m"
  by (auto simp: errs_same_def infallible_def throw_def bind_def gets_def)

lemma call_push_infallible: "infallible (call_push code input v callee caller ct g ro)"
  unfolding call_push_def by (intro infallible_rules)

lemma call_do_tx_errs: "errs_same (call_do h callee caller input g v (CallTx args))"
  unfolding call_do_def call_depth_def return_without_callstack_def call_type.case
  by (intro errs_same_rules(1-3) errs_same_rules(4) infallible_rules upd_infallible tx_end_infallible call_push_infallible)

lemma call_push_tx_running:
  "pres (keeps (tx_running args)) (call_push code input value callee caller (CallTx args) gas ro)"
  by (simp add: call_push_def pres_def keeps_def tx_running_def modify_def tx_frame_def frame_new_def)

lemma call_do_tx_settles:
  assumes "restores h args"
  shows "settles h args (call_do h callee caller input g v (CallTx args))"
  unfolding call_do_def return_without_callstack_def call_type.case
  by (intro settles_bind triple_if triple_prod triple_Let room_option settles_tx_end [OF assms] running_rules
      settles_running [OF keep.pres_throw] settles_running [OF keep.pres_panic] settles_running [OF call_push_tx_running])

lemma tx_begin_eq:
  "tx_begin h from' to value gas input x = Ok () c \<longleftrightarrow>
    21000 \<le> gas \<and> (tx_start h from' to value (gas - 21000) input x = Ok () c \<or>
      (\<exists>e t. tx_start h from' to value (gas - 21000) input x = Err e t \<and> c = t\<lparr>cx_status := Finished (TxReverted [] (gas - 21000) e)\<rparr>))"
  by (auto simp: tx_begin_def bind_def u64_sub_def ret_def panic_def try_result_def modify_def split: outcome.splits)

text \<open>The start of a call.\<close>

lemma begin_call_settled:
  assumes snap: "ws_snapshot h (ws_set_nonce h from' (ws_get_nonce h s\<^sub>0 from' + 1) s\<^sub>0) = (s\<^sub>1, snap)" "view h s\<^sub>1 = view h snap"
    and args: "args = \<lparr>txa_snapshot = snap, txa_aux = Sender from'\<rparr>" "restores h args"
    and run: "tx_begin h from' (Some to) value gas input (tx_context h from' gas gp al s\<^sub>0 cs env) = Ok () c"
  shows "tx_settled h args c"
proof -
  let ?x = "tx_context h from' gas gp al s\<^sub>0 cs env" and ?do = "call_do h to from' input (gas - 21000) value (CallTx args)"
  define c1 where "c1 = ?x\<lparr>cx_state := s\<^sub>1\<rparr>"
  have start: "tx_start h from' (Some to) value (gas - 21000) input ?x = (if ws_get_nonce h s\<^sub>0 from' + 1 < 2 ^ 64 then ?do c1 else Panic)"
    using snap
    by (simp add: tx_start_def bind_def gets_def u64_add_def ret_def panic_def upd_state_def modify_def take_snapshot_def
        tx_context_def args(1) c1_def)
  have c1: "tx_running args c1" by (simp add: c1_def tx_context_def frame_new_def tx_running_def tx_frame_def)
  from run [unfolded tx_begin_eq start] consider "?do c1 = Ok () c"
    | e t where "?do c1 = Err e t" "c = t\<lparr>cx_status := Finished (TxReverted [] (gas - 21000) e)\<rparr>" by (auto split: if_splits)
  then show ?thesis
  proof cases
    case 1
    with triple_OkD [OF call_do_tx_settles [OF args(2)] c1] show ?thesis by blast
  next
    case (2 e t)
    then have "t = c1" using call_do_tx_errs unfolding errs_same_def by blast
    with 2 c1 snap(2) show ?thesis by (simp add: tx_running_def tx_settled_def c1_def args(1))
  qed
qed

text \<open>The start of a creation: it runs, or it is refused, and then only a collision of addresses has counted the nonce.\<close>

lemma create_do_errs:
  assumes "create_do h a caller code v g ct c = Err e t"
  shows "cx_state t = (if e = ContractAddrCollision then ws_set_nonce h caller (ws_get_nonce h (cx_state c) caller + 1) (cx_state c)
    else cx_state c)"
  using assms
  by (auto simp: create_do_def bind_def gets_def throw_def ok_or_def ret_def Let_def upd_state_def modify_def get_fork_def when_do_def
      on_access_def zoom_def al_add_addr_def transfer_def panic_def dirty_insert_def call_push_def
      split: if_splits option.splits outcome.splits prod.splits)

lemma create_do_tx_running: "pres (keeps (tx_running args)) (create_do h a caller code v g (CallTx args))"
  unfolding create_do_def by (intro running_rules call_push_tx_running)

lemma begin_create:
  assumes snap: "ws_snapshot h s\<^sub>0 = (s\<^sub>1, snap)"
    and run: "tx_begin h from' None value gas input (tx_context h from' gas gp al s\<^sub>0 cs env) = Ok () c"
  obtains a where "tx_running \<lparr>txa_snapshot = snap, txa_aux = Contract a\<rparr> c"
  | g e where "cx_status c = Finished (TxReverted [] g e)"
      "cx_state c = (if e = ContractAddrCollision then ws_set_nonce h from' (ws_get_nonce h s\<^sub>1 from' + 1) s\<^sub>1 else s\<^sub>1)"
proof -
  let ?x = "tx_context h from' gas gp al s\<^sub>0 cs env" and ?a = "create_addr (h_keccak h) (h_rlp_pair h) from' (ws_get_nonce h s\<^sub>1 from')"
  let ?args = "\<lparr>txa_snapshot = snap, txa_aux = Contract ?a\<rparr>"
  let ?do = "create_do h ?a from' input value (gas - 21000) (CallTx ?args)" and ?c1 = "?x\<lparr>cx_state := s\<^sub>1\<rparr>"
  have start: "tx_start h from' None value (gas - 21000) input ?x = ?do ?c1"
    using snap
    by (simp add: tx_start_def bind_def gets_def ret_def upd_state_def modify_def take_snapshot_def tx_context_def Let_def)
  have c1: "tx_running ?args ?c1" by (simp add: tx_context_def frame_new_def tx_running_def tx_frame_def)
  from run [unfolded tx_begin_eq start] consider "?do ?c1 = Ok () c"
    | e t where "?do ?c1 = Err e t" "c = t\<lparr>cx_status := Finished (TxReverted [] (gas - 21000) e)\<rparr>" by auto
  then show thesis
  proof cases
    case 1
    with pres_OkD [OF create_do_tx_running 1] c1 have "tx_running ?args c" by (simp only: keeps_def)
    then show thesis by (rule that(1))
  next
    case (2 e t)
    from create_do_errs [OF 2(1)] have "cx_state t = (if e = ContractAddrCollision then ws_set_nonce h from' (ws_get_nonce h s\<^sub>1 from' + 1) s\<^sub>1 else s\<^sub>1)"
      by simp
    with 2(2) show thesis by (intro that(2) [of "gas - 21000" e]) simp_all
  qed
qed

lemma finished_stays: "tx_reaches h c t \<Longrightarrow> cx_status c = Finished r \<Longrightarrow> t = c"
proof (induction rule: tx_reaches.induct)
  case (tx_reaches_step t u)
  then show ?case by (auto elim: tx_stepE)
qed simp

text \<open>The world a reverted transaction leaves, for the snapshot its start has taken.\<close>

lemma reverted_state:
  assumes snap: "ws_snapshot h (if to = None then s\<^sub>0 else ws_set_nonce h from' (ws_get_nonce h s\<^sub>0 from' + 1) s\<^sub>0) = (s\<^sub>1, snap)"
      "view h s\<^sub>1 = view h snap" "\<And>s. view h (ws_rollback h snap s) = view h snap"
    and run: "tx_begin h from' to value gas input (tx_context h from' gas gp al s\<^sub>0 cs env) = Ok () c"
      "tx_reaches h c t" "cx_status t = Finished (TxReverted data g e)"
  shows "view h (cx_state t) =
    (if to = None \<and> e = ContractAddrCollision then view h (ws_set_nonce h from' (ws_get_nonce h s\<^sub>1 from' + 1) s\<^sub>1) else view h snap)"
proof (cases to)
  case (Some a)
  let ?args = "\<lparr>txa_snapshot = snap, txa_aux = Sender from'\<rparr>"
  have rb: "restores h ?args" using snap(3) by (simp add: restores_def)
  have "tx_settled h ?args c" by (rule begin_call_settled [OF _ snap(2) refl rb]) (use snap(1) run(1) Some in simp_all)
  from tx_reaches_settled [OF run(2) this rb] run(3) Some show ?thesis by (simp add: tx_settled_def)
next
  case None
  from snap(1) None have s1: "ws_snapshot h s\<^sub>0 = (s\<^sub>1, snap)" by simp
  from s1 run(1) [unfolded None] show ?thesis
  proof (cases rule: begin_create)
    case (1 a)
    have rb: "restores h \<lparr>txa_snapshot = snap, txa_aux = Contract a\<rparr>" using snap(3) by (simp add: restores_def)
    from tx_reaches_settled [OF run(2) running_settled [OF 1] rb] run(3) show ?thesis by (simp add: tx_settled_def)
  next
    case (2 g' e')
    with finished_stays [OF run(2)] run(3) snap(2) None show ?thesis by auto
  qed
qed

lemma reverted_world:
  assumes ws: "world_state keccak h ok" and s: "ok s\<^sub>0"
    and run: "tx_begin h from' to value gas input (tx_context h from' gas gp al s\<^sub>0 cs env) = Ok () c"
      "tx_reaches h c t" "cx_status t = Finished (TxReverted data g e)"
  shows "view h (cx_state t) =
    (if to = None \<and> e \<noteq> ContractAddrCollision then view h s\<^sub>0 else world_set_nonce from' (ws_get_nonce h s\<^sub>0 from' + 1) (view h s\<^sub>0))"
proof -
  let ?s = "if to = None then s\<^sub>0 else ws_set_nonce h from' (ws_get_nonce h s\<^sub>0 from' + 1) s\<^sub>0"
  obtain s1 snap where snap: "ws_snapshot h ?s = (s1, snap)" by fastforce
  have "ok ?s" using world_state.set_nonce_law [OF ws s] s by simp
  note law = world_state.snapshot_law [OF ws this snap]
  from law have "view h s1 = view h snap" by simp
  moreover have "view h (ws_rollback h snap s) = view h snap" for s
    using world_state.rollback_law [OF ws, of snap s] law by simp
  ultimately have t: "view h (cx_state t) = (if to = None \<and> e = ContractAddrCollision then view h (ws_set_nonce h from' (ws_get_nonce h s1 from' + 1) s1)
      else view h ?s)" using reverted_state [OF snap _ _ run] law by simp
  show ?thesis
  proof (cases to)
    case None
    with law have same: "ok s1" "view h s1 = view h s\<^sub>0" by simp_all
    then have "ws_get_nonce h s1 = ws_get_nonce h s\<^sub>0" by (metis view_sel(4))
    with same world_state.set_nonce_law [OF ws same(1)] t None show ?thesis by simp
  next
    case (Some a)
    with t world_state.set_nonce_law [OF ws s] show ?thesis by simp
  qed
qed

text \<open>
  C1. Atomicity: on every world state that keeps its contract, when a transaction ends as reverted, for whatever reason and after whatever
  calls, creations and writes, the world it leaves is the one it started from, with the nonce of the sender incremented if the
  transaction is a call or a creation refused because the address of the contract is taken. A creation reverted for any other reason
  (too little balance, or the code it returns is refused) leaves the world exactly as it was, the nonce of the sender included.
\<close>

theorem reverted_tx_restores:
  assumes "world_state keccak h ok" and "ok s\<^sub>0"
    and "tx_begin h from' to value gas input (tx_context h from' gas gp al s\<^sub>0 cs env) = Ok () c"
    and "tx_reaches h c t" and "cx_status t = Finished (TxReverted data g e)"
  shows "view h (cx_state t) =
    (if to = None \<and> e \<noteq> ContractAddrCollision then view h s\<^sub>0 else world_set_nonce from' (ws_get_nonce h s\<^sub>0 from' + 1) (view h s\<^sub>0))"
  by (rule reverted_world [OF assms])

text \<open>Account 2 has the code \<open>INVALID\<close>; a transaction to it runs for one round and is reverted.\<close>

definition sample_world :: dummy_store where
  "sample_world = dummy_set_code no_hash 2 [0xfe] dummy_new"

definition sample_tx :: "(dummy_store ctx, unit) outcome" where
  "sample_tx = tx_begin (dummy_host no_hash no_rlp) 1 (Some 2) 0 30000 []
     (tx_context (dummy_host no_hash no_rlp) 1 30000 0 al_empty sample_world sample_world (sample_env London))"

lemma sample_tx_begins:
  "\<exists>c d args. sample_tx = Ok () c \<and> cx_status c = Running \<and> cx_call_stack c = [d] \<and> fr_pc d = 0 \<and> ctx_gas c = 9000
    \<and> fr_call_type (cx_cur_call c) = CallTx args \<and> txa_aux args = Sender 1
    \<and> code_bytes (fr_code (cx_cur_call c)) = [0xfe] \<and> fr_pc (cx_cur_call c) = 0"
  by (simp add: sample_tx_def sample_world_def exec_defs sample_env_def tx_begin_def tx_start_def
      tx_context_def take_snapshot_def upd_state_def dummy_snapshot_def call_do_def call_depth_def
      dirty_insert_def dummy_new_def get_fork_def frame_new_def call_push_def transfer_def transfer_balance_def
      sub_balance_def add_balance_def wei_checked_sub_def wei_checked_add_def
      dummy_reads dummy_set_nonce_def dummy_set_code_def dummy_set_balance_def dummy_get_account_def 
      dummy_account_default_def PlainCode_new_def)

lemma invalid_ends:
  assumes "cx_status c = Running" and "cx_call_stack c = [d]" and "fr_pc d = 0"
    and "fr_call_type (cx_cur_call c) = CallTx args" and "txa_aux args = Sender a"
    and "code_bytes (fr_code (cx_cur_call c)) = [0xfe]" and "fr_pc (cx_cur_call c) = 0"
  shows "\<exists>t. step h c = Ok () t \<and> cx_status t = Finished (TxReverted [] (ctx_gas c) InvalidOpcode)"
proof -
  have "decode [0xfe] 0 = Some \<lparr>in_opcode = OpSystem OpInvalid, in_data = None, in_pos = 0\<rparr>"
    by (simp add: decode_def opcode_from_u8_def opcode_table_def)
  moreover have "\<exists>t. finish_call h [] (Some InvalidOpcode) c = Ok () t
      \<and> cx_status t = Finished (TxReverted [] (ctx_gas c) InvalidOpcode) \<and> fr_pc (cx_cur_call t) = 0"
    using assms by (simp add: finish_call_eq tx_end_sender)
  ultimately show ?thesis
    using assms(2,6,7)
    by (auto simp: step_def exec_defs exec_arm_def system_arm_def advance_pc_def enters_call_def on_call_def unwind_None)
qed

lemma sample_tx_ends:
  "\<exists>c t. sample_tx = Ok () c \<and> tx_reaches (dummy_host no_hash no_rlp) c t
    \<and> cx_status t = Finished (TxReverted [] 9000 InvalidOpcode)"
proof -
  let ?h = "dummy_host no_hash no_rlp"
  obtain c d args where c: "sample_tx = Ok () c" "cx_status c = Running" "cx_call_stack c = [d]" "fr_pc d = 0"
    "ctx_gas c = 9000" "fr_call_type (cx_cur_call c) = CallTx args" "txa_aux args = Sender 1"
    "code_bytes (fr_code (cx_cur_call c)) = [0xfe]" "fr_pc (cx_cur_call c) = 0"
    using sample_tx_begins by blast
  obtain t where t: "step ?h c = Ok () t" "cx_status t = Finished (TxReverted [] 9000 InvalidOpcode)"
    using invalid_ends [OF c(2-4,6-9), of ?h] c(5) by auto
  have "tx_reaches ?h c t"
    by (rule tx_reaches_step [OF tx_reaches_start tx_step]) (fact c(2), fact t(1))
  with c(1) t(2) show ?thesis by blast
qed

theorem reverted_tx_witness:
  "\<exists>c t. sample_tx = Ok () c \<and> tx_reaches (dummy_host no_hash no_rlp) c t
    \<and> cx_status t = Finished (TxReverted [] 9000 InvalidOpcode)
    \<and> view (dummy_host no_hash no_rlp) (cx_state t)
      = world_set_nonce 1 1 (view (dummy_host no_hash no_rlp) sample_world)"
proof -
  let ?h = "dummy_host no_hash no_rlp"
  obtain c t where c: "sample_tx = Ok () c" and t: "tx_reaches ?h c t"
    "cx_status t = Finished (TxReverted [] 9000 InvalidOpcode)"
    using sample_tx_ends by blast
  have "view ?h (cx_state t) = world_set_nonce 1 (ws_get_nonce ?h sample_world 1 + 1) (view ?h sample_world)"
    using reverted_tx_restores [OF dhost.world_state_axioms TrueI c [unfolded sample_tx_def] t] by simp
  moreover have "ws_get_nonce ?h sample_world 1 = 0"
    by (simp add: sample_world_def dummy_reads dummy_set_code_def dummy_get_account_def dummy_new_def dummy_account_default_def)
  ultimately show ?thesis using c t by auto
qed

end
