(* ===== verification/MemState.thy ===== *)
theory MemState
  imports DummyStore
begin

text \<open>
  The in-memory world states of \<open>src/src/state.rs\<close>: a chain of revisions (\<open>MemStateRev\<close>), each the
  changes made upon the revision or the external reader below it; \<open>MemStateShared\<close> and \<open>MemStateMut\<close>
  (a shared and an owned revision) and \<open>MemStateAuto\<close>, which switches between them and implements the
  trait \<open>WorldState\<close> for the interpreter. Shared revisions are immutable, so \<open>Arc\<close> is the value.
  \<open>HashMap\<close> and \<open>HashSet\<close> are maps and sets: the loops over them do not depend on the order.
\<close>

record account_delta =
  ad_state :: "hash \<rightharpoonup> u256"
  ad_balance :: "wei option"
  ad_nonce :: "nat option"
  ad_code :: "plain_code option"

definition account_delta_default :: account_delta where
  "account_delta_default = \<lparr>ad_state = Map.empty, ad_balance = None, ad_nonce = None, ad_code = None\<rparr>"

record log_item =
  li_contract :: addr
  li_topics :: "hash list"
  li_data :: hash
  li_block_number :: u256

record state_delta =
  sd_accounts :: "addr \<rightharpoonup> account_delta"
  sd_logs :: "log_item list"
  sd_deleted :: "addr set"

definition empty_delta :: state_delta where
  "empty_delta = \<lparr>sd_accounts = Map.empty, sd_logs = [], sd_deleted = {}\<rparr>"

datatype mem_rev = MemStateRev (rev_parent: state_source) (rev_delta: state_delta)
  and state_source = Internal mem_rev | External world

definition mem_rev_new :: "world \<Rightarrow> mem_rev" where
  "mem_rev_new ext_src = MemStateRev (External ext_src) empty_delta"

definition consolidated_delta :: "mem_rev \<Rightarrow> state_delta option" where
  "consolidated_delta r = (case rev_parent r of External _ \<Rightarrow> Some (rev_delta r) | Internal _ \<Rightarrow> None)"

section \<open>Reads\<close>

text \<open>The macro \<open>rev_walk!\<close>: the first revision for which the lookup succeeds, else the external reader.\<close>

fun rev_walk :: "(state_delta \<Rightarrow> 'a option) \<Rightarrow> (world \<Rightarrow> 'a) \<Rightarrow> mem_rev \<Rightarrow> 'a" where
  "rev_walk func exit (MemStateRev (Internal p) d) =
     (case func d of Some t \<Rightarrow> t | None \<Rightarrow> rev_walk func exit p)"
| "rev_walk func exit (MemStateRev (External w) d) =
     (case func d of Some t \<Rightarrow> t | None \<Rightarrow> exit w)"

definition rev_get_state :: "mem_rev \<Rightarrow> addr \<Rightarrow> hash \<Rightarrow> u256" where
  "rev_get_state s contract key =
     (if contract \<in> sd_deleted (rev_delta s) then 0
      else rev_walk (\<lambda>d. Option.bind (sd_accounts d contract) (\<lambda>acc. ad_state acc key))
             (\<lambda>w. w_state w contract key) s)"

definition rev_get_balance :: "mem_rev \<Rightarrow> addr \<Rightarrow> wei" where
  "rev_get_balance s account =
     (if account \<in> sd_deleted (rev_delta s) then 0
      else rev_walk (\<lambda>d. Option.bind (sd_accounts d account) ad_balance) (\<lambda>w. w_balance w account) s)"

definition rev_get_code :: "(bytes \<Rightarrow> hash) \<Rightarrow> mem_rev \<Rightarrow> addr \<Rightarrow> plain_code" where
  "rev_get_code keccak s contract =
     (if contract \<in> sd_deleted (rev_delta s) then PlainCode_new keccak []
      else rev_walk (\<lambda>d. Option.bind (sd_accounts d contract) ad_code) (\<lambda>w. w_code w contract) s)"

definition rev_get_nonce :: "mem_rev \<Rightarrow> addr \<Rightarrow> nat" where
  "rev_get_nonce s contract =
     (if contract \<in> sd_deleted (rev_delta s) then 0
      else rev_walk (\<lambda>d. Option.bind (sd_accounts d contract) ad_nonce) (\<lambda>w. w_nonce w contract) s)"

definition rev_exist :: "mem_rev \<Rightarrow> addr \<Rightarrow> bool" where
  "rev_exist s contract =
     (if contract \<in> sd_deleted (rev_delta s) then False
      else rev_walk (\<lambda>d. if sd_accounts d contract \<noteq> None then Some True else None)
             (\<lambda>w. w_exist w contract) s)"

definition rev_get_log :: "mem_rev \<Rightarrow> log_item list" where
  "rev_get_log s = sd_logs (rev_delta s)"

section \<open>Writes\<close>

definition upd_delta :: "(state_delta \<Rightarrow> state_delta) \<Rightarrow> mem_rev \<Rightarrow> mem_rev" where
  "upd_delta f r = MemStateRev (rev_parent r) (f (rev_delta r))"

text \<open>\<open>get_account\<close>: the entry of the account in the delta, inserted when absent, updated.\<close>

definition rev_get_account :: "addr \<Rightarrow> (account_delta \<Rightarrow> account_delta) \<Rightarrow> mem_rev \<Rightarrow> mem_rev" where
  "rev_get_account contract upd =
     upd_delta (\<lambda>d. d\<lparr>sd_accounts := (sd_accounts d)(contract \<mapsto>
       upd (case sd_accounts d contract of None \<Rightarrow> account_delta_default | Some acc \<Rightarrow> acc))\<rparr>)"

definition rev_set_state :: "addr \<Rightarrow> hash \<Rightarrow> u256 \<Rightarrow> mem_rev \<Rightarrow> mem_rev" where
  "rev_set_state contract key val =
     rev_get_account contract (\<lambda>acc. acc\<lparr>ad_state := (ad_state acc)(key \<mapsto> val)\<rparr>)"

definition rev_set_balance :: "addr \<Rightarrow> wei \<Rightarrow> mem_rev \<Rightarrow> mem_rev" where
  "rev_set_balance contract balance = rev_get_account contract (\<lambda>acc. acc\<lparr>ad_balance := Some balance\<rparr>)"

definition rev_set_code :: "(bytes \<Rightarrow> hash) \<Rightarrow> addr \<Rightarrow> bytes \<Rightarrow> mem_rev \<Rightarrow> mem_rev" where
  "rev_set_code keccak contract code =
     rev_get_account contract (\<lambda>acc. acc\<lparr>ad_code := Some (PlainCode_new keccak code)\<rparr>)"

definition rev_set_nonce :: "addr \<Rightarrow> nat \<Rightarrow> mem_rev \<Rightarrow> mem_rev" where
  "rev_set_nonce contract nonce = rev_get_account contract (\<lambda>acc. acc\<lparr>ad_nonce := Some nonce\<rparr>)"

definition rev_create_account :: "(bytes \<Rightarrow> hash) \<Rightarrow> addr \<Rightarrow> mem_rev \<Rightarrow> mem_rev" where
  "rev_create_account keccak addr r =
     (let old_balance = rev_get_balance r addr;
          acc = \<lparr>ad_state = Map.empty, ad_balance = Some 0, ad_nonce = Some 0,
                 ad_code = Some (PlainCode_new keccak [])\<rparr>;
          acc = (if old_balance \<noteq> 0 then acc\<lparr>ad_balance := Some old_balance\<rparr> else acc)
      in upd_delta (\<lambda>d. d\<lparr>sd_accounts := (sd_accounts d)(addr \<mapsto> acc),
                         sd_deleted := sd_deleted d - {addr}\<rparr>) r)"

definition rev_delete_account :: "addr \<Rightarrow> mem_rev \<Rightarrow> mem_rev" where
  "rev_delete_account addr =
     upd_delta (\<lambda>d. d\<lparr>sd_deleted := insert addr (sd_deleted d), sd_accounts := (sd_accounts d)(addr := None)\<rparr>)"

text \<open>\<open>Hash::from_slice(data)\<close> panics unless the data has 32 bytes.\<close>

definition rev_add_log :: "addr \<Rightarrow> hash list \<Rightarrow> bytes \<Rightarrow> u256 \<Rightarrow> mem_rev \<Rightarrow> mem_rev option" where
  "rev_add_log contract topics data block_number r =
     map_option (\<lambda>data. upd_delta (\<lambda>d. d\<lparr>sd_logs := sd_logs d @ [\<lparr>li_contract = contract,
         li_topics = topics, li_data = data, li_block_number = block_number\<rparr>]\<rparr>) r)
       (hash_from_slice data)"

section \<open>Consolidation\<close>

text \<open>The revisions to be merged, the newest first, and the parent of the last one.\<close>

fun collect_revs :: "nat option \<Rightarrow> mem_rev \<Rightarrow> state_delta list \<times> state_source" where
  "collect_revs max_back_steps (MemStateRev (External w) d) = ([d], External w)"
| "collect_revs (Some 0) (MemStateRev (Internal p) d) = ([d], Internal p)"
| "collect_revs (Some (Suc n)) (MemStateRev (Internal p) d) =
     (case collect_revs (Some n) p of (ds, parent) \<Rightarrow> (d # ds, parent))"
| "collect_revs None (MemStateRev (Internal p) d) =
     (case collect_revs None p of (ds, parent) \<Rightarrow> (d # ds, parent))"

definition overlay_account :: "account_delta \<Rightarrow> account_delta \<Rightarrow> account_delta" where
  "overlay_account acc racc =
     \<lparr>ad_state = ad_state acc ++ ad_state racc,
      ad_balance = (if ad_balance racc \<noteq> None then ad_balance racc else ad_balance acc),
      ad_nonce = (if ad_nonce racc \<noteq> None then ad_nonce racc else ad_nonce acc),
      ad_code = (if ad_code racc \<noteq> None then ad_code racc else ad_code acc)\<rparr>"

text \<open>One round of the loop of \<open>consolidate\<close>: the delta of a newer revision over the merged ones.\<close>

definition overlay_delta :: "state_delta \<Rightarrow> state_delta \<Rightarrow> state_delta" where
  "overlay_delta d merged =
     (let accounts = (\<lambda>addr. case sd_accounts d addr of
                         None \<Rightarrow> sd_accounts merged addr
                       | Some racc \<Rightarrow> Some (overlay_account
                           (case sd_accounts merged addr of None \<Rightarrow> account_delta_default | Some acc \<Rightarrow> acc)
                           racc));
          deleted = {addr. (addr \<in> sd_deleted merged \<and> sd_accounts d addr = None) \<or> addr \<in> sd_deleted d}
      in \<lparr>sd_accounts = (\<lambda>addr. if addr \<in> deleted then None else accounts addr),
          sd_logs = sd_logs merged @ sd_logs d, sd_deleted = deleted\<rparr>)"

definition rev_consolidate :: "nat option \<Rightarrow> mem_rev \<Rightarrow> mem_rev" where
  "rev_consolidate max_back_steps r =
     (case collect_revs max_back_steps r of (revs, parent) \<Rightarrow>
        MemStateRev parent (fold overlay_delta (rev revs) empty_delta))"

fun rev_depth :: "mem_rev \<Rightarrow> nat" where
  "rev_depth (MemStateRev (Internal p) d) = rev_depth p + 1"
| "rev_depth (MemStateRev (External w) d) = 0"

text \<open>\<open>MemStateShared::consolidate\<close> and \<open>MemStateMut::from_shared\<close>.\<close>

definition shared_consolidate :: "nat option \<Rightarrow> mem_rev \<Rightarrow> mem_rev" where
  "shared_consolidate max_back_steps r =
     (case rev_parent r of External _ \<Rightarrow> r | Internal _ \<Rightarrow> rev_consolidate max_back_steps r)"

definition mut_from_shared :: "mem_rev \<Rightarrow> mem_rev" where
  "mut_from_shared shared = MemStateRev (Internal shared) empty_delta"

section \<open>MemStateAuto\<close>

datatype mem_auto = Const mem_rev | Mutable mem_rev

definition auto_new :: "world \<Rightarrow> mem_auto" where
  "auto_new ext_src = Const (mem_rev_new ext_src)"

primrec convert_ref :: "mem_auto \<Rightarrow> mem_rev" where
  "convert_ref (Const state) = state"
| "convert_ref (Mutable state) = state"

primrec convert_mut :: "mem_auto \<Rightarrow> mem_rev" where
  "convert_mut (Const state) = mut_from_shared state"
| "convert_mut (Mutable state) = state"

text \<open>The state it leaves behind and the shared revision.\<close>

definition to_shared :: "mem_auto \<Rightarrow> mem_auto \<times> mem_rev" where
  "to_shared s = (Const (convert_ref s), convert_ref s)"

definition auto_snapshot :: "mem_auto \<Rightarrow> mem_auto \<times> mem_auto" where
  "auto_snapshot s = (case to_shared s of (t, shared) \<Rightarrow> (t, Const shared))"

definition auto_rollback :: "mem_auto \<Rightarrow> mem_auto \<Rightarrow> mem_auto" where
  "auto_rollback state s = state"

definition mem_ws :: "(bytes \<Rightarrow> hash) \<Rightarrow> mem_auto world_state" where
  "mem_ws keccak =
     \<lparr>ws_get_state = (\<lambda>s. rev_get_state (convert_ref s)),
      ws_get_balance = (\<lambda>s. rev_get_balance (convert_ref s)),
      ws_get_code = (\<lambda>s. rev_get_code keccak (convert_ref s)),
      ws_get_nonce = (\<lambda>s. rev_get_nonce (convert_ref s)),
      ws_exist = (\<lambda>s. rev_exist (convert_ref s)),
      ws_set_state = (\<lambda>a k v s. Mutable (rev_set_state a k v (convert_mut s))),
      ws_set_balance = (\<lambda>a b s. Mutable (rev_set_balance a b (convert_mut s))),
      ws_set_code = (\<lambda>a c s. Mutable (rev_set_code keccak a c (convert_mut s))),
      ws_set_nonce = (\<lambda>a n s. Mutable (rev_set_nonce a n (convert_mut s))),
      ws_create_account = (\<lambda>a s. Mutable (rev_create_account keccak a (convert_mut s))),
      ws_delete_account = (\<lambda>a s. Mutable (rev_delete_account a (convert_mut s))),
      ws_add_log = (\<lambda>a ts d n s. map_option Mutable (rev_add_log a ts d n (convert_mut s))),
      ws_snapshot = auto_snapshot,
      ws_rollback = auto_rollback\<rparr>"

text \<open>\<open>EmptyState\<close>, the reader of a world with no account.\<close>

definition empty_state :: "(bytes \<Rightarrow> hash) \<Rightarrow> world" where
  "empty_state keccak = \<lparr>w_state = (\<lambda>_ _. 0), w_balance = (\<lambda>_. 0), w_code = (\<lambda>_. PlainCode_new keccak []),
     w_nonce = (\<lambda>_. 0), w_exist = (\<lambda>_. False)\<rparr>"

section \<open>MemStateAuto as a world state\<close>

lemma upd_delta_sel [simp]:
  "rev_parent (upd_delta f r) = rev_parent r" "rev_delta (upd_delta f r) = f (rev_delta r)"
  by (simp_all add: upd_delta_def)

text \<open>A lookup in an updated tip looks at the new delta first.\<close>

primrec source_walk :: "(state_delta \<Rightarrow> 'a option) \<Rightarrow> (world \<Rightarrow> 'a) \<Rightarrow> state_source \<Rightarrow> 'a" where
  "source_walk func exit (Internal p) = rev_walk func exit p"
| "source_walk func exit (External w) = exit w"

lemma rev_walk_eq:
  "rev_walk func exit r =
    (case func (rev_delta r) of Some t \<Rightarrow> t | None \<Rightarrow> source_walk func exit (rev_parent r))"
proof (cases r)
  case (MemStateRev p d)
  then show ?thesis by (cases p) (simp_all split: option.split)
qed

lemma rev_walk_mk:
  "rev_walk func exit (MemStateRev p d) = (case func d of Some t \<Rightarrow> t | None \<Rightarrow> source_walk func exit p)"
  by (simp add: rev_walk_eq [of _ _ "MemStateRev p d"] split: option.split)

definition tip_undeleted :: "mem_auto \<Rightarrow> bool" where
  "tip_undeleted s \<longleftrightarrow> sd_deleted (rev_delta (convert_ref s)) = {}"

lemma rev_walk_convert_mut:
  assumes "func empty_delta = None"
  shows "rev_walk func exit (convert_mut s) = rev_walk func exit (convert_ref s)"
  using assms by (cases s) (simp_all add: mut_from_shared_def)

lemma convert_mut_undeleted: "tip_undeleted s \<Longrightarrow> sd_deleted (rev_delta (convert_mut s)) = {}"
  by (cases s) (simp_all add: tip_undeleted_def mut_from_shared_def empty_delta_def)

lemmas rev_reads = rev_get_state_def rev_get_balance_def rev_get_code_def rev_get_nonce_def rev_exist_def

lemmas rev_writes = rev_set_state_def rev_set_balance_def rev_set_code_def rev_set_nonce_def
  rev_get_account_def

lemma mem_ws_sel [simp]:
  "ws_get_state (mem_ws keccak) s = rev_get_state (convert_ref s)"
  "ws_get_balance (mem_ws keccak) s = rev_get_balance (convert_ref s)"
  "ws_get_code (mem_ws keccak) s = rev_get_code keccak (convert_ref s)"
  "ws_get_nonce (mem_ws keccak) s = rev_get_nonce (convert_ref s)"
  "ws_exist (mem_ws keccak) s = rev_exist (convert_ref s)"
  "ws_set_state (mem_ws keccak) a k v s = Mutable (rev_set_state a k v (convert_mut s))"
  "ws_set_balance (mem_ws keccak) a b s = Mutable (rev_set_balance a b (convert_mut s))"
  "ws_set_code (mem_ws keccak) a c s = Mutable (rev_set_code keccak a c (convert_mut s))"
  "ws_set_nonce (mem_ws keccak) a n s = Mutable (rev_set_nonce a n (convert_mut s))"
  "ws_create_account (mem_ws keccak) a s = Mutable (rev_create_account keccak a (convert_mut s))"
  "ws_delete_account (mem_ws keccak) a s = Mutable (rev_delete_account a (convert_mut s))"
  "ws_add_log (mem_ws keccak) a ts dat bn s = map_option Mutable (rev_add_log a ts dat bn (convert_mut s))"
  "ws_snapshot (mem_ws keccak) = auto_snapshot"
  "ws_rollback (mem_ws keccak) = auto_rollback"
  by (simp_all add: mem_ws_def)

text \<open>The world a revision shows.\<close>

definition rev_view :: "(bytes \<Rightarrow> hash) \<Rightarrow> mem_rev \<Rightarrow> world" where
  "rev_view keccak r = \<lparr>w_state = rev_get_state r, w_balance = rev_get_balance r,
     w_code = rev_get_code keccak r, w_nonce = rev_get_nonce r, w_exist = rev_exist r\<rparr>"

lemma mem_view: "view (mem_ws keccak) s = rev_view keccak (convert_ref s)"
  by (simp add: view_def rev_view_def fun_eq_iff)

lemma rev_view_convert_mut:
  assumes "tip_undeleted s"
  shows "rev_view keccak (convert_mut s) = rev_view keccak (convert_ref s)"
proof -
  have "sd_deleted (rev_delta (convert_ref s)) = {}" using assms by (simp add: tip_undeleted_def)
  then show ?thesis
    using convert_mut_undeleted [OF assms]
    by (simp add: rev_view_def rev_reads rev_walk_convert_mut empty_delta_def fun_eq_iff)
qed

lemma rev_view_write:
  assumes "sd_deleted (rev_delta r) = {}"
  shows "rev_view keccak (rev_set_state a k v r) = world_set_state a k v (rev_view keccak r)"
    and "rev_view keccak (rev_set_balance a b r) = world_set_balance a b (rev_view keccak r)"
    and "rev_view keccak (rev_set_code keccak a c r) = world_set_code keccak a c (rev_view keccak r)"
    and "rev_view keccak (rev_set_nonce a n r) = world_set_nonce a n (rev_view keccak r)"
  using assms
  by (auto simp: rev_view_def world_set_defs rev_reads rev_writes rev_walk_eq [of _ _ "upd_delta _ _"]
      rev_walk_eq [of _ _ r] account_delta_default_def fun_eq_iff split: option.splits)

lemma rev_view_create:
  assumes "sd_deleted (rev_delta r) = {}"
  shows "rev_get_balance (rev_create_account keccak a r) = rev_get_balance r"
    and "rev_get_code keccak (rev_create_account keccak a r) = (rev_get_code keccak r)(a := PlainCode_new keccak [])"
    and "rev_get_nonce (rev_create_account keccak a r) = (rev_get_nonce r)(a := 0)"
    and "rev_exist (rev_create_account keccak a r) = (rev_exist r)(a := True)"
  using assms
  by (auto simp: rev_create_account_def Let_def rev_reads rev_walk_eq [of _ _ "upd_delta _ _"]
      rev_walk_eq [of _ _ r] fun_eq_iff split: option.splits)

lemma rev_write_deleted:
  "sd_deleted (rev_delta (rev_set_state a k v r)) = sd_deleted (rev_delta r)"
  "sd_deleted (rev_delta (rev_set_balance a b r)) = sd_deleted (rev_delta r)"
  "sd_deleted (rev_delta (rev_set_code keccak a c r)) = sd_deleted (rev_delta r)"
  "sd_deleted (rev_delta (rev_set_nonce a n r)) = sd_deleted (rev_delta r)"
  "sd_deleted (rev_delta (rev_create_account keccak a r)) = sd_deleted (rev_delta r) - {a}"
  by (simp_all add: rev_writes rev_create_account_def Let_def)

interpretation memst: world_state keccak "mem_ws keccak" tip_undeleted for keccak
proof
  fix s a k v b c n
  assume s: "tip_undeleted s"
  note del = convert_mut_undeleted [OF s] and vw = rev_view_convert_mut [OF s]
  show "tip_undeleted (ws_set_state (mem_ws keccak) a k v s)
      \<and> view (mem_ws keccak) (ws_set_state (mem_ws keccak) a k v s) = world_set_state a k v (view (mem_ws keccak) s)"
    using del by (simp add: tip_undeleted_def rev_write_deleted mem_view rev_view_write vw)
  show "tip_undeleted (ws_set_balance (mem_ws keccak) a b s)
      \<and> view (mem_ws keccak) (ws_set_balance (mem_ws keccak) a b s) = world_set_balance a b (view (mem_ws keccak) s)"
    using del by (simp add: tip_undeleted_def rev_write_deleted mem_view rev_view_write vw)
  show "tip_undeleted (ws_set_code (mem_ws keccak) a c s)
      \<and> view (mem_ws keccak) (ws_set_code (mem_ws keccak) a c s) = world_set_code keccak a c (view (mem_ws keccak) s)"
    using del by (simp add: tip_undeleted_def rev_write_deleted mem_view rev_view_write vw)
  show "tip_undeleted (ws_set_nonce (mem_ws keccak) a n s)
      \<and> view (mem_ws keccak) (ws_set_nonce (mem_ws keccak) a n s) = world_set_nonce a n (view (mem_ws keccak) s)"
    using del by (simp add: tip_undeleted_def rev_write_deleted mem_view rev_view_write vw)
  show "tip_undeleted (ws_create_account (mem_ws keccak) a s)
      \<and> w_balance (view (mem_ws keccak) (ws_create_account (mem_ws keccak) a s)) = w_balance (view (mem_ws keccak) s)
      \<and> w_code (view (mem_ws keccak) (ws_create_account (mem_ws keccak) a s))
          = (w_code (view (mem_ws keccak) s))(a := PlainCode_new keccak [])
      \<and> w_nonce (view (mem_ws keccak) (ws_create_account (mem_ws keccak) a s)) = (w_nonce (view (mem_ws keccak) s))(a := 0)
      \<and> w_exist (view (mem_ws keccak) (ws_create_account (mem_ws keccak) a s)) = (w_exist (view (mem_ws keccak) s))(a := True)"
    using del vw by (simp add: tip_undeleted_def rev_write_deleted rev_view_create) (simp add: rev_view_def)
  fix t u
  show "ws_snapshot (mem_ws keccak) s = (t, u) \<Longrightarrow> tip_undeleted t \<and> tip_undeleted u
      \<and> view (mem_ws keccak) t = view (mem_ws keccak) s \<and> view (mem_ws keccak) u = view (mem_ws keccak) s"
    using s by (auto simp: auto_snapshot_def to_shared_def mem_view tip_undeleted_def)
next
  fix u s assume "tip_undeleted u"
  then show "tip_undeleted (ws_rollback (mem_ws keccak) u s)
      \<and> view (mem_ws keccak) (ws_rollback (mem_ws keccak) u s) = view (mem_ws keccak) u"
    by (simp add: auto_rollback_def)
qed

section \<open>Consolidation keeps what is read\<close>

text \<open>
  A lookup is layered when a merged delta answers for the newer one first; the five reads are,
  as long as no account is deleted.
\<close>

definition layered :: "(state_delta \<Rightarrow> 'a option) \<Rightarrow> bool" where
  "layered func \<longleftrightarrow> func empty_delta = None \<and>
     (\<forall>d m. sd_deleted d = {} \<and> sd_deleted m = {} \<longrightarrow>
        func (overlay_delta d m) = (case func d of Some t \<Rightarrow> Some t | None \<Rightarrow> func m))"

lemma layered_reads:
  "layered (\<lambda>d. Option.bind (sd_accounts d a) (\<lambda>acc. ad_state acc k))"
  "layered (\<lambda>d. Option.bind (sd_accounts d a) ad_balance)"
  "layered (\<lambda>d. Option.bind (sd_accounts d a) ad_code)"
  "layered (\<lambda>d. Option.bind (sd_accounts d a) ad_nonce)"
  "layered (\<lambda>d. if sd_accounts d a \<noteq> None then Some True else None)"
  by (auto simp: layered_def empty_delta_def overlay_delta_def overlay_account_def Let_def
      account_delta_default_def map_add_def split: option.splits)

lemma overlay_deleted_empty:
  "sd_deleted d = {} \<Longrightarrow> sd_deleted m = {} \<Longrightarrow> sd_deleted (overlay_delta d m) = {}"
  by (simp add: overlay_delta_def Let_def)

text \<open>The merged delta of a list of revisions, the newest first.\<close>

definition merged_delta :: "state_delta list \<Rightarrow> state_delta" where
  "merged_delta ds = foldr overlay_delta ds empty_delta"

lemma merged_delta_simps [simp]:
  "merged_delta [] = empty_delta" "merged_delta (d # ds) = overlay_delta d (merged_delta ds)"
  by (simp_all add: merged_delta_def)

lemma rev_consolidate_eq:
  "rev_consolidate n r = MemStateRev (snd (collect_revs n r)) (merged_delta (fst (collect_revs n r)))"
  by (simp add: rev_consolidate_def merged_delta_def foldr_conv_fold split: prod.split)

lemma merged_undeleted:
  "\<forall>d \<in> set ds. sd_deleted d = {} \<Longrightarrow> sd_deleted (merged_delta ds) = {}"
  by (induction ds) (simp_all add: overlay_deleted_empty empty_delta_def)

lemma rev_walk_collect:
  assumes f: "layered func" and del: "\<forall>d \<in> set (fst (collect_revs n r)). sd_deleted d = {}"
  shows "rev_walk func exit r = (case func (merged_delta (fst (collect_revs n r))) of
    Some t \<Rightarrow> t | None \<Rightarrow> source_walk func exit (snd (collect_revs n r)))"
  using del
proof (induction n r rule: collect_revs.induct)
  case (1 n w d)
  with f show ?case by (simp add: layered_def empty_delta_def split: option.split)
next
  case (2 p d)
  with f show ?case by (simp add: layered_def empty_delta_def split: option.split)
next
  case (3 n p d)
  then have un: "sd_deleted (merged_delta (fst (collect_revs (Some n) p))) = {}" "sd_deleted d = {}"
    using merged_undeleted by (simp_all add: case_prod_beta)
  with 3 f show ?case by (simp add: layered_def case_prod_beta split: option.split)
next
  case (4 p d)
  then have un: "sd_deleted (merged_delta (fst (collect_revs None p))) = {}" "sd_deleted d = {}"
    using merged_undeleted by (simp_all add: case_prod_beta)
  with 4 f show ?case by (simp add: layered_def case_prod_beta split: option.split)
qed

lemma collect_tip: "rev_delta r \<in> set (fst (collect_revs n r))"
  by (cases "(n, r)" rule: collect_revs.cases) (auto simp: case_prod_beta)

lemma rev_walk_consolidate:
  assumes "layered func" and "\<forall>d \<in> set (fst (collect_revs n r)). sd_deleted d = {}"
  shows "rev_walk func exit (rev_consolidate n r) = rev_walk func exit r"
  using rev_walk_collect [OF assms] by (simp add: rev_consolidate_eq rev_walk_mk)

lemma rev_depth_consolidate: "rev_depth (rev_consolidate None r) = 0"
proof -
  have "\<exists>w. snd (collect_revs None r) = External w"
    by (induction "None :: nat option" r rule: collect_revs.induct) (auto simp: case_prod_beta)
  then show ?thesis by (auto simp: rev_consolidate_eq)
qed

lemma consolidate_view:
  assumes "\<forall>d \<in> set (fst (collect_revs n r)). sd_deleted d = {}"
  shows "rev_view keccak (rev_consolidate n r) = rev_view keccak r"
proof -
  have "sd_deleted (rev_delta (rev_consolidate n r)) = {}" "sd_deleted (rev_delta r) = {}"
    using merged_undeleted [OF assms] assms collect_tip [of r n] by (auto simp: rev_consolidate_eq)
  then show ?thesis
    unfolding rev_view_def rev_reads
    by (simp add: rev_walk_consolidate [OF _ assms] layered_reads layered_reads(5) [simplified])
qed

text \<open>
  Consolidation is invisible: squashing any number of revisions of a chain in which no account is
  deleted (\<open>MemStateRev::consolidate\<close>) leaves every read of state, balance, code, nonce and existence
  as it was; squashing without a bound leaves a chain of length 0 whose delta can be committed.
\<close>

theorem consolidate_correct:
  assumes "\<forall>d \<in> set (fst (collect_revs n r)). sd_deleted d = {}"
  shows "rev_view keccak (rev_consolidate n r) = rev_view keccak r
    \<and> rev_depth (rev_consolidate None r) = 0 \<and> consolidated_delta (rev_consolidate None r) \<noteq> None"
proof -
  have "consolidated_delta (rev_consolidate None r) \<noteq> None"
    using rev_depth_consolidate [of r]
    by (cases "rev_consolidate None r" rule: rev_depth.cases) (simp_all add: consolidated_delta_def)
  then show ?thesis using rev_depth_consolidate consolidate_view [OF assms] by blast
qed

text \<open>Two revisions over the empty state; the newer one overwrites the balance of account 1.\<close>

definition sample_chain :: mem_rev where
  "sample_chain = rev_set_balance 1 7 (mut_from_shared (rev_set_nonce 1 3 (rev_set_balance 1 5
     (mem_rev_new (empty_state (\<lambda>_. 0))))))"

theorem consolidate_witness:
  "rev_view (\<lambda>_. 0) (rev_consolidate (Some 1) sample_chain) = rev_view (\<lambda>_. 0) sample_chain
    \<and> rev_depth (rev_consolidate None sample_chain) = 0
    \<and> consolidated_delta (rev_consolidate None sample_chain) \<noteq> None"
  by (rule consolidate_correct)
    (simp add: sample_chain_def mut_from_shared_def mem_rev_new_def rev_writes upd_delta_def empty_delta_def)

section \<open>Journalling\<close>

text \<open>
  C12. The copy-on-write chain implements nested snapshots: after any sequence of writes, snapshots
  and rollbacks on \<open>MemStateAuto\<close> (starting without deletions at the tip), the state shows exactly the
  world that the sequence gives on the abstract world, where a snapshot is a copy and a rollback
  restores it.
\<close>

theorem mem_journal_refines:
  assumes "tip_undeleted s"
  shows "view (mem_ws keccak) (fst (fold (ws_step (mem_ws keccak)) ops (s, [])))
    = fst (fold (world_step keccak) ops (view (mem_ws keccak) s, []))"
  using assms by (rule memst.ws_run_view)

theorem mem_journal_witness:
  "view (mem_ws (\<lambda>_. 0)) (fst (fold (ws_step (mem_ws (\<lambda>_. 0)))
      [WSetBalance 1 5, WSnapshot, WSetBalance 1 9, WRollback] (auto_new (empty_state (\<lambda>_. 0)), [])))
    = fst (fold (world_step (\<lambda>_. 0)) [WSetBalance 1 5, WSnapshot, WSetBalance 1 9, WRollback]
        (view (mem_ws (\<lambda>_. 0)) (auto_new (empty_state (\<lambda>_. 0))), []))"
  by (rule mem_journal_refines)
    (simp add: tip_undeleted_def auto_new_def mem_rev_new_def empty_delta_def)

text \<open>
  The in-memory chain and the reference store agree: started on the same visible world, any
  sequence of writes, snapshots and rollbacks leaves \<open>MemStateAuto\<close> and \<open>DummyStateStore\<close> with the
  same state, balances, code, nonces and existing accounts.
\<close>

theorem mem_dummy_equivalent:
  assumes "tip_undeleted s" and "view (mem_ws keccak) s = view (dummy_ws keccak) t"
  shows "view (mem_ws keccak) (fst (fold (ws_step (mem_ws keccak)) ops (s, [])))
    = view (dummy_ws keccak) (fst (fold (ws_step (dummy_ws keccak)) ops (t, [])))"
  using memst.ws_run_view [OF assms(1)] dummy.ws_run_view [OF TrueI] assms(2) by simp

theorem mem_dummy_witness:
  "view (mem_ws (\<lambda>_. 0)) (fst (fold (ws_step (mem_ws (\<lambda>_. 0)))
      [WSetNonce 2 1, WSnapshot, WSetState 2 0 9] (auto_new (empty_state (\<lambda>_. 0)), [])))
    = view (dummy_ws (\<lambda>_. 0)) (fst (fold (ws_step (dummy_ws (\<lambda>_. 0)))
      [WSetNonce 2 1, WSnapshot, WSetState 2 0 9] (dummy_new, [])))"
  by (rule mem_dummy_equivalent)
    (simp_all add: tip_undeleted_def auto_new_def mem_rev_new_def empty_delta_def mem_view rev_view_def
      rev_reads dummy_view dummy_reads dummy_new_def empty_state_def fun_eq_iff)

section \<open>Deleted accounts\<close>

lemma rev_delete_view:
  "rev_get_balance (rev_delete_account a r) = (rev_get_balance r)(a := 0)"
  by (auto simp: rev_delete_account_def rev_get_balance_def rev_walk_eq [of _ _ "upd_delta _ _"]
      rev_walk_eq [of _ _ r] fun_eq_iff split: option.splits)

text \<open>
  C39. A deletion does not survive the next snapshot. The deleted set is read at the tip only: after
  \<open>delete_account\<close> the balance of the account reads 0, but once a snapshot has been taken and some
  other account is written, the balance is again the one the external reader shows.
\<close>

theorem mem_delete_forgotten:
  assumes "a \<noteq> b"
  shows "ws_get_balance (mem_ws keccak) (ws_delete_account (mem_ws keccak) a (auto_new ext)) a = 0
    \<and> ws_get_balance (mem_ws keccak) (ws_set_nonce (mem_ws keccak) b n (fst (ws_snapshot (mem_ws keccak)
         (ws_delete_account (mem_ws keccak) a (auto_new ext))))) a = w_balance ext a"
  using assms
  by (simp add: auto_new_def mem_rev_new_def mut_from_shared_def rev_delete_account_def
      rev_set_nonce_def rev_get_account_def rev_get_balance_def auto_snapshot_def to_shared_def
      upd_delta_def empty_delta_def)

theorem mem_delete_forgotten_witness:
  "ws_get_balance (mem_ws (\<lambda>_. 0)) (ws_set_nonce (mem_ws (\<lambda>_. 0)) 2 1 (fst (ws_snapshot (mem_ws (\<lambda>_. 0))
      (ws_delete_account (mem_ws (\<lambda>_. 0)) 1
        (auto_new (world_set_balance 1 5 (empty_state (\<lambda>_. 0)))))))) 1 = 5"
  using mem_delete_forgotten [of 1 2 "\<lambda>_. 0" "world_set_balance 1 5 (empty_state (\<lambda>_. 0))" 1]
  by (simp add: world_set_balance_def)

end
