(* ===== verification/ExecSupply.thy ===== *)
theory ExecSupply
  imports ExecAtomic MemState
begin

text \<open>
  What the interpreter can do to a world state. The locale \<open>tx_property\<close> collects the laws a property of world
  states must satisfy, one for each way in which \<open>src/src/core/exec.rs\<close> writes to the state, and proves once that the
  property then holds in every state of a transaction. It is interpreted for the money supply: no
  transaction creates money, on the reference store and on the in-memory state of \<open>src/src/state.rs\<close>.
\<close>

section \<open>Properties of the state and of the snapshots\<close>

primrec ct_all :: "('s \<Rightarrow> bool) \<Rightarrow> 's call_type \<Rightarrow> bool" where
  "ct_all P (CallTx a) = P (txa_snapshot a)"
| "ct_all P (CallCall a) = pred_option P (ca_snapshot a)"
| "ct_all P (CallCreate a) = P (cra_snapshot a)"

definition frames_all :: "('s \<Rightarrow> bool) \<Rightarrow> 's ctx \<Rightarrow> bool" where
  "frames_all P c \<longleftrightarrow> list_all (\<lambda>f. ct_all P (fr_call_type f)) (cx_cur_call c # cx_call_stack c)"

text \<open>A running transaction whose state and snapshots have the property; a transaction that may have ended.\<close>

definition ctx_holds :: "('s \<Rightarrow> bool) \<Rightarrow> 's ctx \<Rightarrow> bool" where
  "ctx_holds P c \<longleftrightarrow> cx_status c = Running \<and> P (cx_state c) \<and> frames_all P c"

definition ctx_ends :: "('s \<Rightarrow> bool) \<Rightarrow> ('s \<Rightarrow> bool) \<Rightarrow> 's ctx \<Rightarrow> bool" where
  "ctx_ends P Q c \<longleftrightarrow> frames_all P c \<and> (if cx_status c = Running then P (cx_state c) else Q (cx_state c))"

lemma holds_ends: "ctx_holds P c \<Longrightarrow> ctx_ends P Q c"
  by (simp add: ctx_holds_def ctx_ends_def)

lemma holds_same:
  assumes "ctx_same c t" and "cx_state t = cx_state c" and "ctx_holds P c"
  shows "ctx_holds P t"
  using assms by (simp add: ctx_holds_def frames_all_def ctx_same_def)

lemma reading_holds: "pres ctx_reading m \<Longrightarrow> pres (keeps (ctx_holds P)) m"
  unfolding keeps_def
  by (erule pres_mono) (auto simp: ctx_reading_def intro: holds_same [OF ctx_quiet_same])

lemma field_holds:
  "pres (keeps (ctx_holds P)) (on_call (modify (\<lambda>f. f\<lparr>fr_unused_gas := n\<rparr>)))"
  "pres (keeps (ctx_holds P)) (on_call (modify (\<lambda>f. f\<lparr>fr_last_returned := d\<rparr>)))"
  "pres (keeps (ctx_holds P)) (on_call (modify (\<lambda>f. f\<lparr>fr_pc := p\<rparr>)))"
  "pres (keeps (ctx_holds P)) (modify (\<lambda>c. c\<lparr>cx_destroyed := f1 c\<rparr>))"
  "pres (keeps (ctx_holds P)) (modify (\<lambda>c. c\<lparr>cx_dirty := f2 c\<rparr>))"
  by (simp_all add: pres_def keeps_def ctx_holds_def frames_all_def on_call_def zoom_def modify_def)

lemma call_pop_holds: "pres (keeps (ctx_holds P)) call_pop"
  by (auto simp: pres_def keeps_def ctx_holds_def frames_all_def call_pop_def exec_defs split: list.splits)

lemma call_push_holds:
  "ct_all P ct \<Longrightarrow> pres (keeps (ctx_holds P)) (call_push code input value callee caller ct gas ro)"
  by (simp add: call_push_def pres_def keeps_def ctx_holds_def frames_all_def modify_def frame_new_def)

lemma upd_holds: "(\<And>s. P s \<Longrightarrow> P (g s)) \<Longrightarrow> pres (keeps (ctx_holds P)) (upd_state g)"
  by (simp add: upd_state_def pres_def keeps_def ctx_holds_def frames_all_def modify_def)

lemmas holds_rules = keep.pres_rules field_holds call_pop_holds for_each_pres
  reading_holds [OF dirty_insert_reading] reading_holds [OF stack_ops_reading(1)]
  reading_holds [OF stack_ops_reading(2)] reading_holds [OF stack_ops_reading(3)]
  reading_holds [OF stack_ops_reading(4)] reading_holds [OF stack_ops_reading(5)]
  reading_holds [OF stack_ops_reading(6)] reading_holds [OF memory_ops_reading(1)]
  reading_holds [OF memory_ops_reading(4)] reading_holds [OF access_ops_reading(1)]
  reading_holds [OF access_ops_reading(3)] reading_holds [OF pure_ops_reading(1)]
  reading_holds [OF pure_ops_reading(2)] reading_holds [OF pure_ops_reading(3)]
  reading_holds [OF pure_ops_reading(4)] reading_holds [OF pure_ops_reading(5)]
  reading_holds [OF pure_ops_reading(6)] reading_holds [OF refund_reading(1)]
  reading_holds [OF call_gas_reading(3)] reading_holds [OF use_gas_call_reading(1)]
  reading_holds [OF use_gas_call_reading(2)] reading_holds [OF use_gas_call_reading(3)]
  reading_holds [OF use_gas_call_reading(4)] reading_holds [OF log_topics_reading]
  reading_holds [OF sstore_gas_reading(1)] reading_holds [OF sstore_gas_reading(2)]

text \<open>The two writes of a self-destruct as one.\<close>

definition destruct :: "'s host \<Rightarrow> addr \<Rightarrow> addr \<Rightarrow> 's \<Rightarrow> 's" where
  "destruct h callee beneficiary s =
     ws_set_balance h callee 0 (snd (add_balance h beneficiary (ws_get_balance h s callee) s))"

lemma destruct_bind:
  "bind (gets (\<lambda>c. ws_get_balance h (cx_state c) callee)) (\<lambda>balance.
     bind (upd_state (\<lambda>s. snd (add_balance h b balance s))) (\<lambda>_. bind (upd_state (ws_set_balance h callee 0)) k))
   = bind (upd_state (destruct h callee b)) k"
  by (simp add: fun_eq_iff bind_def gets_def upd_state_def modify_def destruct_def)

lemma self_destruct_eq:
  "ctx_self_destruct h =
     bind (gets (\<lambda>c. fr_read_only (cx_cur_call c))) (\<lambda>read_only.
     if read_only then throw WriteProtection
     else bind pop1 (\<lambda>b.
          let beneficiary = addr_of_u256 b
          in bind get_fork (\<lambda>fork.
             bind get_callee (\<lambda>callee.
             bind (on_access (al_contains_addr beneficiary)) (\<lambda>warm.
             bind (when_do (fork \<ge> Berlin \<and> \<not> warm)
                     (bind (on_access (al_add_addr beneficiary)) (\<lambda>_.
                      charge GAS_COLD_ACCOUNT_ACCESS_COST_BERLIN))) (\<lambda>_.
             bind (when_do (fork \<ge> TangerineWhistle)
                     (bind (charge GAS_SELF_DESTRUCT) (\<lambda>_.
                      bind (gets cx_state) (\<lambda>state.
                      bind (if fork \<ge> SpuriousDragon
                            then when_do (is_empty (h_keccak h) h state beneficiary
                                          \<and> ws_get_balance h state callee \<noteq> 0)
                                   (charge GAS_CREATE_BY_SELF_DESTRUCT)
                            else when_do (\<not> ws_exist h state beneficiary)
                                   (charge GAS_CREATE_BY_SELF_DESTRUCT)) (\<lambda>_.
                      bind (is_destroyed callee) (\<lambda>destroyed.
                      when_do (fork < London \<and> \<not> destroyed) (add_refund GAS_SELF_DESTRUCT_REFUND))))))) (\<lambda>_.
             bind (upd_state (destruct h callee beneficiary)) (\<lambda>_.
             bind (modify (\<lambda>c. c\<lparr>cx_destroyed := List.insert callee (cx_destroyed c)\<rparr>)) (\<lambda>_.
             bind (dirty_insert callee) (\<lambda>_.
             bind (dirty_insert beneficiary) (\<lambda>_.
             finish_call h [] None)))))))))))"
  unfolding ctx_self_destruct_def destruct_bind ..

lemma triple_status:
  "triple P m Q E \<Longrightarrow> (\<And>r. triple P (n r) Q E) \<Longrightarrow> triple P (case st of Running \<Rightarrow> m | Finished r \<Rightarrow> n r) Q E"
  by (cases st) simp_all

section \<open>The laws\<close>

locale tx_property =
  fixes h :: "'s host" and P :: "'s \<Rightarrow> bool" and Q :: "'s \<Rightarrow> bool"
  assumes set_state_keeps: "P s \<Longrightarrow> P (ws_set_state h a k v s)"
    and set_code_keeps: "P s \<Longrightarrow> length code < 2 ^ 63 \<Longrightarrow> P (ws_set_code h a code s)"
    and set_nonce_keeps: "P s \<Longrightarrow> n < 2 ^ 64 \<Longrightarrow> P (ws_set_nonce h a n s)"
    and create_account_keeps: "P s \<Longrightarrow> P (ws_create_account h a s)"
    and add_log_keeps: "P s \<Longrightarrow> ws_add_log h a topics data bn s = Some t \<Longrightarrow> P t"
    and snapshot_keeps: "P s \<Longrightarrow> ws_snapshot h s = (t, u) \<Longrightarrow> P t \<and> P u"
    and rollback_keeps: "P u \<Longrightarrow> P (ws_rollback h u s)"
    and transfer_keeps: "P s \<Longrightarrow> P (snd (transfer_balance h src dst v s))"
    and destruct_keeps: "P s \<Longrightarrow> P (destruct h a b s)"
    and at_end: "P s \<Longrightarrow> Q s"
    and delete_keeps: "Q s \<Longrightarrow> Q (ws_delete_account h a s)"
begin

abbreviation holds :: "('s ctx, 'a) exec \<Rightarrow> bool" where
  "holds m \<equiv> pres (keeps (ctx_holds P)) m"

abbreviation settles_in :: "('s ctx, 'a) exec \<Rightarrow> bool" where
  "settles_in m \<equiv> triple (ctx_holds P) m (\<lambda>_. ctx_ends P Q) (\<lambda>_. ctx_holds P)"

lemma settles_holds: "holds m \<Longrightarrow> settles_in m"
  unfolding triple_keeps [symmetric] by (erule triple_weaken) (simp_all add: holds_ends)

lemma settles_seq: "holds m \<Longrightarrow> (\<And>a. settles_in (f a)) \<Longrightarrow> settles_in (bind m f)"
  unfolding triple_keeps [symmetric] by (rule triple_bind)

lemma write_holds:
  "holds (upd_state (ws_set_state h a k v))" "length code < 2 ^ 63 \<Longrightarrow> holds (upd_state (ws_set_code h a code))"
  "n < 2 ^ 64 \<Longrightarrow> holds (upd_state (ws_set_nonce h a n))" "holds (upd_state (ws_create_account h a))"
  "holds (upd_state (destruct h a b))" "P u \<Longrightarrow> holds (upd_state (ws_rollback h u))"
  by (intro upd_holds set_state_keeps set_code_keeps set_nonce_keeps create_account_keeps destruct_keeps
      rollback_keeps; assumption)+

lemma holds_state: "ctx_holds P c \<Longrightarrow> P t \<Longrightarrow> ctx_holds P (c\<lparr>cx_state := t\<rparr>)"
  by (simp add: ctx_holds_def frames_all_def)

lemma transfer_holds: "holds (transfer h src dst v)"
  unfolding pres_def keeps_def
proof
  fix c :: "'s ctx"
  obtain r t where "transfer_balance h src dst v (cx_state c) = (r, t)" by fastforce
  then show "case transfer h src dst v c of Ok a t \<Rightarrow> ctx_holds P c \<longrightarrow> ctx_holds P t
      | Err e t \<Rightarrow> ctx_holds P c \<longrightarrow> ctx_holds P t | Panic \<Rightarrow> True"
    using transfer_keeps [of "cx_state c" src dst v]
    by (simp add: transfer_def bind_def gets_def upd_state_def modify_def ret_def ctx_holds_def frames_all_def)
qed

text \<open>A snapshot has the property of the state it is taken from.\<close>

lemma take_snapshot_triple:
  "triple (ctx_holds P) (take_snapshot h) (\<lambda>u c. ctx_holds P c \<and> P u) (\<lambda>_. ctx_holds P)"
  unfolding triple_def
proof (intro allI impI)
  fix c :: "'s ctx" assume c: "ctx_holds P c"
  obtain t u where snap: "ws_snapshot h (cx_state c) = (t, u)" by fastforce
  have "P t \<and> P u" using c snapshot_keeps [OF _ snap] by (simp add: ctx_holds_def)
  then have u: "ctx_holds P (c\<lparr>cx_state := t\<rparr>) \<and> P u" using holds_state [OF c] by blast
  have "take_snapshot h c = Ok u (c\<lparr>cx_state := t\<rparr>)"
    using snap by (simp add: take_snapshot_def bind_def gets_def upd_state_def modify_def ret_def)
  with u show "case take_snapshot h c of Ok u t \<Rightarrow> ctx_holds P t \<and> P u | Err e t \<Rightarrow> ctx_holds P t | Panic \<Rightarrow> True"
    by simp
qed

lemma triple_under: "(B \<Longrightarrow> triple A m X Y) \<Longrightarrow> triple (\<lambda>c. A c \<and> B) m X Y"
  by (auto simp: triple_def)

lemma snapshot_settles: "(\<And>u. P u \<Longrightarrow> settles_in (f u)) \<Longrightarrow> settles_in (bind (take_snapshot h) f)"
  by (rule triple_bind [OF take_snapshot_triple]) (rule triple_under)

lemma snapshot_holds: "(\<And>u. P u \<Longrightarrow> holds (f u)) \<Longrightarrow> holds (bind (take_snapshot h) f)"
  unfolding triple_keeps [symmetric] by (rule triple_bind [OF take_snapshot_triple]) (rule triple_under)

lemma logs_keep:
  assumes "holds k"
  shows "holds (bind (gets (\<lambda>c. ws_add_log h (f c) topics data (g c) (cx_state c))) (\<lambda>logged.
    bind (unwrap logged) (\<lambda>state. bind (upd_state (\<lambda>_. state)) (\<lambda>_. k))))" (is "holds ?m")
  unfolding pres_def keeps_def
proof
  fix c
  let ?r = "ws_add_log h (f c) topics data (g c) (cx_state c)"
  have k: "ctx_holds P t \<Longrightarrow> case k t of Ok a t \<Rightarrow> ctx_holds P t | Err e t \<Rightarrow> ctx_holds P t | Panic \<Rightarrow> True" for t
    using assms [unfolded pres_def keeps_def] by (drule_tac spec [where x = t]) (simp split: outcome.splits)
  show "case ?m c of Ok a t \<Rightarrow> ctx_holds P c \<longrightarrow> ctx_holds P t
      | Err e t \<Rightarrow> ctx_holds P c \<longrightarrow> ctx_holds P t | Panic \<Rightarrow> True"
  proof (cases ?r)
    case (Some t)
    then have "?m c = k (c\<lparr>cx_state := t\<rparr>)"
      by (simp add: bind_def gets_def unwrap_def ret_def upd_state_def modify_def)
    moreover have "ctx_holds P c \<Longrightarrow> ctx_holds P (c\<lparr>cx_state := t\<rparr>)"
      using add_log_keeps [OF _ Some] holds_state by (simp add: ctx_holds_def)
    ultimately show ?thesis using k [of "c\<lparr>cx_state := t\<rparr>"] by (auto split: outcome.splits)
  qed (simp add: bind_def gets_def unwrap_def panic_def)
qed

lemmas state_rules = holds_rules write_holds transfer_holds

text \<open>The arithmetic that guards a write of a nonce or of code bounds what is written.\<close>

lemma guarded_holds:
  "(\<And>n. n < 2 ^ 64 \<Longrightarrow> holds (f n)) \<Longrightarrow> holds (bind (ok_or e (if m < 2 ^ 64 then Some m else None)) f)"
  "(\<And>g. l < 2 ^ 63 \<Longrightarrow> holds (k g)) \<Longrightarrow> holds (bind (gas_checked_mul l GAS_CREATE_DATA) k)"
  by (auto simp: pres_def keeps_def bind_def ok_or_def gas_checked_mul_def GAS_CREATE_DATA_def throw_def ret_def)

lemma guarded_settles: "(\<And>n. n < 2 ^ 64 \<Longrightarrow> settles_in (f n)) \<Longrightarrow> settles_in (bind (u64_add a b) f)"
  by (auto simp: triple_def bind_def u64_add_def panic_def ret_def)

section \<open>The instructions\<close>

lemma sstore_log_holds: "holds (ctx_sstore h)" "holds (ctx_log h n)"
  unfolding ctx_sstore_def ctx_log_def by (intro logs_keep state_rules)+

lemma quiet_arm_holds:
  assumes "quiet_op (in_opcode i)"
  shows "holds (exec_arm h i)"
proof (cases "in_opcode i")
  case (OpFlow op)
  show ?thesis
  proof (cases "flow_frame_arm op :: ('s call_frame, unit) exec option")
    case (Some m)
    then show ?thesis using reading_holds [OF on_call_reading [OF flow_frame_arm_steps]] OpFlow
      by (simp add: exec_arm_def flow_arm_def)
  next
    case None
    with OpFlow assms show ?thesis
      by (cases op) (simp_all add: exec_arm_def flow_arm_def quiet_op_def sstore_log_holds
          reading_holds ctx_sload_reading throw_reading)
  qed
qed (use assms in \<open>simp_all add: exec_arm_def quiet_op_def sstore_log_holds reading_holds on_call_reading
      arith_arm_steps logic_arm_steps data_arm_steps(1) env_arm_reading block_arm_reading family_arm_steps throw_reading\<close>)

lemma end_holds:
  "holds (create_post_processing h a data r)" "holds (advance_pc n b)"
  "ct_all P (CallCreate cra) \<Longrightarrow> holds (create_end h cra data g r)"
  "ct_all P (CallCall ca) \<Longrightarrow> holds (call_end h ca data g r)"
proof -
  show post: "holds (create_post_processing h a data r)" for a data r
    unfolding create_post_processing_def by (intro guarded_holds state_rules) simp_all
  show "holds (advance_pc n b)" unfolding advance_pc_def by (intro state_rules)
  show "holds (create_end h cra data g r)" if "ct_all P (CallCreate cra)"
    using that unfolding create_end_def by (intro state_rules post) simp
  show "holds (call_end h ca data g r)" if "ct_all P (CallCall ca)"
  proof -
    have rb: "holds (case ca_snapshot ca of Some snapshot \<Rightarrow> upd_state (ws_rollback h snapshot) | None \<Rightarrow> ret ())"
      using that by (cases "ca_snapshot ca") (simp_all add: write_holds keep.pres_ret)
    show ?thesis unfolding call_end_def by (intro rb state_rules)
  qed
qed

text \<open>Between the last instruction and the result of the transaction, accounts are deleted.\<close>

definition ctx_closing :: "'s ctx \<Rightarrow> bool" where
  "ctx_closing c \<longleftrightarrow> cx_status c = Running \<and> Q (cx_state c) \<and> frames_all P c"

abbreviation closes :: "('s ctx, 'a) exec \<Rightarrow> bool" where
  "closes m \<equiv> pres (keeps ctx_closing) m"

lemma holds_closing: "ctx_holds P c \<Longrightarrow> ctx_closing c"
  using at_end by (simp add: ctx_holds_def ctx_closing_def)

lemma closing_rules:
  "closes (upd_state (ws_delete_account h a))" "closes (modify (\<lambda>c. c\<lparr>cx_dirty := []\<rparr>))"
  "closes (modify (\<lambda>c. c\<lparr>cx_destroyed := []\<rparr>))" "closes get_fork"
  using delete_keeps
  by (simp_all add: pres_def keeps_def ctx_closing_def frames_all_def upd_state_def modify_def get_fork_def
      bind_def gets_def)

lemma sweep_closes: "closes (when_do b (for_each dirty (delete_empty h)))"
  unfolding delete_empty_def by (intro keep.pres_rules for_each_pres closing_rules)

lemma result_ends:
  assumes "P u"
  shows "triple ctx_closing
    (bind (case r of Some err \<Rightarrow> bind (upd_state (ws_rollback h u)) (\<lambda>_. ret (TxReverted data g err))
            | None \<Rightarrow> ret (TxSucceeded data g a)) (\<lambda>r. modify (\<lambda>c. c\<lparr>cx_status := Finished r\<rparr>)))
    (\<lambda>_. ctx_ends P Q) (\<lambda>_. ctx_holds P)"
  using at_end [OF rollback_keeps [OF assms]]
  by (cases r) (simp_all add: triple_def ctx_closing_def ctx_ends_def frames_all_def bind_def upd_state_def modify_def ret_def)

lemma closing_bind:
  assumes "closes m" and "infallible m" and "\<And>a. triple ctx_closing (f a) R E"
  shows "triple ctx_closing (bind m f) R E"
proof (rule triple_bind)
  show "triple ctx_closing m (\<lambda>_. ctx_closing) E"
    using assms(1,2) unfolding triple_keeps [symmetric] triple_def infallible_def
    by (auto split: outcome.splits)
qed (rule assms(3))

lemma closing_settles: "triple ctx_closing m R E \<Longrightarrow> triple (ctx_holds P) m R E"
  by (erule triple_weaken) (simp_all add: holds_closing)

lemma tx_end_settles:
  assumes "ct_all P (CallTx args)"
  shows "settles_in (tx_end h args data g r)"
proof -
  have aux: "holds (case txa_aux args of
      Contract addr \<Rightarrow> bind (try_result (create_post_processing h addr data r)) (\<lambda>r. ret (r, Some addr))
    | Sender addr \<Rightarrow> bind (dirty_insert addr) (\<lambda>_. ret (r, None)))"
    by (cases "txa_aux args") (simp_all, (intro state_rules end_holds)+)
  note snap = assms [unfolded ct_all.simps]
  show ?thesis
    unfolding tx_end_def
    by (rule settles_seq, rule keep.pres_gets, rule triple_if, rule triple_panic, rule settles_seq, rule aux,
        rule triple_prod, rule settles_seq, rule keep.pres_gets, rule triple_status [OF closing_settles triple_panic])
      (intro closing_bind result_ends [OF snap] sweep_closes closing_rules for_each_pres keep.pres_gets
        infallible_rules upd_infallible for_each_infallible)
qed

lemma finish_settles: "settles_in (finish_call h data r)"
  unfolding triple_def
proof (intro allI impI)
  fix c :: "'s ctx" assume c: "ctx_holds P c"
  show "case finish_call h data r c of Ok x t \<Rightarrow> ctx_ends P Q t | Err e t \<Rightarrow> ctx_holds P t | Panic \<Rightarrow> True"
  proof (cases "cx_call_stack c")
    case Nil
    then show ?thesis by (simp add: finish_call_def call_pop_def exec_defs)
  next
    case (Cons p rest)
    let ?c = "c\<lparr>cx_cur_call := p, cx_call_stack := rest\<rparr>"
    have pop: "ctx_holds P ?c" and ct: "ct_all P (fr_call_type (cx_cur_call c))"
      using c Cons by (simp_all add: ctx_holds_def frames_all_def)
    have "settles_in (case fr_call_type (cx_cur_call c) of
        CallTx args \<Rightarrow> tx_end h args data (ctx_gas c) r
      | CallCall args \<Rightarrow> call_end h args data (ctx_gas c) r
      | CallCreate args \<Rightarrow> create_end h args data (ctx_gas c) r)"
      using ct by (cases "fr_call_type (cx_cur_call c)")
        (simp_all add: tx_end_settles settles_holds end_holds del: ct_all.simps)
    then show ?thesis unfolding finish_call_eq [OF Cons] by (rule triple_at) (rule pop)
  qed
qed


section \<open>Calls and creations\<close>

lemma return_without_holds:
  "ct_all P (CallCall ca) \<Longrightarrow> holds (return_without_callstack h (CallCall ca) data g r)"
  unfolding return_without_callstack_def call_type.case by (intro state_rules end_holds)

lemma call_do_holds:
  "ct_all P (CallCall ca) \<Longrightarrow> holds (call_do h callee caller input g v (CallCall ca))"
  unfolding call_do_def by (intro state_rules return_without_holds call_push_holds)

lemma create_do_holds: "ct_all P ct \<Longrightarrow> holds (create_do h a caller code v g ct)"
  unfolding create_do_def by (intro guarded_holds state_rules call_push_holds) simp_all

lemma enter_code_holds:
  "ct_all P (CallCall ca) \<Longrightarrow> holds (enter_code h addr callee caller input v ca g ro)"
  unfolding enter_code_def by (intro state_rules return_without_holds call_push_holds)

lemma begin_holds:
  "holds (create_begin h)" "holds (create2_begin h)" "holds (delegate_call_begin h)" "holds (call_code_begin h)"
  "holds (static_call_begin h)" "holds (call_begin h)"
  unfolding create_begin_def create2_begin_def delegate_call_begin_def call_code_begin_def
    static_call_begin_def call_begin_def
  by (intro snapshot_holds state_rules create_do_holds enter_code_holds call_do_holds; simp)+

lemma jump_holds: "holds ctx_jump" "holds ctx_jumpi"
  unfolding ctx_jump_def ctx_jumpi_def by (intro state_rules)+

lemma ending_settles: "settles_in (ctx_return h)" "settles_in (ctx_revert h)" "settles_in (ctx_self_destruct h)"
  unfolding ctx_return_def ctx_revert_def self_destruct_eq
  by (intro settles_seq triple_if triple_prod triple_Let finish_settles state_rules settles_holds [OF keep.pres_throw])+

lemma arm_settles: "settles_in (exec_arm h i)"
proof -
  consider "quiet_op (in_opcode i)" | "in_opcode i = OpFlow OpJump" | "in_opcode i = OpFlow OpJumpI"
    | "in_opcode i = OpStop" | s where "in_opcode i = OpSystem s"
    using opcode_kinds by blast
  then show ?thesis
  proof cases
    case 1
    then show ?thesis by (intro settles_holds quiet_arm_holds)
  next
    case (5 s)
    then show ?thesis
      by (cases s) (simp_all add: exec_arm_def system_arm_def begin_holds settles_holds ending_settles keep.pres_throw)
  qed (simp_all add: exec_arm_def flow_arm_def flow_frame_arm_def jump_holds settles_holds finish_settles)
qed

section \<open>The loop\<close>

lemma unwind_settles:
  "triple (if r = None then ctx_ends P Q else ctx_holds P) (unwind h n r) (\<lambda>_. ctx_ends P Q) (\<lambda>_. ctx_holds P)"
proof (induction n arbitrary: r)
  case 0
  show ?case by (cases r) (simp_all add: triple_ret triple_panic)
next
  case (Suc n)
  show ?case
  proof (cases r)
    case (Some e)
    have "triple (ctx_holds P) (try_result (finish_call h [] r))
        (\<lambda>r. if r = None then ctx_ends P Q else ctx_holds P) (\<lambda>_. ctx_holds P)"
      by (rule triple_try_result) (use finish_settles in simp)
    with Some Suc.IH show ?thesis by (auto intro: triple_bind)
  qed (simp add: triple_ret)
qed

lemma advance_ends: "pres (keeps (ctx_ends P Q)) (advance_pc n b)"
  by (simp add: pres_def keeps_def advance_pc_def exec_defs on_call_def ctx_ends_def frames_all_def)

lemma step_settles:
  assumes "ctx_holds P c" and "step h c = Ok () t"
  shows "ctx_ends P Q t"
proof -
  obtain i succ c1 c2 where arm: "try_result (exec_arm h i) c = Ok succ c1"
    and unw: "unwind h (length (cx_call_stack c1)) succ c1 = Ok () c2"
    and adv: "advance_pc (case in_data i of Some d \<Rightarrow> length d | None \<Rightarrow> 0) (enters_call (in_opcode i)) c2 = Ok () t"
    using assms(2) by (auto simp: step_def bind_Ok_conv gets_def unwrap_def ret_def panic_def split: option.splits)
  have "triple (ctx_holds P) (try_result (exec_arm h i))
      (\<lambda>r. if r = None then ctx_ends P Q else ctx_holds P) (\<lambda>_. ctx_holds P)"
    by (rule triple_try_result) (use arm_settles in simp)
  from triple_OkD [OF this assms(1) arm] have "(if succ = None then ctx_ends P Q else ctx_holds P) c1"
    by (cases succ) simp_all
  from triple_OkD [OF unwind_settles this unw] have "ctx_ends P Q c2" .
  then show ?thesis using pres_OkD [OF advance_ends adv] by (simp add: keeps_def)
qed

lemma reaches_ends: "tx_reaches h c t \<Longrightarrow> ctx_ends P Q c \<Longrightarrow> ctx_ends P Q t"
proof (induction rule: tx_reaches.induct)
  case (tx_reaches_step t u)
  then have "cx_status t = Running" "step h t = Ok () u" by (auto elim: tx_stepE)
  moreover from this tx_reaches_step have "ctx_holds P t" by (simp add: ctx_ends_def ctx_holds_def)
  ultimately show ?case using step_settles by blast
qed

text \<open>The start of a transaction.\<close>

lemma call_do_tx_settles_in:
  assumes "ct_all P (CallTx args)"
  shows "settles_in (call_do h callee caller input g v (CallTx args))"
  unfolding call_do_def return_without_callstack_def call_type.case
  by (intro settles_seq triple_if triple_prod triple_Let room_option tx_end_settles [OF assms] state_rules
      settles_holds [OF keep.pres_throw] settles_holds [OF keep.pres_panic] settles_holds [OF call_push_holds [OF assms]])

lemma tx_start_settles: "settles_in (tx_start h from' to value gas input)"
proof (cases to)
  case None
  have "settles_in (tx_start h from' None value gas input)"
    unfolding tx_start_def option.case
    by (intro settles_holds snapshot_holds state_rules create_do_holds; simp)
  with None show ?thesis by simp
next
  case (Some a)
  have "settles_in (tx_start h from' (Some a) value gas input)"
    unfolding tx_start_def option.case
    by (intro guarded_settles snapshot_settles settles_seq call_do_tx_settles_in state_rules; simp)
  with Some show ?thesis by simp
qed

lemma tx_begin_ends:
  assumes "ctx_holds P c" and "tx_begin h from' to value gas input c = Ok () t"
  shows "ctx_ends P Q t"
proof -
  obtain g res u where u: "try_result (tx_start h from' to value g input) c = Ok res u"
    and t: "t = (case res of Some err \<Rightarrow> u\<lparr>cx_status := Finished (TxReverted [] g err)\<rparr> | None \<Rightarrow> u)"
    using assms(2)
    by (auto simp: tx_begin_def bind_Ok_conv u64_sub_def ret_def panic_def modify_def split: if_splits option.splits)
  have "triple (ctx_holds P) (try_result (tx_start h from' to value g input))
      (\<lambda>r. if r = None then ctx_ends P Q else ctx_holds P) (\<lambda>_. ctx_holds P)"
    by (rule triple_try_result) (use tx_start_settles in simp)
  from triple_OkD [OF this assms(1) u] show ?thesis
    using at_end by (cases res) (simp_all add: t ctx_holds_def ctx_ends_def frames_all_def)
qed

theorem tx_keeps_property:
  assumes "P s" and "tx_begin h from' to value gas input (tx_context h from' gas gp al s cs env) = Ok () c"
    and "tx_reaches h c t"
  shows "if cx_status t = Running then P (cx_state t) else Q (cx_state t)"
proof -
  have "ctx_holds P (tx_context h from' gas gp al s cs env)"
    using assms(1) by (simp add: ctx_holds_def frames_all_def tx_context_def frame_new_def)
  then have "ctx_ends P Q c" using assms(2) by (rule tx_begin_ends)
  with assms(3) have "ctx_ends P Q t" by (rule reaches_ends)
  then show ?thesis by (simp add: ctx_ends_def)
qed

end

section \<open>Money\<close>

text \<open>
  A world state whose logs do not touch the accounts and whose deletions only remove money. \<open>ended\<close> is what remains
  of \<open>ok\<close> while a transaction deletes accounts at its end: a state of \<open>src/src/state.rs\<close> is not fully
  usable after that.
\<close>

locale money_host = world_state keccak h ok for keccak and h :: "'s host" and ok +
  fixes ended :: "'s \<Rightarrow> bool"
  assumes add_log_law: "ok s \<Longrightarrow> ws_add_log h a topics data bn s = Some t \<Longrightarrow> ok t \<and> view h t = view h s"
    and ended_law: "ok s \<Longrightarrow> ended s"
    and delete_law: "ended s \<Longrightarrow> ended (ws_delete_account h a s)
      \<and> total_supply (view h (ws_delete_account h a s)) \<le> total_supply (view h s)"
begin

lemma sub_balance_supply:
  assumes "ok s" and "sub_balance h a v s = (r, t)"
  shows "ok t \<and> total_supply (view h t) \<le> total_supply (view h s)"
proof -
  let ?b = "ws_get_balance h s a"
  have "r \<Longrightarrow> unat (?b - v) \<le> unat ?b" using sub_balance_view [OF assms] by (simp add: word_le_nat_alt [symmetric] word_sub_le)
  then show ?thesis
    using sub_balance_view [OF assms] total_supply_set_balance [of a "?b - v" "view h s"] by (cases r) auto
qed

lemma transfer_supply:
  assumes "ok s"
  shows "ok (snd (transfer_balance h src dst v s))
    \<and> total_supply (view h (snd (transfer_balance h src dst v s))) \<le> total_supply (view h s)"
proof (cases "transfer_balance h src dst v s")
  case (Pair r t)
  show ?thesis
  proof (cases r)
    case True
    then show ?thesis using transfer_balance_supply [OF assms] Pair by simp
  next
    case False
    obtain q u where u: "sub_balance h src v s = (q, u)" by fastforce
    then have "t = u"
      using Pair False by (auto simp: transfer_balance_def add_balance_def split: bool.splits option.splits)
    then show ?thesis using sub_balance_supply [OF assms u] Pair by simp
  qed
qed

lemma destruct_supply:
  assumes "ok s"
  shows "ok (destruct h a b s) \<and> total_supply (view h (destruct h a b s)) \<le> total_supply (view h s)"
proof -
  let ?v = "ws_get_balance h s a"
  obtain r t where t: "add_balance h b ?v s = (r, t)" by fastforce
  note add = add_balance_view [OF assms t]
  have "total_supply (view h t) \<le> total_supply (view h s) + unat ?v"
    using add total_supply_set_balance [of b "ws_get_balance h s b + ?v" "view h s"]
    by (cases r) (simp_all add: unat_word_ariths)
  moreover have "unat ?v \<le> unat (ws_get_balance h t a)"
  proof (cases "r \<and> b = a")
    case True
    then have "ws_get_balance h t a = ?v + ?v" "unat ?v + unat ?v < 2 ^ 256"
      using add by (simp_all add: world_set_balance_def flip: view_sel)
    then show ?thesis by (simp add: unat_word_ariths)
  next
    case False
    then have "ws_get_balance h t a = ?v"
      using add by (cases r) (auto simp: world_set_balance_def simp flip: view_sel)
    then show ?thesis by simp
  qed
  ultimately show ?thesis
    using t add set_balance_law [of t a 0] total_supply_set_balance [of a 0 "view h t"]
    by (simp add: destruct_def)
qed

sublocale money: tx_property h "\<lambda>s. ok s \<and> total_supply (view h s) \<le> S" "\<lambda>s. ended s \<and> total_supply (view h s) \<le> S" for S
proof
  fix s a k v code n src dst b u t topics data bn
  assume s: "ok s \<and> total_supply (view h s) \<le> S"
  show "ok (ws_set_state h a k v s) \<and> total_supply (view h (ws_set_state h a k v s)) \<le> S"
    "ok (ws_set_code h a code s) \<and> total_supply (view h (ws_set_code h a code s)) \<le> S"
    "ok (ws_set_nonce h a n s) \<and> total_supply (view h (ws_set_nonce h a n s)) \<le> S"
    using s set_state_law set_code_law set_nonce_law by (simp_all add: total_supply_def world_set_defs)
  show "ok (ws_create_account h a s) \<and> total_supply (view h (ws_create_account h a s)) \<le> S"
    using s create_account_law by (simp add: total_supply_def)
  show "ws_add_log h a topics data bn s = Some t \<Longrightarrow> ok t \<and> total_supply (view h t) \<le> S"
    using s add_log_law by metis
  show "ws_snapshot h s = (t, u) \<Longrightarrow> (ok t \<and> total_supply (view h t) \<le> S) \<and> ok u \<and> total_supply (view h u) \<le> S"
    using s snapshot_law by metis
  show "ok (snd (transfer_balance h src dst v s)) \<and> total_supply (view h (snd (transfer_balance h src dst v s))) \<le> S"
    using s transfer_supply order_trans by blast
  show "ok (destruct h a b s) \<and> total_supply (view h (destruct h a b s)) \<le> S"
    using s destruct_supply order_trans by blast
  show "ended s \<and> total_supply (view h s) \<le> S" using s ended_law by blast
next
  fix u s a
  show "ok u \<and> total_supply (view h u) \<le> S \<Longrightarrow> ok (ws_rollback h u s) \<and> total_supply (view h (ws_rollback h u s)) \<le> S"
    using rollback_law by simp
  show "ended s \<and> total_supply (view h s) \<le> S \<Longrightarrow>
      ended (ws_delete_account h a s) \<and> total_supply (view h (ws_delete_account h a s)) \<le> S"
    using delete_law order_trans by blast
qed

lemma tx_supply:
  assumes "ok s" and "tx_begin h from' to value gas input (tx_context h from' gas gp al s cs env) = Ok () c"
    and "tx_reaches h c t"
  shows "total_supply (view h (cx_state t)) \<le> total_supply (view h s)"
    and "cx_status t = Running \<Longrightarrow> ok (cx_state t)" and "cx_status t \<noteq> Running \<Longrightarrow> ended (cx_state t)"
  using money.tx_keeps_property [OF _ assms(2,3), of "total_supply (view h s)"] assms(1) by (simp_all split: if_splits)

end

section \<open>The hosts\<close>

interpretation dmoney: money_host keccak "dummy_host keccak rlp" "\<lambda>_. True" "\<lambda>_. True" for keccak rlp
proof
  show "True \<and> total_supply (view (dummy_host keccak rlp) (ws_delete_account (dummy_host keccak rlp) a s))
      \<le> total_supply (view (dummy_host keccak rlp) s)" for a s
    using dhost.delete_supply [of keccak rlp a s] by simp
qed (simp_all add: dummy_add_log_def)

text \<open>The interpreter on \<open>MemStateAuto\<close>, as \<open>TxExecState::new\<close> is called by the node and the examples.\<close>

definition mem_host :: "(bytes \<Rightarrow> hash) \<Rightarrow> (bytes \<Rightarrow> nat \<Rightarrow> bytes) \<Rightarrow> mem_auto host" where
  "mem_host keccak rlp = world_state.extend (mem_ws keccak) (host.fields keccak rlp)"

lemma mem_host_sel [simp]:
  "ws_get_state (mem_host keccak rlp) = ws_get_state (mem_ws keccak)"
  "ws_get_balance (mem_host keccak rlp) = ws_get_balance (mem_ws keccak)"
  "ws_get_code (mem_host keccak rlp) = ws_get_code (mem_ws keccak)"
  "ws_get_nonce (mem_host keccak rlp) = ws_get_nonce (mem_ws keccak)"
  "ws_exist (mem_host keccak rlp) = ws_exist (mem_ws keccak)"
  "ws_set_state (mem_host keccak rlp) = ws_set_state (mem_ws keccak)"
  "ws_set_balance (mem_host keccak rlp) = ws_set_balance (mem_ws keccak)"
  "ws_set_code (mem_host keccak rlp) = ws_set_code (mem_ws keccak)"
  "ws_set_nonce (mem_host keccak rlp) = ws_set_nonce (mem_ws keccak)"
  "ws_create_account (mem_host keccak rlp) = ws_create_account (mem_ws keccak)"
  "ws_delete_account (mem_host keccak rlp) = ws_delete_account (mem_ws keccak)"
  "ws_add_log (mem_host keccak rlp) = ws_add_log (mem_ws keccak)"
  "ws_snapshot (mem_host keccak rlp) = ws_snapshot (mem_ws keccak)"
  "ws_rollback (mem_host keccak rlp) = ws_rollback (mem_ws keccak)"
  "h_keccak (mem_host keccak rlp) = keccak"
  "h_rlp_pair (mem_host keccak rlp) = rlp"
  by (simp_all add: mem_host_def world_state.defs host.defs mem_ws_def)

lemma mem_host_view: "view (mem_host keccak rlp) s = view (mem_ws keccak) s"
  by (simp add: view_def)

interpretation mhost: world_state keccak "mem_host keccak rlp" tip_undeleted for keccak rlp
  using memst.world_state_axioms unfolding world_state_def mem_host_view mem_host_sel .

definition tip_owned :: "mem_auto \<Rightarrow> bool" where
  "tip_owned s \<longleftrightarrow> tip_undeleted s \<or> (\<exists>r. s = Mutable r)"

lemma tip_owned_view: "tip_owned s \<Longrightarrow> rev_view keccak (convert_mut s) = rev_view keccak (convert_ref s)"
  using rev_view_convert_mut by (auto simp: tip_owned_def)

lemma delete_balance:
  "rev_get_balance (rev_delete_account a r) b = (if b = a then 0 else rev_get_balance r b)"
  by (simp add: rev_get_balance_def rev_delete_account_def rev_walk_eq [of _ _ "upd_delta _ _"]
      rev_walk_eq [of _ _ r] split: option.split)

lemma mem_log_view:
  assumes "rev_add_log a topics data bn r = Some t"
  shows "rev_view keccak t = rev_view keccak r" and "sd_deleted (rev_delta t) = sd_deleted (rev_delta r)"
  using assms
  by (auto simp: rev_add_log_def rev_view_def rev_reads rev_walk_eq [of _ _ "upd_delta _ _"] rev_walk_eq [of _ _ r] fun_eq_iff
      split: option.splits)

interpretation mmoney: money_host keccak "mem_host keccak rlp" tip_undeleted tip_owned for keccak rlp
proof
  fix s a topics data bn t
  show "tip_undeleted s \<Longrightarrow> ws_add_log (mem_host keccak rlp) a topics data bn s = Some t \<Longrightarrow>
      tip_undeleted t \<and> view (mem_host keccak rlp) t = view (mem_host keccak rlp) s"
    using convert_mut_undeleted [of s] rev_view_convert_mut [of s keccak]
    by (auto simp: mem_host_view mem_view tip_undeleted_def mem_log_view)
  show "tip_undeleted s \<Longrightarrow> tip_owned s" by (simp add: tip_owned_def)
  show "tip_owned s \<Longrightarrow> tip_owned (ws_delete_account (mem_host keccak rlp) a s)
      \<and> total_supply (view (mem_host keccak rlp) (ws_delete_account (mem_host keccak rlp) a s))
        \<le> total_supply (view (mem_host keccak rlp) s)"
  proof -
    assume s: "tip_owned s"
    have "rev_get_balance (convert_mut s) = rev_get_balance (convert_ref s)"
      using tip_owned_view [OF s] by (simp add: rev_view_def)
    then show ?thesis
      by (auto simp: tip_owned_def mem_host_view mem_view total_supply_def rev_view_def delete_balance intro!: sum_mono)
  qed
qed

text \<open>What the loop returns is a state of the transaction.\<close>

lemma exec_loop_reaches:
  "exec_loop h n c = Some (Ok r t) \<Longrightarrow> tx_reaches h c\<^sub>0 c \<Longrightarrow> tx_reaches h c\<^sub>0 t \<and> cx_status t = Finished r"
proof (induction n arbitrary: c)
  case 0
  then show ?case by (simp add: exec_loop.simps [of h 0] split: tx_status.splits)
next
  case (Suc n)
  show ?case
  proof (cases "cx_status c")
    case Running
    with Suc.prems(1) obtain u where u: "step h c = Ok () u" "exec_loop h n u = Some (Ok r t)"
      by (simp add: exec_loop.simps [of h "Suc n"] split: outcome.splits)
    with Suc.IH tx_reaches_step [OF Suc.prems(2)] tx_step [OF Running] show ?thesis by blast
  next
    case (Finished q)
    with Suc.prems show ?thesis by (simp add: exec_loop_Finished)
  qed
qed

lemma tx_exec_reaches:
  assumes "tx_exec h n from' to value gas gp input acl s cs env = Some (Ok r t)"
  obtains al c where "tx_begin h from' to value gas input (tx_context h from' gas gp al s cs env) = Ok () c"
    and "tx_reaches h c t" and "cx_status t = Finished r"
proof -
  from assms obtain al c where "tx_begin h from' to value gas input (tx_context h from' gas gp al s cs env) = Ok () c"
    and loop: "exec_loop h n c = Some (Ok r t)"
    by (auto simp: tx_exec_def split: outcome.splits)
  with exec_loop_reaches [OF loop tx_reaches_start] that show thesis by blast
qed

text \<open>
  C2. No money is created: on every world state that keeps its contract, in every state that a transaction (a
  call or a creation) reaches, during its execution and at its end, whatever calls, creations, reverts and
  self-destructs it makes, the sum of all balances is at most the sum at the start.
\<close>

theorem no_money_created:
  assumes "money_host keccak h ok ended" and "ok s"
    and "tx_begin h from' to value gas input (tx_context h from' gas gp al s cs env) = Ok () c"
    and "tx_reaches h c t"
  shows "total_supply (view h (cx_state t)) \<le> total_supply (view h s)"
  by (rule money_host.tx_supply [OF assms])

theorem no_money_created_witness:
  "\<exists>c t. sample_tx = Ok () c \<and> tx_reaches (dummy_host no_hash no_rlp) c t
    \<and> cx_status t = Finished (TxReverted [] 9000 InvalidOpcode)
    \<and> total_supply (view (dummy_host no_hash no_rlp) (cx_state t))
      \<le> total_supply (view (dummy_host no_hash no_rlp) sample_world)"
proof -
  let ?h = "dummy_host no_hash no_rlp"
  obtain c t where c: "sample_tx = Ok () c" and t: "tx_reaches ?h c t"
    "cx_status t = Finished (TxReverted [] 9000 InvalidOpcode)"
    using sample_tx_ends by blast
  have "total_supply (view ?h (cx_state t)) \<le> total_supply (view ?h sample_world)"
    by (rule no_money_created [OF dmoney.money_host_axioms TrueI c [unfolded sample_tx_def] t(1)])
  with c t show ?thesis by blast
qed

end
