(* ===== verification/ExecTxEnd.thy ===== *)
theory ExecTxEnd
  imports ExecSupply
begin

text \<open>
  The end of a transaction, \<open>tx_end\<close> of \<open>src/src/core/exec.rs\<close>: what it makes of the world, for calls and for creations. The
  locale \<open>deleting_state\<close> says what the sweep of the empty and the self-destructed accounts relies on; the reference store and
  \<open>MemStateAuto\<close> both provide it. In \<open>MemStateAuto\<close> a deletion is seen as long as the tip of the chain is the same, which is so
  for the whole sweep.
\<close>

section \<open>Deleting accounts\<close>

definition world_delete :: "(bytes \<Rightarrow> hash) \<Rightarrow> addr set \<Rightarrow> world \<Rightarrow> world" where
  "world_delete keccak A w =
     \<lparr>w_state = \<lambda>a. if a \<in> A then \<lambda>_. 0 else w_state w a, w_balance = \<lambda>a. if a \<in> A then 0 else w_balance w a,
      w_code = \<lambda>a. if a \<in> A then PlainCode_new keccak [] else w_code w a, w_nonce = \<lambda>a. if a \<in> A then 0 else w_nonce w a,
      w_exist = \<lambda>a. a \<notin> A \<and> w_exist w a\<rparr>"

definition world_empty :: "(bytes \<Rightarrow> hash) \<Rightarrow> world \<Rightarrow> addr \<Rightarrow> bool" where
  "world_empty keccak w a \<longleftrightarrow> w_nonce w a = 0 \<and> w_balance w a = 0 \<and> code_hash (w_code w a) = keccak []"

lemma world_delete_twice: "world_delete keccak A (world_delete keccak B w) = world_delete keccak (A \<union> B) w"
  by (auto simp: world_delete_def fun_eq_iff)

lemma world_delete_none: "world_delete keccak {} w = w"
  by (simp add: world_delete_def)

lemma deleted_empty: "world_empty keccak (world_delete keccak A w) a \<longleftrightarrow> a \<in> A \<or> world_empty keccak w a"
  by (auto simp: world_empty_def world_delete_def PlainCode_new_def)

lemma is_empty_view: "is_empty keccak ws s a \<longleftrightarrow> world_empty keccak (view ws s) a"
  by (simp add: is_empty_def world_empty_def)

locale deleting_state = world_state keccak ws ok
  for keccak :: "bytes \<Rightarrow> hash" and ws :: "('s, 'z) world_state_scheme" and ok :: "'s \<Rightarrow> bool" +
  fixes sweeping :: "'s \<Rightarrow> bool"
  assumes ok_sweeping: "ok s \<Longrightarrow> sweeping s"
    and delete_law: "sweeping s \<Longrightarrow>
      sweeping (ws_delete_account ws a s) \<and> view ws (ws_delete_account ws a s) = world_delete keccak {a} (view ws s)"
begin

lemma delete_all:
  "sweeping s \<Longrightarrow> sweeping (fold (ws_delete_account ws) as s) \<and>
    view ws (fold (ws_delete_account ws) as s) = world_delete keccak (set as) (view ws s)"
proof (induction as arbitrary: s)
  case (Cons a as)
  have "set as \<union> {a} = set (a # as)" by auto
  with Cons delete_law [OF Cons.prems, of a] show ?case by (simp add: world_delete_twice)
qed (simp add: world_delete_none)

lemma drop_empty_all:
  "sweeping s \<Longrightarrow> sweeping (fold (drop_empty keccak ws) as s) \<and>
    view ws (fold (drop_empty keccak ws) as s) = world_delete keccak {a \<in> set as. world_empty keccak (view ws s) a} (view ws s)"
proof (induction as arbitrary: s)
  case (Cons a as)
  let ?t = "drop_empty keccak ws a s" and ?A = "if world_empty keccak (view ws s) a then {a} else {}"
  have t: "sweeping ?t" "view ws ?t = world_delete keccak ?A (view ws s)"
    using delete_law [OF Cons.prems, of a] Cons.prems by (simp_all add: drop_empty_def is_empty_view world_delete_none)
  have "{b \<in> set as. world_empty keccak (view ws ?t) b} \<union> ?A = {b \<in> set (a # as). world_empty keccak (view ws s) b}"
    by (auto simp: t(2) deleted_empty)
  with Cons.IH [OF t(1)] show ?case by (simp add: t(2) world_delete_twice)
qed (simp add: world_delete_none)

end

text \<open>The accounts that the end of a transaction deletes.\<close>

definition doomed :: "(bytes \<Rightarrow> hash) \<Rightarrow> fork \<Rightarrow> addr set \<Rightarrow> addr set \<Rightarrow> world \<Rightarrow> addr set" where
  "doomed keccak fork touched destroyed w = destroyed \<union> {a \<in> touched. fork \<ge> SpuriousDragon \<and> world_empty keccak w a}"

lemma swept_view:
  assumes del: "deleting_state (h_keccak h) h ok sweeping" and s: "ok s"
  shows "view h (swept h fork dirty destroyed s) =
    world_delete (h_keccak h) (doomed (h_keccak h) fork (set dirty) (set destroyed) (view h s)) (view h s)"
proof -
  have "sweeping s" by (rule deleting_state.ok_sweeping [OF del s])
  then show ?thesis
    using deleting_state.drop_empty_all [OF del, of s dirty] deleting_state.delete_all [OF del, of _ destroyed]
    by (cases "fork \<ge> SpuriousDragon") (simp_all add: swept_def doomed_def world_delete_twice)
qed

sublocale full_world_state \<subseteq> deleting_state keccak ws ok ok
  by unfold_locales (auto simp: delete_account_law world_delete_def fun_eq_iff)

lemma rev_view_delete: "rev_view keccak (rev_delete_account a r) = world_delete keccak {a} (rev_view keccak r)"
  by (auto simp: rev_view_def world_delete_def rev_delete_account_def rev_reads rev_walk_eq [of _ _ "upd_delta _ _"]
      rev_walk_eq [of _ _ r] fun_eq_iff split: option.splits)

interpretation mdel: deleting_state keccak "mem_host keccak rlp" tip_undeleted tip_owned for keccak rlp
proof
  fix s a
  show "tip_undeleted s \<Longrightarrow> tip_owned s" by (simp add: tip_owned_def)
  show "tip_owned (ws_delete_account (mem_host keccak rlp) a s) \<and>
      view (mem_host keccak rlp) (ws_delete_account (mem_host keccak rlp) a s) = world_delete keccak {a} (view (mem_host keccak rlp) s)"
    if "tip_owned s"
    using tip_owned_view [OF that] by (simp add: mem_host_view mem_view rev_view_delete) (simp add: tip_owned_def)
qed

section \<open>The end of a transaction\<close>

text \<open>
  What the result \<open>r\<close> of the first frame means for the transaction: its error, the world and the touched accounts before the
  sweep, for a call of a sender and for a creation. The code of a creation is paid from the frame below the first one.
\<close>

definition end_error :: "tx_aux \<Rightarrow> fork \<Rightarrow> gas \<Rightarrow> bytes \<Rightarrow> exec_result \<Rightarrow> exec_result" where
  "end_error aux fork gas data r =
     (case aux of Sender _ \<Rightarrow> r | Contract _ \<Rightarrow> (if r = None then deploy_error fork gas data else None))"

definition end_world :: "(bytes \<Rightarrow> hash) \<Rightarrow> tx_aux \<Rightarrow> bytes \<Rightarrow> exec_result \<Rightarrow> world \<Rightarrow> world" where
  "end_world keccak aux data r w =
     (case aux of Sender _ \<Rightarrow> w | Contract a \<Rightarrow> (if r = None then world_set_code keccak a data w else w))"

definition end_touched :: "tx_aux \<Rightarrow> exec_result \<Rightarrow> addr set \<Rightarrow> addr set" where
  "end_touched aux r dirty =
     (case aux of Sender a \<Rightarrow> insert a dirty | Contract a \<Rightarrow> (if r = None then insert a dirty else dirty))"

primrec end_addr :: "tx_aux \<Rightarrow> addr option" where
  "end_addr (Sender a) = None"
| "end_addr (Contract a) = Some a"

lemma verdict_ends:
  assumes ws: "world_state (h_keccak h) h ok" and s: "ok (cx_state c)" and run: "cx_status c = Running"
  obtains c\<^sub>1 where
    "tx_verdict h args data r c = Ok (end_error (txa_aux args) (fr_fork (cx_cur_call c)) (ctx_gas c) data r, end_addr (txa_aux args)) c\<^sub>1"
    "cx_status c\<^sub>1 = Running" "cx_destroyed c\<^sub>1 = cx_destroyed c" "fr_fork (cx_cur_call c\<^sub>1) = fr_fork (cx_cur_call c)"
    "end_error (txa_aux args) (fr_fork (cx_cur_call c)) (ctx_gas c) data r = None \<Longrightarrow>
      ok (cx_state c\<^sub>1) \<and> view h (cx_state c\<^sub>1) = end_world (h_keccak h) (txa_aux args) data r (view h (cx_state c)) \<and>
      set (cx_dirty c\<^sub>1) = end_touched (txa_aux args) r (set (cx_dirty c))"
proof (cases "txa_aux args")
  case (Sender a)
  show thesis
    by (rule that [of "c\<lparr>cx_dirty := List.insert a (cx_dirty c)\<rparr>"])
      (use Sender verdict_sender [OF Sender] s run in \<open>simp_all add: end_error_def end_world_def end_touched_def\<close>)
next
  case (Contract a)
  show thesis
  proof (cases r)
    case (Some e)
    obtain g where g: "tx_verdict h args data r c = Ok (None, Some a) (put_gas g c)" using verdict_failed [OF Contract] Some by blast
    show thesis
      by (rule that [of "put_gas g c"]) (use g Contract Some s run in \<open>simp_all add: end_error_def end_world_def end_touched_def put_gas_def\<close>)
  next
    case None
    let ?t = "(put_gas (ctx_gas c - 200 * length data) c)\<lparr>cx_state := ws_set_code h a data (cx_state c), cx_dirty := List.insert a (cx_dirty c)\<rparr>"
    show thesis
    proof (cases "deploy_error (fr_fork (cx_cur_call c)) (ctx_gas c) data")
      case good: None
      show thesis
        by (rule that [of ?t]) (use None good Contract verdict_returned [OF Contract, of h data c] world_state.set_code_law [OF ws s] run in
            \<open>simp_all add: end_error_def end_world_def end_touched_def put_gas_def\<close>)
    next
      case (Some e)
      show thesis
        by (rule that [of c]) (use None Some Contract verdict_returned [OF Contract, of h data c] run in \<open>simp_all add: end_error_def\<close>)
    qed
  qed
qed

text \<open>
  C14. The end of every transaction, a call or a creation, when its first frame returns or fails. If the transaction has an error (a
  call whose frame has failed, or a creation whose frame has returned code that is refused), it is reported as reverted with the
  error, and the world is that of the snapshot taken at its start. Otherwise it is reported as succeeded with the gas that is left;
  the world is that of the frame (with the code of a creation installed), in which exactly the self-destructed accounts and, from
  Spurious Dragon on, the touched accounts that are empty are deleted. A creation whose frame has failed counts as succeeded.
\<close>

theorem transaction_end:
  assumes "deleting_state (h_keccak h) h ok sweeping" and "ok s\<^sub>0" and "ws_snapshot h s\<^sub>0 = (s\<^sub>1, txa_snapshot args)"
    and "ok (cx_state c)" and "cx_status c = Running" and "cx_call_stack c = [p]"
    and "fr_call_type (cx_cur_call c) = CallTx args"
  shows "\<exists>t. finish_call h data r c = Ok () t \<and>
    (case end_error (txa_aux args) (fr_fork p) (fr_unused_gas p) data r of
       Some e \<Rightarrow> cx_status t = Finished (TxReverted data (ctx_gas c) e) \<and> view h (cx_state t) = view h s\<^sub>0
     | None \<Rightarrow> cx_status t = Finished (TxSucceeded data (ctx_gas c) (end_addr (txa_aux args))) \<and>
         (let w = end_world (h_keccak h) (txa_aux args) data r (view h (cx_state c)) in
          view h (cx_state t) = world_delete (h_keccak h)
            (doomed (h_keccak h) (fr_fork p) (end_touched (txa_aux args) r (set (cx_dirty c))) (set (cx_destroyed c)) w) w))"
proof -
  have ws: "world_state (h_keccak h) h ok" using assms(1) by (simp add: deleting_state_def)
  let ?c = "c\<lparr>cx_cur_call := p, cx_call_stack := []\<rparr>"
  let ?e = "end_error (txa_aux args) (fr_fork p) (fr_unused_gas p) data r"
  obtain c1 where c1: "tx_verdict h args data r ?c = Ok (?e, end_addr (txa_aux args)) c1" "cx_status c1 = Running"
    "cx_destroyed c1 = cx_destroyed c" "fr_fork (cx_cur_call c1) = fr_fork p"
    "?e = None \<Longrightarrow> ok (cx_state c1) \<and> view h (cx_state c1) = end_world (h_keccak h) (txa_aux args) data r (view h (cx_state c)) \<and>
      set (cx_dirty c1) = end_touched (txa_aux args) r (set (cx_dirty c))"
    using verdict_ends [OF ws, of ?c args data r] assms(4,5) by auto
  let ?S = "swept h (fr_fork p) (cx_dirty c1) (cx_destroyed c) (cx_state c1)"
  have run: "finish_call h data r c = Ok () (c1\<lparr>cx_state := (case ?e of None \<Rightarrow> ?S | Some _ \<Rightarrow> ws_rollback h (txa_snapshot args) ?S),
      cx_dirty := [], cx_destroyed := [], cx_status := Finished (case ?e of None \<Rightarrow> TxSucceeded data (ctx_gas c) (end_addr (txa_aux args))
        | Some e \<Rightarrow> TxReverted data (ctx_gas c) e)\<rparr>)"
    using tx_end_eq [OF _ c1(1,2), of ?S "ctx_gas c"] assms(6,7) c1(3,4) by (simp add: finish_call_eq)
  show ?thesis
  proof (cases ?e)
    case None
    from c1(5) [OF this] swept_view [OF assms(1), of "cx_state c1" "fr_fork p" "cx_dirty c1" "cx_destroyed c"] None run
    show ?thesis by (simp add: Let_def)
  next
    case (Some e)
    with run world_state.rollback_restores [OF ws assms(2,3)] show ?thesis by simp
  qed
qed

text \<open>On the store the node runs on: a creation whose code is accepted, with a self-destructed account.\<close>

definition creation_ctx :: "mem_auto ctx" where
  "creation_ctx =
     (let fr = (\<lambda>ct. frame_new (PlainCode_new no_hash []) [] 0 2 1 ct 50000 False London); s = auto_new (empty_state no_hash) in
      (tx_context (mem_host no_hash no_rlp) 1 50000 0 al_empty s s (sample_env London))
      \<lparr>cx_call_stack := [fr (CallCall \<lparr>ca_snapshot = None, ca_ret_off = 0, ca_ret_len = 0\<rparr>)],
       cx_cur_call := fr (CallTx \<lparr>txa_snapshot = s, txa_aux = Contract 2\<rparr>), cx_destroyed := [3]\<rparr>)"

theorem transaction_end_witness:
  "\<exists>t. finish_call (mem_host no_hash no_rlp) [1] None creation_ctx = Ok () t
    \<and> cx_status t = Finished (TxSucceeded [1] 50000 (Some 2)) \<and> \<not> ws_exist (mem_host no_hash no_rlp) (cx_state t) 3"
proof -
  let ?h = "mem_host no_hash no_rlp" and ?s = "auto_new (empty_state no_hash)"
  let ?args = "\<lparr>txa_snapshot = ?s, txa_aux = Contract 2\<rparr>"
  have del: "deleting_state (h_keccak ?h) ?h tip_undeleted tip_owned" using mdel.deleting_state_axioms [of no_hash no_rlp] by simp
  have s: "tip_undeleted ?s" "ws_snapshot ?h ?s = (?s, txa_snapshot ?args)"
    by (simp_all add: auto_new_def mem_rev_new_def tip_undeleted_def empty_delta_def auto_snapshot_def to_shared_def)
  obtain p where p: "cx_call_stack creation_ctx = [p]" "fr_fork p = London" "fr_unused_gas p = 50000"
    by (simp add: creation_ctx_def Let_def frame_new_def)
  have c: "cx_state creation_ctx = ?s" "cx_status creation_ctx = Running" "fr_call_type (cx_cur_call creation_ctx) = CallTx ?args"
    "ctx_gas creation_ctx = 50000" "cx_destroyed creation_ctx = [3]"
    by (simp_all add: creation_ctx_def Let_def tx_context_def frame_new_def)
  have "end_error (txa_aux ?args) London 50000 [1] None = None" by (simp add: end_error_def deploy_error_def)
  define w where "w = end_world no_hash (Contract 2) [1] None (view ?h ?s)"
  define A where "A = doomed no_hash London (end_touched (Contract 2) None (set (cx_dirty creation_ctx))) {3} w"
  have "\<exists>t. finish_call ?h [1] None creation_ctx = Ok () t \<and> cx_status t = Finished (TxSucceeded [1] 50000 (Some 2))
      \<and> view ?h (cx_state t) = world_delete no_hash A w"
    using transaction_end [OF del s, of creation_ctx p "[1]" None] s(1) p c \<open>end_error _ _ _ _ _ = None\<close>
    by (simp add: Let_def A_def w_def del: view_sel)
  then obtain t where t: "finish_call ?h [1] None creation_ctx = Ok () t" "cx_status t = Finished (TxSucceeded [1] 50000 (Some 2))"
    and view: "view ?h (cx_state t) = world_delete no_hash A w" by blast
  have "\<not> w_exist (world_delete no_hash A w) 3" by (simp add: world_delete_def A_def doomed_def)
  then have "\<not> ws_exist ?h (cx_state t) 3" unfolding view [symmetric] view_sel .
  with t show ?thesis by blast
qed

end
