(* ===== verification/Rlp.thy ===== *)
theory Rlp
  imports Bytes
begin

text \<open>
  The RLP codecs of the basic types of \<open>src/src/common.rs\<close> (\<open>Wei\<close> and \<open>U256RLP\<close>, \<open>Addr\<close>, \<open>Hash\<close>, \<open>NullableAddr\<close>,
  \<open>Bytes\<close>) over the crate \<open>rlp\<close>, which is a parameter: the record \<open>rlp_if\<close> has the operations of \<open>RlpStream\<close> and
  \<open>Rlp\<close> that the code calls, \<open>rlp_laws\<close> states their documented behaviour. The value of a stream is the
  item that was appended to it. The last section shows that the RLP format itself satisfies the laws.
\<close>

datatype rlp_item = RlpData bytes | RlpList "rlp_item list"

datatype decoder_error = RlpIsTooBig | RlpIsTooShort | RlpInvalidIndirection | RlpOtherError

type_synonym 'a decoded = "decoder_error + 'a"

definition and_then :: "'a decoded \<Rightarrow> ('a \<Rightarrow> 'b decoded) \<Rightarrow> 'b decoded" where
  "and_then r f = (case r of Inl e \<Rightarrow> Inl e | Inr a \<Rightarrow> f a)"

lemma and_then_simps [simp]: "and_then (Inl e) f = Inl e" "and_then (Inr a) f = f a"
  by (simp_all add: and_then_def)

text \<open>
  \<open>rl_out\<close>: \<open>RlpStream::out\<close>; \<open>rl_value\<close>: the bytes \<open>decoder().decode_value\<close> hands to its closure; \<open>rl_at\<close>: \<open>Rlp::at\<close>;
  \<open>rl_iter\<close>: the items \<open>as_list\<close> decodes; \<open>rl_put_u64\<close>, \<open>rl_get_u64\<close>: the codec the crate has for \<open>u64\<close>.
\<close>

record rlp_if =
  rl_out :: "rlp_item \<Rightarrow> bytes"
  rl_is_list :: "bytes \<Rightarrow> bool"
  rl_is_data :: "bytes \<Rightarrow> bool"
  rl_value :: "bytes \<Rightarrow> bytes decoded"
  rl_at :: "bytes \<Rightarrow> nat \<Rightarrow> bytes decoded"
  rl_iter :: "bytes \<Rightarrow> bytes list decoded"
  rl_put_u64 :: "nat \<Rightarrow> rlp_item"
  rl_get_u64 :: "bytes \<Rightarrow> nat decoded"

section \<open>The codecs\<close>

definition uint_rlp_append :: "u256 \<Rightarrow> rlp_item" where
  "uint_rlp_append x =
     (let leading_empty_bytes = 4 * 8 - (u256_bits x + 7) div 8;
          buffer = to_big_endian x
      in RlpData (drop leading_empty_bytes buffer))"

definition uint_rlp_decode :: "rlp_if \<Rightarrow> bytes \<Rightarrow> u256 decoded" where
  "uint_rlp_decode rl rlp = and_then (rl_value rl rlp) (\<lambda>bytes.
     if bytes \<noteq> [] \<and> bytes ! 0 = 0 then Inl RlpInvalidIndirection
     else if length bytes \<le> 4 * 8 then Inr (from_big_endian bytes)
     else Inl RlpIsTooBig)"

text \<open>The macro for \<open>H160\<close> and \<open>H256\<close>, at the sizes 20 and 32.\<close>

definition fixed_hash_rlp_decode :: "nat \<Rightarrow> rlp_if \<Rightarrow> bytes \<Rightarrow> bytes decoded" where
  "fixed_hash_rlp_decode sz rl rlp = and_then (rl_value rl rlp) (\<lambda>bytes.
     if length bytes < sz then Inl RlpIsTooShort
     else if length bytes > sz then Inl RlpIsTooBig
     else Inr bytes)"

definition addr_rlp_append :: "addr \<Rightarrow> rlp_item" where
  "addr_rlp_append a = RlpData (addr_as_bytes a)"

definition addr_rlp_decode :: "rlp_if \<Rightarrow> bytes \<Rightarrow> addr decoded" where
  "addr_rlp_decode rl rlp = and_then (fixed_hash_rlp_decode 20 rl rlp) (\<lambda>t. Inr (addr_from_slice t))"

definition hash_rlp_append :: "hash \<Rightarrow> rlp_item" where
  "hash_rlp_append h = RlpData (hash_as_bytes h)"

definition hash_rlp_decode :: "rlp_if \<Rightarrow> bytes \<Rightarrow> hash decoded" where
  "hash_rlp_decode rl rlp = and_then (fixed_hash_rlp_decode 32 rl rlp) (\<lambda>t. Inr (from_big_endian t))"

definition nullable_addr_append :: "addr option \<Rightarrow> rlp_item" where
  "nullable_addr_append a = RlpData (case a of Some addr \<Rightarrow> addr_as_bytes addr | None \<Rightarrow> [])"

definition nullable_addr_decode :: "rlp_if \<Rightarrow> bytes \<Rightarrow> addr option decoded" where
  "nullable_addr_decode rl rlp = and_then (rl_value rl rlp) (\<lambda>bytes.
     if bytes = [] then Inr None
     else if length bytes < 20 then Inl RlpIsTooShort
     else if length bytes > 20 then Inl RlpIsTooBig
     else Inr (Some (addr_from_slice bytes)))"

definition bytes_rlp_append :: "bytes \<Rightarrow> rlp_item" where
  "bytes_rlp_append b = RlpData b"

definition bytes_rlp_decode :: "rlp_if \<Rightarrow> bytes \<Rightarrow> bytes decoded" where
  "bytes_rlp_decode rl rlp = and_then (rl_value rl rlp) (\<lambda>bytes. Inr bytes)"

section \<open>The behaviour of the crate\<close>

text \<open>
  An encoded item whose length fits in 64 bits is read back: its kind from the first byte, the payload of
  data, the items of a list; a \<open>u64\<close> is data and is read back.
\<close>

definition rlp_laws :: "rlp_if \<Rightarrow> bool" where
  "rlp_laws rl \<longleftrightarrow>
     (\<forall>b bs. rl_is_list rl (b # bs) \<longleftrightarrow> 0xc0 \<le> b) \<and> (\<forall>b bs. rl_is_data rl (b # bs) \<longleftrightarrow> b < 0xc0) \<and>
     (\<forall>xs. length (rl_out rl (RlpList xs)) < 2 ^ 64 \<longrightarrow> (\<exists>b bs. rl_out rl (RlpList xs) = b # bs \<and> 0xc0 \<le> b)) \<and>
     (\<forall>xs. \<forall>x\<in>set xs. length (rl_out rl x) < length (rl_out rl (RlpList xs))) \<and>
     (\<forall>b. length (rl_out rl (RlpData b)) < 2 ^ 64 \<longrightarrow> rl_value rl (rl_out rl (RlpData b)) = Inr b) \<and>
     (\<forall>xs. length (rl_out rl (RlpList xs)) < 2 ^ 64 \<longrightarrow>
        rl_iter rl (rl_out rl (RlpList xs)) = Inr (map (rl_out rl) xs) \<and>
        (\<forall>i<length xs. rl_at rl (rl_out rl (RlpList xs)) i = Inr (rl_out rl (xs ! i)))) \<and>
     (\<forall>n<2 ^ 64. rl_get_u64 rl (rl_out rl (rl_put_u64 rl n)) = Inr n)"

lemma rlp_kind:
  "rlp_laws rl \<Longrightarrow> rl_is_list rl (b # bs) \<longleftrightarrow> 0xc0 \<le> b" "rlp_laws rl \<Longrightarrow> rl_is_data rl (b # bs) \<longleftrightarrow> b < 0xc0"
  by (simp_all add: rlp_laws_def)

lemma rlp_list_is_list: "rlp_laws rl \<Longrightarrow> length (rl_out rl (RlpList xs)) < 2 ^ 64 \<Longrightarrow> rl_is_list rl (rl_out rl (RlpList xs))"
  unfolding rlp_laws_def by metis

lemma rlp_at_out:
  "rlp_laws rl \<Longrightarrow> length (rl_out rl (RlpList xs)) < 2 ^ 64 \<Longrightarrow> i < length xs \<Longrightarrow>
    rl_at rl (rl_out rl (RlpList xs)) i = Inr (rl_out rl (xs ! i))"
  unfolding rlp_laws_def by blast

lemma rlp_iter_out:
  "rlp_laws rl \<Longrightarrow> length (rl_out rl (RlpList xs)) < 2 ^ 64 \<Longrightarrow>
    rl_iter rl (rl_out rl (RlpList xs)) = Inr (map (rl_out rl) xs)"
  unfolding rlp_laws_def by blast

lemma rlp_item_less:
  "rlp_laws rl \<Longrightarrow> x \<in> set xs \<Longrightarrow> length (rl_out rl (RlpList xs)) < 2 ^ 64 \<Longrightarrow> length (rl_out rl x) < 2 ^ 64"
  unfolding rlp_laws_def by (meson order.strict_trans)

lemma rlp_value_out:
  "rlp_laws rl \<Longrightarrow> length (rl_out rl (RlpData b)) < 2 ^ 64 \<Longrightarrow> rl_value rl (rl_out rl (RlpData b)) = Inr b"
  unfolding rlp_laws_def by blast

lemma rlp_u64_out: "rlp_laws rl \<Longrightarrow> n < 2 ^ 64 \<Longrightarrow> rl_get_u64 rl (rl_out rl (rl_put_u64 rl n)) = Inr n"
  unfolding rlp_laws_def by blast

section \<open>Round trips of the codecs\<close>

text \<open>The shortest big-endian representation of a number.\<close>

definition be_min :: "nat \<Rightarrow> bytes" where
  "be_min n = be_bytes ((nat_bits n + 7) div 8) n"

lemma bits_le_nat: "0 < n \<Longrightarrow> 2 ^ (nat_bits n - 1) \<le> n"
proof (induction n rule: nat_bits.induct)
  case (1 n)
  show ?case
  proof (cases "n div 2 = 0")
    case True
    with 1(2) have "n = 1" by simp
    then show ?thesis by (simp add: nat_bits.simps)
  next
    case False
    then have "0 < nat_bits (n div 2)" by (simp add: nat_bits.simps [of "n div 2"])
    with 1 False have "2 * 2 ^ (nat_bits (n div 2) - 1) \<le> n" by simp
    with 1(2) \<open>0 < nat_bits (n div 2)\<close> show ?thesis
      by (simp add: nat_bits.simps [of n] flip: power_Suc)
  qed
qed

lemma be_val_be_min [simp]: "be_val (be_min n) = n"
proof -
  have "n < 2 ^ nat_bits n" by (rule nat_less_bits)
  also have "(2::nat) ^ nat_bits n \<le> 2 ^ (8 * ((nat_bits n + 7) div 8))" by (intro power_increasing) auto
  also have "\<dots> = 256 ^ ((nat_bits n + 7) div 8)" by (simp add: power_mult)
  finally show ?thesis by (simp add: be_min_def be_val_be_bytes)
qed

lemma unat_byte: "n < 256 \<Longrightarrow> unat (word_of_nat n :: u8) = n"
  by (simp add: unat_of_nat)

lemma be_min_head: "be_min n \<noteq> [] \<Longrightarrow> be_min n ! 0 \<noteq> 0"
proof -
  assume ne: "be_min n \<noteq> []"
  define k where "k = (nat_bits n + 7) div 8 - 1"
  have "(nat_bits n + 7) div 8 \<noteq> 0" using ne by (metis be_min_def be_bytes.simps(1))
  then have k: "(nat_bits n + 7) div 8 = Suc k" by (simp add: k_def)
  then have n: "0 < n" by (cases n) auto
  have "8 * k \<le> nat_bits n - 1" using k by linarith
  then have "(2::nat) ^ (8 * k) \<le> 2 ^ (nat_bits n - 1)" by (rule power_increasing) simp
  then have "(256::nat) ^ k \<le> 2 ^ (nat_bits n - 1)" by (simp add: power_mult)
  with bits_le_nat [OF n] have low: "256 ^ k \<le> n" by linarith
  have "length (be_min n) = Suc k" by (simp add: be_min_def k)
  then have "n < 256 ^ Suc k" using be_val_bound [of "be_min n"] by simp
  then have "n div 256 ^ k < 256" by (simp add: div_less_iff_less_mult)
  moreover have "0 < n div 256 ^ k" using low by (simp add: div_greater_zero_iff)
  ultimately have "word_of_nat (n div 256 ^ k) \<noteq> (0::u8)"
    using unat_byte [of "n div 256 ^ k"] by (auto simp del: word_of_nat_eq_0_iff)
  then show ?thesis using \<open>n div 256 ^ k < 256\<close> by (simp add: be_min_def k be_bytes_nth del: be_bytes.simps)
qed

lemma length_be_min: "n < 256 ^ k \<Longrightarrow> length (be_min n) \<le> k"
proof -
  assume "n < 256 ^ k"
  then have "nat_bits n \<le> 8 * k" by (intro nat_bits_le) (simp add: power_mult)
  then show ?thesis by (simp add: be_min_def)
qed

lemma uint_rlp_append_min: "uint_rlp_append x = RlpData (be_min (unat x))"
proof -
  have "(u256_bits x + 7) div 8 \<le> 32" using u256_bits_le [of x] by linarith
  then show ?thesis
    by (simp add: uint_rlp_append_def be_min_def to_big_endian_def be_bytes_drop u256_bits_def)
qed

named_theorems rlp_roundtrip \<open>decoding the encoding of a value\<close>

lemma uint_rlp_roundtrip [rlp_roundtrip]:
  assumes "rlp_laws rl" and "length (rl_out rl (uint_rlp_append x)) < 2 ^ 64"
  shows "uint_rlp_decode rl (rl_out rl (uint_rlp_append x)) = Inr x"
proof -
  have "length (be_min (unat x)) \<le> 32"
    using unsigned_less [of x, where 'a = nat] by (intro length_be_min) simp
  then show ?thesis
    using assms rlp_value_out be_min_head
    by (auto simp: uint_rlp_append_min uint_rlp_decode_def from_big_endian_def)
qed

lemma length_addr_as_bytes [simp]: "length (addr_as_bytes a) = 20"
  by (simp add: addr_as_bytes_def)

lemma addr_as_bytes_not_Nil [simp]: "addr_as_bytes a \<noteq> []"
  by (metis length_addr_as_bytes list.size(3) zero_neq_numeral)

lemma addr_from_as_bytes [simp]: "addr_from_slice (addr_as_bytes a) = a"
proof -
  have "unat a < 256 ^ 20" using unsigned_less [of a] by simp
  then show ?thesis by (simp add: addr_as_bytes_def addr_from_slice_def be_val_be_bytes)
qed

lemma hash_from_as_bytes [simp]: "from_big_endian (hash_as_bytes h) = h"
  using from_to_big_endian [of h] by (simp add: hash_as_bytes_def to_big_endian_def)

lemma fixed_rlp_roundtrip [rlp_roundtrip]:
  assumes "rlp_laws rl"
  shows "length (rl_out rl (addr_rlp_append a)) < 2 ^ 64 \<Longrightarrow>
      addr_rlp_decode rl (rl_out rl (addr_rlp_append a)) = Inr a"
    "length (rl_out rl (hash_rlp_append h)) < 2 ^ 64 \<Longrightarrow>
      hash_rlp_decode rl (rl_out rl (hash_rlp_append h)) = Inr h"
    "length (rl_out rl (nullable_addr_append n)) < 2 ^ 64 \<Longrightarrow>
      nullable_addr_decode rl (rl_out rl (nullable_addr_append n)) = Inr n"
    "length (rl_out rl (bytes_rlp_append b)) < 2 ^ 64 \<Longrightarrow>
      bytes_rlp_decode rl (rl_out rl (bytes_rlp_append b)) = Inr b"
  using assms rlp_value_out
  by (auto simp: addr_rlp_append_def addr_rlp_decode_def hash_rlp_append_def hash_rlp_decode_def
      fixed_hash_rlp_decode_def nullable_addr_append_def nullable_addr_decode_def bytes_rlp_append_def
      bytes_rlp_decode_def hash_as_bytes_def to_big_endian_def [symmetric] split: option.splits)

section \<open>The RLP format satisfies the laws\<close>

text \<open>The prefix of a payload of the given length: \<open>base\<close> is \<open>0x80\<close> for data and \<open>0xc0\<close> for a list.\<close>

definition rlp_prefix :: "nat \<Rightarrow> nat \<Rightarrow> bytes" where
  "rlp_prefix base n =
     (if n < 56 then [word_of_nat (base + n)]
      else word_of_nat (base + 55 + length (be_min n)) # be_min n)"

definition rlp_data :: "bytes \<Rightarrow> bytes" where
  "rlp_data b = (if length b = 1 \<and> b ! 0 < 0x80 then b else rlp_prefix 0x80 (length b) @ b)"

fun rlp_out :: "rlp_item \<Rightarrow> bytes" where
  "rlp_out (RlpData b) = rlp_data b"
| "rlp_out (RlpList xs) = (let p = concat (map rlp_out xs) in rlp_prefix 0xc0 (length p) @ p)"

text \<open>Where the payload of the first item starts and ends.\<close>

definition rlp_span :: "bytes \<Rightarrow> (nat \<times> nat) option" where
  "rlp_span bs = (case bs of [] \<Rightarrow> None | b # t \<Rightarrow>
     let h = unat b; long = (\<lambda>base. 1 + (h - base)) in
     if h < 0x80 then Some (0, 1)
     else if h < 0xb8 then Some (1, 1 + (h - 0x80))
     else if h < 0xc0 then Some (long 0xb7, long 0xb7 + be_val (take (h - 0xb7) t))
     else if h < 0xf8 then Some (1, 1 + (h - 0xc0))
     else Some (long 0xf7, long 0xf7 + be_val (take (h - 0xf7) t)))"

definition rlp_payload :: "bytes \<Rightarrow> bytes decoded" where
  "rlp_payload bs = (case rlp_span bs of None \<Rightarrow> Inl RlpIsTooShort
     | Some (i, j) \<Rightarrow> if length bs < j then Inl RlpIsTooShort else Inr (drop i (take j bs)))"

fun rlp_items :: "nat \<Rightarrow> bytes \<Rightarrow> bytes list decoded" where
  "rlp_items fuel [] = Inr []"
| "rlp_items 0 (b # bs) = Inl RlpIsTooShort"
| "rlp_items (Suc fuel) (b # bs) = (case rlp_span (b # bs) of None \<Rightarrow> Inl RlpIsTooShort
     | Some (i, j) \<Rightarrow> if length (b # bs) < j then Inl RlpIsTooShort
       else and_then (rlp_items fuel (drop j (b # bs))) (\<lambda>rest. Inr (take j (b # bs) # rest)))"

definition rlp_iter :: "bytes \<Rightarrow> bytes list decoded" where
  "rlp_iter bs = and_then (rlp_payload bs) (\<lambda>p. rlp_items (length p) p)"

definition rlp_std :: rlp_if where
  "rlp_std =
     \<lparr>rl_out = rlp_out,
      rl_is_list = (\<lambda>bs. bs \<noteq> [] \<and> 0xc0 \<le> bs ! 0), rl_is_data = (\<lambda>bs. bs \<noteq> [] \<and> bs ! 0 < 0xc0),
      rl_value = rlp_payload,
      rl_at = (\<lambda>bs i. and_then (rlp_iter bs) (\<lambda>xs. if i < length xs then Inr (xs ! i) else Inl RlpIsTooShort)),
      rl_iter = rlp_iter,
      rl_put_u64 = (\<lambda>n. RlpData (be_min n)),
      rl_get_u64 = (\<lambda>bs. and_then (rlp_payload bs) (\<lambda>p. Inr (be_val p)))\<rparr>"

lemma rlp_prefix_span:
  assumes "n < 2 ^ 64" and "base = 0x80 \<or> base = 0xc0"
  shows "rlp_span (rlp_prefix base n @ p) = Some (length (rlp_prefix base n), length (rlp_prefix base n) + n)"
proof (cases "n < 56")
  case True
  then show ?thesis using assms(2) by (auto simp: rlp_prefix_def rlp_span_def unat_byte Let_def simp del: of_nat_add)
next
  case False
  have "length (be_min n) \<le> 8" using assms(1) by (intro length_be_min) simp
  moreover have "0 < length (be_min n)"
    using False be_val_be_min [of n] by (cases "be_min n") auto
  ultimately show ?thesis using assms(2) False
    by (auto simp: rlp_prefix_def rlp_span_def unat_byte Let_def simp del: of_nat_add)
qed

lemma length_rlp_prefix: "0 < length (rlp_prefix base n)"
  by (simp add: rlp_prefix_def)

lemma rlp_data_span:
  assumes "length (rlp_data b) < 2 ^ 64"
  shows "\<exists>i. rlp_span (rlp_data b @ rest) = Some (i, length (rlp_data b)) \<and> drop i (rlp_data b) = b"
proof (cases "length b = 1 \<and> b ! 0 < 0x80")
  case True
  then obtain c where "b = [c]" "c < 0x80" "unat c < 0x80" by (cases b) (auto simp: word_less_nat_alt)
  then show ?thesis by (simp add: rlp_data_def rlp_span_def)
next
  case False
  then have "length b < 2 ^ 64" using assms by (auto simp: rlp_data_def)
  with rlp_prefix_span [of "length b" "0x80" "b @ rest"] False show ?thesis by (auto simp: rlp_data_def)
qed

lemma rlp_list_span:
  assumes "length (rlp_out (RlpList xs)) < 2 ^ 64"
  shows "\<exists>i. rlp_span (rlp_out (RlpList xs) @ rest) = Some (i, length (rlp_out (RlpList xs))) \<and>
    drop i (rlp_out (RlpList xs)) = concat (map rlp_out xs)"
  using rlp_prefix_span [of "length (concat (map rlp_out xs))" "0xc0" "concat (map rlp_out xs) @ rest"] assms
  by (auto simp: Let_def)

lemma rlp_out_span:
  "length (rlp_out x) < 2 ^ 64 \<Longrightarrow> \<exists>i. rlp_span (rlp_out x @ rest) = Some (i, length (rlp_out x))"
  using rlp_data_span rlp_list_span by (cases x) fastforce+

lemma rlp_out_not_Nil: "rlp_out x \<noteq> []"
  using length_rlp_prefix by (cases x) (auto simp: rlp_data_def Let_def)

lemma rlp_items_step:
  "p \<noteq> [] \<Longrightarrow> rlp_span p = Some (i, j) \<Longrightarrow> j \<le> length p \<Longrightarrow>
    rlp_items (Suc f) p = and_then (rlp_items f (drop j p)) (\<lambda>rest. Inr (take j p # rest))"
  by (cases p) auto

lemma rlp_items_concat:
  "length (concat (map rlp_out xs)) < 2 ^ 64 \<Longrightarrow> length (concat (map rlp_out xs)) \<le> fuel \<Longrightarrow>
    rlp_items fuel (concat (map rlp_out xs)) = Inr (map rlp_out xs)"
proof (induction xs arbitrary: fuel)
  case (Cons x xs)
  let ?p = "concat (map rlp_out (x # xs))"
  from Cons.prems rlp_out_not_Nil [of x] obtain f where f: "fuel = Suc f" by (cases fuel) auto
  have "0 < length (rlp_out x)" using rlp_out_not_Nil [of x] by simp
  then have "length (concat (map rlp_out xs)) \<le> f" using Cons.prems(2) f by (simp only: list.map concat.simps length_append)
  then have rest: "rlp_items f (concat (map rlp_out xs)) = Inr (map rlp_out xs)"
    using Cons.IH Cons.prems(1) by simp
  obtain i where "rlp_span ?p = Some (i, length (rlp_out x))"
    using rlp_out_span [of x "concat (map rlp_out xs)"] Cons.prems(1) by auto
  then have "rlp_items (Suc f) ?p = Inr (map rlp_out (x # xs))"
    using rest rlp_out_not_Nil [of x] by (simp add: rlp_items_step)
  then show ?case by (simp only: f)
qed simp

lemma rlp_iter_list:
  "length (rlp_out (RlpList xs)) < 2 ^ 64 \<Longrightarrow> rlp_iter (rlp_out (RlpList xs)) = Inr (map rlp_out xs)"
  using rlp_list_span [of xs "[]"] rlp_items_concat [of xs]
  by (auto simp: rlp_iter_def rlp_payload_def Let_def)

lemma rlp_value_data: "length (rlp_out (RlpData b)) < 2 ^ 64 \<Longrightarrow> rlp_payload (rlp_out (RlpData b)) = Inr b"
  using rlp_data_span [of b "[]"] by (auto simp: rlp_payload_def)

lemma rlp_list_head:
  assumes "length (rlp_out (RlpList xs)) < 2 ^ 64"
  shows "\<exists>b bs. rlp_out (RlpList xs) = b # bs \<and> 0xc0 \<le> b"
proof -
  let ?n = "length (concat (map rlp_out xs))"
  have n: "?n < 2 ^ 64" using assms by (simp add: Let_def)
  have byte: "0xc0 \<le> (word_of_nat m :: u8)" if "0xc0 \<le> m" "m < 256" for m
    using that unat_byte [of m] by (simp add: word_le_nat_alt)
  have "length (be_min ?n) \<le> 8" using n by (intro length_be_min) simp
  then show ?thesis
    using byte [of "192 + ?n"] byte [of "247 + length (be_min ?n)"] by (auto simp: rlp_prefix_def Let_def simp del: of_nat_add length_concat)
qed

lemma rlp_item_shorter: "x \<in> set xs \<Longrightarrow> length (rlp_out x) < length (rlp_out (RlpList xs))"
proof -
  assume "x \<in> set xs"
  then have "length (rlp_out x) \<le> length (concat (map rlp_out xs))"
    by (induction xs) auto
  then show ?thesis
    using length_rlp_prefix [of "0xc0" "length (concat (map rlp_out xs))"]
    by (simp only: rlp_out.simps Let_def length_append)
qed

lemma rlp_std_laws: "rlp_laws rlp_std"
  unfolding rlp_laws_def
proof (intro conjI allI impI ballI)
  fix n :: nat
  assume n: "n < 2 ^ 64"
  then have "length (be_min n) \<le> 8" by (intro length_be_min) simp
  then have "length (rlp_data (be_min n)) < 2 ^ 64" by (simp add: rlp_data_def rlp_prefix_def)
  then show "rl_get_u64 rlp_std (rl_out rlp_std (rl_put_u64 rlp_std n)) = Inr n"
    using rlp_value_data [of "be_min n"] by (simp add: rlp_std_def)
qed (use rlp_list_head rlp_item_shorter rlp_value_data rlp_iter_list in \<open>simp_all add: rlp_std_def del: rlp_out.simps\<close>)

end
