(* ===== verification/Tx.thy ===== *)
theory Tx
  imports Rlp
begin

text \<open>
  Signed transactions, \<open>src/src/tx.rs\<close>: the three kinds of transaction and their RLP codecs, the trait \<open>TxLike\<close>,
  the signing hashes, and the recovery of the sender. The implementors of the trait are the cases of
  \<open>tx_like\<close>; the methods that only return a field are the fields of \<open>tx_view\<close>. \<open>#[derive(RlpEncodable,
  RlpDecodable)]\<close> makes a structure the list of its fields, read by index. The crates \<open>sha3\<close>, \<open>rlp\<close> and
  \<open>libsecp256k1\<close> are the parameter \<open>libs\<close>; \<open>tl_recover\<close> is the serialized public key recovered from the bytes of
  message, \<open>r\<close>, \<open>s\<close> and a recovery id, or \<open>None\<close> where one of the calls of that crate returns an error.
\<close>

record tx_libs =
  tl_keccak :: "bytes \<Rightarrow> hash"
  tl_rlp :: rlp_if
  tl_recover :: "bytes \<Rightarrow> bytes \<Rightarrow> bytes \<Rightarrow> nat \<Rightarrow> bytes option"

datatype tx_type = Legacy | AccessList | DynamicFee

fun tx_type_code :: "tx_type \<Rightarrow> u8" where
  "tx_type_code Legacy = 0"
| "tx_type_code AccessList = 1"
| "tx_type_code DynamicFee = 2"

datatype access_tuple = AccessTuple

record tx_legacy =
  lt_nonce :: nat
  lt_gas_price :: wei
  lt_gas :: gas
  lt_to :: "addr option"
  lt_value :: wei
  lt_data :: bytes
  lt_v :: u256
  lt_r :: u256
  lt_s :: u256

record tx_dynamic_fee =
  dt_chain_id :: u256
  dt_nonce :: nat
  dt_gas_tip_cap :: wei
  dt_gas_fee_cap :: wei
  dt_gas :: gas
  dt_to :: "addr option"
  dt_value :: wei
  dt_data :: bytes
  dt_access_list :: "access_tuple list"
  dt_v :: u256
  dt_r :: u256
  dt_s :: u256

record tx_access_list =
  at_chain_id :: u256
  at_nonce :: nat
  at_gas_price :: wei
  at_gas :: gas
  at_to :: "addr option"
  at_value :: wei
  at_data :: bytes
  at_access_list :: "access_tuple list"
  at_v :: u256
  at_r :: u256
  at_s :: u256

datatype tx_like = LegacyTx tx_legacy | AccessListTx tx_access_list | DynamicFeeTx tx_dynamic_fee

record tx =
  stx_inner :: tx_like
  stx_hash :: hash
  stx_from :: addr

section \<open>The fields\<close>

record tx_view =
  tv_type :: tx_type
  tv_access_list :: "access_tuple list option"
  tv_data :: bytes
  tv_gas :: gas
  tv_gas_fee_cap :: wei
  tv_gas_tip_cap :: wei
  tv_gas_price :: wei
  tv_value :: wei
  tv_nonce :: nat
  tv_to :: "addr option"
  tv_v :: u256
  tv_r :: u256
  tv_s :: u256

definition legacy_view :: "tx_legacy \<Rightarrow> tx_view" where
  "legacy_view tx =
     \<lparr>tv_type = Legacy, tv_access_list = None, tv_data = lt_data tx, tv_gas = lt_gas tx,
      tv_gas_fee_cap = lt_gas_price tx, tv_gas_tip_cap = lt_gas_price tx, tv_gas_price = lt_gas_price tx,
      tv_value = lt_value tx, tv_nonce = lt_nonce tx, tv_to = lt_to tx,
      tv_v = lt_v tx, tv_r = lt_r tx, tv_s = lt_s tx\<rparr>"

definition dynamic_fee_view :: "tx_dynamic_fee \<Rightarrow> tx_view" where
  "dynamic_fee_view tx =
     \<lparr>tv_type = DynamicFee, tv_access_list = Some (dt_access_list tx), tv_data = dt_data tx, tv_gas = dt_gas tx,
      tv_gas_fee_cap = dt_gas_fee_cap tx, tv_gas_tip_cap = dt_gas_tip_cap tx, tv_gas_price = dt_gas_fee_cap tx,
      tv_value = dt_value tx, tv_nonce = dt_nonce tx, tv_to = dt_to tx,
      tv_v = dt_v tx, tv_r = dt_r tx, tv_s = dt_s tx\<rparr>"

definition access_list_view :: "tx_access_list \<Rightarrow> tx_view" where
  "access_list_view tx =
     \<lparr>tv_type = AccessList, tv_access_list = Some (at_access_list tx), tv_data = at_data tx, tv_gas = at_gas tx,
      tv_gas_fee_cap = at_gas_price tx, tv_gas_tip_cap = at_gas_price tx, tv_gas_price = at_gas_price tx,
      tv_value = at_value tx, tv_nonce = at_nonce tx, tv_to = at_to tx,
      tv_v = at_v tx, tv_r = at_r tx, tv_s = at_s tx\<rparr>"

fun tx_view_of :: "tx_like \<Rightarrow> tx_view" where
  "tx_view_of (LegacyTx tx) = legacy_view tx"
| "tx_view_of (AccessListTx tx) = access_list_view tx"
| "tx_view_of (DynamicFeeTx tx) = dynamic_fee_view tx"

section \<open>Chain ids\<close>

text \<open>The \<open>-\<close> of \<open>U256\<close> panics on underflow.\<close>

definition u256_sub :: "u256 \<Rightarrow> u256 \<Rightarrow> u256 option" where
  "u256_sub a b = (if b \<le> a then Some (a - b) else None)"

definition derive_chain_id :: "tx_legacy \<Rightarrow> ('s, u256) exec" where
  "derive_chain_id tx =
     (let v = lt_v tx
      in if u256_bits v \<le> 64 then
           let v = low_u64 v
           in if v = 27 \<or> v = 28 then ret 0
              else bind (u64_sub v 35) (\<lambda>d. ret (word_of_nat (d div 2)))
         else bind (unwrap (u256_sub v 35)) (\<lambda>d. ret (d div 2)))"

fun tx_chain_id :: "tx_like \<Rightarrow> ('s, u256) exec" where
  "tx_chain_id (LegacyTx tx) = derive_chain_id tx"
| "tx_chain_id (AccessListTx tx) = ret (at_chain_id tx)"
| "tx_chain_id (DynamicFeeTx tx) = ret (dt_chain_id tx)"

definition legacy_protected :: "tx_legacy \<Rightarrow> bool" where
  "legacy_protected tx =
     (let v = lt_v tx
      in if u256_bits v \<le> 8 then let v = low_u64 v in v \<noteq> 27 \<and> v \<noteq> 28 \<and> v \<noteq> 1 \<and> v \<noteq> 0
         else True)"

fun tx_protected :: "tx_like \<Rightarrow> bool" where
  "tx_protected (LegacyTx tx) = legacy_protected tx"
| "tx_protected (AccessListTx tx) = True"
| "tx_protected (DynamicFeeTx tx) = True"

section \<open>Signing hashes\<close>

definition to_item :: "addr option \<Rightarrow> rlp_item" where
  "to_item a = (case a of Some addr \<Rightarrow> addr_rlp_append addr | None \<Rightarrow> RlpData [])"

definition access_list_encoder :: "access_tuple list \<Rightarrow> rlp_item" where
  "access_list_encoder al = RlpList (map (\<lambda>_. RlpList []) al)"

definition legacy_sig_hash :: "tx_libs \<Rightarrow> tx_legacy \<Rightarrow> u256 \<Rightarrow> hash" where
  "legacy_sig_hash libs tx chain_id =
     (let u64 = rl_put_u64 (tl_rlp libs)
      in tl_keccak libs (rl_out (tl_rlp libs) (RlpList
           [u64 (lt_nonce tx), uint_rlp_append (lt_gas_price tx), u64 (lt_gas tx), to_item (lt_to tx),
            uint_rlp_append (lt_value tx), bytes_rlp_append (lt_data tx), uint_rlp_append chain_id,
            u64 0, u64 0])))"

definition dynamic_fee_sig_hash :: "tx_libs \<Rightarrow> tx_dynamic_fee \<Rightarrow> u256 \<Rightarrow> hash" where
  "dynamic_fee_sig_hash libs tx chain_id =
     (let u64 = rl_put_u64 (tl_rlp libs)
      in tl_keccak libs ([tx_type_code DynamicFee] @ rl_out (tl_rlp libs) (RlpList
           [uint_rlp_append chain_id, u64 (dt_nonce tx), uint_rlp_append (dt_gas_tip_cap tx),
            uint_rlp_append (dt_gas_fee_cap tx), u64 (dt_gas tx), to_item (dt_to tx),
            uint_rlp_append (dt_value tx), bytes_rlp_append (dt_data tx), access_list_encoder (dt_access_list tx)])))"

definition access_list_sig_hash :: "tx_libs \<Rightarrow> tx_access_list \<Rightarrow> u256 \<Rightarrow> hash" where
  "access_list_sig_hash libs tx chain_id =
     (let u64 = rl_put_u64 (tl_rlp libs)
      in tl_keccak libs ([tx_type_code AccessList] @ rl_out (tl_rlp libs) (RlpList
           [uint_rlp_append chain_id, u64 (at_nonce tx), uint_rlp_append (at_gas_price tx), u64 (at_gas tx),
            to_item (at_to tx), uint_rlp_append (at_value tx), bytes_rlp_append (at_data tx),
            access_list_encoder (at_access_list tx)])))"

fun tx_sig_hash :: "tx_libs \<Rightarrow> tx_like \<Rightarrow> u256 \<Rightarrow> hash" where
  "tx_sig_hash libs (LegacyTx tx) chain_id = legacy_sig_hash libs tx chain_id"
| "tx_sig_hash libs (AccessListTx tx) chain_id = access_list_sig_hash libs tx chain_id"
| "tx_sig_hash libs (DynamicFeeTx tx) chain_id = dynamic_fee_sig_hash libs tx chain_id"

section \<open>The sender\<close>

definition secp256k1_n :: u256 where
  "secp256k1_n = 0xfffffffffffffffffffffffffffffffebaaedce6af48a03bbfd25e8cd0364141"

definition secp256k1_half_n :: u256 where
  "secp256k1_half_n = secp256k1_n div 2"

definition recover_plain :: "tx_libs \<Rightarrow> hash \<Rightarrow> u256 \<Rightarrow> u256 \<Rightarrow> u256 \<Rightarrow> bool \<Rightarrow> ('s, addr option) exec" where
  "recover_plain libs tx_hash r s vb homestead =
     (if u256_bits vb > 8 then ret None
      else bind (u64_sub (low_u64 vb) 27) (\<lambda>v.
        if r < 1 \<or> s < 1 then ret None
        else if homestead \<and> s > secp256k1_half_n then ret None
        else if r \<ge> secp256k1_n \<or> s \<ge> secp256k1_n \<or> (v \<noteq> 0 \<and> v \<noteq> 1) then ret None
        else case tl_recover libs (hash_as_bytes tx_hash) (to_big_endian r) (to_big_endian s) v of
               None \<Rightarrow> ret None
             | Some pubkey \<Rightarrow>
                 if pubkey ! 0 = 4
                 then ret (Some (addr_from_slice (drop 12 (hash_as_bytes (tl_keccak libs (drop 1 pubkey))))))
                 else panic))"

definition recover_sender :: "tx_libs \<Rightarrow> tx_like \<Rightarrow> u256 \<Rightarrow> ('s, addr option) exec" where
  "recover_sender libs tx chain_id =
     bind (tx_chain_id tx) (\<lambda>id.
     if id \<noteq> chain_id then ret None
     else
       let t = tx_view_of tx; u64 = rl_put_u64 (tl_rlp libs); v = tv_v t; r = tv_r t; s = tv_s t
       in if tv_type t = DynamicFee \<or> tv_type t = AccessList then
            bind (unwrap (u256_add v 27)) (\<lambda>v. recover_plain libs (tx_sig_hash libs tx chain_id) r s v True)
          else if \<not> tx_protected tx then
            let stream = RlpList
                  [u64 (tv_nonce t), uint_rlp_append (tv_gas_price t), u64 (tv_gas t), to_item (tv_to t),
                   uint_rlp_append (tv_value t), bytes_rlp_append (tv_data t)];
                sig_hash = tl_keccak libs ([tx_type_code (tv_type t)] @ rl_out (tl_rlp libs) stream)
            in recover_plain libs sig_hash r s v True
          else
            let cm = push_bit 1 chain_id
            in bind (unwrap (u256_sub v cm)) (\<lambda>v.
               bind (unwrap (u256_sub v 8)) (\<lambda>v.
               recover_plain libs (tx_sig_hash libs tx chain_id) r s v True)))"

definition tx_new :: "tx_libs \<Rightarrow> tx_like \<Rightarrow> hash \<Rightarrow> u256 \<Rightarrow> ('s, tx option) exec" where
  "tx_new libs tx hash chain_id =
     bind (recover_sender libs tx chain_id) (\<lambda>from.
     ret (case from of None \<Rightarrow> None | Some a \<Rightarrow> Some \<lparr>stx_inner = tx, stx_hash = hash, stx_from = a\<rparr>))"

section \<open>Encoding and decoding\<close>

definition legacy_append :: "rlp_if \<Rightarrow> tx_legacy \<Rightarrow> rlp_item" where
  "legacy_append rl tx = RlpList
     [rl_put_u64 rl (lt_nonce tx), uint_rlp_append (lt_gas_price tx), rl_put_u64 rl (lt_gas tx),
      nullable_addr_append (lt_to tx), uint_rlp_append (lt_value tx), bytes_rlp_append (lt_data tx),
      uint_rlp_append (lt_v tx), uint_rlp_append (lt_r tx), uint_rlp_append (lt_s tx)]"

definition dynamic_fee_append :: "rlp_if \<Rightarrow> tx_dynamic_fee \<Rightarrow> rlp_item" where
  "dynamic_fee_append rl tx = RlpList
     [uint_rlp_append (dt_chain_id tx), rl_put_u64 rl (dt_nonce tx), uint_rlp_append (dt_gas_tip_cap tx),
      uint_rlp_append (dt_gas_fee_cap tx), rl_put_u64 rl (dt_gas tx), nullable_addr_append (dt_to tx),
      uint_rlp_append (dt_value tx), bytes_rlp_append (dt_data tx), RlpList (map (\<lambda>_. RlpList []) (dt_access_list tx)),
      uint_rlp_append (dt_v tx), uint_rlp_append (dt_r tx), uint_rlp_append (dt_s tx)]"

definition access_list_append :: "rlp_if \<Rightarrow> tx_access_list \<Rightarrow> rlp_item" where
  "access_list_append rl tx = RlpList
     [uint_rlp_append (at_chain_id tx), rl_put_u64 rl (at_nonce tx), uint_rlp_append (at_gas_price tx),
      rl_put_u64 rl (at_gas tx), nullable_addr_append (at_to tx),
      uint_rlp_append (at_value tx), bytes_rlp_append (at_data tx), RlpList (map (\<lambda>_. RlpList []) (at_access_list tx)),
      uint_rlp_append (at_v tx), uint_rlp_append (at_r tx), uint_rlp_append (at_s tx)]"

text \<open>\<open>Rlp::val_at\<close> and \<open>Rlp::list_at\<close>, the calls the derived decoders are made of.\<close>

definition val_at :: "rlp_if \<Rightarrow> (bytes \<Rightarrow> 'a decoded) \<Rightarrow> bytes \<Rightarrow> nat \<Rightarrow> 'a decoded" where
  "val_at rl dec rlp i = and_then (rl_at rl rlp i) dec"

definition access_tuples_at :: "rlp_if \<Rightarrow> bytes \<Rightarrow> nat \<Rightarrow> access_tuple list decoded" where
  "access_tuples_at rl rlp i = and_then (rl_at rl rlp i) (\<lambda>l.
     and_then (rl_iter rl l) (\<lambda>items. Inr (map (\<lambda>_. AccessTuple) items)))"

definition legacy_decode :: "rlp_if \<Rightarrow> bytes \<Rightarrow> tx_legacy decoded" where
  "legacy_decode rl rlp =
     and_then (val_at rl (rl_get_u64 rl) rlp 0) (\<lambda>nonce.
     and_then (val_at rl (uint_rlp_decode rl) rlp 1) (\<lambda>gas_price.
     and_then (val_at rl (rl_get_u64 rl) rlp 2) (\<lambda>gas.
     and_then (val_at rl (nullable_addr_decode rl) rlp 3) (\<lambda>to.
     and_then (val_at rl (uint_rlp_decode rl) rlp 4) (\<lambda>value.
     and_then (val_at rl (bytes_rlp_decode rl) rlp 5) (\<lambda>data.
     and_then (val_at rl (uint_rlp_decode rl) rlp 6) (\<lambda>v.
     and_then (val_at rl (uint_rlp_decode rl) rlp 7) (\<lambda>r.
     and_then (val_at rl (uint_rlp_decode rl) rlp 8) (\<lambda>s.
     Inr \<lparr>lt_nonce = nonce, lt_gas_price = gas_price, lt_gas = gas, lt_to = to, lt_value = value,
          lt_data = data, lt_v = v, lt_r = r, lt_s = s\<rparr>)))))))))"

definition dynamic_fee_decode :: "rlp_if \<Rightarrow> bytes \<Rightarrow> tx_dynamic_fee decoded" where
  "dynamic_fee_decode rl rlp =
     and_then (val_at rl (uint_rlp_decode rl) rlp 0) (\<lambda>chain_id.
     and_then (val_at rl (rl_get_u64 rl) rlp 1) (\<lambda>nonce.
     and_then (val_at rl (uint_rlp_decode rl) rlp 2) (\<lambda>tip.
     and_then (val_at rl (uint_rlp_decode rl) rlp 3) (\<lambda>fee.
     and_then (val_at rl (rl_get_u64 rl) rlp 4) (\<lambda>gas.
     and_then (val_at rl (nullable_addr_decode rl) rlp 5) (\<lambda>to.
     and_then (val_at rl (uint_rlp_decode rl) rlp 6) (\<lambda>value.
     and_then (val_at rl (bytes_rlp_decode rl) rlp 7) (\<lambda>data.
     and_then (access_tuples_at rl rlp 8) (\<lambda>al.
     and_then (val_at rl (uint_rlp_decode rl) rlp 9) (\<lambda>v.
     and_then (val_at rl (uint_rlp_decode rl) rlp 10) (\<lambda>r.
     and_then (val_at rl (uint_rlp_decode rl) rlp 11) (\<lambda>s.
     Inr \<lparr>dt_chain_id = chain_id, dt_nonce = nonce, dt_gas_tip_cap = tip, dt_gas_fee_cap = fee, dt_gas = gas,
          dt_to = to, dt_value = value, dt_data = data, dt_access_list = al, dt_v = v, dt_r = r, dt_s = s\<rparr>))))))))))))"

definition access_list_decode :: "rlp_if \<Rightarrow> bytes \<Rightarrow> tx_access_list decoded" where
  "access_list_decode rl rlp =
     and_then (val_at rl (uint_rlp_decode rl) rlp 0) (\<lambda>chain_id.
     and_then (val_at rl (rl_get_u64 rl) rlp 1) (\<lambda>nonce.
     and_then (val_at rl (uint_rlp_decode rl) rlp 2) (\<lambda>gas_price.
     and_then (val_at rl (rl_get_u64 rl) rlp 3) (\<lambda>gas.
     and_then (val_at rl (nullable_addr_decode rl) rlp 4) (\<lambda>to.
     and_then (val_at rl (uint_rlp_decode rl) rlp 5) (\<lambda>value.
     and_then (val_at rl (bytes_rlp_decode rl) rlp 6) (\<lambda>data.
     and_then (access_tuples_at rl rlp 7) (\<lambda>al.
     and_then (val_at rl (uint_rlp_decode rl) rlp 8) (\<lambda>v.
     and_then (val_at rl (uint_rlp_decode rl) rlp 9) (\<lambda>r.
     and_then (val_at rl (uint_rlp_decode rl) rlp 10) (\<lambda>s.
     Inr \<lparr>at_chain_id = chain_id, at_nonce = nonce, at_gas_price = gas_price, at_gas = gas,
          at_to = to, at_value = value, at_data = data, at_access_list = al, at_v = v, at_r = r, at_s = s\<rparr>)))))))))))"

definition TX_ACCESS_LIST :: u8 where "TX_ACCESS_LIST = 1"

definition TX_DYNAMIC_FEE :: u8 where "TX_DYNAMIC_FEE = 2"

fun tx_encode :: "tx_libs \<Rightarrow> tx_like \<Rightarrow> bytes" where
  "tx_encode libs (LegacyTx tx) = rl_out (tl_rlp libs) (legacy_append (tl_rlp libs) tx)"
| "tx_encode libs (AccessListTx tx) = [TX_ACCESS_LIST] @ rl_out (tl_rlp libs) (access_list_append (tl_rlp libs) tx)"
| "tx_encode libs (DynamicFeeTx tx) = [TX_DYNAMIC_FEE] @ rl_out (tl_rlp libs) (dynamic_fee_append (tl_rlp libs) tx)"

text \<open>\<open>ok().and_then(..)\<close>: a decoding error is \<open>None\<close>.\<close>

definition tx_decoded :: "tx_libs \<Rightarrow> tx_like decoded \<Rightarrow> hash \<Rightarrow> u256 \<Rightarrow> ('s, tx option) exec" where
  "tx_decoded libs t hash chain_id = (case t of Inl _ \<Rightarrow> ret None | Inr tx \<Rightarrow> tx_new libs tx hash chain_id)"

definition tx_decode :: "tx_libs \<Rightarrow> bytes \<Rightarrow> u256 \<Rightarrow> ('s, tx option) exec" where
  "tx_decode libs bytes chain_id =
     (let rl = tl_rlp libs; hash = tl_keccak libs bytes
      in if rl_is_list rl bytes then
           tx_decoded libs (and_then (legacy_decode rl bytes) (\<lambda>tx. Inr (LegacyTx tx))) hash chain_id
         else if rl_is_data rl bytes then
           if length bytes = 0 then ret None
           else let rlp = drop 1 bytes
             in if bytes ! 0 = TX_ACCESS_LIST then
                  tx_decoded libs (and_then (access_list_decode rl rlp) (\<lambda>tx. Inr (AccessListTx tx))) hash chain_id
                else if bytes ! 0 = TX_DYNAMIC_FEE then
                  tx_decoded libs (and_then (dynamic_fee_decode rl rlp) (\<lambda>tx. Inr (DynamicFeeTx tx))) hash chain_id
                else ret None
         else ret None)"

section \<open>What the sender is\<close>

lemma nat_bits_le_iff: "nat_bits n \<le> k \<longleftrightarrow> n < 2 ^ k"
proof
  assume "nat_bits n \<le> k"
  then have "(2::nat) ^ nat_bits n \<le> 2 ^ k" by (rule power_increasing) simp
  then show "n < 2 ^ k" using nat_less_bits [of n] by linarith
qed (rule nat_bits_le)

text \<open>The signature checks of the Homestead rules, then the address of the recovered key.\<close>

definition recovered :: "tx_libs \<Rightarrow> hash \<Rightarrow> u256 \<Rightarrow> u256 \<Rightarrow> nat \<Rightarrow> ('s, addr option) exec" where
  "recovered libs h r s recid =
     (if 0 < r \<and> r < secp256k1_n \<and> 0 < s \<and> s \<le> secp256k1_half_n then
        case tl_recover libs (hash_as_bytes h) (to_big_endian r) (to_big_endian s) recid of
          None \<Rightarrow> ret None
        | Some pubkey \<Rightarrow>
            if pubkey ! 0 = 4
            then ret (Some (addr_from_slice (drop 12 (hash_as_bytes (tl_keccak libs (drop 1 pubkey))))))
            else panic
      else ret None)"

lemma half_n_less: "s \<le> secp256k1_half_n \<Longrightarrow> s < secp256k1_n"
proof -
  have "secp256k1_half_n < secp256k1_n" by (simp add: secp256k1_half_n_def secp256k1_n_def)
  then show "s \<le> secp256k1_half_n \<Longrightarrow> s < secp256k1_n" by simp
qed

lemma recover_plain_eq:
  "recover_plain libs h r s vb True =
     (if 256 \<le> unat vb then ret None
      else if unat vb < 27 then panic
      else if unat vb \<le> 28 then recovered libs h r s (unat vb - 27) else ret None)"
proof -
  have bits: "u256_bits vb > 8 \<longleftrightarrow> 256 \<le> unat vb"
    using nat_bits_le_iff [of "unat vb" 8] by (auto simp: u256_bits_def)
  have low: "low_u64 vb = unat vb" if "unat vb < 256" using that by (simp add: low_u64_def)
  have rs: "r < 1 \<longleftrightarrow> \<not> 0 < r" "s < 1 \<longleftrightarrow> \<not> 0 < s"
    by (simp_all add: word_less_nat_alt)
  have checks: "(if r < 1 \<or> s < 1 then a else if True \<and> s > secp256k1_half_n then a
      else if r \<ge> secp256k1_n \<or> s \<ge> secp256k1_n \<or> (v \<noteq> 0 \<and> v \<noteq> 1) then a else b) =
    (if v \<le> 1 then if 0 < r \<and> r < secp256k1_n \<and> 0 < s \<and> s \<le> secp256k1_half_n then b else a else a)"
    for v :: nat and a b :: "('s, addr option) exec"
    using half_n_less [of s] unfolding rs by (auto simp: not_le not_less)
  show ?thesis
    unfolding recover_plain_def checks recovered_def bits
    by (cases "256 \<le> unat vb"; cases "unat vb < 27") (simp_all add: low u64_sub_def le_diff_conv)
qed

lemma u256_sub_Some: "u256_sub a b = Some c \<longleftrightarrow> b \<le> a \<and> c = a - b"
  by (auto simp: u256_sub_def)

lemma derive_chain_id_eq:
  "derive_chain_id tx =
     (if lt_v tx = 27 \<or> lt_v tx = 28 then ret 0
      else if unat (lt_v tx) < 35 then panic
      else ret (word_of_nat ((unat (lt_v tx) - 35) div 2)))"
proof -
  let ?v = "lt_v tx"
  have bits: "u256_bits ?v \<le> 64 \<longleftrightarrow> unat ?v < 2 ^ 64" by (simp add: u256_bits_def nat_bits_le_iff)
  have eqs: "?v = 27 \<longleftrightarrow> unat ?v = 27" "?v = 28 \<longleftrightarrow> unat ?v = 28"
    by (auto simp: word_unat_eq_iff)
  have low: "unat ?v < 2 ^ 64 \<Longrightarrow> low_u64 ?v = unat ?v" by (simp add: low_u64_def)
  have big: "(?v - 35) div 2 = word_of_nat ((unat ?v - 35) div 2)" if "35 \<le> unat ?v"
  proof -
    have "(unat ?v - 35) div 2 < 2 ^ 256" using unsigned_less [of ?v, where 'a = nat] by simp
    then show ?thesis using that
      by (simp add: word_unat_eq_iff unat_div unat_sub word_le_nat_alt unat_of_nat)
  qed
  show ?thesis
  proof (cases "unat ?v < 2 ^ 64")
    case True
    then show ?thesis unfolding eqs by (auto simp: derive_chain_id_def Let_def bits low u64_sub_def)
  next
    case False
    then show ?thesis unfolding eqs
      by (auto simp: derive_chain_id_def Let_def bits u256_sub_def big word_le_nat_alt unwrap_def)
  qed
qed

text \<open>The bytes an unprotected legacy transaction is hashed over.\<close>

definition homestead_hash :: "tx_libs \<Rightarrow> tx_legacy \<Rightarrow> hash" where
  "homestead_hash libs tx =
     (let u64 = rl_put_u64 (tl_rlp libs)
      in tl_keccak libs ([0] @ rl_out (tl_rlp libs) (RlpList
           [u64 (lt_nonce tx), uint_rlp_append (lt_gas_price tx), u64 (lt_gas tx), to_item (lt_to tx),
            uint_rlp_append (lt_value tx), bytes_rlp_append (lt_data tx)])))"

lemma legacy_protected_iff:
  "legacy_protected tx \<longleftrightarrow> unat (lt_v tx) \<notin> {0, 1, 27, 28}"
  by (auto simp: legacy_protected_def Let_def u256_bits_def nat_bits_le_iff low_u64_def)

text \<open>The recovery id of a protected transaction is the parity that EIP-155 puts into \<open>v\<close>.\<close>

lemma protected_recovery_id:
  fixes v chain_id :: u256
  assumes v: "35 \<le> unat v" and id: "unat chain_id = (unat v - 35) div 2"
  shows "push_bit 1 chain_id \<le> v \<and> 8 \<le> v - push_bit 1 chain_id \<and>
    unat (v - push_bit 1 chain_id - 8) = 27 + (unat v - 35) mod 2"
proof -
  have v256: "unat v < 2 ^ 256" by (rule unat_u256_less)
  have "unat (push_bit 1 chain_id) = 2 * unat chain_id mod 2 ^ 256"
    by (simp add: push_bit_eq_mult unat_word_ariths mult.commute)
  then have p: "unat (push_bit 1 chain_id) = 2 * ((unat v - 35) div 2)" using v256 id by simp
  then have le: "push_bit 1 chain_id \<le> v" using v unfolding word_le_nat_alt by linarith
  then have s: "unat (v - push_bit 1 chain_id) = 35 + (unat v - 35) mod 2"
    using p v div_mult_mod_eq [of "unat v - 35" 2] unfolding unat_sub [OF le] by linarith
  then have "8 \<le> v - push_bit 1 chain_id" by (simp add: word_le_nat_alt)
  then show ?thesis using le s by (simp add: unat_sub)
qed

lemma recover_typed:
  "bind (unwrap (u256_add v 27)) (\<lambda>v. recover_plain libs h r s v True) =
     (if 2 ^ 256 - 27 \<le> unat v then panic
      else if unat v \<le> 1 then recovered libs h r s (unat v) else ret None)"
proof (cases "unat v + 27 < 2 ^ 256")
  case True
  then have "unat (v + 27) = unat v + 27" by (simp add: unat_word_ariths)
  with True show ?thesis by (auto simp: u256_add_def unwrap_def recover_plain_eq)
next
  case False
  then show ?thesis by (simp add: u256_add_def unwrap_def)
qed

lemma recover_legacy:
  "recover_sender libs (LegacyTx l) chain_id =
     (let v = unat (lt_v l)
      in if v = 27 \<or> v = 28 then
           if chain_id = 0 then recovered libs (homestead_hash libs l) (lt_r l) (lt_s l) (v - 27) else ret None
         else if v < 35 then panic
         else if unat chain_id = (v - 35) div 2 then
           recovered libs (legacy_sig_hash libs l chain_id) (lt_r l) (lt_s l) ((v - 35) mod 2)
         else ret None)"
proof -
  let ?v = "lt_v l"
  have eqs: "?v = 27 \<longleftrightarrow> unat ?v = 27" "?v = 28 \<longleftrightarrow> unat ?v = 28" by (auto simp: word_unat_eq_iff)
  consider (old) "unat ?v = 27 \<or> unat ?v = 28" | (bad) "unat ?v < 35" "unat ?v \<noteq> 27" "unat ?v \<noteq> 28" | (new) "35 \<le> unat ?v"
    by linarith
  then show ?thesis
  proof cases
    case old
    then show ?thesis
      by (auto simp: recover_sender_def derive_chain_id_eq eqs legacy_protected_iff legacy_view_def Let_def
          recover_plain_eq homestead_hash_def)
  next
    case bad
    then show ?thesis by (auto simp: recover_sender_def derive_chain_id_eq eqs)
  next
    case new
    have "(unat ?v - 35) div 2 < 2 ^ 256" using unat_u256_less [of ?v] by linarith
    then have id: "word_of_nat ((unat ?v - 35) div 2) = chain_id \<longleftrightarrow> unat chain_id = (unat ?v - 35) div 2"
      by (auto simp: word_unat_eq_iff unat_of_nat)
    show ?thesis
    proof (cases "unat chain_id = (unat ?v - 35) div 2")
      case True
      have "(unat ?v - 35) mod 2 \<le> Suc 0" by linarith
      with protected_recovery_id [OF new True] new True id show ?thesis
        by (simp add: recover_sender_def derive_chain_id_eq eqs legacy_protected_iff legacy_view_def Let_def
            u256_sub_def unwrap_def recover_plain_eq)
    next
      case False
      with new id show ?thesis by (simp add: recover_sender_def derive_chain_id_eq eqs)
    qed
  qed
qed

text \<open>
  C16. The sender of a transaction. A legacy transaction with \<open>v\<close> 27 or 28 belongs to chain 0, one with \<open>v\<close> from 35 on to
  chain \<open>(v - 35) / 2\<close>, with \<open>v - 35\<close> modulo 2 as recovery id (EIP-155), and any other \<open>v\<close> makes \<open>recover_sender\<close> panic.
  A typed transaction belongs to the chain it names, with \<open>v\<close> itself as recovery id; a \<open>v\<close> so large that adding
  27 overflows panics. On another chain, and when \<open>r\<close> or \<open>s\<close> is out of range or \<open>s\<close> is in the
  upper half of the group order, there is no sender.
\<close>

theorem recover_sender_functional:
  "recover_sender libs (LegacyTx l) chain_id =
     (let v = unat (lt_v l)
      in if v = 27 \<or> v = 28 then
           if chain_id = 0 then recovered libs (homestead_hash libs l) (lt_r l) (lt_s l) (v - 27) else ret None
         else if v < 35 then panic
         else if unat chain_id = (v - 35) div 2 then
           recovered libs (legacy_sig_hash libs l chain_id) (lt_r l) (lt_s l) ((v - 35) mod 2)
         else ret None) \<and>
   recover_sender libs (AccessListTx a) chain_id =
     (if at_chain_id a \<noteq> chain_id then ret None
      else if 2 ^ 256 - 27 \<le> unat (at_v a) then panic
      else if unat (at_v a) \<le> 1 then
        recovered libs (access_list_sig_hash libs a chain_id) (at_r a) (at_s a) (unat (at_v a))
      else ret None) \<and>
   recover_sender libs (DynamicFeeTx d) chain_id =
     (if dt_chain_id d \<noteq> chain_id then ret None
      else if 2 ^ 256 - 27 \<le> unat (dt_v d) then panic
      else if unat (dt_v d) \<le> 1 then
        recovered libs (dynamic_fee_sig_hash libs d chain_id) (dt_r d) (dt_s d) (unat (dt_v d))
      else ret None)"
  unfolding recover_legacy
  by (simp add: recover_sender_def Let_def access_list_view_def dynamic_fee_view_def recover_typed)

section \<open>Round trip\<close>

fun tx_u64_fields :: "tx_like \<Rightarrow> bool" where
  "tx_u64_fields (LegacyTx tx) \<longleftrightarrow> lt_nonce tx < 2 ^ 64 \<and> lt_gas tx < 2 ^ 64"
| "tx_u64_fields (AccessListTx tx) \<longleftrightarrow> at_nonce tx < 2 ^ 64 \<and> at_gas tx < 2 ^ 64"
| "tx_u64_fields (DynamicFeeTx tx) \<longleftrightarrow> dt_nonce tx < 2 ^ 64 \<and> dt_gas tx < 2 ^ 64"

lemma val_at_out:
  "rlp_laws rl \<Longrightarrow> length (rl_out rl (RlpList xs)) < 2 ^ 64 \<Longrightarrow> i < length xs \<Longrightarrow>
    val_at rl dec (rl_out rl (RlpList xs)) i = dec (rl_out rl (xs ! i))"
  by (simp add: val_at_def rlp_at_out)

lemma access_tuples_id: "map (\<lambda>_. AccessTuple) al = al"
proof (induction al)
  case (Cons a al)
  then show ?case by (cases a) simp
qed simp

lemma access_tuples_at_out:
  assumes "rlp_laws rl" and "length (rl_out rl (RlpList xs)) < 2 ^ 64" and "i < length xs"
    and "xs ! i = RlpList (map (\<lambda>_. RlpList []) al)"
  shows "access_tuples_at rl (rl_out rl (RlpList xs)) i = Inr al"
proof -
  have "length (rl_out rl (xs ! i)) < 2 ^ 64" using assms rlp_item_less nth_mem by blast
  then have "rl_iter rl (rl_out rl (xs ! i)) = Inr (map (rl_out rl) (map (\<lambda>_. RlpList []) al))"
    using rlp_iter_out [OF assms(1)] assms(4) by simp
  then show ?thesis
    using rlp_at_out [OF assms(1,2,3)] by (simp add: access_tuples_at_def comp_def access_tuples_id)
qed

lemma rlp_items_less:
  "rlp_laws rl \<Longrightarrow> length (rl_out rl (RlpList xs)) < 2 ^ 64 \<Longrightarrow> \<forall>x\<in>set xs. length (rl_out rl x) < 2 ^ 64"
  using rlp_item_less by blast

lemma legacy_roundtrip:
  assumes laws: "rlp_laws rl" and len: "length (rl_out rl (legacy_append rl tx)) < 2 ^ 64"
    and u64: "lt_nonce tx < 2 ^ 64" "lt_gas tx < 2 ^ 64"
  shows "legacy_decode rl (rl_out rl (legacy_append rl tx)) = Inr tx"
  using rlp_items_less [OF laws len [unfolded legacy_append_def]] u64 unfolding legacy_decode_def legacy_append_def
  by (simp add: val_at_out [OF laws len [unfolded legacy_append_def]] rlp_u64_out [OF laws] rlp_roundtrip [OF laws])

lemma access_list_roundtrip:
  assumes laws: "rlp_laws rl" and len: "length (rl_out rl (access_list_append rl tx)) < 2 ^ 64"
    and u64: "at_nonce tx < 2 ^ 64" "at_gas tx < 2 ^ 64"
  shows "access_list_decode rl (rl_out rl (access_list_append rl tx)) = Inr tx"
  using rlp_items_less [OF laws len [unfolded access_list_append_def]] u64
  unfolding access_list_decode_def access_list_append_def
  by (simp add: val_at_out [OF laws len [unfolded access_list_append_def]] rlp_u64_out [OF laws] rlp_roundtrip [OF laws]
      access_tuples_at_out [OF laws len [unfolded access_list_append_def]])

lemma dynamic_fee_roundtrip:
  assumes laws: "rlp_laws rl" and len: "length (rl_out rl (dynamic_fee_append rl tx)) < 2 ^ 64"
    and u64: "dt_nonce tx < 2 ^ 64" "dt_gas tx < 2 ^ 64"
  shows "dynamic_fee_decode rl (rl_out rl (dynamic_fee_append rl tx)) = Inr tx"
  using rlp_items_less [OF laws len [unfolded dynamic_fee_append_def]] u64
  unfolding dynamic_fee_decode_def dynamic_fee_append_def
  by (simp add: val_at_out [OF laws len [unfolded dynamic_fee_append_def]] rlp_u64_out [OF laws] rlp_roundtrip [OF laws]
      access_tuples_at_out [OF laws len [unfolded dynamic_fee_append_def]])

lemma tx_decode_of_encode:
  assumes laws: "rlp_laws (tl_rlp libs)" and u64: "tx_u64_fields tx" and len: "length (tx_encode libs tx) < 2 ^ 64"
  shows "tx_decode libs (tx_encode libs tx) chain_id =
     bind (recover_sender libs tx chain_id) (\<lambda>from. ret (map_option (\<lambda>a.
       \<lparr>stx_inner = tx, stx_hash = tl_keccak libs (tx_encode libs tx), stx_from = a\<rparr>) from))"
proof -
  have opt: "(case from of None \<Rightarrow> None | Some a \<Rightarrow> Some (f a)) = map_option f from" for f :: "addr \<Rightarrow> tx" and "from"
    by (cases "from") simp_all
  show ?thesis
  proof (cases tx)
    case (LegacyTx l)
    have "rl_is_list (tl_rlp libs) (rl_out (tl_rlp libs) (legacy_append (tl_rlp libs) l))"
      using rlp_list_is_list [OF laws] len LegacyTx by (simp add: legacy_append_def)
    with LegacyTx u64 len legacy_roundtrip [OF laws, of l] show ?thesis
      by (simp add: tx_decode_def tx_decoded_def tx_new_def opt Let_def)
  next
    case (AccessListTx a)
    moreover have "\<not> (0xc0::u8) \<le> 1" by (simp add: word_le_nat_alt)
    ultimately show ?thesis
      using u64 len access_list_roundtrip [OF laws, of a]
      by (simp add: tx_decode_def tx_decoded_def tx_new_def opt rlp_kind [OF laws] TX_ACCESS_LIST_def Let_def)
  next
    case (DynamicFeeTx d)
    with u64 len dynamic_fee_roundtrip [OF laws, of d] show ?thesis
      by (simp add: tx_decode_def tx_decoded_def tx_new_def opt rlp_kind [OF laws] TX_ACCESS_LIST_def TX_DYNAMIC_FEE_def
          Let_def)
  qed
qed

text \<open>
  C22. A transaction survives the wire: for each kind of transaction, \<open>Tx::decode\<close> of what \<open>encode\<close> writes is that
  transaction with the hash of those bytes and the sender its signature gives (\<open>None\<close> or a panic where
  \<open>recover_sender\<close> has none).
\<close>

theorem tx_decode_encode:
  assumes laws: "rlp_laws (tl_rlp libs)" and u64: "tx_u64_fields tx" and len: "length (tx_encode libs tx) < 2 ^ 64"
  shows "tx_decode libs (tx_encode libs tx) chain_id =
     bind (recover_sender libs tx chain_id) (\<lambda>from. ret (map_option (\<lambda>a.
       \<lparr>stx_inner = tx, stx_hash = tl_keccak libs (tx_encode libs tx), stx_from = a\<rparr>) from))"
  using assms by (rule tx_decode_of_encode)

definition sample_libs :: tx_libs where
  "sample_libs =
     \<lparr>tl_keccak = \<lambda>bs. word_of_nat (length bs), tl_rlp = rlp_std, tl_recover = \<lambda>m r s v. Some (4 # replicate 64 0)\<rparr>"

definition fee_tx :: tx_like where
  "fee_tx = DynamicFeeTx
     \<lparr>dt_chain_id = 1, dt_nonce = 7, dt_gas_tip_cap = 2, dt_gas_fee_cap = 3, dt_gas = 9, dt_to = None,
      dt_value = 0, dt_data = [0x60, 0], dt_access_list = [AccessTuple], dt_v = 1, dt_r = 5, dt_s = 9\<rparr>"

lemma fee_tx_length: "length (tx_encode sample_libs fee_tx) = 17"
  by code_simp

lemma fee_tx_sender: "recover_sender sample_libs fee_tx 1 = ret (Some 64)"
proof -
  have "drop (32 - 20) (be_bytes 32 64) = be_bytes 20 64" by (rule be_bytes_drop) simp
  then show ?thesis
    by (simp add: recover_sender_def fee_tx_def dynamic_fee_view_def recover_typed recovered_def sample_libs_def
        secp256k1_n_def secp256k1_half_n_def hash_as_bytes_def addr_from_slice_def be_val_be_bytes)
qed

theorem tx_decode_encode_witness:
  "tx_decode sample_libs (tx_encode sample_libs fee_tx) 1 () =
     Ok (Some \<lparr>stx_inner = fee_tx, stx_hash = 17, stx_from = 64\<rparr>) ()"
proof -
  have "rlp_laws (tl_rlp sample_libs)" by (simp add: sample_libs_def rlp_std_laws)
  moreover have "tx_u64_fields fee_tx" by (simp add: fee_tx_def)
  moreover have "tl_keccak sample_libs (tx_encode sample_libs fee_tx) = 17"
    using fee_tx_length by (simp add: sample_libs_def)
  ultimately show ?thesis
    by (subst tx_decode_encode) (simp_all add: fee_tx_length fee_tx_sender ret_def)
qed

end
