(* ===== verification/MerkleStore.thy ===== *)
theory MerkleStore
  imports Rlp AccessList
begin

text \<open>
  \<open>ReadWriteDB\<close> of \<open>src/tools/src/merkle.rs\<close>: the hash database under the Merkle tries, kept in RocksDB with a
  reference counter per node and a pending write batch. RocksDB is the parameter \<open>rk\<close> (a read or a write may
  fail), the key function and the hasher of the trie library are \<open>kf\<close> and \<open>hasher\<close>. A counter is an \<open>i64\<close>: an
  \<open>int\<close> whose increment is checked.
\<close>

record 'd rocks_if =
  rk_get :: "'d \<Rightarrow> bytes \<Rightarrow> bytes option option"
  rk_write :: "'d \<Rightarrow> (bytes \<times> bytes) list \<Rightarrow> 'd option"

record 'd rw_db =
  rw_db :: 'd
  rw_wb :: "(bytes \<times> bytes) list option"
  rw_prefix :: bytes
  rw_null_hash :: bytes
  rw_null_data :: bytes

type_synonym node_prefix = "bytes \<times> u8 option"

section \<open>Counters\<close>

definition le_bytes :: "nat \<Rightarrow> nat \<Rightarrow> bytes" where
  "le_bytes n x = rev (be_bytes n x)"

definition le_val :: "bytes \<Rightarrow> nat" where
  "le_val bs = be_val (rev bs)"

definition counter_encode :: "int \<Rightarrow> bytes" where
  "counter_encode c = le_bytes 8 (nat (c mod 2 ^ 64))"

definition counter_decode :: "bytes \<Rightarrow> ('s, int) exec" where
  "counter_decode raw =
     (if length raw < 8 then panic
      else let n = int (le_val (take 8 raw)) in ret (if n < 2 ^ 63 then n else n - 2 ^ 64))"

definition i64_succ :: "int \<Rightarrow> ('s, int) exec" where
  "i64_succ c = (if c + 1 < 2 ^ 63 then ret (c + 1) else panic)"

section \<open>The operations\<close>

definition rw_new :: "(bytes \<Rightarrow> bytes) \<Rightarrow> bytes \<Rightarrow> 'd \<Rightarrow> 'd rw_db" where
  "rw_new hasher prefix db =
     \<lparr>rw_db = db, rw_wb = None, rw_prefix = prefix, rw_null_hash = hasher [0], rw_null_data = [0]\<rparr>"

text \<open>\<open>get_wb\<close> followed by a \<open>put\<close>.\<close>

definition wb_put :: "bytes \<Rightarrow> bytes \<Rightarrow> ('d rw_db, unit) exec" where
  "wb_put k v = modify (\<lambda>r. r\<lparr>rw_wb := Some ((case rw_wb r of Some wb \<Rightarrow> wb | None \<Rightarrow> []) @ [(k, v)])\<rparr>)"

definition finalize_key :: "(bytes \<Rightarrow> node_prefix \<Rightarrow> bytes) \<Rightarrow> 'd rw_db \<Rightarrow> bytes \<Rightarrow> node_prefix \<Rightarrow> bytes \<Rightarrow> bytes" where
  "finalize_key kf r key prefix suffix = rw_prefix r @ kf key prefix @ suffix"

definition CNT_SUFFIX :: bytes where "CNT_SUFFIX = [0]"

definition DATA_SUFFIX :: bytes where "DATA_SUFFIX = [1]"

definition rw_commit :: "'d rocks_if \<Rightarrow> ('d rw_db, unit) exec" where
  "rw_commit rk r =
     (case rw_wb r of
        None \<Rightarrow> Ok () r
      | Some wb \<Rightarrow>
          bind (unwrap (rk_write rk (rw_db r) wb)) (\<lambda>db. modify (\<lambda>r. r\<lparr>rw_db := db\<rparr>)) (r\<lparr>rw_wb := None\<rparr>))"

definition rw_get ::
  "'d rocks_if \<Rightarrow> (bytes \<Rightarrow> node_prefix \<Rightarrow> bytes) \<Rightarrow> bytes \<Rightarrow> node_prefix \<Rightarrow> ('d rw_db, bytes option) exec" where
  "rw_get rk kf key prefix r =
     (if key = rw_null_hash r then Ok (Some (rw_null_data r)) r
      else case rk_get rk (rw_db r) (finalize_key kf r key prefix CNT_SUFFIX) of
             Some (Some raw) \<Rightarrow>
               bind (counter_decode raw) (\<lambda>cnt r.
                 if cnt > 0 then
                   case rk_get rk (rw_db r) (finalize_key kf r key prefix DATA_SUFFIX) of
                     Some data \<Rightarrow> Ok data r
                   | None \<Rightarrow> Ok None r
                 else Ok None r) r
           | _ \<Rightarrow> Ok None r)"

definition rw_contains ::
  "'d rocks_if \<Rightarrow> (bytes \<Rightarrow> node_prefix \<Rightarrow> bytes) \<Rightarrow> bytes \<Rightarrow> node_prefix \<Rightarrow> ('d rw_db, bool) exec" where
  "rw_contains rk kf key prefix r =
     (if key = rw_null_hash r then Ok True r
      else case rk_get rk (rw_db r) (finalize_key kf r key prefix CNT_SUFFIX) of
             Some (Some v) \<Rightarrow> bind (counter_decode v) (\<lambda>cnt. ret (cnt > 0)) r
           | Some None \<Rightarrow> Ok False r
           | None \<Rightarrow> Ok False r)"

definition rw_emplace ::
  "'d rocks_if \<Rightarrow> (bytes \<Rightarrow> node_prefix \<Rightarrow> bytes) \<Rightarrow> bytes \<Rightarrow> node_prefix \<Rightarrow> bytes \<Rightarrow> ('d rw_db, unit) exec" where
  "rw_emplace rk kf key prefix value r =
     (if value = rw_null_data r then Ok () r
      else let cnt_key = finalize_key kf r key prefix CNT_SUFFIX;
               data_key = finalize_key kf r key prefix DATA_SUFFIX
           in bind (unwrap (rk_get rk (rw_db r) cnt_key)) (\<lambda>found.
              case found of
                Some v \<Rightarrow>
                  bind (counter_decode v) (\<lambda>cnt.
                  bind (when_do (cnt \<le> 0) (wb_put data_key value)) (\<lambda>_.
                  bind (i64_succ cnt) (\<lambda>c. wb_put cnt_key (counter_encode c))))
              | None \<Rightarrow>
                  bind (wb_put cnt_key (counter_encode 1)) (\<lambda>_. wb_put data_key value)) r)"

definition rw_insert ::
  "'d rocks_if \<Rightarrow> (bytes \<Rightarrow> bytes) \<Rightarrow> (bytes \<Rightarrow> node_prefix \<Rightarrow> bytes) \<Rightarrow> node_prefix \<Rightarrow> bytes \<Rightarrow> ('d rw_db, bytes) exec" where
  "rw_insert rk hasher kf prefix value r =
     (if value = rw_null_data r then Ok (rw_null_hash r) r
      else let key = hasher value in bind (rw_emplace rk kf key prefix value) (\<lambda>_. ret key) r)"

definition rw_remove :: "bytes \<Rightarrow> node_prefix \<Rightarrow> ('d rw_db, unit) exec" where
  "rw_remove key prefix = ret ()"

section \<open>Counters are read back\<close>

lemma le_val_le_bytes [simp]: "le_val (le_bytes n x) = x mod 256 ^ n"
  by (simp add: le_val_def le_bytes_def be_val_be_bytes)

lemma length_le_bytes [simp]: "length (le_bytes n x) = n"
  by (simp add: le_bytes_def)

lemma counter_roundtrip:
  assumes "- (2 ^ 63) \<le> c" and "c < 2 ^ 63"
  shows "counter_decode (counter_encode c) = ret c"
proof -
  have "nat (c mod 2 ^ 64) < 256 ^ 8" by (simp add: nat_less_iff)
  then have "int (le_val (take 8 (counter_encode c))) = c mod 2 ^ 64"
    by (simp add: counter_encode_def del: power_numeral)
  moreover have "c mod 2 ^ 64 = (if 0 \<le> c then c else c + 2 ^ 64)"
    using assms mod_add_self2 [of c "2 ^ 64"] mod_pos_pos_trivial [of "c + 2 ^ 64" "2 ^ 64"] by auto
  ultimately show ?thesis using assms by (simp add: counter_decode_def counter_encode_def Let_def)
qed

section \<open>Nodes are never lost\<close>

text \<open>What RocksDB promises: a batch that is written is read back, its last put of a key, and changes nothing else.\<close>

definition rocks_laws :: "'d rocks_if \<Rightarrow> bool" where
  "rocks_laws rk \<longleftrightarrow>
     (\<forall>d wb d'. rk_write rk d wb = Some d' \<longrightarrow>
        (\<forall>k. rk_get rk d' k = (case map_of (rev wb) k of Some v \<Rightarrow> Some (Some v) | None \<Rightarrow> rk_get rk d k)))"

definition counter_val :: "bytes \<Rightarrow> int" where
  "counter_val raw = (let n = int (le_val (take 8 raw)) in if n < 2 ^ 63 then n else n - 2 ^ 64)"

definition counted :: "'d rocks_if \<Rightarrow> 'd \<Rightarrow> bytes \<Rightarrow> bool" where
  "counted rk d node \<longleftrightarrow>
     (\<exists>raw. rk_get rk d (node @ CNT_SUFFIX) = Some (Some raw) \<and> 8 \<le> length raw \<and> 0 < counter_val raw)"

definition rw_node :: "(bytes \<Rightarrow> node_prefix \<Rightarrow> bytes) \<Rightarrow> 'd rw_db \<Rightarrow> bytes \<Rightarrow> node_prefix \<Rightarrow> bytes" where
  "rw_node kf r key prefix = rw_prefix r @ kf key prefix"

text \<open>A pending batch writes no data of a node that is already counted, and only positive counts of it.\<close>

definition wb_keeps :: "'d rocks_if \<Rightarrow> 'd \<Rightarrow> (bytes \<times> bytes) list \<Rightarrow> bool" where
  "wb_keeps rk d wb \<longleftrightarrow>
     (\<forall>(k, v)\<in>set wb. \<forall>node. counted rk d node \<longrightarrow>
        k \<noteq> node @ DATA_SUFFIX \<and> (k = node @ CNT_SUFFIX \<longrightarrow> 8 \<le> length v \<and> 0 < counter_val v))"

definition pending :: "'d rw_db \<Rightarrow> (bytes \<times> bytes) list" where
  "pending r = (case rw_wb r of Some wb \<Rightarrow> wb | None \<Rightarrow> [])"

lemma counter_decode_val: "counter_decode raw = (if length raw < 8 then panic else ret (counter_val raw))"
  by (simp add: counter_decode_def counter_val_def Let_def)

lemma counter_encode_val [simp]:
  "- (2 ^ 63) \<le> c \<Longrightarrow> c < 2 ^ 63 \<Longrightarrow> counter_val (counter_encode c) = c"
  "length (counter_encode c) = 8"
proof -
  assume "- (2 ^ 63) \<le> c" "c < 2 ^ 63"
  from counter_roundtrip [OF this] show "counter_val (counter_encode c) = c"
    by (auto simp: counter_decode_val ret_def panic_def fun_eq_iff split: if_splits)
qed (simp add: counter_encode_def)

lemma counter_val_bounds: "- (2 ^ 63) \<le> counter_val raw" "counter_val raw < 2 ^ 63"
proof -
  have "le_val (take 8 raw) < 256 ^ length (take 8 raw)"
    using be_val_bound [of "rev (take 8 raw)"] by (simp add: le_val_def)
  also have "\<dots> \<le> 256 ^ 8" by (intro power_increasing) auto
  finally have "int (le_val (take 8 raw)) < 2 ^ 64" by simp
  then show "- (2 ^ 63) \<le> counter_val raw" "counter_val raw < 2 ^ 63"
    by (auto simp: counter_val_def Let_def)
qed

lemma rw_get_Some:
  "key \<noteq> rw_null_hash r \<Longrightarrow>
    rw_get rk kf key prefix r = Ok (Some v) r \<longleftrightarrow>
      counted rk (rw_db r) (rw_node kf r key prefix) \<and>
      rk_get rk (rw_db r) (rw_node kf r key prefix @ DATA_SUFFIX) = Some (Some v)"
  by (auto simp: rw_get_def counted_def rw_node_def finalize_key_def counter_decode_val bind_def ret_def panic_def
      split: option.splits)

lemma wb_keeps_append: "wb_keeps rk d (a @ b) \<longleftrightarrow> wb_keeps rk d a \<and> wb_keeps rk d b"
  by (auto simp: wb_keeps_def)

lemma wb_keeps_new:
  "\<not> counted rk d node \<Longrightarrow> wb_keeps rk d [(node @ CNT_SUFFIX, v), (node @ DATA_SUFFIX, w)]"
  "\<not> counted rk d node \<Longrightarrow> wb_keeps rk d [(node @ DATA_SUFFIX, w), (node @ CNT_SUFFIX, v)]"
  "0 < c \<Longrightarrow> c < 2 ^ 63 \<Longrightarrow> wb_keeps rk d [(node @ CNT_SUFFIX, counter_encode c)]"
  by (auto simp: wb_keeps_def CNT_SUFFIX_def DATA_SUFFIX_def)

definition wb_puts :: "(bytes \<times> bytes) list \<Rightarrow> 'd rw_db \<Rightarrow> 'd rw_db" where
  "wb_puts puts r = (if puts = [] then r else r\<lparr>rw_wb := Some (pending r @ puts)\<rparr>)"

lemma wb_puts_simps [simp]:
  "pending (wb_puts puts r) = pending r @ puts" "rw_db (wb_puts puts r) = rw_db r"
  "rw_prefix (wb_puts puts r) = rw_prefix r" "rw_null_hash (wb_puts puts r) = rw_null_hash r"
  "rw_null_data (wb_puts puts r) = rw_null_data r" "wb_puts b (wb_puts a r) = wb_puts (a @ b) r" "wb_puts [] r = r"
  by (simp_all add: wb_puts_def pending_def)

lemma wb_put_puts: "wb_put k v r = Ok () (wb_puts [(k, v)] r)"
  by (simp add: wb_put_def modify_def wb_puts_def pending_def)

lemma emplace_pending:
  assumes "rw_emplace rk kf key prefix value r = Ok a t"
  shows "\<exists>puts. t = wb_puts puts r \<and> wb_keeps rk (rw_db r) puts"
proof (cases "value = rw_null_data r")
  case True
  then show ?thesis using assms by (auto simp: rw_emplace_def wb_keeps_def intro!: exI [of _ "[]"])
next
  case False
  let ?n = "rw_node kf r key prefix" and ?d = "rw_db r"
  have keys: "finalize_key kf r key prefix s = ?n @ s" for s by (simp add: finalize_key_def rw_node_def)
  from False assms consider
    (new) "rk_get rk ?d (?n @ CNT_SUFFIX) = Some None"
      "t = wb_puts [(?n @ CNT_SUFFIX, counter_encode 1), (?n @ DATA_SUFFIX, value)] r"
  | (low) raw where "rk_get rk ?d (?n @ CNT_SUFFIX) = Some (Some raw)" "counter_val raw \<le> 0"
      "t = wb_puts [(?n @ DATA_SUFFIX, value), (?n @ CNT_SUFFIX, counter_encode (counter_val raw + 1))] r"
  | (high) raw where "\<not> counter_val raw \<le> 0" "counter_val raw + 1 < 2 ^ 63"
      "t = wb_puts [(?n @ CNT_SUFFIX, counter_encode (counter_val raw + 1))] r"
    by (auto simp: rw_emplace_def Let_def keys bind_Ok_conv unwrap_def ret_def panic_def counter_decode_val when_do_def
        i64_succ_def wb_put_puts split: option.splits if_splits)
  then show ?thesis
  proof cases
    case new
    then have "\<not> counted rk ?d ?n" by (simp add: counted_def)
    from wb_keeps_new(1) [OF this, of "counter_encode 1" "value"] new(2) show ?thesis by (intro exI conjI)
  next
    case low
    then have "\<not> counted rk ?d ?n" by (simp add: counted_def)
    from wb_keeps_new(2) [OF this] low(3) show ?thesis by (intro exI conjI)
  next
    case high
    then have "wb_keeps rk ?d [(?n @ CNT_SUFFIX, counter_encode (counter_val raw + 1))]"
      by (intro wb_keeps_new(3)) auto
    with high(3) show ?thesis by (intro exI conjI)
  qed
qed

lemma counted_committed:
  assumes laws: "rocks_laws rk" and keeps: "wb_keeps rk (rw_db r) (pending r)"
    and commit: "rw_commit rk r = Ok a t" and counted: "counted rk (rw_db r) node"
  shows "counted rk (rw_db t) node \<and> rk_get rk (rw_db t) (node @ DATA_SUFFIX) = rk_get rk (rw_db r) (node @ DATA_SUFFIX)"
proof (cases "rw_wb r")
  case None
  then show ?thesis using commit counted by (simp add: rw_commit_def)
next
  case (Some wb)
  then have wb: "pending r = wb" by (simp add: pending_def)
  have "rk_write rk (rw_db r) wb = Some (rw_db t)"
    using commit Some by (auto simp: rw_commit_def bind_Ok_conv unwrap_def ret_def panic_def modify_def split: option.splits)
  with laws have get: "rk_get rk (rw_db t) k = (case map_of (rev wb) k of Some v \<Rightarrow> Some (Some v) | None \<Rightarrow> rk_get rk (rw_db r) k)" for k
    unfolding rocks_laws_def by blast
  have "map_of (rev wb) (node @ DATA_SUFFIX) = None"
    using keeps counted wb by (force simp: wb_keeps_def map_of_eq_None_iff)
  moreover have "8 \<le> length v \<and> 0 < counter_val v" if "map_of (rev wb) (node @ CNT_SUFFIX) = Some v" for v
    using map_of_SomeD [OF that] keeps counted wb by (auto simp: wb_keeps_def)
  ultimately show ?thesis using counted by (auto simp: get counted_def split: option.splits)
qed

datatype rw_op = Emplace bytes node_prefix bytes | Insert node_prefix bytes | Remove bytes node_prefix | Commit

fun rw_step ::
  "'d rocks_if \<Rightarrow> (bytes \<Rightarrow> bytes) \<Rightarrow> (bytes \<Rightarrow> node_prefix \<Rightarrow> bytes) \<Rightarrow> rw_op \<Rightarrow> ('d rw_db, unit) exec" where
  "rw_step rk hasher kf (Emplace key prefix value) = rw_emplace rk kf key prefix value"
| "rw_step rk hasher kf (Insert prefix value) = bind (rw_insert rk hasher kf prefix value) (\<lambda>_. ret ())"
| "rw_step rk hasher kf (Remove key prefix) = rw_remove key prefix"
| "rw_step rk hasher kf Commit = rw_commit rk"

text \<open>What a step may change: the nodes already counted keep their data and stay counted.\<close>

definition rw_keeps :: "'d rocks_if \<Rightarrow> 'd rw_db \<Rightarrow> 'd rw_db \<Rightarrow> bool" where
  "rw_keeps rk r t \<longleftrightarrow>
     wb_keeps rk (rw_db t) (pending t) \<and>
     rw_prefix t = rw_prefix r \<and> rw_null_hash t = rw_null_hash r \<and> rw_null_data t = rw_null_data r \<and>
     (\<forall>node. counted rk (rw_db r) node \<longrightarrow> counted rk (rw_db t) node \<and>
        rk_get rk (rw_db t) (node @ DATA_SUFFIX) = rk_get rk (rw_db r) (node @ DATA_SUFFIX))"

lemma puts_keeps: "wb_keeps rk (rw_db r) (pending r) \<Longrightarrow> wb_keeps rk (rw_db r) puts \<Longrightarrow> rw_keeps rk r (wb_puts puts r)"
  by (simp add: rw_keeps_def wb_keeps_append)

lemma commit_keeps:
  assumes "rocks_laws rk" and "wb_keeps rk (rw_db r) (pending r)" and "rw_commit rk r = Ok a t"
  shows "rw_keeps rk r t"
proof -
  have "rw_wb t = None" "rw_prefix t = rw_prefix r" "rw_null_hash t = rw_null_hash r" "rw_null_data t = rw_null_data r"
    using assms(3) by (auto simp: rw_commit_def bind_Ok_conv modify_def unwrap_def ret_def panic_def split: option.splits)
  then show ?thesis using counted_committed [OF assms] by (auto simp: rw_keeps_def pending_def wb_keeps_def)
qed

lemma rw_step_keeps:
  assumes "rocks_laws rk" and keeps: "wb_keeps rk (rw_db r) (pending r)" and step: "rw_step rk hasher kf op r = Ok a t"
  shows "rw_keeps rk r t"
proof (cases op)
  case (Emplace key pre v)
  then obtain puts where "t = wb_puts puts r" "wb_keeps rk (rw_db r) puts" using step emplace_pending by fastforce
  then show ?thesis using puts_keeps [OF keeps] by blast
next
  case (Insert pre v)
  then have "t = wb_puts [] r \<or> rw_emplace rk kf (hasher v) pre v r = Ok () t"
    using step by (auto simp: rw_insert_def bind_Ok_conv ret_def Let_def split: if_splits)
  moreover have "wb_keeps rk (rw_db r) []" by (simp add: wb_keeps_def)
  ultimately obtain puts where "t = wb_puts puts r" "wb_keeps rk (rw_db r) puts" using emplace_pending by blast
  then show ?thesis using puts_keeps [OF keeps] by blast
next
  case (Remove key pre)
  then show ?thesis using step puts_keeps [OF keeps, of "[]"] by (simp add: rw_remove_def ret_def wb_keeps_def)
next
  case Commit
  then show ?thesis using step commit_keeps [OF assms(1) keeps] by simp
qed

lemma rw_run_keeps:
  assumes "rocks_laws rk"
  shows "wb_keeps rk (rw_db r) (pending r) \<Longrightarrow> for_each ops (rw_step rk hasher kf) r = Ok a t \<Longrightarrow> rw_keeps rk r t"
proof (induction ops arbitrary: r)
  case Nil
  then show ?case by (simp add: ret_def rw_keeps_def)
next
  case (Cons op ops)
  then obtain u where u: "rw_step rk hasher kf op r = Ok () u" "for_each ops (rw_step rk hasher kf) u = Ok a t"
    by (auto simp: bind_Ok_conv)
  have one: "rw_keeps rk r u" using rw_step_keeps [OF assms Cons.prems(1) u(1)] .
  then have "rw_keeps rk u t" using Cons.IH [OF _ u(2)] by (simp add: rw_keeps_def)
  with one show ?case by (simp add: rw_keeps_def)
qed

lemma rw_get_null: "key = rw_null_hash r \<Longrightarrow> rw_get rk kf key prefix r = Ok (Some (rw_null_data r)) r"
  by (simp add: rw_get_def)

text \<open>
  C26. The store is copy-on-write: a node that can be read keeps its value whatever nodes are then emplaced, inserted
  or removed and however the batches are committed, as long as no operation panics.
\<close>

theorem rw_append_only:
  assumes "rocks_laws rk" and "rw_wb r = None" and "rw_get rk kf key prefix r = Ok (Some v) r"
    and "for_each ops (rw_step rk hasher kf) r = Ok () t"
  shows "rw_get rk kf key prefix t = Ok (Some v) t"
proof -
  have "wb_keeps rk (rw_db r) (pending r)" using assms(2) by (simp add: pending_def wb_keeps_def)
  from rw_run_keeps [OF assms(1) this assms(4)] have keeps: "rw_keeps rk r t" .
  show ?thesis
  proof (cases "key = rw_null_hash r")
    case True
    then have "v = rw_null_data r" using assms(3) by (simp add: rw_get_null)
    with True keeps show ?thesis by (simp add: rw_get_null rw_keeps_def)
  next
    case False
    moreover have "rw_node kf t key prefix = rw_node kf r key prefix" using keeps by (simp add: rw_keeps_def rw_node_def)
    ultimately show ?thesis using assms(3) keeps by (simp add: rw_get_Some rw_keeps_def)
  qed
qed

text \<open>
  A node that is inserted is found after the batch is committed: under the hash of its value, for a node that the
  store has no counter of.
\<close>

theorem rw_insert_then_get:
  assumes laws: "rocks_laws rk" and null: "value \<noteq> rw_null_data r" "hasher value \<noteq> rw_null_hash r"
    and fresh: "rk_get rk (rw_db r) (finalize_key kf r (hasher value) prefix CNT_SUFFIX) = Some None"
    and insert: "rw_insert rk hasher kf prefix value r = Ok key t" and commit: "rw_commit rk t = Ok () u"
  shows "key = hasher value \<and> rw_get rk kf key prefix u = Ok (Some value) u"
proof -
  let ?n = "rw_node kf r (hasher value) prefix"
  let ?puts = "[(?n @ CNT_SUFFIX, counter_encode 1), (?n @ DATA_SUFFIX, value)]"
  have t: "t = wb_puts ?puts r" and key: "key = hasher value"
    using insert null fresh
    by (auto simp: rw_insert_def rw_emplace_def Let_def bind_def unwrap_def ret_def wb_put_puts finalize_key_def rw_node_def)
  have wb: "rw_wb t = Some (pending r @ ?puts)" by (simp add: t wb_puts_def)
  have u: "rk_write rk (rw_db t) (pending r @ ?puts) = Some (rw_db u)" "rw_prefix u = rw_prefix r"
    "rw_null_hash u = rw_null_hash r"
    using commit wb t by (auto simp: rw_commit_def bind_Ok_conv unwrap_def ret_def panic_def modify_def split: option.splits)
  with laws have "rk_get rk (rw_db u) k = (case map_of (rev (pending r @ ?puts)) k of Some v \<Rightarrow> Some (Some v)
      | None \<Rightarrow> rk_get rk (rw_db t) k)" for k
    unfolding rocks_laws_def by blast
  then have get: "rk_get rk (rw_db u) (?n @ CNT_SUFFIX) = Some (Some (counter_encode 1))"
    "rk_get rk (rw_db u) (?n @ DATA_SUFFIX) = Some (Some value)"
    by (simp_all add: CNT_SUFFIX_def DATA_SUFFIX_def)
  have "rw_node kf u key prefix = ?n" by (simp add: rw_node_def u key)
  then show ?thesis using get null u(3) key by (simp add: rw_get_Some counted_def)
qed

text \<open>A store in a map, the inputs at which the two properties are used.\<close>

definition map_rocks :: "(bytes \<rightharpoonup> bytes) rocks_if" where
  "map_rocks = \<lparr>rk_get = \<lambda>d k. Some (d k), rk_write = \<lambda>d wb. Some (d ++ map_of (rev wb))\<rparr>"

lemma map_rocks_laws: "rocks_laws map_rocks"
  by (auto simp: rocks_laws_def map_rocks_def map_add_def split: option.splits)

definition sample_key :: "bytes \<Rightarrow> node_prefix \<Rightarrow> bytes" where
  "sample_key key prefix = fst prefix @ key"

abbreviation sample_store :: "(bytes \<rightharpoonup> bytes) rw_db" where
  "sample_store \<equiv> rw_new (\<lambda>v. 7 # v) [9] Map.empty"

theorem rw_insert_then_get_witness:
  "\<exists>t u. rw_insert map_rocks (\<lambda>v. 7 # v) sample_key ([], None) [1, 2] sample_store = Ok [7, 1, 2] t \<and>
     rw_commit map_rocks t = Ok () u \<and> rw_get map_rocks sample_key [7, 1, 2] ([], None) u = Ok (Some [1, 2]) u"
proof -
  obtain t where t: "rw_insert map_rocks (\<lambda>v. 7 # v) sample_key ([], None) [1, 2] sample_store = Ok [7, 1, 2] t"
    by (auto simp: rw_insert_def rw_emplace_def Let_def bind_def unwrap_def ret_def wb_put_puts rw_new_def map_rocks_def)
  obtain u where u: "rw_commit map_rocks t = Ok () u"
    by (cases "rw_wb t") (auto simp: rw_commit_def bind_def unwrap_def ret_def modify_def map_rocks_def)
  have "rw_get map_rocks sample_key [7, 1, 2] ([], None) u = Ok (Some [1, 2]) u"
    using rw_insert_then_get [OF map_rocks_laws _ _ _ t u] by (simp add: rw_new_def map_rocks_def)
  with t u show ?thesis by blast
qed

theorem rw_append_only_witness:
  "\<exists>r t. rw_get map_rocks sample_key [7, 0] ([], None) r = Ok (Some [0]) r \<and>
     for_each [Insert ([], None) [1, 2], Commit] (rw_step map_rocks (\<lambda>v. 7 # v) sample_key) r = Ok () t \<and>
     rw_get map_rocks sample_key [7, 0] ([], None) t = Ok (Some [0]) t"
proof -
  have get: "rw_get map_rocks sample_key [7, 0] ([], None) sample_store = Ok (Some [0]) sample_store"
    by (simp add: rw_get_def rw_new_def)
  obtain t where t: "for_each [Insert ([], None) [1, 2], Commit] (rw_step map_rocks (\<lambda>v. 7 # v) sample_key) sample_store = Ok () t"
    by (auto simp: rw_insert_def rw_emplace_def Let_def bind_def unwrap_def ret_def wb_put_puts wb_puts_def pending_def
        rw_new_def map_rocks_def rw_commit_def modify_def)
  from rw_append_only [OF map_rocks_laws _ get t] get t show ?thesis by (auto simp: rw_new_def)
qed

end
