(* ===== verification/Merkle.thy ===== *)
theory Merkle
  imports MerkleStore MemState
begin

text \<open>
  \<open>MerkleDB\<close> of \<open>src/tools/src/merkle.rs\<close>, the persistent world state: accounts are encoded into a trie of the
  state root, each with the root of a trie of its storage. The trie library is the parameter \<open>tr\<close> over the hash
  database of \<open>MerkleStore\<close>: \<open>tr_read\<close> and \<open>tr_has\<close> open a trie at a root (\<open>None\<close>: there is no such root) and look a
  key up (\<open>None\<close>: an error), \<open>tr_write\<close> is a \<open>TrieDBMut\<close> opened at a root or new, its insertions in order, and its
  drop (\<open>None\<close>: one of the calls fails). \<open>HashMap\<close>s are iterated in the order \<open>it_accounts\<close> and \<open>it_state\<close> give.
\<close>

record 'd trie_if =
  tr_read :: "'d rw_db \<Rightarrow> bytes \<Rightarrow> (bytes \<Rightarrow> bytes option option) option"
  tr_has :: "'d rw_db \<Rightarrow> bytes \<Rightarrow> (bytes \<Rightarrow> bool option) option"
  tr_write :: "'d rw_db \<Rightarrow> bytes option \<Rightarrow> (bytes \<times> bytes) list \<Rightarrow> ('d rw_db \<times> bytes) option"

record map_iter =
  it_accounts :: "(addr \<rightharpoonup> account_delta) \<Rightarrow> (addr \<times> account_delta) list"
  it_state :: "(hash \<rightharpoonup> u256) \<Rightarrow> (hash \<times> u256) list"

section \<open>Accounts\<close>

record account_state =
  as_root_hash :: hash
  as_balance :: wei
  as_nonce :: nat
  as_code :: bytes

definition account_encode :: "account_state \<Rightarrow> bytes" where
  "account_encode acc =
     hash_as_bytes (as_root_hash acc) @ to_big_endian (as_balance acc) @ le_bytes 8 (as_nonce acc) @
     le_bytes 8 (length (as_code acc)) @ as_code acc"

text \<open>\<open>read_exact\<close> on a slice: the bytes read and the rest.\<close>

definition read_exact :: "nat \<Rightarrow> bytes \<Rightarrow> (bytes \<times> bytes) option" where
  "read_exact n raw = (if length raw < n then None else Some (take n raw, drop n raw))"

text \<open>A buffer of more than \<open>isize::MAX\<close> bytes cannot be allocated: the \<open>resize\<close> panics.\<close>

definition account_decode :: "bytes \<Rightarrow> ('s, account_state option) exec" where
  "account_decode raw =
     (case read_exact 32 raw of None \<Rightarrow> ret None | Some (root_hash, raw) \<Rightarrow>
      case read_exact 32 raw of None \<Rightarrow> ret None | Some (balance, raw) \<Rightarrow>
      case read_exact 8 raw of None \<Rightarrow> ret None | Some (nonce, raw) \<Rightarrow>
      case read_exact 8 raw of None \<Rightarrow> ret None | Some (len, raw) \<Rightarrow>
      let code_len = le_val len
      in if 2 ^ 63 \<le> code_len then panic
         else case read_exact code_len raw of None \<Rightarrow> ret None | Some (code, raw) \<Rightarrow>
           ret (Some \<lparr>as_root_hash = from_big_endian root_hash, as_balance = from_big_endian balance,
                     as_nonce = le_val nonce, as_code = code\<rparr>))"

section \<open>The database\<close>

definition prefix_key :: "addr \<Rightarrow> hash \<Rightarrow> bytes" where
  "prefix_key addr key = addr_as_bytes addr @ hash_as_bytes key"

definition mdb_get :: "'d trie_if \<Rightarrow> bytes \<Rightarrow> bytes \<Rightarrow> ('d rw_db, bytes option) exec" where
  "mdb_get tr key root w =
     (case tr_read tr w root of
        None \<Rightarrow> Ok None w
      | Some trie \<Rightarrow> (case trie key of None \<Rightarrow> Ok None w | Some v \<Rightarrow> Ok v w))"

definition mdb_contains :: "'d trie_if \<Rightarrow> bytes \<Rightarrow> bytes \<Rightarrow> ('d rw_db, bool) exec" where
  "mdb_contains tr key root w = bind (unwrap (tr_has tr w root)) (\<lambda>trie. unwrap (trie key)) w"

text \<open>A \<open>TrieDBMut\<close> from its opening to its drop; every \<open>Result\<close> of it is unwrapped.\<close>

definition write_trie :: "'d trie_if \<Rightarrow> bytes option \<Rightarrow> (bytes \<times> bytes) list \<Rightarrow> ('d rw_db, bytes) exec" where
  "write_trie tr root kvs w =
     (case tr_write tr w root kvs of None \<Rightarrow> Panic | Some (w', new_root) \<Rightarrow> Ok new_root w')"

definition mdb_insert ::
  "'d rocks_if \<Rightarrow> 'd trie_if \<Rightarrow> bytes \<Rightarrow> bytes \<Rightarrow> bytes option \<Rightarrow> ('d rw_db, bytes) exec" where
  "mdb_insert rk tr key val root =
     bind (case root of
             Some r \<Rightarrow> (if length r \<noteq> 32 then panic else write_trie tr (Some r) [(key, val)])
           | None \<Rightarrow> write_trie tr None [(key, val)]) (\<lambda>new_root.
     bind (rw_commit rk) (\<lambda>_. ret new_root))"

text \<open>
  Proofs of membership, over the two functions of the library: \<open>pf_generate\<close> at an opened trie and \<open>pf_verify\<close>. A root that is not of
  32 bytes panics in \<open>copy_from_slice\<close>, one that is not in the database in the \<open>unwrap\<close> of the opening.
\<close>

record 'd proof_if =
  pf_generate :: "'d rw_db \<Rightarrow> bytes \<Rightarrow> bytes list \<Rightarrow> bytes list option"
  pf_verify :: "bytes \<Rightarrow> bytes list \<Rightarrow> (bytes \<times> bytes option) list \<Rightarrow> bool"

definition mdb_prove :: "'d trie_if \<Rightarrow> 'd proof_if \<Rightarrow> bytes list \<Rightarrow> bytes \<Rightarrow> ('d rw_db, bytes list) exec" where
  "mdb_prove tr pf keys root w =
     (if length root \<noteq> 32 then Panic
      else bind (unwrap (tr_read tr w root)) (\<lambda>_. unwrap (pf_generate pf w root keys)) w)"

definition mdb_verify :: "'d proof_if \<Rightarrow> bytes list \<Rightarrow> (bytes \<times> bytes option) list \<Rightarrow> bytes \<Rightarrow> ('s, bool) exec" where
  "mdb_verify pf prf items root = (if length root \<noteq> 32 then panic else ret (pf_verify pf root prf items))"

section \<open>The reader of a state root\<close>

definition get_reader :: "hash option \<Rightarrow> bytes" where
  "get_reader root = (case root of Some r \<Rightarrow> hash_as_bytes r | None \<Rightarrow> replicate 32 0)"

text \<open>The account of an address at a root, decoded and unwrapped.\<close>

definition reader_account :: "'d trie_if \<Rightarrow> bytes \<Rightarrow> addr \<Rightarrow> ('d rw_db, account_state option) exec" where
  "reader_account tr root contract =
     bind (mdb_get tr (addr_as_bytes contract) root) (\<lambda>found.
     case found of
       None \<Rightarrow> ret None
     | Some raw \<Rightarrow> bind (account_decode raw) (\<lambda>acc. bind (unwrap acc) (\<lambda>acc. ret (Some acc))))"

definition reader_get_account_root :: "'d trie_if \<Rightarrow> bytes \<Rightarrow> addr \<Rightarrow> ('d rw_db, hash) exec" where
  "reader_get_account_root tr root contract =
     bind (reader_account tr root contract) (\<lambda>acc. ret (case acc of Some a \<Rightarrow> as_root_hash a | None \<Rightarrow> 0))"

definition reader_get_state :: "'d trie_if \<Rightarrow> bytes \<Rightarrow> addr \<Rightarrow> hash \<Rightarrow> ('d rw_db, u256) exec" where
  "reader_get_state tr root contract key =
     bind (reader_account tr root contract) (\<lambda>acc.
     bind (case acc of
             None \<Rightarrow> ret None
           | Some acc \<Rightarrow> mdb_get tr (prefix_key contract key) (hash_as_bytes (as_root_hash acc))) (\<lambda>found.
     case found of
       None \<Rightarrow> ret 0
     | Some val \<Rightarrow> if length val > 32 then panic else ret (from_big_endian val)))"

definition reader_get_balance :: "'d trie_if \<Rightarrow> bytes \<Rightarrow> addr \<Rightarrow> ('d rw_db, wei) exec" where
  "reader_get_balance tr root account =
     bind (reader_account tr root account) (\<lambda>acc. ret (case acc of Some a \<Rightarrow> as_balance a | None \<Rightarrow> 0))"

definition reader_get_code :: "(bytes \<Rightarrow> hash) \<Rightarrow> 'd trie_if \<Rightarrow> bytes \<Rightarrow> addr \<Rightarrow> ('d rw_db, plain_code) exec" where
  "reader_get_code keccak tr root contract =
     bind (reader_account tr root contract) (\<lambda>acc.
     ret (PlainCode_new keccak (case acc of Some a \<Rightarrow> as_code a | None \<Rightarrow> [])))"

definition reader_get_nonce :: "'d trie_if \<Rightarrow> bytes \<Rightarrow> addr \<Rightarrow> ('d rw_db, nat) exec" where
  "reader_get_nonce tr root account =
     bind (reader_account tr root account) (\<lambda>acc. ret (case acc of Some a \<Rightarrow> as_nonce a | None \<Rightarrow> 0))"

definition reader_exist :: "'d trie_if \<Rightarrow> bytes \<Rightarrow> addr \<Rightarrow> ('d rw_db, bool) exec" where
  "reader_exist tr root account = mdb_contains tr (addr_as_bytes account) root"

text \<open>
  What the library promises of proofs: a proof that is generated at a root is accepted for the values the trie of that root has. Then a
  proof of the node is accepted for what the node itself reads, entries and missing keys alike.
\<close>

definition proof_laws :: "'d trie_if \<Rightarrow> 'd proof_if \<Rightarrow> bool" where
  "proof_laws tr pf \<longleftrightarrow> (\<forall>w root trie keys prf items. tr_read tr w root = Some trie \<longrightarrow> pf_generate pf w root keys = Some prf \<longrightarrow>
     (\<forall>(k, v)\<in>set items. k \<in> set keys \<and> trie k = Some v) \<longrightarrow> pf_verify pf root prf items)"

lemma proved_reads_verify:
  assumes "proof_laws tr pf" and "mdb_prove tr pf keys root w = Ok prf t"
    and "\<forall>(k, v)\<in>set items. k \<in> set keys \<and> mdb_get tr k root w = Ok v w \<and> (\<exists>trie. tr_read tr w root = Some trie \<and> trie k \<noteq> None)"
  shows "t = w \<and> mdb_verify pf prf items root s = Ok True s"
proof -
  from assms(2) obtain trie where root: "length root = 32" "tr_read tr w root = Some trie" "pf_generate pf w root keys = Some prf" "t = w"
    by (auto simp: mdb_prove_def bind_def unwrap_def ret_def panic_def split: option.splits if_splits)
  with assms(3) have "\<forall>(k, v)\<in>set items. k \<in> set keys \<and> trie k = Some v" by (fastforce simp: mdb_get_def split: option.splits)
  with assms(1) root show ?thesis unfolding proof_laws_def by (auto simp: mdb_verify_def ret_def)
qed

section \<open>Commit\<close>

text \<open>The methods of \<open>dyn AccountRootR<Hash>\<close> that \<open>commit\<close> calls, and \<open>MerkleDBReader\<close> as such an object.\<close>

record 'd account_reader =
  ar_balance :: "addr \<Rightarrow> ('d rw_db, wei) exec"
  ar_nonce :: "addr \<Rightarrow> ('d rw_db, nat) exec"
  ar_code :: "addr \<Rightarrow> ('d rw_db, plain_code) exec"
  ar_account_root :: "addr \<Rightarrow> ('d rw_db, hash) exec"

definition merkle_reader :: "(bytes \<Rightarrow> hash) \<Rightarrow> 'd trie_if \<Rightarrow> bytes \<Rightarrow> 'd account_reader" where
  "merkle_reader keccak tr root =
     \<lparr>ar_balance = reader_get_balance tr root, ar_nonce = reader_get_nonce tr root,
      ar_code = reader_get_code keccak tr root, ar_account_root = reader_get_account_root tr root\<rparr>"

primrec map_each :: "'a list \<Rightarrow> ('a \<Rightarrow> ('s, 'b) exec) \<Rightarrow> ('s, 'b list) exec" where
  "map_each [] body = ret []"
| "map_each (x # xs) body = bind (body x) (\<lambda>y. bind (map_each xs body) (\<lambda>ys. ret (y # ys)))"

type_synonym gathered = "addr \<times> wei \<times> nat \<times> bytes \<times> (hash \<rightharpoonup> u256) \<times> hash"

definition gather_account :: "'d account_reader \<Rightarrow> addr \<times> account_delta \<Rightarrow> ('d rw_db, gathered) exec" where
  "gather_account reader aa =
     (let addr = fst aa; acc = snd aa in
      bind (case ad_balance acc of Some b \<Rightarrow> ret b | None \<Rightarrow> ar_balance reader addr) (\<lambda>balance.
      bind (case ad_nonce acc of Some n \<Rightarrow> ret n | None \<Rightarrow> ar_nonce reader addr) (\<lambda>nonce.
      bind (case ad_code acc of Some c \<Rightarrow> ret c | None \<Rightarrow> ar_code reader addr) (\<lambda>code.
      bind (ar_account_root reader addr) (\<lambda>old_root.
      ret (addr, balance, nonce, code_bytes code, ad_state acc, old_root))))))"

definition write_account :: "'d trie_if \<Rightarrow> map_iter \<Rightarrow> gathered \<Rightarrow> ('d rw_db, addr \<times> account_state) exec" where
  "write_account tr it g =
     (case g of (addr, balance, nonce, code, state, old_root) \<Rightarrow>
      bind (write_trie tr (if old_root = 0 then None else Some (hash_as_bytes old_root))
             (map (\<lambda>(key, val). (prefix_key addr key, to_big_endian val)) (it_state it state))) (\<lambda>new_root.
      ret (addr, \<lparr>as_root_hash = from_big_endian new_root, as_balance = balance, as_nonce = nonce, as_code = code\<rparr>)))"

definition merkle_commit ::
  "'d trie_if \<Rightarrow> map_iter \<Rightarrow> hash option \<Rightarrow> state_delta \<Rightarrow> 'd account_reader \<Rightarrow> ('d rw_db, hash) exec" where
  "merkle_commit tr it root deltas reader =
     bind (map_each (it_accounts it (sd_accounts deltas)) (gather_account reader)) (\<lambda>gathered.
     bind (map_each gathered (write_account tr it)) (\<lambda>accounts.
     bind (write_trie tr (map_option hash_as_bytes root)
             (map (\<lambda>(addr, acc). (addr_as_bytes addr, account_encode acc)) accounts)) (\<lambda>new_root.
     ret (from_big_endian new_root))))"

section \<open>Accounts are read back\<close>

definition account_fits :: "account_state \<Rightarrow> bool" where
  "account_fits acc \<longleftrightarrow> as_nonce acc < 2 ^ 64 \<and> length (as_code acc) < 2 ^ 63"

lemma read_exact_append: "length a = n \<Longrightarrow> read_exact n (a @ b) = Some (a, b)"
  by (simp add: read_exact_def)

lemma account_decode_append:
  assumes "account_fits acc"
  shows "account_decode (account_encode acc @ rest) = ret (Some acc)"
proof -
  have "le_val (le_bytes 8 (as_nonce acc)) = as_nonce acc" "le_val (le_bytes 8 (length (as_code acc))) = length (as_code acc)"
    using assms by (simp_all add: account_fits_def)
  then show ?thesis using assms
    by (cases acc) (simp add: account_decode_def account_encode_def read_exact_append hash_as_bytes_def account_fits_def
        Let_def to_big_endian_def [symmetric])
qed

text \<open>
  An account is read back as it was written: decoding the encoding of an account whose nonce is a \<open>u64\<close> and whose
  code fits in memory gives the account, also when other bytes follow.
\<close>

theorem account_roundtrip:
  "account_fits acc \<Longrightarrow> account_decode (account_encode acc @ rest) s = Ok (Some acc) s"
  by (simp add: account_decode_append ret_def)

theorem account_roundtrip_witness:
  "account_decode (account_encode \<lparr>as_root_hash = 5, as_balance = 1000, as_nonce = 3, as_code = [0x60]\<rparr> @ [9]) () =
     Ok (Some \<lparr>as_root_hash = 5, as_balance = 1000, as_nonce = 3, as_code = [0x60]\<rparr>) ()"
  by (rule account_roundtrip) (simp add: account_fits_def)

section \<open>What the database represents\<close>

text \<open>A trie of the library, at a root, holds a finite or infinite map from keys to values.\<close>

definition holds :: "'d trie_if \<Rightarrow> 'd rw_db \<Rightarrow> bytes \<Rightarrow> (bytes \<rightharpoonup> bytes) \<Rightarrow> bool" where
  "holds tr w root f \<longleftrightarrow>
     tr_read tr w root = Some (\<lambda>k. Some (f k)) \<and> tr_has tr w root = Some (\<lambda>k. Some (f k \<noteq> None))"

definition starts :: "'d trie_if \<Rightarrow> 'd rw_db \<Rightarrow> bytes option \<Rightarrow> (bytes \<rightharpoonup> bytes) \<Rightarrow> bool" where
  "starts tr w root f \<longleftrightarrow> (case root of None \<Rightarrow> f = Map.empty | Some r \<Rightarrow> holds tr w r f)"

text \<open>The database once the pending batch is written.\<close>

definition flushed :: "'d rocks_if \<Rightarrow> 'd rw_db \<Rightarrow> 'd rw_db" where
  "flushed rk w = (case rw_commit rk w of Ok _ t \<Rightarrow> t | _ \<Rightarrow> w)"

text \<open>
  What the trie library promises over such a database: the zero root is no root; a written trie is, once the batch is
  on disk, the old one with the insertions applied, at a root of 32 bytes; no other trie is lost.
\<close>

definition trie_laws :: "'d rocks_if \<Rightarrow> 'd trie_if \<Rightarrow> bool" where
  "trie_laws rk tr \<longleftrightarrow>
     (\<forall>w. tr_read tr w (replicate 32 0) = None \<and> tr_has tr w (replicate 32 0) = None) \<and>
     (\<forall>w root kvs w' root' f. tr_write tr w root kvs = Some (w', root') \<and> starts tr w root f \<longrightarrow>
        length root' = 32 \<and> holds tr (flushed rk w') root' (f ++ map_of (rev kvs)) \<and>
        (\<forall>r g. holds tr w r g \<longrightarrow> holds tr w' r g) \<and>
        (\<forall>r g. holds tr (flushed rk w) r g \<longrightarrow> holds tr (flushed rk w') r g))"

definition iter_laws :: "map_iter \<Rightarrow> bool" where
  "iter_laws it \<longleftrightarrow>
     (\<forall>m. finite (dom m) \<longrightarrow> distinct (map fst (it_accounts it m)) \<and> map_of (it_accounts it m) = m) \<and>
     (\<forall>m. finite (dom m) \<longrightarrow> distinct (map fst (it_state it m)) \<and> map_of (it_state it m) = m)"

text \<open>The world state as accounts, and when the database holds it at a state root.\<close>

record merkle_account =
  ma_balance :: wei
  ma_nonce :: nat
  ma_code :: bytes
  ma_storage :: "hash \<rightharpoonup> u256"

definition account_held :: "'d trie_if \<Rightarrow> 'd rw_db \<Rightarrow> addr \<Rightarrow> bytes option \<Rightarrow> merkle_account option \<Rightarrow> bool" where
  "account_held tr w a raw m \<longleftrightarrow>
     (case m of
        None \<Rightarrow> raw = None
      | Some m \<Rightarrow> \<exists>acc g. raw = Some (account_encode acc) \<and> account_fits acc \<and> as_balance acc = ma_balance m \<and>
          as_nonce acc = ma_nonce m \<and> as_code acc = ma_code m \<and>
          holds tr w (hash_as_bytes (as_root_hash acc)) g \<and>
          (\<forall>k. g (prefix_key a k) = map_option to_big_endian (ma_storage m k)))"

definition represents :: "'d trie_if \<Rightarrow> 'd rw_db \<Rightarrow> hash option \<Rightarrow> (addr \<rightharpoonup> merkle_account) \<Rightarrow> bool" where
  "represents tr w root S \<longleftrightarrow>
     (\<exists>f. starts tr w (map_option hash_as_bytes root) f \<and> (\<forall>a. account_held tr w a (f (addr_as_bytes a)) (S a)))"

definition default_account :: merkle_account where
  "default_account = \<lparr>ma_balance = 0, ma_nonce = 0, ma_code = [], ma_storage = Map.empty\<rparr>"

definition overlay :: "merkle_account option \<Rightarrow> account_delta \<Rightarrow> merkle_account" where
  "overlay m d =
     (let m = (case m of Some m \<Rightarrow> m | None \<Rightarrow> default_account)
      in \<lparr>ma_balance = (case ad_balance d of Some b \<Rightarrow> b | None \<Rightarrow> ma_balance m),
          ma_nonce = (case ad_nonce d of Some n \<Rightarrow> n | None \<Rightarrow> ma_nonce m),
          ma_code = (case ad_code d of Some c \<Rightarrow> code_bytes c | None \<Rightarrow> ma_code m),
          ma_storage = ma_storage m ++ ad_state d\<rparr>)"

definition apply_delta :: "(addr \<rightharpoonup> merkle_account) \<Rightarrow> state_delta \<Rightarrow> (addr \<rightharpoonup> merkle_account)" where
  "apply_delta S d a = (case sd_accounts d a of None \<Rightarrow> S a | Some ad \<Rightarrow> Some (overlay (S a) ad))"

section \<open>Reads\<close>

lemma trie_zero:
  assumes "trie_laws rk tr"
  shows "tr_read tr w (replicate 32 0) = None" "tr_has tr w (replicate 32 0) = None"
  using assms by (auto simp: trie_laws_def)

lemma hash_bytes_zero: "hash_as_bytes h = replicate 32 0 \<longleftrightarrow> h = 0"
proof
  assume "hash_as_bytes h = replicate 32 0"
  moreover have "hash_as_bytes 0 = replicate 32 0" by code_simp
  ultimately show "h = 0" by (metis hash_from_as_bytes)
next
  show "h = 0 \<Longrightarrow> hash_as_bytes h = replicate 32 0" by simp code_simp
qed

lemma holds_get: "holds tr w r f \<Longrightarrow> mdb_get tr k r w = Ok (f k) w"
  by (simp add: mdb_get_def holds_def)

lemma holds_unique: "holds tr w r f \<Longrightarrow> holds tr w r g \<Longrightarrow> f = g"
  by (auto simp: holds_def fun_eq_iff)

lemma starts_get:
  assumes "trie_laws rk tr" and "starts tr w (map_option hash_as_bytes root) f"
  shows "mdb_get tr k (get_reader root) w = Ok (f k) w"
  using assms holds_get [of tr w] by (cases root) (auto simp: starts_def get_reader_def mdb_get_def trie_zero)

lemma reader_account_held:
  assumes "trie_laws rk tr" and "starts tr w (map_option hash_as_bytes root) f"
    and "account_held tr w a (f (addr_as_bytes a)) m"
  shows "case m of
      None \<Rightarrow> reader_account tr (get_reader root) a w = Ok None w
    | Some m \<Rightarrow> \<exists>acc g. reader_account tr (get_reader root) a w = Ok (Some acc) w \<and> account_fits acc \<and>
        as_balance acc = ma_balance m \<and> as_nonce acc = ma_nonce m \<and> as_code acc = ma_code m \<and>
        holds tr w (hash_as_bytes (as_root_hash acc)) g \<and>
        (\<forall>k. g (prefix_key a k) = map_option to_big_endian (ma_storage m k))"
proof -
  have get: "mdb_get tr (addr_as_bytes a) (get_reader root) w = Ok (f (addr_as_bytes a)) w"
    by (rule starts_get [OF assms(1,2)])
  have "reader_account tr (get_reader root) a w = Ok (Some acc) w"
    if "f (addr_as_bytes a) = Some (account_encode acc)" "account_fits acc" for acc
    using get that
    by (simp add: reader_account_def bind_def ret_def unwrap_def account_decode_append [of acc "[]", simplified])
  then show ?thesis
    using assms(3) get by (auto simp: account_held_def reader_account_def bind_def ret_def split: option.splits)
qed

lemma reader_reads:
  assumes "trie_laws rk tr" and "represents tr w root S"
  shows "reader_get_balance tr (get_reader root) a w = Ok (case S a of Some m \<Rightarrow> ma_balance m | None \<Rightarrow> 0) w"
    "reader_get_nonce tr (get_reader root) a w = Ok (case S a of Some m \<Rightarrow> ma_nonce m | None \<Rightarrow> 0) w"
    "reader_get_code keccak tr (get_reader root) a w =
       Ok (PlainCode_new keccak (case S a of Some m \<Rightarrow> ma_code m | None \<Rightarrow> [])) w"
    "reader_get_state tr (get_reader root) a k w =
       Ok (case Option.bind (S a) (\<lambda>m. ma_storage m k) of Some v \<Rightarrow> v | None \<Rightarrow> 0) w"
proof -
  from assms(2) obtain f where f: "starts tr w (map_option hash_as_bytes root) f"
    "account_held tr w a (f (addr_as_bytes a)) (S a)" by (auto simp: represents_def)
  note acc = reader_account_held [OF assms(1) f]
  show "reader_get_balance tr (get_reader root) a w = Ok (case S a of Some m \<Rightarrow> ma_balance m | None \<Rightarrow> 0) w"
    "reader_get_nonce tr (get_reader root) a w = Ok (case S a of Some m \<Rightarrow> ma_nonce m | None \<Rightarrow> 0) w"
    "reader_get_code keccak tr (get_reader root) a w =
       Ok (PlainCode_new keccak (case S a of Some m \<Rightarrow> ma_code m | None \<Rightarrow> [])) w"
    using acc by (auto simp: reader_get_balance_def reader_get_nonce_def reader_get_code_def bind_def ret_def
        split: option.splits)
  show "reader_get_state tr (get_reader root) a k w =
       Ok (case Option.bind (S a) (\<lambda>m. ma_storage m k) of Some v \<Rightarrow> v | None \<Rightarrow> 0) w"
    using acc by (auto simp: reader_get_state_def bind_def ret_def holds_get split: option.splits)
qed

section \<open>Commits\<close>

lemma map_of_rev_distinct: "distinct (map fst xs) \<Longrightarrow> map_of (rev xs) = map_of xs"
proof (induction xs)
  case (Cons x xs)
  then have "map_of xs (fst x) = None" by (simp add: map_of_eq_None_iff)
  with Cons show ?case by (cases x) (auto simp: map_add_def fun_eq_iff simp del: map_of_eq_Some_iff split: option.splits)
qed simp

lemma map_of_map_keys: "inj f \<Longrightarrow> map_of (map (\<lambda>(k, v). (f k, h v)) xs) (f k) = map_option h (map_of xs k)"
  by (induction xs) (auto dest: injD)

lemma map_of_map_rev:
  assumes "inj f" and "distinct (map fst xs)"
  shows "map_of (rev (map (\<lambda>(k, v). (f k, h v)) xs)) (f k) = map_option h (map_of xs k)"
proof -
  have "rev (map (\<lambda>(k, v). (f k, h v)) xs) = map (\<lambda>(k, v). (f k, h v)) (rev xs)" by (simp add: rev_map)
  then show ?thesis using map_of_map_keys [OF assms(1), of h "rev xs" k] assms(2) by (simp add: map_of_rev_distinct)
qed

lemma inj_addr_bytes: "inj addr_as_bytes"
  by (metis addr_from_as_bytes injI)

lemma inj_prefix_key: "inj (prefix_key a)"
  by (metis append_same_eq hash_from_as_bytes injI prefix_key_def same_append_eq)

lemma hash_bytes_root: "length r = 32 \<Longrightarrow> hash_as_bytes (from_big_endian r) = r"
  using to_from_big_endian [of r] by (simp add: hash_as_bytes_def to_big_endian_def)

definition storage_of :: "merkle_account option \<Rightarrow> (hash \<rightharpoonup> u256)" where
  "storage_of m = (case m of Some m \<Rightarrow> ma_storage m | None \<Rightarrow> Map.empty)"

definition storage_held :: "addr \<Rightarrow> (bytes \<rightharpoonup> bytes) \<Rightarrow> (hash \<rightharpoonup> u256) \<Rightarrow> bool" where
  "storage_held a g st \<longleftrightarrow> (\<forall>k. g (prefix_key a k) = map_option to_big_endian (st k))"

definition root_opt :: "hash \<Rightarrow> bytes option" where
  "root_opt old = (if old = 0 then None else Some (hash_as_bytes old))"

definition gathered_for ::
  "'d trie_if \<Rightarrow> 'd rw_db \<Rightarrow> (addr \<rightharpoonup> merkle_account) \<Rightarrow> addr \<times> account_delta \<Rightarrow> gathered \<Rightarrow> bool" where
  "gathered_for tr w S ad gt \<longleftrightarrow>
     (\<exists>old g. let m = overlay (S (fst ad)) (snd ad) in
        gt = (fst ad, ma_balance m, ma_nonce m, ma_code m, ad_state (snd ad), old) \<and>
        starts tr w (root_opt old) g \<and> storage_held (fst ad) g (storage_of (S (fst ad))))"

lemma gather_account_Ok:
  assumes laws: "trie_laws rk tr" and rep: "represents tr w root S"
  shows "\<exists>gt. gather_account (merkle_reader keccak tr (get_reader root)) ad w = Ok gt w \<and> gathered_for tr w S ad gt"
proof -
  obtain a d where ad: "ad = (a, d)" by (cases ad)
  note reads = reader_reads [OF laws rep, where a = a]
  from rep obtain f where f: "starts tr w (map_option hash_as_bytes root) f"
    "account_held tr w a (f (addr_as_bytes a)) (S a)" by (auto simp: represents_def)
  have "\<exists>old g. reader_get_account_root tr (get_reader root) a w = Ok old w \<and> starts tr w (root_opt old) g \<and>
    storage_held a g (storage_of (S a))"
  proof (cases "S a")
    case None
    then show ?thesis using reader_account_held [OF laws f]
      by (auto simp: reader_get_account_root_def bind_def ret_def root_opt_def starts_def storage_held_def storage_of_def)
  next
    case (Some m)
    from reader_account_held [OF laws f] Some obtain acc g where
      acc: "reader_account tr (get_reader root) a w = Ok (Some acc) w" "holds tr w (hash_as_bytes (as_root_hash acc)) g"
        "\<forall>k. g (prefix_key a k) = map_option to_big_endian (ma_storage m k)" by auto
    have "as_root_hash acc \<noteq> 0"
      using acc(2) trie_zero [OF laws] hash_bytes_zero [of "as_root_hash acc"] by (auto simp: holds_def)
    with acc Some show ?thesis
      by (auto simp: reader_get_account_root_def bind_def ret_def root_opt_def starts_def storage_held_def storage_of_def)
  qed
  then show ?thesis using reads
    by (auto simp: ad gather_account_def merkle_reader_def bind_def ret_def gathered_for_def overlay_def Let_def
        default_account_def PlainCode_new_def split: option.splits)
qed

lemma gather_each_Ok:
  assumes "trie_laws rk tr" and "represents tr w root S"
  shows "\<exists>gs. map_each xs (gather_account (merkle_reader keccak tr (get_reader root))) w = Ok gs w \<and>
    list_all2 (gathered_for tr w S) xs gs"
proof (induction xs)
  case (Cons x xs)
  then show ?case using gather_account_Ok [OF assms, of keccak x] by (auto simp: bind_def ret_def)
qed (simp add: ret_def)

text \<open>An account as it was written, its storage trie on disk.\<close>

definition written_for ::
  "'d trie_if \<Rightarrow> 'd rw_db \<Rightarrow> (addr \<rightharpoonup> merkle_account) \<Rightarrow> addr \<times> account_delta \<Rightarrow> addr \<times> account_state \<Rightarrow> bool" where
  "written_for tr w S ad aa \<longleftrightarrow>
     (\<exists>g. let m = overlay (S (fst ad)) (snd ad) in
        fst aa = fst ad \<and> as_balance (snd aa) = ma_balance m \<and> as_nonce (snd aa) = ma_nonce m \<and>
        as_code (snd aa) = ma_code m \<and> holds tr w (hash_as_bytes (as_root_hash (snd aa))) g \<and>
        storage_held (fst ad) g (ma_storage m))"

definition holds_more :: "'d trie_if \<Rightarrow> 'd rw_db \<Rightarrow> 'd rw_db \<Rightarrow> bool" where
  "holds_more tr w w' \<longleftrightarrow> (\<forall>r g. holds tr w r g \<longrightarrow> holds tr w' r g)"

lemma holds_more_starts: "holds_more tr w w' \<Longrightarrow> starts tr w root f \<Longrightarrow> starts tr w' root f"
  by (auto simp: holds_more_def starts_def split: option.splits)

lemma holds_more_written: "holds_more tr w w' \<Longrightarrow> written_for tr w S ad aa \<Longrightarrow> written_for tr w' S ad aa"
  by (auto simp: holds_more_def written_for_def Let_def)

lemma write_trie_Ok:
  assumes "trie_laws rk tr" and "write_trie tr root kvs w = Ok r w'" and "starts tr w root f"
  shows "length r = 32" "holds tr (flushed rk w') r (f ++ map_of (rev kvs))"
    "holds_more tr w w'" "holds_more tr (flushed rk w) (flushed rk w')"
proof -
  have "tr_write tr w root kvs = Some (w', r)"
    using assms(2) by (auto simp: write_trie_def split: option.splits)
  with assms(1,3) have "length r = 32 \<and> holds tr (flushed rk w') r (f ++ map_of (rev kvs)) \<and>
    holds_more tr w w' \<and> holds_more tr (flushed rk w) (flushed rk w')"
    unfolding trie_laws_def holds_more_def by blast
  then show "length r = 32" "holds tr (flushed rk w') r (f ++ map_of (rev kvs))"
    "holds_more tr w w'" "holds_more tr (flushed rk w) (flushed rk w')" by auto
qed

lemma write_account_Ok:
  assumes laws: "trie_laws rk tr" "iter_laws it" and fin: "finite (dom (ad_state (snd ad)))"
    and gt: "gathered_for tr w0 S ad gt" and more: "holds_more tr w0 w"
    and run: "write_account tr it gt w = Ok aa w'"
  shows "written_for tr (flushed rk w') S ad aa" "holds_more tr w w'" "holds_more tr (flushed rk w) (flushed rk w')"
proof -
  let ?a = "fst ad" and ?d = "snd ad"
  let ?m = "overlay (S ?a) ?d" and ?kvs = "map (\<lambda>(key, val). (prefix_key ?a key, to_big_endian val)) (it_state it (ad_state ?d))"
  from gt obtain old g where g: "gt = (?a, ma_balance ?m, ma_nonce ?m, ma_code ?m, ad_state ?d, old)"
    "starts tr w0 (root_opt old) g" "storage_held ?a g (storage_of (S ?a))" by (auto simp: gathered_for_def Let_def)
  from run obtain r where r: "write_trie tr (root_opt old) ?kvs w = Ok r w'"
    and aa: "aa = (?a, \<lparr>as_root_hash = from_big_endian r, as_balance = ma_balance ?m, as_nonce = ma_nonce ?m, as_code = ma_code ?m\<rparr>)"
    by (auto simp: write_account_def g(1) bind_Ok_conv ret_def root_opt_def)
  note wt = write_trie_Ok [OF laws(1) r holds_more_starts [OF more g(2)]]
  then show "holds_more tr w w'" "holds_more tr (flushed rk w) (flushed rk w')" by blast+
  have "map_of (rev ?kvs) (prefix_key ?a k) = map_option to_big_endian (ad_state ?d k)" for k
    using map_of_map_rev [OF inj_prefix_key, of "it_state it (ad_state ?d)" ?a to_big_endian k] laws(2) fin
    by (simp add: iter_laws_def)
  then have "storage_held ?a (g ++ map_of (rev ?kvs)) (ma_storage ?m)"
    using g(3) by (auto simp: storage_held_def map_add_def overlay_def storage_of_def Let_def default_account_def split: option.splits)
  then show "written_for tr (flushed rk w') S ad aa"
    using wt(1,2) aa by (auto simp: written_for_def Let_def hash_bytes_root)
qed

lemma write_each_Ok:
  assumes laws: "trie_laws rk tr" "iter_laws it"
  shows "list_all2 (gathered_for tr w0 S) xs gs \<Longrightarrow> \<forall>ad\<in>set xs. finite (dom (ad_state (snd ad))) \<Longrightarrow>
    holds_more tr w0 w \<Longrightarrow> map_each gs (write_account tr it) w = Ok accs w' \<Longrightarrow>
    list_all2 (written_for tr (flushed rk w') S) xs accs \<and> holds_more tr w w' \<and>
      holds_more tr (flushed rk w) (flushed rk w')"
proof (induction xs gs arbitrary: w accs rule: list_all2_induct)
  case Nil
  then show ?case by (simp add: ret_def holds_more_def)
next
  case (Cons ad xs gt gs)
  from Cons.prems(3) obtain aa u rest where one: "write_account tr it gt w = Ok aa u"
    and more: "map_each gs (write_account tr it) u = Ok rest w'" and accs: "accs = aa # rest"
    by (auto simp: bind_Ok_conv ret_def)
  note wa = write_account_Ok [OF laws _ Cons.hyps(1) Cons.prems(2) one]
  have fin: "finite (dom (ad_state (snd ad)))" using Cons.prems(1) by simp
  have "holds_more tr w0 u" using Cons.prems(2) wa(2) [OF fin] by (simp add: holds_more_def)
  from Cons.IH [OF _ this more] Cons.prems(1)
  have rest: "list_all2 (written_for tr (flushed rk w') S) xs rest" "holds_more tr u w'"
    "holds_more tr (flushed rk u) (flushed rk w')" by auto
  then show ?case
    using wa(2,3) [OF fin] holds_more_written [OF rest(3) wa(1) [OF fin]] by (auto simp: accs holds_more_def)
qed

definition delta_fits :: "state_delta \<Rightarrow> bool" where
  "delta_fits d \<longleftrightarrow>
     finite (dom (sd_accounts d)) \<and>
     (\<forall>ad\<in>ran (sd_accounts d). finite (dom (ad_state ad)) \<and>
        (\<forall>n\<in>set_option (ad_nonce ad). n < 2 ^ 64) \<and> (\<forall>c\<in>set_option (ad_code ad). length (code_bytes c) < 2 ^ 63))"

lemma written_encoded:
  assumes "list_all2 (written_for tr w S) xs accs" and "distinct (map fst xs)"
  shows "map_of (rev (map (\<lambda>(a, acc). (addr_as_bytes a, account_encode acc)) accs)) (addr_as_bytes a) =
      map_option account_encode (map_of accs a)"
    and "map_of xs a = None \<longleftrightarrow> map_of accs a = None"
    and "map_of xs a = Some d \<Longrightarrow> \<exists>acc. map_of accs a = Some acc \<and> written_for tr w S (a, d) (a, acc)"
proof -
  have "map fst accs = map fst xs"
    using assms(1) by (induction rule: list_all2_induct) (auto simp: written_for_def Let_def)
  then show "map_of (rev (map (\<lambda>(a, acc). (addr_as_bytes a, account_encode acc)) accs)) (addr_as_bytes a) =
      map_option account_encode (map_of accs a)"
    by (intro map_of_map_rev [OF inj_addr_bytes]) (use assms(2) in simp)
  show "map_of xs a = None \<longleftrightarrow> map_of accs a = None"
    using \<open>map fst accs = map fst xs\<close> by (metis list.set_map map_of_eq_None_iff)
  show "map_of xs a = Some d \<Longrightarrow> \<exists>acc. map_of accs a = Some acc \<and> written_for tr w S (a, d) (a, acc)"
    using assms(1)
  proof (induction rule: list_all2_induct)
    case (Cons x xs y ys)
    then show ?case by (cases x; cases y) (auto simp: written_for_def Let_def split: if_splits)
  qed simp
qed

lemma overlay_fits:
  assumes "represents tr w root S" and "delta_fits d" and "sd_accounts d a = Some ad"
  shows "ma_nonce (overlay (S a) ad) < 2 ^ 64 \<and> length (ma_code (overlay (S a) ad)) < 2 ^ 63"
proof -
  have "\<forall>m. S a = Some m \<longrightarrow> ma_nonce m < 2 ^ 64 \<and> length (ma_code m) < 2 ^ 63"
  proof -
    from assms(1) obtain f where "account_held tr w a (f (addr_as_bytes a)) (S a)" by (auto simp: represents_def)
    then show ?thesis by (auto simp: account_held_def account_fits_def)
  qed
  moreover have "ad \<in> ran (sd_accounts d)" using assms(3) by (auto simp: ran_def)
  ultimately show ?thesis using assms(2)
    by (auto simp: overlay_def Let_def default_account_def delta_fits_def split: option.splits)
qed

lemma commit_represents:
  assumes laws: "trie_laws rk tr" "iter_laws it" and rep: "represents tr w root S" and idle: "rw_wb w = None"
    and fits: "delta_fits d"
    and run: "merkle_commit tr it root d (merkle_reader keccak tr (get_reader root)) w = Ok r t"
    and flush: "rw_commit rk t = Ok () u"
  shows "represents tr u (Some r) (apply_delta S d)" and "holds_more tr w u"
proof -
  let ?xs = "it_accounts it (sd_accounts d)"
  have xs: "distinct (map fst ?xs)" "map_of ?xs = sd_accounts d" using laws(2) fits by (auto simp: iter_laws_def delta_fits_def)
  have fin: "\<forall>ad\<in>set ?xs. finite (dom (ad_state (snd ad)))"
    using fits xs by (auto simp: delta_fits_def ran_def dest!: map_of_is_SomeI)
  from run gather_each_Ok [OF laws(1) rep, of ?xs keccak] obtain gs accs v r' where
    gs: "list_all2 (gathered_for tr w S) ?xs gs" and
    accs: "map_each gs (write_account tr it) w = Ok accs v" and
    top: "write_trie tr (map_option hash_as_bytes root) (map (\<lambda>(a, acc). (addr_as_bytes a, account_encode acc)) accs) v = Ok r' t"
    and r: "r = from_big_endian r'"
    by (auto simp: merkle_commit_def bind_Ok_conv ret_def)
  from write_each_Ok [OF laws gs fin _ accs] have
    written: "list_all2 (written_for tr (flushed rk v) S) ?xs accs" and more: "holds_more tr w v" "holds_more tr (flushed rk w) (flushed rk v)"
    by (auto simp: holds_more_def)
  have w: "flushed rk w = w" and u: "flushed rk t = u" using idle flush by (simp_all add: flushed_def rw_commit_def)
  from rep obtain f where f: "starts tr w (map_option hash_as_bytes root) f" "\<And>a. account_held tr w a (f (addr_as_bytes a)) (S a)"
    by (auto simp: represents_def)
  note wt = write_trie_Ok [OF laws(1) top holds_more_starts [OF more(1) f(1)]]
  let ?f = "f ++ map_of (rev (map (\<lambda>(a, acc). (addr_as_bytes a, account_encode acc)) accs))"
  have wu: "holds_more tr w u" using more(2) wt(4) by (simp add: holds_more_def w u)
  have "account_held tr u a (?f (addr_as_bytes a)) (apply_delta S d a)" for a
  proof (cases "sd_accounts d a")
    case None
    then have "?f (addr_as_bytes a) = f (addr_as_bytes a)"
      using written_encoded(1,2) [OF written xs(1)] xs(2) by (simp add: map_add_def)
    then show ?thesis using None f(2) [of a] wu
      by (fastforce simp: apply_delta_def account_held_def holds_more_def split: option.splits)
  next
    case (Some ad)
    then obtain acc where acc: "map_of accs a = Some acc" "written_for tr (flushed rk v) S (a, ad) (a, acc)"
      using written_encoded(3) [OF written xs(1)] xs(2) by metis
    have "?f (addr_as_bytes a) = Some (account_encode acc)"
      using written_encoded(1) [OF written xs(1), of a] acc(1) by (simp add: map_add_def)
    moreover have "written_for tr u S (a, ad) (a, acc)" using holds_more_written [OF wt(4) acc(2)] by (simp add: u)
    ultimately show ?thesis using Some overlay_fits [OF rep fits Some]
      by (auto simp: apply_delta_def account_held_def written_for_def Let_def account_fits_def storage_held_def)
  qed
  then show "represents tr u (Some r) (apply_delta S d)" using wt(1,2)
    unfolding represents_def starts_def by (intro exI [of _ ?f]) (simp add: r u hash_bytes_root)
  show "holds_more tr w u" by (rule wu)
qed

lemma reader_exist_held:
  assumes "represents tr w (Some r) S"
  shows "reader_exist tr (get_reader (Some r)) a w = Ok (S a \<noteq> None) w"
proof -
  from assms obtain f where f: "holds tr w (hash_as_bytes r) f" "account_held tr w a (f (addr_as_bytes a)) (S a)"
    by (auto simp: represents_def starts_def)
  have "(\<exists>y. f (addr_as_bytes a) = Some y) \<longleftrightarrow> (\<exists>y. S a = Some y)" using f(2) by (auto simp: account_held_def split: option.splits)
  then show ?thesis using f(1)
    by (simp add: reader_exist_def mdb_contains_def holds_def get_reader_def bind_def unwrap_def ret_def)
qed

text \<open>
  C11. A commit refines the update of a map of accounts. When the database holds the accounts \<open>S\<close> at a state root (none:
  no accounts) and nothing is pending, a commit of a delta, followed by writing the batch, gives a state root at which the
  database holds \<open>S\<close> with the delta laid over it: the reader of the new root returns for each account the balance, nonce,
  code and storage words of the delta where it has them and the old ones elsewhere.
\<close>

theorem merkle_commit_refines:
  assumes "trie_laws rk tr" and "iter_laws it" and "represents tr w root S" and "rw_wb w = None" and "delta_fits d"
    and "merkle_commit tr it root d (merkle_reader keccak tr (get_reader root)) w = Ok r t" and "rw_commit rk t = Ok () u"
  shows "represents tr u (Some r) (apply_delta S d) \<and>
    reader_get_balance tr (get_reader (Some r)) a u = Ok (case apply_delta S d a of Some m \<Rightarrow> ma_balance m | None \<Rightarrow> 0) u \<and>
    reader_get_nonce tr (get_reader (Some r)) a u = Ok (case apply_delta S d a of Some m \<Rightarrow> ma_nonce m | None \<Rightarrow> 0) u \<and>
    reader_get_code keccak tr (get_reader (Some r)) a u =
      Ok (PlainCode_new keccak (case apply_delta S d a of Some m \<Rightarrow> ma_code m | None \<Rightarrow> [])) u \<and>
    reader_get_state tr (get_reader (Some r)) a k u =
      Ok (case Option.bind (apply_delta S d a) (\<lambda>m. ma_storage m k) of Some v \<Rightarrow> v | None \<Rightarrow> 0) u \<and>
    reader_exist tr (get_reader (Some r)) a u = Ok (apply_delta S d a \<noteq> None) u"
proof -
  note rep = commit_represents(1) [OF assms]
  show ?thesis by (intro conjI rep reader_reads [OF assms(1) rep] reader_exist_held [OF rep])
qed

text \<open>The accounts a delta deletes are not looked at, and \<open>exist\<close> panics where there is no state root yet.\<close>

lemma commit_ignores_deleted: "merkle_commit tr it root (d\<lparr>sd_deleted := X\<rparr>) reader = merkle_commit tr it root d reader"
  by (simp add: merkle_commit_def)

lemma exist_without_root_panics: "trie_laws rk tr \<Longrightarrow> reader_exist tr (get_reader None) a w = Panic"
  by (simp add: reader_exist_def mdb_contains_def get_reader_def trie_zero bind_def unwrap_def panic_def)

section \<open>A trie library that keeps the laws\<close>

text \<open>Every trie ever written, in a list; a root is a position in it.\<close>

definition log_rocks :: "(bytes \<rightharpoonup> bytes) list rocks_if" where
  "log_rocks = \<lparr>rk_get = \<lambda>d k. Some None, rk_write = \<lambda>d wb. Some d\<rparr>"

definition log_at :: "(bytes \<rightharpoonup> bytes) list rw_db \<Rightarrow> bytes \<Rightarrow> (bytes \<rightharpoonup> bytes) option" where
  "log_at w r =
     (if length r = 32 \<and> 0 < be_val r \<and> be_val r \<le> length (rw_db w) then Some (rw_db w ! (be_val r - 1)) else None)"

definition log_trie :: "(bytes \<rightharpoonup> bytes) list trie_if" where
  "log_trie =
     \<lparr>tr_read = \<lambda>w r. map_option (\<lambda>f k. Some (f k)) (log_at w r),
      tr_has = \<lambda>w r. map_option (\<lambda>f k. Some (f k \<noteq> None)) (log_at w r),
      tr_write = \<lambda>w root kvs.
        (case (case root of None \<Rightarrow> Some Map.empty | Some r \<Rightarrow> log_at w r) of
           None \<Rightarrow> None
         | Some f \<Rightarrow>
             if Suc (length (rw_db w)) < 256 ^ 32
             then Some (w\<lparr>rw_db := rw_db w @ [f ++ map_of (rev kvs)]\<rparr>, be_bytes 32 (Suc (length (rw_db w))))
             else None)\<rparr>"

definition sorted_iter :: map_iter where
  "sorted_iter =
     \<lparr>it_accounts = \<lambda>m. map (\<lambda>a. (a, the (m a))) (sorted_list_of_set (dom m)),
      it_state = \<lambda>m. map (\<lambda>k. (k, the (m k))) (sorted_list_of_set (dom m))\<rparr>"

lemma map_of_the: "map_of (map (\<lambda>a. (a, the (m a))) xs) = m |` set xs" if "set xs \<subseteq> dom m"
  using that by (induction xs) (auto simp: restrict_map_def fun_eq_iff)

lemma restrict_dom: "m |` dom m = m"
proof
  fix x
  show "(m |` dom m) x = m x" by (cases "m x") (auto simp: restrict_map_def)
qed

lemma sorted_iter_laws: "iter_laws sorted_iter"
  by (auto simp: iter_laws_def sorted_iter_def comp_def map_of_the restrict_dom)

lemma log_holds: "holds log_trie w r f \<longleftrightarrow> log_at w r = Some f"
  by (auto simp: holds_def log_trie_def fun_eq_iff)

lemma log_flushed: "log_at (flushed log_rocks w) r = log_at w r"
  by (auto simp: log_at_def flushed_def rw_commit_def log_rocks_def bind_def unwrap_def ret_def modify_def split: option.splits)

lemma log_laws: "trie_laws log_rocks log_trie"
proof -
  have zero: "log_at w (replicate 32 0) = None" for w
  proof -
    have "be_val (replicate n 0) = 0" for n by (induction n) (simp_all add: be_val_def)
    then show ?thesis by (simp add: log_at_def)
  qed
  have wrote: "length r' = 32 \<and> log_at w' r' = Some (f ++ map_of (rev kvs)) \<and>
      (\<forall>r g. log_at w r = Some g \<longrightarrow> log_at w' r = Some g)"
    if run: "tr_write log_trie w root kvs = Some (w', r')" and start: "starts log_trie w root f" for w root kvs w' r' f
  proof -
    have "(case root of None \<Rightarrow> Some Map.empty | Some r \<Rightarrow> log_at w r) = Some f"
      using start by (auto simp: starts_def log_holds split: option.splits)
    with run have n: "Suc (length (rw_db w)) < 256 ^ 32" and w': "w' = w\<lparr>rw_db := rw_db w @ [f ++ map_of (rev kvs)]\<rparr>"
      and r': "r' = be_bytes 32 (Suc (length (rw_db w)))" by (auto simp: log_trie_def split: if_splits)
    have "be_val r' = Suc (length (rw_db w))" unfolding r' be_val_be_bytes using n by (rule mod_less)
    then show ?thesis by (auto simp: w' log_at_def r' nth_append split: if_splits)
  qed
  have "tr_read log_trie w (replicate 32 0) = None \<and> tr_has log_trie w (replicate 32 0) = None" for w
    by (simp add: log_trie_def zero)
  then show ?thesis
    unfolding trie_laws_def log_holds log_flushed using wrote by blast
qed

abbreviation sample_delta :: state_delta where
  "sample_delta \<equiv>
     empty_delta\<lparr>sd_accounts := [7 \<mapsto> account_delta_default\<lparr>ad_balance := Some 5, ad_state := [1 \<mapsto> 2]\<rparr>]\<rparr>"

lemma sample_commit_Ok:
  "\<exists>r t. merkle_commit log_trie sorted_iter None sample_delta
       (merkle_reader (\<lambda>_. 0) log_trie (get_reader None)) (rw_new (\<lambda>v. v) [] []) = Ok r t"
proof -
  have none: "tr_read log_trie (rw_new (\<lambda>v. v) [] []) r = None" for r by (auto simp: log_trie_def log_at_def rw_new_def)
  have new: "tr_write log_trie w None kvs = Some (w\<lparr>rw_db := rw_db w @ [Map.empty ++ map_of (rev kvs)]\<rparr>, be_bytes 32 (Suc (length (rw_db w))))"
    if "length (rw_db w) < 5" for w kvs
  proof -
    have "Suc (length (rw_db w)) < 256 ^ 32" using that by (rule less_trans [OF Suc_mono]) simp
    then show ?thesis by (simp add: log_trie_def)
  qed
  have db: "rw_db (rw_new (\<lambda>v. v) [] []) = []" by (simp add: rw_new_def)
  show ?thesis
    by (simp add: merkle_commit_def sorted_iter_def bind_def ret_def gather_account_def merkle_reader_def
        account_delta_default_def reader_get_nonce_def reader_get_code_def reader_get_account_root_def reader_account_def
        mdb_get_def none write_account_def write_trie_def new db)
qed

theorem merkle_commit_refines_witness:
  "\<exists>r t u. merkle_commit log_trie sorted_iter None sample_delta
       (merkle_reader (\<lambda>_. 0) log_trie (get_reader None)) (rw_new (\<lambda>v. v) [] []) = Ok r t \<and>
     rw_commit log_rocks t = Ok () u \<and>
     reader_get_balance log_trie (get_reader (Some r)) 7 u = Ok 5 u \<and>
     reader_get_state log_trie (get_reader (Some r)) 7 1 u = Ok 2 u"
proof -
  from sample_commit_Ok obtain r t where t: "merkle_commit log_trie sorted_iter None sample_delta
       (merkle_reader (\<lambda>_. 0) log_trie (get_reader None)) (rw_new (\<lambda>v. v) [] []) = Ok r t" by blast
  obtain u where u: "rw_commit log_rocks t = Ok () u"
    by (cases "rw_wb t") (auto simp: rw_commit_def log_rocks_def bind_def unwrap_def ret_def modify_def)
  have rep: "represents log_trie (rw_new (\<lambda>v. v) [] []) None Map.empty"
    by (auto simp: represents_def starts_def account_held_def)
  have idle: "rw_wb (rw_new (\<lambda>v. v) [] []) = None" by (simp add: rw_new_def)
  have fits: "delta_fits sample_delta" by (simp add: delta_fits_def account_delta_default_def)
  from merkle_commit_refines [OF log_laws sorted_iter_laws rep idle fits t u, of 7 1] t u show ?thesis
    by (auto simp: apply_delta_def overlay_def)
qed

end
