(* ===== verification/DemoCodec.thy ===== *)
theory DemoCodec
  imports Tx Merkle
begin

text \<open>
  The stored data of \<open>src/examples/demo.rs\<close>: the keys of the database, the blocks of the demo chain with their hash
  and codec, and the outcome of a block. The cell \<open>cached_hash\<close> of a block is the memo of \<open>hash()\<close>, empty in
  every block built here. The world state of an outcome is not stored with it and is a type parameter.
\<close>

definition str_bytes :: "string \<Rightarrow> bytes" where
  "str_bytes s = map (\<lambda>c. word_of_nat (of_char c)) s"

definition DB_PREFIX_MERKLE :: bytes where "DB_PREFIX_MERKLE = str_bytes ''merkle''"

definition DB_PREFIX_OUTCOME :: bytes where "DB_PREFIX_OUTCOME = str_bytes ''outcome''"

definition DB_PREFIX_BLOCK :: bytes where "DB_PREFIX_BLOCK = str_bytes ''block''"

definition DB_PREFIX_INDEX :: bytes where "DB_PREFIX_INDEX = str_bytes ''index''"

definition gen_outcome_key :: "hash \<Rightarrow> bytes" where
  "gen_outcome_key block = DB_PREFIX_OUTCOME @ hash_as_bytes block"

definition gen_block_key :: "hash \<Rightarrow> bytes" where
  "gen_block_key block = DB_PREFIX_BLOCK @ hash_as_bytes block"

definition gen_index_key :: "nat \<Rightarrow> bytes" where
  "gen_index_key idx = DB_PREFIX_INDEX @ le_bytes 8 idx"

section \<open>Outcomes\<close>

record 'w block_outcome =
  bo_world_state :: 'w
  bo_gas_used :: "(gas \<times> gas) list"
  bo_contract_addrs :: "addr option list"

definition outcome_encode :: "'w block_outcome \<Rightarrow> bytes" where
  "outcome_encode o' =
     le_bytes 8 (length (bo_gas_used o')) @
     concat (map (\<lambda>(g0, g1). le_bytes 8 g0 @ le_bytes 8 g1) (bo_gas_used o')) @
     le_bytes 8 (length (bo_contract_addrs o')) @
     concat (map (\<lambda>addr. addr_as_bytes (case addr of Some a \<Rightarrow> a | None \<Rightarrow> 0)) (bo_contract_addrs o'))"

fun read_gas_used :: "nat \<Rightarrow> bytes \<Rightarrow> ((gas \<times> gas) list \<times> bytes) option" where
  "read_gas_used 0 raw = Some ([], raw)"
| "read_gas_used (Suc n) raw =
     (case read_exact 8 raw of None \<Rightarrow> None | Some (g0, raw) \<Rightarrow>
      case read_exact 8 raw of None \<Rightarrow> None | Some (g1, raw) \<Rightarrow>
      case read_gas_used n raw of None \<Rightarrow> None | Some (gs, raw) \<Rightarrow> Some ((le_val g0, le_val g1) # gs, raw))"

fun read_contract_addrs :: "nat \<Rightarrow> bytes \<Rightarrow> (addr option list \<times> bytes) option" where
  "read_contract_addrs 0 raw = Some ([], raw)"
| "read_contract_addrs (Suc n) raw =
     (case read_exact 20 raw of None \<Rightarrow> None | Some (buff, raw) \<Rightarrow>
      let addr = addr_from_slice buff in
      case read_contract_addrs n raw of None \<Rightarrow> None | Some (as, raw) \<Rightarrow>
        Some ((if addr = 0 then None else Some addr) # as, raw))"

definition outcome_decode :: "bytes \<Rightarrow> 'w \<Rightarrow> ('s, 'w block_outcome option) exec" where
  "outcome_decode raw ws =
     (case read_exact 8 raw of None \<Rightarrow> ret None | Some (len, raw) \<Rightarrow>
      case read_gas_used (le_val len) raw of None \<Rightarrow> ret None | Some (gas_used, raw) \<Rightarrow>
      case read_exact 8 raw of None \<Rightarrow> ret None | Some (alen, raw) \<Rightarrow>
      if le_val len \<noteq> le_val alen then panic
      else case read_contract_addrs (le_val alen) raw of None \<Rightarrow> ret None | Some (contract_addrs, raw) \<Rightarrow>
        ret (Some \<lparr>bo_world_state = ws, bo_gas_used = gas_used, bo_contract_addrs = contract_addrs\<rparr>))"

section \<open>Blocks\<close>

record demo_block =
  db_number :: nat
  db_parent_hash :: hash
  db_root_hash :: hash
  db_timestamp :: nat
  db_gas_limit :: gas
  db_base_fee :: u256
  db_txs :: "tx list"

text \<open>\<open>now\<close> is the system time in seconds.\<close>

definition demo_block_new :: "nat \<Rightarrow> nat \<Rightarrow> hash \<Rightarrow> hash \<Rightarrow> nat option \<Rightarrow> tx list \<Rightarrow> demo_block" where
  "demo_block_new now number parent_hash root_hash timestamp txs =
     \<lparr>db_number = number, db_parent_hash = parent_hash, db_root_hash = root_hash,
      db_timestamp = (case timestamp of Some t \<Rightarrow> t | None \<Rightarrow> now), db_gas_limit = 8000000, db_base_fee = 0,
      db_txs = txs\<rparr>"

definition demo_block_hash :: "(bytes \<Rightarrow> hash) \<Rightarrow> demo_block \<Rightarrow> hash" where
  "demo_block_hash keccak b =
     keccak (le_bytes 8 (db_number b) @ hash_as_bytes (db_parent_hash b) @ hash_as_bytes (db_root_hash b) @
       le_bytes 8 (db_timestamp b) @ le_bytes 8 (db_gas_limit b) @ to_big_endian (db_base_fee b) @
       concat (map (\<lambda>tx. hash_as_bytes (stx_hash tx)) (db_txs b)))"

definition demo_encode_txs :: "tx_libs \<Rightarrow> tx list \<Rightarrow> bytes" where
  "demo_encode_txs libs txs =
     concat (map (\<lambda>tx. let tx_raw = tx_encode libs (stx_inner tx) in le_bytes 8 (length tx_raw) @ tx_raw) txs)"

definition demo_encode :: "tx_libs \<Rightarrow> demo_block \<Rightarrow> bytes" where
  "demo_encode libs b =
     le_bytes 8 (db_number b) @ hash_as_bytes (db_parent_hash b) @ hash_as_bytes (db_root_hash b) @
     le_bytes 8 (db_timestamp b) @ le_bytes 8 (db_gas_limit b) @ to_big_endian (db_base_fee b) @
     le_bytes 8 (length (db_txs b)) @ demo_encode_txs libs (db_txs b)"

fun read_txs :: "tx_libs \<Rightarrow> u256 \<Rightarrow> nat \<Rightarrow> bytes \<Rightarrow> ('s, (tx list \<times> bytes) option) exec" where
  "read_txs libs chain_id 0 raw = ret (Some ([], raw))"
| "read_txs libs chain_id (Suc n) raw =
     (case read_exact 8 raw of None \<Rightarrow> ret None | Some (len, raw) \<Rightarrow>
      let tx_len = le_val len in
      if 2 ^ 63 \<le> tx_len then panic
      else case read_exact tx_len raw of None \<Rightarrow> ret None | Some (tx_buff, raw) \<Rightarrow>
        bind (tx_decode libs tx_buff chain_id) (\<lambda>tx.
        case tx of None \<Rightarrow> ret None | Some tx \<Rightarrow>
        bind (read_txs libs chain_id n raw) (\<lambda>rest.
        case rest of None \<Rightarrow> ret None | Some (txs, raw) \<Rightarrow> ret (Some (tx # txs, raw)))))"

definition demo_decode :: "tx_libs \<Rightarrow> bytes \<Rightarrow> u256 \<Rightarrow> ('s, demo_block option) exec" where
  "demo_decode libs raw chain_id =
     (case read_exact 8 raw of None \<Rightarrow> ret None | Some (number, raw) \<Rightarrow>
      case read_exact 32 raw of None \<Rightarrow> ret None | Some (parent_hash, raw) \<Rightarrow>
      case read_exact 32 raw of None \<Rightarrow> ret None | Some (root_hash, raw) \<Rightarrow>
      case read_exact 8 raw of None \<Rightarrow> ret None | Some (timestamp, raw) \<Rightarrow>
      case read_exact 8 raw of None \<Rightarrow> ret None | Some (gas_limit, raw) \<Rightarrow>
      case read_exact 32 raw of None \<Rightarrow> ret None | Some (base_fee, raw) \<Rightarrow>
      case read_exact 8 raw of None \<Rightarrow> ret None | Some (txs_len, raw) \<Rightarrow>
      bind (read_txs libs chain_id (le_val txs_len) raw) (\<lambda>txs.
      case txs of None \<Rightarrow> ret None | Some (txs, raw) \<Rightarrow>
        ret (Some \<lparr>db_number = le_val number, db_parent_hash = from_big_endian parent_hash,
                  db_root_hash = from_big_endian root_hash, db_timestamp = le_val timestamp,
                  db_gas_limit = le_val gas_limit, db_base_fee = from_big_endian base_fee, db_txs = txs\<rparr>)))"

section \<open>Keys\<close>

lemma prefix_values:
  "DB_PREFIX_MERKLE = [109, 101, 114, 107, 108, 101]" "DB_PREFIX_OUTCOME = [111, 117, 116, 99, 111, 109, 101]"
  "DB_PREFIX_BLOCK = [98, 108, 111, 99, 107]" "DB_PREFIX_INDEX = [105, 110, 100, 101, 120]"
  by (simp_all add: DB_PREFIX_MERKLE_def DB_PREFIX_OUTCOME_def DB_PREFIX_BLOCK_def DB_PREFIX_INDEX_def str_bytes_def)

lemma hash_bytes_inj: "hash_as_bytes a = hash_as_bytes b \<longleftrightarrow> a = b"
  by (metis hash_from_as_bytes)

lemma le_bytes_inj: "i < 256 ^ n \<Longrightarrow> j < 256 ^ n \<Longrightarrow> le_bytes n i = le_bytes n j \<longleftrightarrow> i = j"
  by (metis le_val_le_bytes mod_less)

lemma length_hash_as_bytes [simp]: "length (hash_as_bytes h) = 32"
  by (simp add: hash_as_bytes_def)

section \<open>Round trips\<close>

lemma read_gas_used_encode:
  "\<forall>(g0, g1)\<in>set gs. g0 < 2 ^ 64 \<and> g1 < 2 ^ 64 \<Longrightarrow>
    read_gas_used (length gs) (concat (map (\<lambda>(g0, g1). le_bytes 8 g0 @ le_bytes 8 g1) gs) @ rest) = Some (gs, rest)"
  by (induction gs) (auto simp: read_exact_append)

lemma read_contract_addrs_encode:
  "Some 0 \<notin> set as \<Longrightarrow>
    read_contract_addrs (length as)
      (concat (map (\<lambda>addr. addr_as_bytes (case addr of Some a \<Rightarrow> a | None \<Rightarrow> 0)) as) @ rest) = Some (as, rest)"
  by (induction as) (auto simp: read_exact_append Let_def split: option.splits)

text \<open>
  The outcome of a block is read back: for outcomes with one contract entry per gas entry and no contract at
  address zero, decoding what \<open>encode\<close> writes gives the outcome, with the world state it is read for.
\<close>

theorem outcome_roundtrip:
  assumes "length (bo_contract_addrs o') = length (bo_gas_used o')" and "length (bo_gas_used o') < 2 ^ 64"
    and "\<forall>(g0, g1)\<in>set (bo_gas_used o'). g0 < 2 ^ 64 \<and> g1 < 2 ^ 64" and "Some 0 \<notin> set (bo_contract_addrs o')"
  shows "outcome_decode (outcome_encode o') w s = Ok (Some (o'\<lparr>bo_world_state := w\<rparr>)) s"
  using assms read_gas_used_encode [OF assms(3)] read_contract_addrs_encode [OF assms(4), of "[]"]
  by (simp add: outcome_decode_def outcome_encode_def read_exact_append ret_def)

theorem outcome_roundtrip_witness:
  "outcome_decode (outcome_encode \<lparr>bo_world_state = (), bo_gas_used = [(21000, 21000), (52000, 31000)],
     bo_contract_addrs = [None, Some 7]\<rparr>) () () =
   Ok (Some \<lparr>bo_world_state = (), bo_gas_used = [(21000, 21000), (52000, 31000)], bo_contract_addrs = [None, Some 7]\<rparr>) ()"
  by (subst outcome_roundtrip) simp_all

text \<open>A transaction that \<open>Tx::decode\<close> has made: its hash and its sender are those of its encoding.\<close>

definition tx_genuine :: "tx_libs \<Rightarrow> u256 \<Rightarrow> tx \<Rightarrow> bool" where
  "tx_genuine libs chain_id tx \<longleftrightarrow>
     tx_u64_fields (stx_inner tx) \<and> length (tx_encode libs (stx_inner tx)) < 2 ^ 63 \<and>
     stx_hash tx = tl_keccak libs (tx_encode libs (stx_inner tx)) \<and>
     recover_sender libs (stx_inner tx) chain_id () = Ok (Some (stx_from tx)) ()"

text \<open>The recovery of the sender reads no state.\<close>

lemma recovered_pure:
  "recovered libs h r s recid () = Ok a () \<Longrightarrow> recovered libs h r s recid = ret a"
  by (auto simp: recovered_def ret_def panic_def split: option.splits if_splits)

lemma recover_sender_pure:
  "recover_sender libs tx chain_id () = Ok a () \<Longrightarrow> recover_sender libs tx chain_id = ret a"
proof (cases tx)
  case (LegacyTx l)
  then show "recover_sender libs tx chain_id () = Ok a () \<Longrightarrow> ?thesis"
    by (auto simp: recover_legacy Let_def ret_def panic_def split: if_splits dest: recovered_pure)
qed (auto simp: recover_sender_def access_list_view_def dynamic_fee_view_def recover_typed Let_def ret_def panic_def
    bind_def split: if_splits dest: recovered_pure)

lemma tx_genuine_sender:
  "tx_genuine libs chain_id tx \<Longrightarrow> recover_sender libs (stx_inner tx) chain_id = ret (Some (stx_from tx))"
  by (rule recover_sender_pure) (simp add: tx_genuine_def)

lemma tx_genuine_decode:
  assumes "rlp_laws (tl_rlp libs)" and "tx_genuine libs chain_id tx"
  shows "tx_decode libs (tx_encode libs (stx_inner tx)) chain_id = ret (Some tx)"
proof -
  have fields: "tx_u64_fields (stx_inner tx)" "length (tx_encode libs (stx_inner tx)) < 2 ^ 64"
    "\<lparr>stx_inner = stx_inner tx, stx_hash = tl_keccak libs (tx_encode libs (stx_inner tx)), stx_from = stx_from tx\<rparr> = tx"
    using assms(2) by (auto simp: tx_genuine_def)
  show ?thesis
    by (simp add: tx_decode_of_encode [OF assms(1) fields(1,2)] tx_genuine_sender [OF assms(2)] fields(3))
qed

lemma read_txs_encode:
  assumes "rlp_laws (tl_rlp libs)"
  shows "\<forall>tx\<in>set txs. tx_genuine libs chain_id tx \<Longrightarrow>
    read_txs libs chain_id (length txs) (demo_encode_txs libs txs @ rest) = ret (Some (txs, rest))"
proof (induction txs)
  case (Cons tx txs)
  then have g: "tx_genuine libs chain_id tx" by simp
  then have "length (tx_encode libs (stx_inner tx)) < 2 ^ 63" by (simp add: tx_genuine_def)
  with Cons show ?case
    by (simp add: demo_encode_txs_def Let_def read_exact_append tx_genuine_decode [OF assms g])
qed (simp add: demo_encode_txs_def)

text \<open>
  A block is read back: for a block of transactions that were themselves decoded, with numbers that fit in 64 bits,
  \<open>DemoBlock::decode\<close> of what \<open>encode\<close> writes is the block, so it has the same hash.
\<close>

lemma demo_decode_of_encode:
  assumes "rlp_laws (tl_rlp libs)" and "\<forall>tx\<in>set (db_txs b). tx_genuine libs chain_id tx" and "length (db_txs b) < 2 ^ 64"
    and "db_number b < 2 ^ 64" and "db_timestamp b < 2 ^ 64" and "db_gas_limit b < 2 ^ 64"
  shows "demo_decode libs (demo_encode libs b) chain_id s = Ok (Some b) s"
proof (cases b)
  case (fields n p r t g f txs)
  then have txs: "read_txs libs chain_id (length txs) (demo_encode_txs libs txs) s = Ok (Some (txs, [])) s"
    using read_txs_encode [OF assms(1,2), of "[]", THEN fun_cong, of s] by (simp add: ret_def)
  show ?thesis
    using assms(3-) fields
    by (simp add: demo_decode_def demo_encode_def read_exact_append bind_def txs ret_def)
qed

abbreviation sample_block :: demo_block where
  "sample_block \<equiv> demo_block_new 1655254842 1 5 6 None [\<lparr>stx_inner = fee_tx, stx_hash = 17, stx_from = 64\<rparr>]"

lemma demo_decode_of_encode_sample:
  "demo_decode sample_libs (demo_encode sample_libs sample_block) 1 () = Ok (Some sample_block) ()"
proof -
  have "tl_keccak sample_libs (tx_encode sample_libs fee_tx) = 17"
    using fee_tx_length by (simp add: sample_libs_def)
  moreover have "tx_u64_fields fee_tx" by (simp add: fee_tx_def)
  ultimately have "tx_genuine sample_libs 1 \<lparr>stx_inner = fee_tx, stx_hash = 17, stx_from = 64\<rparr>"
    by (simp add: tx_genuine_def fee_tx_length fee_tx_sender ret_def)
  moreover have "rlp_laws (tl_rlp sample_libs)" by (simp add: sample_libs_def rlp_std_laws)
  ultimately show ?thesis
    by (intro demo_decode_of_encode) (simp_all add: demo_block_new_def)
qed

text \<open>
  The four spaces of the database do not overlap: the keys of block outcomes, blocks and index entries determine
  what they are keys of, differ from one another, and none of them is the key of a trie node.
\<close>

theorem demo_keys_apart:
  "(gen_outcome_key a = gen_outcome_key b) = (a = b) \<and> (gen_block_key a = gen_block_key b) = (a = b) \<and>
   (gen_index_key i = gen_index_key j) = (i mod 2 ^ 64 = j mod 2 ^ 64) \<and>
   gen_outcome_key a \<noteq> gen_block_key b \<and> gen_outcome_key a \<noteq> gen_index_key i \<and> gen_block_key a \<noteq> gen_index_key i \<and>
   (let node = finalize_key kf (rw_new hasher DB_PREFIX_MERKLE db) key pre suffix
    in node \<noteq> gen_outcome_key a \<and> node \<noteq> gen_block_key a \<and> node \<noteq> gen_index_key i)"
proof -
  have "(le_bytes 8 i = le_bytes 8 j) = (i mod 2 ^ 64 = j mod 2 ^ 64)"
  proof
    assume "le_bytes 8 i = le_bytes 8 j"
    then have "le_val (le_bytes 8 i) = le_val (le_bytes 8 j)" by simp
    then show "i mod 2 ^ 64 = j mod 2 ^ 64" by simp
  next
    assume eq: "i mod 2 ^ 64 = j mod 2 ^ 64"
    have "le_bytes 8 k = rev (be_bytes 8 (k mod 256 ^ 8))" for k
      using be_bytes_be_val [of "be_bytes 8 k"] by (simp add: le_bytes_def be_val_be_bytes del: be_bytes.simps)
    then show "le_bytes 8 i = le_bytes 8 j" using eq by simp
  qed
  then show ?thesis
    by (simp add: gen_outcome_key_def gen_block_key_def gen_index_key_def finalize_key_def rw_new_def prefix_values
        hash_bytes_inj Let_def)
qed

end
