(* ===== verification/Chain.thy ===== *)
theory Chain
  imports AccessList "HOL-Library.AList"
begin

text \<open>
  The tree of blocks, \<open>Chain\<close> of \<open>src/src/chain.rs\<close>: blocks that are connected to the base block, blocks that
  wait for an ancestor (orphans), and for each missing hash the orphans that wait for it. The methods of the
  trait \<open>Block\<close> are the fields of \<open>'b block_if\<close>; a \<open>HashMap\<close> is an association list with distinct keys;
  \<open>unwrap\<close> of a missing orphan is a panic.
\<close>

record 'b block_if =
  bk_number :: "'b \<Rightarrow> u256"
  bk_parent :: "'b \<Rightarrow> hash"
  bk_hash :: "'b \<Rightarrow> hash"

record 'b chain =
  ch_base :: 'b
  ch_attached :: "(hash \<times> 'b) list"
  ch_orphans :: "(hash \<times> 'b) list"
  ch_orphan_on :: "(hash \<times> hash list) list"

definition chain_new :: "'b block_if \<Rightarrow> 'b \<Rightarrow> 'b chain" where
  "chain_new bk base =
     \<lparr>ch_base = base, ch_attached = AList.update (bk_hash bk base) base [], ch_orphans = [], ch_orphan_on = []\<rparr>"

text \<open>The body of the inner loop: the orphan moves to the attached blocks.\<close>

definition attach_orphan :: "hash \<Rightarrow> ('b chain, unit) exec" where
  "attach_orphan orphan =
     bind (gets (\<lambda>c. map_of (ch_orphans c) orphan)) (\<lambda>found.
     bind (unwrap found) (\<lambda>o'.
     modify (\<lambda>c. c\<lparr>ch_orphans := AList.delete orphan (ch_orphans c),
                  ch_attached := AList.update orphan o' (ch_attached c)\<rparr>)))"

lemma attach_orphan_on: "attach_orphan h c = Ok a t \<Longrightarrow> ch_orphan_on t = ch_orphan_on c"
  by (auto simp: attach_orphan_def exec_defs split: option.splits)

lemma attach_orphans_on: "for_each hs attach_orphan c = Ok a t \<Longrightarrow> ch_orphan_on t = ch_orphan_on c"
  by (induction hs arbitrary: c) (auto simp: ret_def bind_Ok_conv dest: attach_orphan_on)

lemma length_delete_less: "map_of al k = Some v \<Longrightarrow> length (AList.delete k al) < length al"
  by (induction al) (auto simp: less_Suc_eq_le intro: length_delete_le)

text \<open>The queue of the hashes whose waiting orphans have not been looked at yet.\<close>

function chain_drain :: "hash list \<Rightarrow> 'b chain \<Rightarrow> ('b chain, unit) outcome" where
  "chain_drain [] c = Ok () c"
| "chain_drain (u # q) c =
     (case map_of (ch_orphan_on c) u of
        None \<Rightarrow> chain_drain q c
      | Some orphans \<Rightarrow>
          (case for_each orphans attach_orphan (c\<lparr>ch_orphan_on := AList.delete u (ch_orphan_on c)\<rparr>) of
             Ok _ t \<Rightarrow> chain_drain (q @ orphans) t
           | Err e t \<Rightarrow> Err e t
           | Panic \<Rightarrow> Panic))"
  by pat_completeness auto

termination
  by (relation "measures [\<lambda>(q, c). length (ch_orphan_on c), \<lambda>(q, c). length q]")
    (auto dest!: attach_orphans_on simp: length_delete_less)

definition add_block :: "'b block_if \<Rightarrow> 'b \<Rightarrow> ('b chain, 'b) exec" where
  "add_block bk block c =
     (let hash = bk_hash bk block
      in case map_of (ch_attached c) hash of
           Some b \<Rightarrow> Ok b c
         | None \<Rightarrow>
             (case map_of (ch_orphans c) hash of
                Some b \<Rightarrow> Ok b c
              | None \<Rightarrow>
                  (case map_of (ch_attached c) (bk_parent bk block) of
                     None \<Rightarrow>
                       Ok block (c\<lparr>ch_orphan_on := AList.update (bk_parent bk block)
                           ((case map_of (ch_orphan_on c) (bk_parent bk block) of Some hs \<Rightarrow> hs | None \<Rightarrow> []) @ [hash])
                           (ch_orphan_on c),
                         ch_orphans := AList.update hash block (ch_orphans c)\<rparr>)
                   | Some _ \<Rightarrow>
                       (case chain_drain [hash] (c\<lparr>ch_attached := AList.update hash block (ch_attached c)\<rparr>) of
                          Ok _ t \<Rightarrow> Ok block t
                        | Err e t \<Rightarrow> Err e t
                        | Panic \<Rightarrow> Panic))))"

definition is_attached :: "'b chain \<Rightarrow> hash \<Rightarrow> bool" where
  "is_attached c block \<longleftrightarrow> map_of (ch_attached c) block \<noteq> None"

definition get_block :: "'b chain \<Rightarrow> hash \<Rightarrow> 'b option" where
  "get_block c block =
     (case map_of (ch_attached c) block of Some b \<Rightarrow> Some b | None \<Rightarrow> map_of (ch_orphans c) block)"

definition remove_orphans :: "'b chain \<Rightarrow> 'b chain" where
  "remove_orphans c = c\<lparr>ch_orphans := [], ch_orphan_on := []\<rparr>"

definition get_base :: "'b chain \<Rightarrow> 'b" where
  "get_base c = ch_base c"

definition get_nattached :: "'b chain \<Rightarrow> nat" where
  "get_nattached c = length (ch_attached c)"

definition get_norphans :: "'b chain \<Rightarrow> nat" where
  "get_norphans c = length (ch_orphans c)"

declare map_of_eq_Some_iff [simp del] Some_eq_map_of_iff [simp del]

section \<open>What a chain is meant to hold\<close>

text \<open>All the blocks of a chain by hash, and the blocks connected to the base through known blocks.\<close>

definition chain_known :: "'b chain \<Rightarrow> hash \<rightharpoonup> 'b" where
  "chain_known c = map_of (ch_orphans c) ++ map_of (ch_attached c)"

inductive connected :: "'b block_if \<Rightarrow> (hash \<rightharpoonup> 'b) \<Rightarrow> hash \<Rightarrow> hash \<Rightarrow> bool"
  for bk :: "'b block_if" and known :: "hash \<rightharpoonup> 'b" and base :: hash where
  connected_base: "connected bk known base base"
| connected_child: "known h = Some b \<Longrightarrow> connected bk known base (bk_parent bk b) \<Longrightarrow> connected bk known base h"

lemma connected_mono:
  "connected bk known base h \<Longrightarrow> known \<subseteq>\<^sub>m known' \<Longrightarrow> connected bk known' base h"
  by (induction rule: connected.induct)
    (auto intro: connected.intros simp: map_le_def dom_def)

text \<open>
  The invariant of the loop that drains the queue \<open>q\<close>: the three tables have one entry per hash, under the hash
  of its block; no block is both attached and an orphan; the waiting lists hold each orphan once, under
  its parent; a hash that is attached and still waited for is in the queue; the attached blocks are connected.
\<close>

definition chain_keys :: "'b block_if \<Rightarrow> 'b chain \<Rightarrow> bool" where
  "chain_keys bk c \<longleftrightarrow>
     distinct (map fst (ch_attached c)) \<and> distinct (map fst (ch_orphans c)) \<and>
     dom (map_of (ch_attached c)) \<inter> dom (map_of (ch_orphans c)) = {} \<and>
     (\<forall>h b. chain_known c h = Some b \<longrightarrow> bk_hash bk b = h) \<and>
     map_of (ch_attached c) (bk_hash bk (ch_base c)) = Some (ch_base c)"

definition chain_waiting :: "'b block_if \<Rightarrow> 'b chain \<Rightarrow> bool" where
  "chain_waiting bk c \<longleftrightarrow>
     (\<forall>p hs. map_of (ch_orphan_on c) p = Some hs \<longrightarrow>
        distinct hs \<and> (\<forall>h\<in>set hs. \<exists>b. map_of (ch_orphans c) h = Some b \<and> bk_parent bk b = p)) \<and>
     (\<forall>h b. map_of (ch_orphans c) h = Some b \<longrightarrow>
        (\<exists>hs. map_of (ch_orphan_on c) (bk_parent bk b) = Some hs \<and> h \<in> set hs))"

definition drain_inv :: "'b block_if \<Rightarrow> hash list \<Rightarrow> 'b chain \<Rightarrow> bool" where
  "drain_inv bk q c \<longleftrightarrow>
     chain_keys bk c \<and> chain_waiting bk c \<and>
     set q \<subseteq> dom (map_of (ch_attached c)) \<and>
     dom (map_of (ch_orphan_on c)) \<inter> dom (map_of (ch_attached c)) \<subseteq> set q \<and>
     (\<forall>h\<in>dom (map_of (ch_attached c)). connected bk (chain_known c) (bk_hash bk (ch_base c)) h)"

definition chain_inv :: "'b block_if \<Rightarrow> 'b chain \<Rightarrow> bool" where
  "chain_inv bk c = drain_inv bk [] c"

lemma waiting_distinct: "chain_waiting bk c \<Longrightarrow> map_of (ch_orphan_on c) p = Some hs \<Longrightarrow> distinct hs"
  unfolding chain_waiting_def by blast

lemma waiting_orphan:
  "chain_waiting bk c \<Longrightarrow> map_of (ch_orphan_on c) p = Some hs \<Longrightarrow> h \<in> set hs \<Longrightarrow>
    \<exists>b. map_of (ch_orphans c) h = Some b \<and> bk_parent bk b = p"
  unfolding chain_waiting_def by blast

lemma orphan_waiting:
  "chain_waiting bk c \<Longrightarrow> map_of (ch_orphans c) h = Some b \<Longrightarrow>
    \<exists>hs. map_of (ch_orphan_on c) (bk_parent bk b) = Some hs \<and> h \<in> set hs"
  unfolding chain_waiting_def by blast

section \<open>The loops\<close>

lemma attach_orphans_Ok:
  assumes "distinct hs" and "set hs \<subseteq> dom (map_of (ch_orphans c))"
  shows "\<exists>t. for_each hs attach_orphan c = Ok () t \<and>
    map_of (ch_orphans t) = map_of (ch_orphans c) |` (- set hs) \<and>
    map_of (ch_attached t) = map_of (ch_attached c) ++ (map_of (ch_orphans c) |` set hs) \<and>
    ch_orphan_on t = ch_orphan_on c \<and> ch_base t = ch_base c \<and>
    (distinct (map fst (ch_attached c)) \<longrightarrow> distinct (map fst (ch_attached t))) \<and>
    (distinct (map fst (ch_orphans c)) \<longrightarrow> distinct (map fst (ch_orphans t)))"
  using assms
proof (induction hs arbitrary: c)
  case Nil
  then show ?case by (simp add: ret_def)
next
  case (Cons h hs)
  from Cons.prems obtain b where b: "map_of (ch_orphans c) h = Some b" by auto
  define d where "d = c\<lparr>ch_orphans := AList.delete h (ch_orphans c), ch_attached := AList.update h b (ch_attached c)\<rparr>"
  have step: "attach_orphan h c = Ok () d"
    using b by (simp add: attach_orphan_def d_def exec_defs)
  have "set hs \<subseteq> dom (map_of (ch_orphans d))"
    using Cons.prems by (auto simp: d_def delete_conv')
  with Cons.IH [of d] Cons.prems obtain t where t: "for_each hs attach_orphan d = Ok () t"
    "map_of (ch_orphans t) = map_of (ch_orphans d) |` (- set hs)"
    "map_of (ch_attached t) = map_of (ch_attached d) ++ (map_of (ch_orphans d) |` set hs)"
    "ch_orphan_on t = ch_orphan_on d" "ch_base t = ch_base d"
    "distinct (map fst (ch_attached d)) \<Longrightarrow> distinct (map fst (ch_attached t))"
    "distinct (map fst (ch_orphans d)) \<Longrightarrow> distinct (map fst (ch_orphans t))"
    by auto
  have "map_of (ch_orphans t) = map_of (ch_orphans c) |` (- set (h # hs))"
    by (auto simp: t(2) d_def delete_conv' restrict_map_def)
  moreover have "map_of (ch_attached t) = map_of (ch_attached c) ++ (map_of (ch_orphans c) |` set (h # hs))"
    using b Cons.prems
    by (auto simp: t(3) d_def delete_conv' update_conv' restrict_map_def map_add_def fun_eq_iff split: option.splits)
  ultimately show ?case
    using t step by (auto simp: bind_def d_def distinct_update distinct_delete)
qed

lemma known_moved:
  "dom a \<inter> dom orph = {} \<Longrightarrow> (orph |` (- S)) ++ (a ++ (orph |` S)) = orph ++ a"
  by (rule ext) (auto simp: map_add_def restrict_map_def dom_def disjoint_iff split: option.splits)

lemma drain_step:
  assumes inv: "drain_inv bk (u # q) c" and hs: "map_of (ch_orphan_on c) u = Some hs"
  shows "\<exists>t. for_each hs attach_orphan (c\<lparr>ch_orphan_on := AList.delete u (ch_orphan_on c)\<rparr>) = Ok () t \<and>
    drain_inv bk (q @ hs) t \<and> chain_known t = chain_known c \<and> ch_base t = ch_base c"
proof -
  let ?c = "c\<lparr>ch_orphan_on := AList.delete u (ch_orphan_on c)\<rparr>"
  let ?O = "map_of (ch_orphans c)" and ?A = "map_of (ch_attached c)" and ?W = "map_of (ch_orphan_on c)"
  from inv have keys: "chain_keys bk c" and wait: "chain_waiting bk c" and u: "u \<in> dom ?A"
    and q: "set q \<subseteq> dom ?A" "dom ?W \<inter> dom ?A \<subseteq> set (u # q)"
    and conn: "\<forall>h\<in>dom ?A. connected bk (chain_known c) (bk_hash bk (ch_base c)) h"
    by (auto simp: drain_inv_def)
  have hs': "distinct hs" "\<And>h. h \<in> set hs \<Longrightarrow> \<exists>b. ?O h = Some b \<and> bk_parent bk b = u"
    using waiting_distinct [OF wait hs] waiting_orphan [OF wait hs] by blast+
  then have sub: "set hs \<subseteq> dom ?O" by blast
  have dist: "distinct (map fst (ch_attached c))" "distinct (map fst (ch_orphans c))"
    using keys by (simp_all add: chain_keys_def)
  have "\<exists>t. for_each hs attach_orphan ?c = Ok () t \<and>
    map_of (ch_orphans t) = ?O |` (- set hs) \<and> map_of (ch_attached t) = ?A ++ (?O |` set hs) \<and>
    ch_orphan_on t = AList.delete u (ch_orphan_on c) \<and> ch_base t = ch_base c \<and>
    distinct (map fst (ch_attached t)) \<and> distinct (map fst (ch_orphans t))"
    using attach_orphans_Ok [of hs ?c] hs'(1) sub dist by simp
  then obtain t where
    run: "for_each hs attach_orphan ?c = Ok () t" and
    t: "map_of (ch_orphans t) = ?O |` (- set hs)" "map_of (ch_attached t) = ?A ++ (?O |` set hs)"
      "map_of (ch_orphan_on t) = ?W(u := None)" "ch_base t = ch_base c"
      "distinct (map fst (ch_attached t))" "distinct (map fst (ch_orphans t))"
    by (elim exE conjE) (rule that, simp_all add: delete_conv')
  have disj: "dom ?A \<inter> dom ?O = {}" using keys by (simp add: chain_keys_def)
  then have known: "chain_known t = chain_known c"
    unfolding chain_known_def t(1,2) by (rule known_moved)
  have domA: "dom (map_of (ch_attached t)) = dom ?A \<union> set hs" using sub by (auto simp: t(2))
  have keys': "chain_keys bk t"
    using keys disj by (auto simp: chain_keys_def known t map_add_def restrict_map_def dom_def split: option.splits)
  have wait': "chain_waiting bk t"
    unfolding chain_waiting_def
  proof (intro conjI allI impI)
    fix p ps assume "map_of (ch_orphan_on t) p = Some ps"
    then have p: "p \<noteq> u" "?W p = Some ps" by (auto simp: t(3) split: if_splits)
    then show "distinct ps" using waiting_distinct [OF wait] by blast
    show "\<forall>h\<in>set ps. \<exists>b. map_of (ch_orphans t) h = Some b \<and> bk_parent bk b = p"
      using waiting_orphan [OF wait p(2)] p(1) hs'(2) by (fastforce simp: t(1) restrict_map_def)
  next
    fix h b assume h: "map_of (ch_orphans t) h = Some b"
    then have "?O h = Some b" "h \<notin> set hs" by (auto simp: t(1) restrict_map_def split: if_splits)
    then show "\<exists>ps. map_of (ch_orphan_on t) (bk_parent bk b) = Some ps \<and> h \<in> set ps"
      using orphan_waiting [OF wait] hs by (fastforce simp: t(3))
  qed
  have "connected bk (chain_known c) (bk_hash bk (ch_base c)) h" if h: "h \<in> set hs" for h
  proof -
    from hs'(2) [OF h] obtain b where b: "?O h = Some b" "bk_parent bk b = u" by blast
    with disj have "chain_known c h = Some b"
      by (auto simp: chain_known_def map_add_def dom_def split: option.splits)
    then show ?thesis using conn u b(2) by (auto intro: connected_child)
  qed
  moreover have "dom (?W(u := None)) \<inter> (dom ?A \<union> set hs) \<subseteq> set (q @ hs)" using q(2) by auto
  ultimately have "drain_inv bk (q @ hs) t"
    unfolding drain_inv_def known domA t(3) t(4)
    using keys' wait' q(1) conn by (intro conjI ballI) (auto simp del: domIff)
  then show ?thesis using run known t(4) by auto
qed

lemma chain_drain_Ok:
  "drain_inv bk q c \<Longrightarrow>
    \<exists>t. chain_drain q c = Ok () t \<and> chain_inv bk t \<and> chain_known t = chain_known c \<and> ch_base t = ch_base c"
proof (induction q c rule: chain_drain.induct)
  case (1 c)
  then show ?case by (simp add: chain_inv_def)
next
  case (2 u q c)
  show ?case
  proof (cases "map_of (ch_orphan_on c) u")
    case None
    then have "drain_inv bk q c" using 2(3) by (auto simp: drain_inv_def dom_def)
    with None 2(1) show ?thesis by simp
  next
    case (Some hs)
    from drain_step [OF 2(3) Some] 2(2) [OF Some] Some show ?thesis by fastforce
  qed
qed

section \<open>The operations\<close>

lemma chain_new_inv: "chain_inv bk (chain_new bk base)"
  by (auto simp: chain_inv_def drain_inv_def chain_keys_def chain_waiting_def chain_known_def chain_new_def
      intro: connected_base split: if_splits)

lemma connected_attached:
  assumes "chain_inv bk c" and "connected bk (chain_known c) (bk_hash bk (ch_base c)) h"
  shows "h \<in> dom (map_of (ch_attached c))"
  using assms(2)
proof (induction rule: connected.induct)
  case connected_base
  then show ?case using assms(1) by (auto simp: chain_inv_def drain_inv_def chain_keys_def)
next
  case (connected_child h b)
  show ?case
  proof (rule ccontr)
    assume "h \<notin> dom (map_of (ch_attached c))"
    then have "map_of (ch_orphans c) h = Some b"
      using connected_child(1) by (auto simp: chain_known_def)
    then have "bk_parent bk b \<in> dom (map_of (ch_orphan_on c))"
      using assms(1) orphan_waiting [of bk c h b] by (auto simp: chain_inv_def drain_inv_def)
    with connected_child(3) show False using assms(1) by (auto simp: chain_inv_def drain_inv_def)
  qed
qed

lemma attached_iff_connected:
  "chain_inv bk c \<Longrightarrow> is_attached c h \<longleftrightarrow> connected bk (chain_known c) (bk_hash bk (ch_base c)) h"
  using connected_attached [of bk c h]
  by (auto simp: is_attached_def chain_inv_def drain_inv_def)

lemma remove_orphans_inv:
  assumes inv: "chain_inv bk c"
  shows "chain_inv bk (remove_orphans c)"
proof -
  have "connected bk (map_of (ch_attached c)) (bk_hash bk (ch_base c)) h"
    if "connected bk (chain_known c) (bk_hash bk (ch_base c)) h" for h
    using that
  proof (induction rule: connected.induct)
    case (connected_child h b)
    then have "h \<in> dom (map_of (ch_attached c))"
      using connected_attached [OF inv] by (blast intro: connected.connected_child)
    then have "map_of (ch_attached c) h = Some b"
      using connected_child(1) by (auto simp: chain_known_def map_add_def)
    with connected_child(3) show ?case by (blast intro: connected.connected_child)
  qed (rule connected.connected_base)
  moreover have "chain_keys bk (remove_orphans c)"
    using inv by (auto simp: chain_inv_def drain_inv_def chain_keys_def remove_orphans_def chain_known_def map_add_def)
  moreover have "chain_waiting bk (remove_orphans c)" by (simp add: chain_waiting_def remove_orphans_def)
  ultimately show ?thesis using inv
    by (auto simp: chain_inv_def drain_inv_def remove_orphans_def chain_known_def)
qed

lemma connected_insert:
  "connected bk known base h \<Longrightarrow> known k = None \<Longrightarrow> connected bk (known(k \<mapsto> b)) base h"
  by (erule connected_mono) (auto simp: map_le_def)

lemma add_block_orphan:
  assumes inv: "chain_inv bk c" and new: "chain_known c (bk_hash bk b) = None"
    and par: "map_of (ch_attached c) (bk_parent bk b) = None"
  shows "\<exists>t. add_block bk b c = Ok b t \<and> chain_inv bk t \<and> chain_known t = (chain_known c)(bk_hash bk b \<mapsto> b) \<and>
    ch_base t = ch_base c"
proof -
  let ?h = "bk_hash bk b" and ?p = "bk_parent bk b" and ?W = "map_of (ch_orphan_on c)"
  let ?old = "case ?W ?p of Some hs \<Rightarrow> hs | None \<Rightarrow> []"
  define t where "t = c\<lparr>ch_orphan_on := AList.update ?p (?old @ [?h]) (ch_orphan_on c),
    ch_orphans := AList.update ?h b (ch_orphans c)\<rparr>"
  from new have none: "map_of (ch_attached c) ?h = None" "map_of (ch_orphans c) ?h = None"
    by (auto simp: chain_known_def)
  from inv have keys: "chain_keys bk c" and wait: "chain_waiting bk c" by (simp_all add: chain_inv_def drain_inv_def)
  have W: "map_of (ch_orphan_on t) = ?W(?p \<mapsto> ?old @ [?h])" and O: "map_of (ch_orphans t) = (map_of (ch_orphans c))(?h \<mapsto> b)"
    by (simp_all add: t_def update_conv')
  have known: "chain_known t = (chain_known c)(?h \<mapsto> b)"
    using none by (auto simp: chain_known_def t_def update_conv' map_add_def split: option.splits)
  have "chain_keys bk t"
    using keys none by (auto simp: chain_keys_def known O) (auto simp: t_def distinct_update)
  moreover have "chain_waiting bk t"
    unfolding chain_waiting_def
  proof (intro conjI allI impI)
    fix p hs assume p: "map_of (ch_orphan_on t) p = Some hs"
    have old: "?h \<notin> set hs' \<and> distinct hs'" if "?W p = Some hs'" for hs'
      using waiting_orphan [OF wait that, of ?h] waiting_distinct [OF wait that] none by auto
    show "distinct hs"
    proof (cases "?W p")
      case None
      then show ?thesis using p by (auto simp: W split: if_splits)
    next
      case (Some hs')
      with old have "?h \<notin> set hs' \<and> distinct hs'" by blast
      then show ?thesis using p Some by (auto simp: W split: if_splits)
    qed
    show "\<forall>h\<in>set hs. \<exists>b. map_of (ch_orphans t) h = Some b \<and> bk_parent bk b = p"
      using p waiting_orphan [OF wait, of p] none by (fastforce simp: W O split: if_splits option.splits)
  next
    fix h b' assume "map_of (ch_orphans t) h = Some b'"
    then show "\<exists>hs. map_of (ch_orphan_on t) (bk_parent bk b') = Some hs \<and> h \<in> set hs"
      using orphan_waiting [OF wait, of h b'] by (auto simp: W O split: if_splits)
  qed
  ultimately have "chain_inv bk t"
    using inv par new by (auto simp: chain_inv_def drain_inv_def W known intro!: connected_insert) (auto simp: t_def)
  moreover have "add_block bk b c = Ok b t"
    using none par by (simp add: add_block_def t_def Let_def)
  ultimately show ?thesis using known by (simp add: t_def)
qed

lemma add_block_attach:
  assumes inv: "chain_inv bk c" and new: "chain_known c (bk_hash bk b) = None"
    and par: "map_of (ch_attached c) (bk_parent bk b) = Some p"
  shows "\<exists>t. add_block bk b c = Ok b t \<and> chain_inv bk t \<and> chain_known t = (chain_known c)(bk_hash bk b \<mapsto> b) \<and>
    ch_base t = ch_base c"
proof -
  let ?h = "bk_hash bk b"
  define d where "d = c\<lparr>ch_attached := AList.update ?h b (ch_attached c)\<rparr>"
  from new have none: "map_of (ch_attached c) ?h = None" "map_of (ch_orphans c) ?h = None"
    by (auto simp: chain_known_def)
  have A: "map_of (ch_attached d) = (map_of (ch_attached c))(?h \<mapsto> b)" by (simp add: d_def update_conv')
  have known: "chain_known d = (chain_known c)(?h \<mapsto> b)"
    by (auto simp: chain_known_def d_def update_conv')
  have rest: "ch_orphans d = ch_orphans c" "ch_orphan_on d = ch_orphan_on c" "ch_base d = ch_base c"
    by (simp_all add: d_def)
  have "chain_keys bk c" using inv by (simp add: chain_inv_def drain_inv_def)
  then have "chain_keys bk d"
    using none by (auto simp: chain_keys_def known A rest) (auto simp: d_def distinct_update)
  moreover have "chain_waiting bk d"
    using inv unfolding chain_inv_def drain_inv_def chain_waiting_def rest by blast
  moreover have conn: "\<forall>h\<in>dom (map_of (ch_attached c)). connected bk (chain_known d) (bk_hash bk (ch_base c)) h"
    using inv new by (auto simp: chain_inv_def drain_inv_def known intro!: connected_insert)
  moreover have "connected bk (chain_known d) (bk_hash bk (ch_base c)) ?h"
    using conn par by (intro connected_child [of _ ?h b bk] bspec [OF conn]) (auto simp: known)
  ultimately have "drain_inv bk [?h] d"
    using inv unfolding chain_inv_def drain_inv_def A rest by (intro conjI ballI) auto
  from chain_drain_Ok [OF this] obtain t where
    "chain_drain [?h] d = Ok () t" "chain_inv bk t" "chain_known t = chain_known d" "ch_base t = ch_base d" by blast
  then show ?thesis using none par known rest by (auto simp: add_block_def d_def)
qed

text \<open>The first block of each hash is kept.\<close>

definition add_known :: "'b block_if \<Rightarrow> 'b \<Rightarrow> (hash \<rightharpoonup> 'b) \<Rightarrow> (hash \<rightharpoonup> 'b)" where
  "add_known bk b known = [bk_hash bk b \<mapsto> b] ++ known"

lemma get_block_known: "get_block c h = chain_known c h"
  by (simp add: get_block_def chain_known_def map_add_def)

lemma add_block_Ok:
  assumes inv: "chain_inv bk c"
  shows "\<exists>t. add_block bk b c = Ok (the (get_block t (bk_hash bk b))) t \<and> chain_inv bk t \<and>
    chain_known t = add_known bk b (chain_known c) \<and> ch_base t = ch_base c"
proof (cases "chain_known c (bk_hash bk b)")
  case None
  then have "add_known bk b (chain_known c) = (chain_known c)(bk_hash bk b \<mapsto> b)"
    by (auto simp: add_known_def map_add_def split: option.splits)
  then show ?thesis
    using add_block_orphan [OF inv None] add_block_attach [OF inv None]
    by (cases "map_of (ch_attached c) (bk_parent bk b)") (fastforce simp: get_block_known)+
next
  case (Some b')
  then have "add_known bk b (chain_known c) = chain_known c"
    by (auto simp: add_known_def map_add_def split: option.splits)
  moreover have "add_block bk b c = Ok b' c"
    using Some by (auto simp: add_block_def chain_known_def map_add_def split: option.splits)
  ultimately show ?thesis using inv Some by (simp add: get_block_known)
qed

text \<open>A history of a chain: blocks are added, and now and then the orphans are dropped.\<close>

datatype 'b chain_op = AddBlock 'b | RemoveOrphans

fun chain_step :: "'b block_if \<Rightarrow> 'b chain_op \<Rightarrow> ('b chain, unit) exec" where
  "chain_step bk (AddBlock b) = bind (add_block bk b) (\<lambda>_. ret ())"
| "chain_step bk RemoveOrphans = modify remove_orphans"

lemma chain_step_Ok:
  "chain_inv bk c \<Longrightarrow> \<exists>t. chain_step bk op c = Ok () t \<and> chain_inv bk t \<and> ch_base t = ch_base c"
proof (cases op)
  case (AddBlock b)
  assume "chain_inv bk c"
  from add_block_Ok [OF this, of b] AddBlock show ?thesis by (auto simp: bind_def ret_def)
qed (simp add: remove_orphans_inv modify_def, simp add: remove_orphans_def)

lemma chain_run_Ok:
  "chain_inv bk c \<Longrightarrow>
    \<exists>t. for_each ops (chain_step bk) c = Ok () t \<and> chain_inv bk t \<and> ch_base t = ch_base c"
proof (induction ops arbitrary: c)
  case (Cons op ops)
  from chain_step_Ok [OF Cons.prems, of op] Cons.IH show ?case by (fastforce simp: bind_def)
qed (simp add: ret_def)

lemma chain_adds_Ok:
  "chain_inv bk c \<Longrightarrow>
    \<exists>t. for_each bs (add_block bk) c = Ok () t \<and> chain_inv bk t \<and> ch_base t = ch_base c \<and>
      chain_known t = fold (add_known bk) bs (chain_known c)"
proof (induction bs arbitrary: c)
  case (Cons b bs)
  from add_block_Ok [OF Cons.prems, of b] Cons.IH show ?case by (fastforce simp: bind_def)
qed (simp add: ret_def)

lemma fold_add_known:
  "fold (add_known bk) bs known = map_of (map (\<lambda>b. (bk_hash bk b, b)) bs) ++ known"
proof (induction bs arbitrary: known)
  case (Cons b bs)
  then show ?case by (auto simp: add_known_def fun_eq_iff map_add_def split: option.splits)
qed simp

text \<open>
  C25. Whatever blocks are added to a chain and whenever its orphans are dropped, no operation panics (the
  \<open>unwrap\<close> of \<open>add_block\<close> always finds its orphan), the base block stays attached, every block is held under its
  own hash in exactly one of the two tables, the counters count them, and each orphan waits for a
  parent that is not attached.
\<close>

theorem chain_keeps_invariant:
  "\<exists>c. for_each ops (chain_step bk) (chain_new bk base) = Ok () c \<and>
     get_base c = base \<and> get_block c (bk_hash bk base) = Some base \<and> is_attached c (bk_hash bk base) \<and>
     (\<forall>h b. get_block c h = Some b \<longrightarrow> bk_hash bk b = h) \<and>
     get_nattached c = card {h. is_attached c h} \<and>
     get_norphans c = card {h. get_block c h \<noteq> None \<and> \<not> is_attached c h} \<and>
     (\<forall>h b. get_block c h = Some b \<and> \<not> is_attached c h \<longrightarrow> \<not> is_attached c (bk_parent bk b))"
proof -
  obtain c where c: "for_each ops (chain_step bk) (chain_new bk base) = Ok () c" "chain_inv bk c" "ch_base c = base"
    using chain_run_Ok [OF chain_new_inv, of ops bk base] by (auto simp: chain_new_def)
  have dist: "distinct (map fst (ch_attached c))" "distinct (map fst (ch_orphans c))"
    and disj: "dom (map_of (ch_attached c)) \<inter> dom (map_of (ch_orphans c)) = {}"
    and base: "map_of (ch_attached c) (bk_hash bk base) = Some base"
    and keys: "\<forall>h b. chain_known c h = Some b \<longrightarrow> bk_hash bk b = h"
    using c by (simp_all add: chain_inv_def drain_inv_def chain_keys_def)
  have att: "{h. is_attached c h} = fst ` set (ch_attached c)"
    by (auto simp: is_attached_def map_of_eq_None_iff)
  have "{h. get_block c h \<noteq> None \<and> \<not> is_attached c h} = dom (map_of (ch_orphans c))"
    using disj by (auto simp: is_attached_def get_block_def split: option.splits)
  then have orph: "{h. get_block c h \<noteq> None \<and> \<not> is_attached c h} = fst ` set (ch_orphans c)"
    by (simp add: dom_map_of_conv_image_fst)
  have "\<not> is_attached c (bk_parent bk b)" if "get_block c h = Some b" "\<not> is_attached c h" for h b
    using that connected_child [of "chain_known c" h b bk "bk_hash bk base"]
    by (auto simp: attached_iff_connected [OF c(2)] get_block_known c(3))
  moreover have "length (ch_attached c) = card {h. is_attached c h}"
    "length (ch_orphans c) = card {h. get_block c h \<noteq> None \<and> \<not> is_attached c h}"
    unfolding att orph using dist [THEN distinct_card] by simp_all
  moreover have "is_attached c (bk_hash bk base)" "get_block c (bk_hash bk base) = Some base"
    using base by (simp_all add: is_attached_def get_block_def)
  ultimately show ?thesis
    using c keys unfolding get_base_def get_nattached_def get_norphans_def get_block_known by blast
qed

theorem chain_keeps_invariant_witness:
  "\<exists>c. for_each [AddBlock (1, 2), AddBlock (7, 8), AddBlock (0, 1), RemoveOrphans]
        (chain_step \<lparr>bk_number = \<lambda>_. 0, bk_parent = fst, bk_hash = snd\<rparr>)
        (chain_new \<lparr>bk_number = \<lambda>_. 0, bk_parent = fst, bk_hash = snd\<rparr> (0, 0)) = Ok () c \<and>
     get_base c = (0, 0) \<and> is_attached c 0 \<and> get_nattached c = card {h. is_attached c h}"
  using chain_keeps_invariant [of "[AddBlock (1, 2), AddBlock (7, 8), AddBlock (0, 1), RemoveOrphans]"
      "\<lparr>bk_number = \<lambda>_. 0, bk_parent = fst, bk_hash = snd\<rparr>" "(0, 0)"]
  by auto

text \<open>
  C15. The blocks a chain holds, and which of them it calls attached, do not depend on the order in which they
  arrive: after a list of blocks is added, \<open>get_block\<close> finds the first block of each hash, and a block is
  attached if and only if a path of parent links through the added blocks leads from it to the base block.
\<close>

theorem chain_attaches_connected:
  "\<exists>c. for_each bs (add_block bk) (chain_new bk base) = Ok () c \<and>
     (\<forall>h. get_block c h = map_of (map (\<lambda>b. (bk_hash bk b, b)) (base # bs)) h) \<and>
     (\<forall>h. is_attached c h \<longleftrightarrow>
        connected bk (map_of (map (\<lambda>b. (bk_hash bk b, b)) (base # bs))) (bk_hash bk base) h)"
proof -
  let ?known = "map_of (map (\<lambda>b. (bk_hash bk b, b)) (base # bs))"
  obtain c where c: "for_each bs (add_block bk) (chain_new bk base) = Ok () c" "chain_inv bk c" "ch_base c = base"
      "chain_known c = map_of (map (\<lambda>b. (bk_hash bk b, b)) bs) ++ chain_known (chain_new bk base)"
    using chain_adds_Ok [OF chain_new_inv, of bs bk base] by (auto simp: chain_new_def fold_add_known)
  have "chain_known c = ?known" unfolding c(4)
    by (auto simp: chain_new_def chain_known_def map_add_def fun_eq_iff split: option.splits)
  then show ?thesis using c by (intro exI [of _ c]) (simp add: get_block_known attached_iff_connected)
qed

end
