(* ===== verification/DemoChain.thy ===== *)
theory DemoChain
  imports DemoCodec Chain ExecContext
begin

text \<open>
  The chain state of \<open>src/examples/demo.rs\<close>, \<open>DemoChainStateMutable\<close> and the handlers of \<open>DemoChainState\<close>: the block tree, the
  index of the canonical chain, the database, the execution of the transactions of a block, calls and the
  estimation of gas. \<open>env\<close> has the libraries. \<open>run_tx\<close> is \<open>run_single_tx\<close> on \<open>TxExecState::new\<close>: from the world and the
  committed world to the new world and the result, \<open>None\<close> where it panics. It is an argument because the
  interpreter (\<open>tx_exec\<close> of \<open>ExecLoop\<close>) need not end. A \<open>MerkleDBReader\<close> is the world of its reads; where a read panics the
  world has 0, no code and no account. Requests are handled one after the other.
\<close>

record 'd demo_env =
  de_libs :: tx_libs
  de_rocks :: "'d rocks_if"
  de_trie :: "'d trie_if"
  de_iter :: map_iter

record 'd demo_state =
  dc_chain :: "demo_block chain"
  dc_tx_cache :: "hash \<rightharpoonup> demo_block \<times> nat"
  dc_indexed :: "demo_block option list"
  dc_mdb :: "'d rw_db"
  dc_chain_id :: u256

datatype block_number = Number u256 | Latest | Earliest | Pending

abbreviation de_keccak :: "'d demo_env \<Rightarrow> bytes \<Rightarrow> hash" where
  "de_keccak env \<equiv> tl_keccak (de_libs env)"

definition demo_bk :: "'d demo_env \<Rightarrow> demo_block block_if" where
  "demo_bk env =
     \<lparr>bk_number = \<lambda>b. word_of_nat (db_number b), bk_parent = db_parent_hash, bk_hash = demo_block_hash (de_keccak env)\<rparr>"

abbreviation on_chain :: "(demo_block chain, 'a) exec \<Rightarrow> ('d demo_state, 'a) exec" where
  "on_chain \<equiv> zoom dc_chain (\<lambda>c s. s\<lparr>dc_chain := c\<rparr>)"

abbreviation on_mdb :: "('d rw_db, 'a) exec \<Rightarrow> ('d demo_state, 'a) exec" where
  "on_mdb \<equiv> zoom dc_mdb (\<lambda>m s. s\<lparr>dc_mdb := m\<rparr>)"

section \<open>Lookups\<close>

definition get_block_by_number :: "block_number \<Rightarrow> ('d demo_state, demo_block option) exec" where
  "get_block_by_number number =
     bind (gets dc_indexed) (\<lambda>indexed.
     bind (case number of
             Earliest \<Rightarrow> ret 0
           | Latest \<Rightarrow> u64_sub (length indexed) 1
           | Pending \<Rightarrow> u64_sub (length indexed) 1
           | Number x \<Rightarrow> ret (low_u64 x)) (\<lambda>number.
     if number < length indexed then bind (unwrap (indexed ! number)) (\<lambda>b. ret (Some b))
     else ret None))"

definition get_block_by_hash :: "'d demo_env \<Rightarrow> hash \<Rightarrow> ('d demo_state, demo_block option) exec" where
  "get_block_by_hash env hash =
     (if hash = 0 then panic
      else
        bind (gets (\<lambda>s. get_block (dc_chain s) hash)) (\<lambda>found.
        case found of
          Some block \<Rightarrow> ret (Some block)
        | None \<Rightarrow>
            bind (gets (\<lambda>s. rk_get (de_rocks env) (rw_db (dc_mdb s)) (gen_block_key hash))) (\<lambda>raw.
            case raw of
              Some (Some raw) \<Rightarrow>
                bind (gets dc_chain_id) (\<lambda>chain_id.
                bind (demo_decode (de_libs env) raw chain_id) (\<lambda>block.
                case block of
                  None \<Rightarrow> ret None
                | Some block \<Rightarrow> bind (on_chain (add_block (demo_bk env) block)) (\<lambda>b. ret (Some b))))
            | _ \<Rightarrow> ret None)))"

text \<open>The transactions of a block, and of the indexed blocks from the tail on.\<close>

fun find_in_block :: "hash \<Rightarrow> nat \<Rightarrow> tx list \<Rightarrow> nat option" where
  "find_in_block h idx [] = None"
| "find_in_block h idx (tx # txs) = (if stx_hash tx = h then Some idx else find_in_block h (idx + 1) txs)"

fun find_in_index :: "hash \<Rightarrow> demo_block option list \<Rightarrow> ('s, (demo_block \<times> nat) option) exec" where
  "find_in_index h [] = ret None"
| "find_in_index h (b # bs) =
     bind (unwrap b) (\<lambda>block.
     case find_in_block h 0 (db_txs block) of
       Some idx \<Rightarrow> ret (Some (block, idx))
     | None \<Rightarrow> find_in_index h bs)"

definition get_cached_tx :: "hash \<Rightarrow> ('d demo_state, (demo_block \<times> nat) option) exec" where
  "get_cached_tx h =
     bind (gets (\<lambda>s. dc_tx_cache s h)) (\<lambda>hit.
     case hit of
       Some e \<Rightarrow> ret (Some e)
     | None \<Rightarrow>
         bind (gets dc_indexed) (\<lambda>indexed.
         bind (find_in_index h (rev indexed)) (\<lambda>found.
         case found of
           None \<Rightarrow> ret None
         | Some e \<Rightarrow> bind (modify (\<lambda>s. s\<lparr>dc_tx_cache := (dc_tx_cache s)(h \<mapsto> e)\<rparr>)) (\<lambda>_. ret (Some e)))))"

section \<open>The canonical chain\<close>

definition resize_to :: "nat \<Rightarrow> 'a \<Rightarrow> 'a list \<Rightarrow> 'a list" where
  "resize_to n x xs = take n xs @ replicate (n - length xs) x"

text \<open>The loop over the entries of the index from the tail down; the argument is one more than the position.\<close>

fun tail_loop :: "'d demo_env \<Rightarrow> nat \<Rightarrow> demo_block \<Rightarrow> ('d demo_state, unit) exec" where
  "tail_loop env 0 next_block = ret ()"
| "tail_loop env (Suc i) next_block =
     (let nblock = demo_block_hash (de_keccak env) next_block in
      bind (gets (\<lambda>s. dc_indexed s ! i)) (\<lambda>b.
      if (case b of Some block \<Rightarrow> demo_block_hash (de_keccak env) block = nblock | None \<Rightarrow> False) then ret ()
      else
        bind (on_mdb (wb_put (gen_index_key (i + 1)) (hash_as_bytes nblock))) (\<lambda>_.
        bind (get_block_by_hash env nblock) (\<lambda>found.
        bind (unwrap found) (\<lambda>block.
        bind (modify (\<lambda>s. s\<lparr>dc_indexed := (dc_indexed s)[i := Some block]\<rparr>)) (\<lambda>_.
        if bk_number (demo_bk env) next_block = 0 then ret ()
        else
          bind (get_block_by_hash env (db_parent_hash next_block)) (\<lambda>found.
          bind (unwrap found) (tail_loop env i))))))))"

definition set_canonical_tail :: "'d demo_env \<Rightarrow> demo_block \<Rightarrow> ('d demo_state, unit) exec" where
  "set_canonical_tail env new_tail =
     bind (u64_add (db_number new_tail) 1) (\<lambda>n.
     bind (modify (\<lambda>s. s\<lparr>dc_indexed := resize_to n None (dc_indexed s)\<rparr>)) (\<lambda>_.
     bind (on_mdb (wb_put (gen_index_key 0) (le_bytes 8 n))) (\<lambda>_.
     bind (tail_loop env n new_tail) (\<lambda>_.
     on_mdb (rw_commit (de_rocks env))))))"

section \<open>Worlds and outcomes\<close>

text \<open>
  What the reader of a state root shows. The reads of the code are the computations of \<open>Merkle\<close>, which panic on a broken store; a world
  is a record of functions, and has the value of an absent account there. At the roots of the blocks of a node no read panics
  (\<open>reader_shows\<close> of \<open>Persist\<close>, shown for every block of a session).
\<close>

definition merkle_world :: "(bytes \<Rightarrow> hash) \<Rightarrow> 'd trie_if \<Rightarrow> 'd rw_db \<Rightarrow> hash option \<Rightarrow> world" where
  "merkle_world keccak tr w root =
     (let r = get_reader root in
      \<lparr>w_state = \<lambda>a k. (case reader_get_state tr r a k w of Ok v _ \<Rightarrow> v | _ \<Rightarrow> 0),
       w_balance = \<lambda>a. (case reader_get_balance tr r a w of Ok v _ \<Rightarrow> v | _ \<Rightarrow> 0),
       w_code = \<lambda>a. (case reader_get_code keccak tr r a w of Ok v _ \<Rightarrow> v | _ \<Rightarrow> PlainCode_new keccak []),
       w_nonce = \<lambda>a. (case reader_get_nonce tr r a w of Ok v _ \<Rightarrow> v | _ \<Rightarrow> 0),
       w_exist = \<lambda>a. (case reader_exist tr r a w of Ok v _ \<Rightarrow> v | _ \<Rightarrow> False)\<rparr>)"

definition get_block_state :: "'d demo_env \<Rightarrow> demo_block \<Rightarrow> ('d demo_state, mem_rev block_outcome option) exec" where
  "get_block_state env block s =
     (let root = (if db_root_hash block = 0 then None else Some (db_root_hash block));
          reader = merkle_world (de_keccak env) (de_trie env) (dc_mdb s) root
      in case rk_get (de_rocks env) (rw_db (dc_mdb s)) (gen_outcome_key (demo_block_hash (de_keccak env) block)) of
           Some (Some raw) \<Rightarrow> outcome_decode raw (mem_rev_new reader) s
         | _ \<Rightarrow> Ok None s)"

text \<open>The environment of the transactions of a block; a block number beyond the index panics in the code and has hash 0 here.\<close>

definition get_exec_env :: "'d demo_env \<Rightarrow> 'd demo_state \<Rightarrow> demo_block \<Rightarrow> exec_env" where
  "get_exec_env env s block =
     \<lparr>env_chain_id = dc_chain_id s,
      env_block = \<lparr>bi_coinbase = 0, bi_timestamp = word_of_nat (db_timestamp block), bi_number = word_of_nat (db_number block),
        bi_difficulty = 0, bi_gas_limit = db_gas_limit block, bi_base_fee = db_base_fee block, bi_fork = London\<rparr>,
      env_precompiled = [],
      env_block_hash = \<lambda>n. (if n < length (dc_indexed s) then
          (case dc_indexed s ! n of Some b \<Rightarrow> demo_block_hash (de_keccak env) b | None \<Rightarrow> 0) else 0)\<rparr>"

section \<open>The transactions of a block\<close>

definition wei_checked_mul :: "wei \<Rightarrow> wei \<Rightarrow> wei option" where
  "wei_checked_mul a b = (if unat a * unat b < 2 ^ 256 then Some (a * b) else None)"

text \<open>Sender, recipient, value, gas, gas price, data, the world, the committed world and the environment.\<close>

type_synonym tx_runner =
  "addr \<Rightarrow> addr option \<Rightarrow> wei \<Rightarrow> gas \<Rightarrow> wei \<Rightarrow> bytes \<Rightarrow> mem_auto \<Rightarrow> mem_rev \<Rightarrow> exec_env \<Rightarrow> (mem_auto \<times> tx_exec_result) option"

record tx_progress =
  pg_state :: mem_auto
  pg_gas_cumu :: gas
  pg_gas_used :: "(gas \<times> gas) list"
  pg_contract_addrs :: "addr option list"

text \<open>The body of the loop over the transactions; \<open>False\<close> is the early return of \<open>None\<close>.\<close>

definition process_tx ::
  "(bytes \<Rightarrow> hash) \<Rightarrow> tx_runner \<Rightarrow> mem_rev \<Rightarrow> exec_env \<Rightarrow> tx \<Rightarrow> (tx_progress, bool) exec" where
  "process_tx keccak run_tx prev_state xenv tx =
     (let t = tx_view_of (stx_inner tx); gas = tv_gas t in
      case wei_checked_mul (tv_gas_price t) (word_of_nat gas) of
        None \<Rightarrow> ret False
      | Some paid \<Rightarrow>
          bind (gets (\<lambda>p. transfer_balance (mem_ws keccak) (stx_from tx) 0 paid (pg_state p))) (\<lambda>(paid_ok, st).
          bind (modify (\<lambda>p. p\<lparr>pg_state := st\<rparr>)) (\<lambda>_.
          if \<not> paid_ok then ret True
          else
            bind (unwrap (run_tx (stx_from tx) (tv_to t) (tv_value t) gas (tv_gas_price t) (tv_data t) st prev_state xenv))
              (\<lambda>(st', res).
            bind (modify (\<lambda>p. p\<lparr>pg_state := st'\<rparr>)) (\<lambda>_.
            case res of
              TxSucceeded data unused_gas contract_addr \<Rightarrow>
                bind (u64_sub gas unused_gas) (\<lambda>used_gas.
                bind (gets pg_gas_cumu) (\<lambda>cumu.
                bind (u64_add cumu used_gas) (\<lambda>cumu.
                bind (modify (\<lambda>p. p\<lparr>pg_gas_cumu := cumu, pg_gas_used := pg_gas_used p @ [(cumu, used_gas)],
                                   pg_contract_addrs := pg_contract_addrs p @ [contract_addr]\<rparr>)) (\<lambda>_.
                ret True))))
            | TxReverted data unused_gas err \<Rightarrow> ret True)))))"

fun process_txs ::
  "(bytes \<Rightarrow> hash) \<Rightarrow> tx_runner \<Rightarrow> mem_rev \<Rightarrow> exec_env \<Rightarrow> tx list \<Rightarrow> (tx_progress, bool) exec" where
  "process_txs keccak run_tx prev_state xenv [] = ret True"
| "process_txs keccak run_tx prev_state xenv (tx # txs) =
     bind (process_tx keccak run_tx prev_state xenv tx) (\<lambda>go.
     if go then process_txs keccak run_tx prev_state xenv txs else ret False)"

definition process_state_transition ::
  "'d demo_env \<Rightarrow> tx_runner \<Rightarrow> demo_block \<Rightarrow> ('d demo_state, (mem_rev block_outcome \<times> hash) option) exec" where
  "process_state_transition env run_tx block =
     bind (get_block_by_hash env (db_parent_hash block)) (\<lambda>prev.
     case prev of
       None \<Rightarrow> ret None
     | Some prev_block \<Rightarrow>
         bind (get_block_state env prev_block) (\<lambda>bs.
         case bs of
           None \<Rightarrow> ret None
         | Some bs \<Rightarrow>
             (\<lambda>s. case process_txs (de_keccak env) run_tx (bo_world_state bs) (get_exec_env env s block) (db_txs block)
                     \<lparr>pg_state = Const (bo_world_state bs), pg_gas_cumu = 0, pg_gas_used = [], pg_contract_addrs = []\<rparr> of
                Ok True p \<Rightarrow>
                  Ok (Some (\<lparr>bo_world_state = shared_consolidate None (snd (to_shared (pg_state p))),
                             bo_gas_used = pg_gas_used p, bo_contract_addrs = pg_contract_addrs p\<rparr>,
                            db_root_hash prev_block)) s
              | Ok False _ \<Rightarrow> Ok None s
              | Err e _ \<Rightarrow> Err e s
              | Panic \<Rightarrow> Panic)))"

section \<open>Adding blocks\<close>

definition add_one_block ::
  "'d demo_env \<Rightarrow> tx_runner \<Rightarrow> nat \<Rightarrow> hash \<Rightarrow> demo_block \<Rightarrow> ('d demo_state, hash) exec" where
  "add_one_block env run_tx number p_hash block =
     (let block = block\<lparr>db_number := number, db_parent_hash := p_hash\<rparr> in
      bind (process_state_transition env run_tx block) (\<lambda>r.
      bind (unwrap r) (\<lambda>(outcome, old_root).
      bind (unwrap (consolidated_delta (bo_world_state outcome))) (\<lambda>delta.
      bind (on_mdb (merkle_commit (de_trie env) (de_iter env) (Some old_root) delta
              (merkle_reader (de_keccak env) (de_trie env) (get_reader (Some old_root))))) (\<lambda>root.
      bind (on_chain (add_block (demo_bk env) (block\<lparr>db_root_hash := root\<rparr>))) (\<lambda>b.
      let hash = demo_block_hash (de_keccak env) b in
      bind (on_mdb (wb_put (gen_block_key hash) (demo_encode (de_libs env) b))) (\<lambda>_.
      bind (on_mdb (wb_put (gen_outcome_key hash) (outcome_encode outcome))) (\<lambda>_.
      bind (on_mdb (rw_commit (de_rocks env))) (\<lambda>_.
      bind (gets (\<lambda>s. word_of_nat (length (dc_indexed s)) \<le> bk_number (demo_bk env) b \<and> is_attached (dc_chain s) hash)) (\<lambda>tail.
      bind (when_do tail (set_canonical_tail env b)) (\<lambda>_.
      ret hash)))))))))))"

fun add_blocks_loop ::
  "'d demo_env \<Rightarrow> tx_runner \<Rightarrow> nat \<Rightarrow> hash \<Rightarrow> demo_block list \<Rightarrow> ('d demo_state, unit) exec" where
  "add_blocks_loop env run_tx number p_hash [] = ret ()"
| "add_blocks_loop env run_tx number p_hash (block # blocks) =
     bind (u64_add number 1) (\<lambda>number.
     bind (add_one_block env run_tx number p_hash block) (\<lambda>p_hash.
     add_blocks_loop env run_tx number p_hash blocks))"

definition add_blocks :: "'d demo_env \<Rightarrow> tx_runner \<Rightarrow> demo_block list \<Rightarrow> ('d demo_state, unit) exec" where
  "add_blocks env run_tx blocks =
     bind (get_block_by_number Latest) (\<lambda>b.
     bind (unwrap b) (\<lambda>block.
     bind (as_u64 (bk_number (demo_bk env) block)) (\<lambda>number.
     add_blocks_loop env run_tx number (demo_block_hash (de_keccak env) block) blocks)))"

section \<open>Requests\<close>

text \<open>Early returns of \<open>None\<close>: \<open>?\<close> on an option.\<close>

definition or_none :: "('s, 'a option) exec \<Rightarrow> ('a \<Rightarrow> ('s, 'b option) exec) \<Rightarrow> ('s, 'b option) exec" where
  "or_none m f = bind m (\<lambda>a. case a of None \<Rightarrow> ret None | Some a \<Rightarrow> f a)"

definition state_at :: "'d demo_env \<Rightarrow> block_number \<Rightarrow> ('d demo_state, mem_rev option) exec" where
  "state_at env number =
     or_none (get_block_by_number number) (\<lambda>block.
     or_none (get_block_state env block) (\<lambda>bs. ret (Some (bo_world_state bs))))"

definition handle_get_balance :: "'d demo_env \<Rightarrow> addr \<Rightarrow> block_number \<Rightarrow> ('d demo_state, wei option) exec" where
  "handle_get_balance env a number = or_none (state_at env number) (\<lambda>ws. ret (Some (rev_get_balance ws a)))"

definition handle_get_nonce :: "'d demo_env \<Rightarrow> addr \<Rightarrow> block_number \<Rightarrow> ('d demo_state, nat option) exec" where
  "handle_get_nonce env a number = or_none (state_at env number) (\<lambda>ws. ret (Some (rev_get_nonce ws a)))"

definition handle_get_state :: "'d demo_env \<Rightarrow> addr \<Rightarrow> u256 \<Rightarrow> block_number \<Rightarrow> ('d demo_state, u256 option) exec" where
  "handle_get_state env a key number =
     or_none (state_at env number) (\<lambda>ws. ret (Some (rev_get_state ws a (hash_of_u256 key))))"

definition handle_get_code :: "'d demo_env \<Rightarrow> addr \<Rightarrow> block_number \<Rightarrow> ('d demo_state, bytes option) exec" where
  "handle_get_code env a number =
     or_none (state_at env number) (\<lambda>ws. ret (Some (code_bytes (rev_get_code (de_keccak env) ws a))))"

definition handle_get_tail_block :: "'d demo_env \<Rightarrow> ('d demo_state, u256 \<times> hash) exec" where
  "handle_get_tail_block env =
     bind (get_block_by_number Latest) (\<lambda>b.
     bind (unwrap b) (\<lambda>block.
     ret (bk_number (demo_bk env) block, demo_block_hash (de_keccak env) block)))"

record tx_receipt =
  tr_tx_hash :: hash
  tr_tx_index :: nat
  tr_block_hash :: hash
  tr_block_number :: u256
  tr_from :: addr
  tr_to :: "addr option"
  tr_cu_gas_used :: gas
  tr_gas_used :: gas
  tr_contract_addr :: "addr option"
  tr_status :: nat

definition handle_get_tx_receipt :: "'d demo_env \<Rightarrow> hash \<Rightarrow> ('d demo_state, tx_receipt option) exec" where
  "handle_get_tx_receipt env h =
     or_none (get_cached_tx h) (\<lambda>(block, idx).
     or_none (get_block_state env block) (\<lambda>bs.
     if idx < length (db_txs block) \<and> idx < length (bo_gas_used bs) \<and> idx < length (bo_contract_addrs bs) then
       let tx = db_txs block ! idx in
       ret (Some \<lparr>tr_tx_hash = stx_hash tx, tr_tx_index = idx, tr_block_hash = demo_block_hash (de_keccak env) block,
         tr_block_number = bk_number (demo_bk env) block, tr_from = stx_from tx, tr_to = tv_to (tx_view_of (stx_inner tx)),
         tr_cu_gas_used = fst (bo_gas_used bs ! idx), tr_gas_used = snd (bo_gas_used bs ! idx),
         tr_contract_addr = bo_contract_addrs bs ! idx, tr_status = 1\<rparr>)
     else panic))"

record tx_response =
  ts_block_hash :: hash
  ts_block_number :: u256
  ts_from :: addr
  ts_gas :: gas
  ts_gas_price :: wei
  ts_hash :: hash
  ts_input :: bytes
  ts_nonce :: nat
  ts_to :: "addr option"
  ts_tx_index :: nat
  ts_value :: wei
  ts_v :: bytes
  ts_r :: bytes
  ts_s :: bytes

definition tx_response_of :: "'d demo_env \<Rightarrow> demo_block \<Rightarrow> nat \<Rightarrow> tx \<Rightarrow> tx_response" where
  "tx_response_of env block i tx =
     (let t = tx_view_of (stx_inner tx) in
      \<lparr>ts_block_hash = demo_block_hash (de_keccak env) block, ts_block_number = bk_number (demo_bk env) block,
       ts_from = stx_from tx, ts_gas = tv_gas t, ts_gas_price = tv_gas_price t, ts_hash = stx_hash tx,
       ts_input = tv_data t, ts_nonce = tv_nonce t, ts_to = tv_to t, ts_tx_index = i, ts_value = tv_value t,
       ts_v = to_big_endian (tv_v t), ts_r = to_big_endian (tv_r t), ts_s = to_big_endian (tv_s t)\<rparr>)"

definition handle_get_tx_by_hash :: "'d demo_env \<Rightarrow> hash \<Rightarrow> ('d demo_state, tx_response option) exec" where
  "handle_get_tx_by_hash env h =
     or_none (get_cached_tx h) (\<lambda>(block, idx).
     if idx < length (db_txs block) then ret (Some (tx_response_of env block idx (db_txs block ! idx))) else panic)"

datatype tx_response_info = Hashes "hash list" | Objects "tx_response list"

text \<open>The fields of \<open>BlockInfo\<close> that are set; the others have their default values.\<close>

record block_reply =
  br_number :: u256
  br_hash :: hash
  br_parent_hash :: hash
  br_timestamp :: nat
  br_gas_used :: gas
  br_txs :: tx_response_info

definition get_block_info :: "'d demo_env \<Rightarrow> demo_block \<Rightarrow> bool \<Rightarrow> ('d demo_state, block_reply option) exec" where
  "get_block_info env block verbose =
     or_none (get_block_state env block) (\<lambda>bs.
     ret (Some
       \<lparr>br_number = bk_number (demo_bk env) block, br_hash = demo_block_hash (de_keccak env) block,
        br_parent_hash = db_parent_hash block, br_timestamp = db_timestamp block,
        br_gas_used = (if bo_gas_used bs = [] then 0 else fst (last (bo_gas_used bs))),
        br_txs = (if verbose then Objects (map (\<lambda>(i, tx). tx_response_of env block i tx) (enumerate 0 (db_txs block)))
                  else Hashes (map stx_hash (db_txs block)))\<rparr>))"

definition handle_get_block_by_hash :: "'d demo_env \<Rightarrow> hash \<Rightarrow> bool \<Rightarrow> ('d demo_state, block_reply option) exec" where
  "handle_get_block_by_hash env h verbose = or_none (get_block_by_hash env h) (\<lambda>b. get_block_info env b verbose)"

definition handle_get_block_by_number :: "'d demo_env \<Rightarrow> block_number \<Rightarrow> bool \<Rightarrow> ('d demo_state, block_reply option) exec" where
  "handle_get_block_by_number env n verbose = or_none (get_block_by_number n) (\<lambda>b. get_block_info env b verbose)"

section \<open>Requests that only read\<close>

abbreviation reads_only :: "('s, 'a) exec \<Rightarrow> bool" where
  "reads_only \<equiv> pres (=)"

interpretation unchanged: run_rel "(=)"
  by unfold_locales auto

lemma reads_onlyD: "reads_only m \<Longrightarrow> m s = Ok a t \<Longrightarrow> t = s"
  using pres_OkD [of "(=)" m s a t] by simp

lemma or_none_Ok:
  "or_none m f s = Ok b t \<longleftrightarrow>
     (m s = Ok None t \<and> b = None) \<or> (\<exists>a u. m s = Ok (Some a) u \<and> f a u = Ok b t)"
  by (auto simp: or_none_def bind_Ok_conv ret_def split: option.splits)

lemma reads_or_none: "reads_only m \<Longrightarrow> (\<And>a. reads_only (f a)) \<Longrightarrow> reads_only (or_none m f)"
  unfolding or_none_def by (intro unchanged.pres_rules)

lemmas reads_rules = unchanged.pres_rules reads_or_none

lemma reads_tx_decode: "reads_only (tx_decode libs raw chain_id)"
proof -
  have "reads_only (tx_chain_id tx)" for tx
    by (cases tx) (auto simp: derive_chain_id_def Let_def intro!: reads_rules)
  then have "reads_only (tx_new libs tx h chain_id)" for tx h
    unfolding tx_new_def recover_sender_def recover_plain_def by (intro reads_rules)
  then have "reads_only (tx_decoded libs t h chain_id)" for t h
    unfolding tx_decoded_def by (cases t) (simp_all add: unchanged.pres_ret)
  then show ?thesis unfolding tx_decode_def by (intro reads_rules)
qed

lemma reads_block_number: "reads_only (get_block_by_number n)"
  unfolding get_block_by_number_def by (cases n) (auto intro!: reads_rules)

lemma reads_outcome_decode: "reads_only (outcome_decode raw w)"
  unfolding outcome_decode_def by (intro reads_rules)

lemma reads_block_state: "reads_only (get_block_state env b)"
  by (auto simp: pres_def get_block_state_def Let_def reads_outcome_decode [unfolded pres_def, rule_format] split: option.split)

lemma reads_state_at: "reads_only (state_at env n)"
  unfolding state_at_def by (intro reads_rules reads_block_number reads_block_state)

end
