(* ===== verification/DemoIndex.thy ===== *)
theory DemoIndex
  imports DemoChain
begin

text \<open>
  The index of the canonical chain: \<open>set_canonical_tail\<close> makes it, in memory and on disk, the path of parents from the new
  tail to the genesis block, and lookups of blocks and transactions go through it.
\<close>

definition in_chain :: "'d demo_env \<Rightarrow> 'd demo_state \<Rightarrow> demo_block \<Rightarrow> bool" where
  "in_chain env s b \<longleftrightarrow>
     get_block (dc_chain s) (demo_block_hash (de_keccak env) b) = Some b \<and> demo_block_hash (de_keccak env) b \<noteq> 0"

text \<open>Blocks of the tree, numbered from 0, each the parent of the next one.\<close>

definition linked :: "'d demo_env \<Rightarrow> 'd demo_state \<Rightarrow> demo_block list \<Rightarrow> bool" where
  "linked env s bs \<longleftrightarrow>
     (\<forall>i<length bs. in_chain env s (bs ! i) \<and> db_number (bs ! i) = i \<and>
        (0 < i \<longrightarrow> db_parent_hash (bs ! i) = demo_block_hash (de_keccak env) (bs ! (i - 1))))"

definition index_stored :: "'d demo_env \<Rightarrow> 'd \<Rightarrow> demo_block list \<Rightarrow> bool" where
  "index_stored env d bs \<longleftrightarrow>
     rk_get (de_rocks env) d (gen_index_key 0) = Some (Some (le_bytes 8 (length bs))) \<and>
     (\<forall>i<length bs. rk_get (de_rocks env) d (gen_index_key (i + 1)) =
        Some (Some (hash_as_bytes (demo_block_hash (de_keccak env) (bs ! i)))))"

lemma in_chain_unique:
  "in_chain env s a \<Longrightarrow> in_chain env s b \<Longrightarrow>
    demo_block_hash (de_keccak env) a = demo_block_hash (de_keccak env) b \<Longrightarrow> a = b"
  by (simp add: in_chain_def)

lemma linked_block:
  assumes "linked env s bs" and "i < length bs"
  shows "in_chain env s (bs ! i)" "db_number (bs ! i) = i"
    "i = Suc j \<Longrightarrow> db_parent_hash (bs ! i) = demo_block_hash (de_keccak env) (bs ! j)"
  using assms by (auto simp: linked_def)

lemma linked_agree:
  assumes "linked env s as" and "linked env s bs"
  shows "i < length as \<Longrightarrow> i < length bs \<Longrightarrow>
    demo_block_hash (de_keccak env) (as ! i) = demo_block_hash (de_keccak env) (bs ! i) \<Longrightarrow> \<forall>j\<le>i. as ! j = bs ! j"
proof (induction i)
  case 0
  then show ?case using assms by (auto intro!: in_chain_unique linked_block)
next
  case (Suc i)
  have eq: "as ! Suc i = bs ! Suc i" using assms Suc.prems by (intro in_chain_unique linked_block)
  have "demo_block_hash (de_keccak env) (as ! i) = demo_block_hash (de_keccak env) (bs ! i)"
    using linked_block(3) [OF assms(1) Suc.prems(1)] linked_block(3) [OF assms(2) Suc.prems(2)] eq by simp
  then show ?case using Suc eq by (auto simp: le_Suc_eq)
qed

lemma get_block_by_hash_in_chain:
  "in_chain env s b \<Longrightarrow> dc_chain t = dc_chain s \<Longrightarrow>
    get_block_by_hash env (demo_block_hash (de_keccak env) b) t = Ok (Some b) t"
  by (simp add: in_chain_def get_block_by_hash_def bind_def gets_def ret_def)

definition index_puts :: "'d demo_env \<Rightarrow> nat \<Rightarrow> nat \<Rightarrow> demo_block list \<Rightarrow> (bytes \<times> bytes) list" where
  "index_puts env k n bs =
     map (\<lambda>j. (gen_index_key (j + 1), hash_as_bytes (demo_block_hash (de_keccak env) (bs ! j)))) (rev [k..<n])"

lemma mdb_indexed_commute: "t\<lparr>dc_mdb := m, dc_indexed := bs\<rparr> = t\<lparr>dc_indexed := bs, dc_mdb := m\<rparr>"
  by simp

text \<open>One entry of the index that is not yet the block of the new path.\<close>

lemma tail_loop_step:
  assumes "in_chain env s b" and "dc_chain t = dc_chain s" and "i < 2 ^ 64" and "db_number b = i"
    and "\<forall>b'. dc_indexed t ! i = Some b' \<longrightarrow> demo_block_hash (de_keccak env) b' \<noteq> demo_block_hash (de_keccak env) b"
    and "0 < i \<longrightarrow> in_chain env s p \<and> db_parent_hash b = demo_block_hash (de_keccak env) p"
  shows "tail_loop env (Suc i) b t =
    (let u = t\<lparr>dc_indexed := (dc_indexed t)[i := Some b],
             dc_mdb := wb_puts [(gen_index_key (i + 1), hash_as_bytes (demo_block_hash (de_keccak env) b))] (dc_mdb t)\<rparr>
     in if i = 0 then Ok () u else tail_loop env i p u)"
proof -
  have found: "get_block_by_hash env (demo_block_hash (de_keccak env) b) u = Ok (Some b) u" if "dc_chain u = dc_chain s" for u
    using get_block_by_hash_in_chain [OF assms(1) that] .
  have par: "get_block_by_hash env (db_parent_hash b) u = Ok (Some p) u" if "dc_chain u = dc_chain s" "0 < i" for u
    using get_block_by_hash_in_chain [of env s p u] assms(6) that by simp
  have zero: "bk_number (demo_bk env) b = 0 \<longleftrightarrow> i = 0"
    using assms(3) by (simp add: demo_bk_def assms(4) unat_eq_zero [symmetric] unat_of_nat)
  have cond: "(case dc_indexed t ! i of Some block \<Rightarrow> demo_block_hash (de_keccak env) block = demo_block_hash (de_keccak env) b
      | None \<Rightarrow> False) = False" using assms(5) by (auto split: option.splits)
  show ?thesis
    using assms(2) by (simp add: mdb_indexed_commute bind_def gets_def zoom_def wb_put_puts modify_def unwrap_def ret_def Let_def found par zero cond)
qed

lemma tail_loop_found:
  "dc_indexed t ! i = Some b' \<Longrightarrow> demo_block_hash (de_keccak env) b' = demo_block_hash (de_keccak env) b \<Longrightarrow>
    tail_loop env (Suc i) b t = Ok () t"
  by (simp add: bind_def gets_def ret_def Let_def)

lemma dc_indexed_same: "dc_indexed t = bs \<Longrightarrow> t\<lparr>dc_indexed := bs\<rparr> = t"
  by (cases t) simp

text \<open>The loop from entry \<open>n\<close> down stops at the first entry \<open>k\<close> below which the two paths agree.\<close>

lemma tail_loop_Ok:
  assumes old: "linked env s as" and new: "linked env s bs" and len: "length bs \<le> 2 ^ 64"
  shows "0 < n \<Longrightarrow> n \<le> length bs \<Longrightarrow> dc_chain t = dc_chain s \<Longrightarrow> length (dc_indexed t) = length bs \<Longrightarrow>
    (\<And>j. j < length bs \<Longrightarrow> dc_indexed t ! j =
       (if n \<le> j then Some (bs ! j) else if j < length as then Some (as ! j) else None)) \<Longrightarrow>
    \<exists>k\<le>n. tail_loop env n (bs ! (n - 1)) t =
        Ok () (t\<lparr>dc_indexed := map Some bs, dc_mdb := wb_puts (index_puts env k n bs) (dc_mdb t)\<rparr>) \<and>
      (\<forall>j<k. j < length as \<and> as ! j = bs ! j)"
proof (induction n arbitrary: t)
  case 0
  then show ?case by simp
next
  case (Suc i)
  let ?b = "bs ! i" and ?h = "\<lambda>b. demo_block_hash (de_keccak env) b"
  note entry = Suc.prems(5)
  have i: "i < length bs" "i < 2 ^ 64" using Suc.prems(2) len by auto
  note b = linked_block [OF new i(1)]
  show ?case
  proof (cases "\<exists>b'. dc_indexed t ! i = Some b' \<and> ?h b' = ?h ?b")
    case True
    then have as: "i < length as" "?h (as ! i) = ?h ?b" using entry [OF i(1)] by (auto split: if_splits)
    note agree = linked_agree [OF old new as(1) i(1) as(2)]
    have "dc_indexed t = map Some bs"
      using Suc.prems(4) entry agree as(1) by (intro nth_equalityI) (auto split: if_splits)
    then have "t\<lparr>dc_indexed := map Some bs, dc_mdb := wb_puts (index_puts env (Suc i) (Suc i) bs) (dc_mdb t)\<rparr> = t"
      by (simp add: dc_indexed_same index_puts_def)
    moreover from True have "tail_loop env (Suc i) ?b t = Ok () t" by (auto simp: tail_loop_found simp del: tail_loop.simps)
    ultimately show ?thesis using agree as(1) by (intro exI [of _ "Suc i"]) (simp del: tail_loop.simps)
  next
    case False
    let ?u = "t\<lparr>dc_indexed := (dc_indexed t)[i := Some ?b],
             dc_mdb := wb_puts [(gen_index_key (i + 1), hash_as_bytes (?h ?b))] (dc_mdb t)\<rparr>"
    have parent: "0 < i \<longrightarrow> in_chain env s (bs ! (i - 1)) \<and> db_parent_hash ?b = ?h (bs ! (i - 1))"
      using new i(1) by (auto simp: linked_def)
    have step: "tail_loop env (Suc i) ?b t = (if i = 0 then Ok () ?u else tail_loop env i (bs ! (i - 1)) ?u)"
      using tail_loop_step [OF b(1) Suc.prems(3) i(2) b(2) _ parent] False by (simp add: Let_def del: tail_loop.simps)
    have puts: "index_puts env k (Suc i) bs = (gen_index_key (i + 1), hash_as_bytes (?h ?b)) # index_puts env k i bs" if "k \<le> i" for k
      using that by (simp add: index_puts_def)
    have entries: "dc_indexed ?u ! j = (if i \<le> j then Some (bs ! j) else if j < length as then Some (as ! j) else None)"
      if "j < length bs" for j using entry [OF that] that Suc.prems(4) by (auto simp: nth_list_update)
    show ?thesis
    proof (cases "i = 0")
      case True
      then have "dc_indexed ?u = map Some bs" using entries Suc.prems(4) by (intro nth_equalityI) auto
      with True step puts [of 0] show ?thesis by (intro exI [of _ 0]) (simp add: index_puts_def del: tail_loop.simps)
    next
      case False
      then obtain k where k: "k \<le> i" "\<forall>j<k. j < length as \<and> as ! j = bs ! j"
        "tail_loop env i (bs ! (i - 1)) ?u = Ok () (?u\<lparr>dc_indexed := map Some bs, dc_mdb := wb_puts (index_puts env k i bs) (dc_mdb ?u)\<rparr>)"
        using Suc.IH [of ?u] Suc.prems(2,3,4) entries by auto
      with False step puts show ?thesis by (intro exI [of _ k]) (simp del: tail_loop.simps)
    qed
  qed
qed

section \<open>The new index\<close>

lemma map_of_keys:
  "inj_on f (insert j (set js)) \<Longrightarrow>
    map_of (map (\<lambda>j. (f j, g j)) js) (f j) = (if j \<in> set js then Some (g j) else None)"
  by (induction js) (auto simp: inj_on_def)

lemma index_key_eq: "i < 2 ^ 64 \<Longrightarrow> j < 2 ^ 64 \<Longrightarrow> gen_index_key i = gen_index_key j \<longleftrightarrow> i = j"
  by (simp add: gen_index_key_def le_bytes_inj)

lemma index_puts_lookup:
  assumes "length bs < 2 ^ 64" and "n \<le> length bs"
  shows "j < length bs \<Longrightarrow> map_of (rev ((gen_index_key 0, v) # index_puts env k n bs)) (gen_index_key (j + 1)) =
      (if k \<le> j \<and> j < n then Some (hash_as_bytes (demo_block_hash (de_keccak env) (bs ! j))) else None)"
    and "map_of (rev ((gen_index_key 0, v) # index_puts env k n bs)) (gen_index_key 0) = Some v"
proof -
  let ?f = "\<lambda>j. gen_index_key (j + 1)" and ?g = "\<lambda>j. hash_as_bytes (demo_block_hash (de_keccak env) (bs ! j))"
  have puts: "rev ((gen_index_key 0, v) # index_puts env k n bs) = map (\<lambda>j. (?f j, ?g j)) [k..<n] @ [(gen_index_key 0, v)]"
    by (simp add: index_puts_def rev_map)
  show "map_of (rev ((gen_index_key 0, v) # index_puts env k n bs)) (?f j) = (if k \<le> j \<and> j < n then Some (?g j) else None)"
    if "j < length bs"
  proof -
    have "inj_on ?f (insert j (set [k..<n]))" using that assms by (auto simp: inj_on_def index_key_eq)
    from map_of_keys [OF this, of ?g] that assms show ?thesis
      by (simp only: puts map_of_append map_add_def) (simp add: index_key_eq)
  qed
  have "gen_index_key 0 \<notin> fst ` set (map (\<lambda>j. (?f j, ?g j)) [k..<n])" using assms by (auto simp: index_key_eq)
  then have "map_of (map (\<lambda>j. (?f j, ?g j)) [k..<n]) (gen_index_key 0) = None" by (simp only: map_of_eq_None_iff not_False_eq_True)
  then show "map_of (rev ((gen_index_key 0, v) # index_puts env k n bs)) (gen_index_key 0) = Some v"
    by (simp only: puts map_of_append map_add_def) simp
qed

lemma resize_entries:
  "length (resize_to n x xs) = n"
  "j < n \<Longrightarrow> resize_to n x xs ! j = (if j < length xs then xs ! j else x)"
  by (auto simp: resize_to_def nth_append)

text \<open>\<open>set_canonical_tail\<close> writes one batch: the length and the entries from the first one in which the paths differ.\<close>

definition tail_puts :: "'d demo_env \<Rightarrow> nat \<Rightarrow> demo_block list \<Rightarrow> (bytes \<times> bytes) list" where
  "tail_puts env k bs = (gen_index_key 0, le_bytes 8 (length bs)) # index_puts env k (length bs) bs"

lemma tail_set_run:
  assumes old: "linked env s as" "dc_indexed s = map Some as"
    and new: "linked env s bs" "bs \<noteq> []" "length bs < 2 ^ 64" and idle: "rw_wb (dc_mdb s) = None"
  shows "\<exists>k. (\<forall>j<k. j < length as \<and> as ! j = bs ! j) \<and> set_canonical_tail env (last bs) s =
    (case rk_write (de_rocks env) (rw_db (dc_mdb s)) (tail_puts env k bs) of
       None \<Rightarrow> Panic
     | Some d \<Rightarrow> Ok () (s\<lparr>dc_indexed := map Some bs, dc_mdb := (dc_mdb s)\<lparr>rw_db := d\<rparr>\<rparr>))"
proof -
  let ?n = "length bs"
  let ?u = "s\<lparr>dc_indexed := resize_to ?n None (dc_indexed s), dc_mdb := wb_puts [(gen_index_key 0, le_bytes 8 ?n)] (dc_mdb s)\<rparr>"
  have tail: "last bs = bs ! (?n - 1)" "db_number (last bs) + 1 = ?n"
    using new linked_block(2) [OF new(1), of "?n - 1"] by (auto simp: last_conv_nth)
  have entry: "dc_indexed ?u ! j = (if ?n \<le> j then Some (bs ! j) else if j < length as then Some (as ! j) else None)"
    if "j < ?n" for j using that by (simp add: resize_entries old(2))
  obtain k where k: "\<forall>j<k. j < length as \<and> as ! j = bs ! j"
    and loop: "tail_loop env ?n (last bs) ?u =
      Ok () (?u\<lparr>dc_indexed := map Some bs, dc_mdb := wb_puts (index_puts env k ?n bs) (dc_mdb ?u)\<rparr>)"
    using tail_loop_Ok [OF old(1) new(1), of ?n ?u] entry new(2,3) by (auto simp: tail(1) resize_entries)
  have "rw_commit (de_rocks env) (wb_puts (tail_puts env k bs) (dc_mdb s)) =
      (case rk_write (de_rocks env) (rw_db (dc_mdb s)) (tail_puts env k bs) of
         None \<Rightarrow> Panic | Some d \<Rightarrow> Ok () ((dc_mdb s)\<lparr>rw_db := d\<rparr>))"
    using idle by (simp add: tail_puts_def rw_commit_def wb_puts_def pending_def exec_defs split: option.splits)
  moreover have "u64_add (db_number (last bs)) 1 s = Ok ?n s"
    using tail(2) new(3) by (simp add: u64_add_def ret_def)
  ultimately show ?thesis
    using loop k by (intro exI [of _ k])
      (simp add: set_canonical_tail_def bind_def modify_def zoom_def wb_put_puts ret_def tail_puts_def split: option.split
        del: tail_loop.simps)
qed

lemma tail_puts_stored:
  assumes len: "length bs < 2 ^ 64" and rocks: "rocks_laws (de_rocks env)" "rk_write (de_rocks env) d (tail_puts env k bs) = Some d'"
    and old: "index_stored env d as" "\<forall>j<k. j < length as \<and> as ! j = bs ! j"
  shows "index_stored env d' bs"
    and "\<forall>i. key \<noteq> gen_index_key i \<Longrightarrow> rk_get (de_rocks env) d' key = rk_get (de_rocks env) d key"
proof -
  have get: "rk_get (de_rocks env) d' key =
      (case map_of (rev (tail_puts env k bs)) key of Some v \<Rightarrow> Some (Some v) | None \<Rightarrow> rk_get (de_rocks env) d key)" for key
    using rocks unfolding rocks_laws_def by blast
  note lookup = index_puts_lookup [OF len order_refl, folded tail_puts_def]
  have "rk_get (de_rocks env) d' (gen_index_key (j + 1)) = Some (Some (hash_as_bytes (demo_block_hash (de_keccak env) (bs ! j))))"
    if "j < length bs" for j
    unfolding get tail_puts_def lookup(1) [OF that] using that old by (cases "k \<le> j") (auto simp: index_stored_def)
  moreover have "rk_get (de_rocks env) d' (gen_index_key 0) = Some (Some (le_bytes 8 (length bs)))"
    unfolding get tail_puts_def lookup(2) by simp
  ultimately show "index_stored env d' bs" by (simp add: index_stored_def)
  assume "\<forall>i. key \<noteq> gen_index_key i"
  then have "map_of (rev (tail_puts env k bs)) key = None"
    by (auto simp: map_of_eq_None_iff tail_puts_def index_puts_def)
  then show "rk_get (de_rocks env) d' key = rk_get (de_rocks env) d key" by (simp add: get)
qed

text \<open>
  C23. \<open>set_canonical_tail\<close> makes the index the path to the new tail: whatever path it had, a common prefix of
  the two is kept, every later entry is replaced, in memory and on disk, and the block tree does not change.
\<close>

theorem canonical_tail_set:
  assumes old: "linked env s as" "dc_indexed s = map Some as" "index_stored env (rw_db (dc_mdb s)) as"
    and new: "linked env s bs" "bs \<noteq> []" "length bs < 2 ^ 64"
    and store: "rw_wb (dc_mdb s) = None" "rocks_laws (de_rocks env)" "\<And>d wb. rk_write (de_rocks env) d wb \<noteq> None"
  shows "\<exists>t. set_canonical_tail env (last bs) s = Ok () t \<and> dc_indexed t = map Some bs \<and> dc_chain t = dc_chain s \<and>
    rw_wb (dc_mdb t) = None \<and> index_stored env (rw_db (dc_mdb t)) bs"
proof -
  from tail_set_run [OF old(1,2) new store(1)] obtain k where
    k: "\<forall>j<k. j < length as \<and> as ! j = bs ! j" and run: "set_canonical_tail env (last bs) s =
      (case rk_write (de_rocks env) (rw_db (dc_mdb s)) (tail_puts env k bs) of
         None \<Rightarrow> Panic
       | Some d \<Rightarrow> Ok () (s\<lparr>dc_indexed := map Some bs, dc_mdb := (dc_mdb s)\<lparr>rw_db := d\<rparr>\<rparr>))" by blast
  obtain d where d: "rk_write (de_rocks env) (rw_db (dc_mdb s)) (tail_puts env k bs) = Some d" using store(3) by blast
  then have "set_canonical_tail env (last bs) s = Ok () (s\<lparr>dc_indexed := map Some bs, dc_mdb := (dc_mdb s)\<lparr>rw_db := d\<rparr>\<rparr>)"
    by (simp add: run)
  with store(1) tail_puts_stored(1) [OF new(3) store(2) d old(3) k] show ?thesis by simp
qed

text \<open>A tail that is replaced by its sibling: the hash of a block is the first byte of its timestamp.\<close>

definition one_byte_env :: "(bytes \<rightharpoonup> bytes) demo_env" where
  "one_byte_env = \<lparr>de_libs = sample_libs\<lparr>tl_keccak := \<lambda>bs. ucast (bs ! 72)\<rparr>, de_rocks = map_rocks,
     de_trie = \<lparr>tr_read = \<lambda>_ _. None, tr_has = \<lambda>_ _. None, tr_write = \<lambda>_ _ _. None\<rparr>,
     de_iter = \<lparr>it_accounts = \<lambda>_. [], it_state = \<lambda>_. []\<rparr>\<rparr>"

definition sibling_block :: "nat \<Rightarrow> demo_block" where
  "sibling_block i = demo_block_new 0 (if i = 1 then 0 else 1) (if i = 1 then 0 else 1) 0 (Some i) []"

definition sibling_state :: "(bytes \<rightharpoonup> bytes) demo_state" where
  "sibling_state =
     \<lparr>dc_chain = \<lparr>ch_base = sibling_block 1, ch_attached = map (\<lambda>i. (word_of_nat i, sibling_block i)) [1, 2, 3], ch_orphans = [],
        ch_orphan_on = []\<rparr>, dc_tx_cache = Map.empty, dc_indexed = [Some (sibling_block 1), Some (sibling_block 2)],
      dc_mdb = rw_new id [] [gen_index_key 0 \<mapsto> le_bytes 8 2, gen_index_key 1 \<mapsto> hash_as_bytes 1, gen_index_key 2 \<mapsto> hash_as_bytes 2],
      dc_chain_id = 1\<rparr>"

lemma sibling_hash: "i < 256 \<Longrightarrow> demo_block_hash (de_keccak one_byte_env) (sibling_block i) = word_of_nat i"
proof -
  assume i: "i < 256"
  have "le_bytes 8 i ! 0 = (word_of_nat i :: u8)" using i by (simp add: le_bytes_def rev_nth be_bytes_nth)
  then have "demo_block_hash (de_keccak one_byte_env) (sibling_block i) = ucast (word_of_nat i :: u8)"
    by (simp add: demo_block_hash_def one_byte_env_def sibling_block_def demo_block_new_def nth_append)
  also have "\<dots> = word_of_nat i" using i by (simp add: unsigned_of_nat take_bit_nat_eq_self)
  finally show ?thesis .
qed

lemma sibling_linked: "i \<in> {2, 3} \<Longrightarrow> linked one_byte_env sibling_state [sibling_block 1, sibling_block i]"
  by (auto simp: linked_def in_chain_def sibling_hash less_Suc_eq nth_Cons' get_block_def sibling_state_def)
     (simp_all add: sibling_block_def demo_block_new_def)

lemma sibling_keys:
  "gen_index_key 0 \<noteq> gen_index_key (Suc 0)" "gen_index_key 0 \<noteq> gen_index_key 2" "gen_index_key (Suc 0) \<noteq> gen_index_key 2"
  "gen_index_key (Suc (Suc 0)) = gen_index_key 2" "le_bytes 8 (Suc (Suc 0)) = le_bytes 8 2"
proof -
  have "Suc (Suc 0) = 2" by simp
  then show "gen_index_key (Suc (Suc 0)) = gen_index_key 2" "le_bytes 8 (Suc (Suc 0)) = le_bytes 8 2" by (simp_all only:)
qed (simp_all add: index_key_eq)

lemma sibling_index: "index_stored one_byte_env (rw_db (dc_mdb sibling_state)) [sibling_block 1, sibling_block 2]"
  by (auto simp: index_stored_def sibling_state_def sibling_hash less_Suc_eq nth_Cons' rw_new_def)
     (simp_all add: one_byte_env_def map_rocks_def sibling_keys)

theorem canonical_tail_set_witness:
  "\<exists>t. set_canonical_tail one_byte_env (sibling_block 3) sibling_state = Ok () t \<and>
     dc_indexed t = [Some (sibling_block 1), Some (sibling_block 3)] \<and>
     rk_get map_rocks (rw_db (dc_mdb t)) (gen_index_key 2) = Some (Some (hash_as_bytes 3))"
proof -
  note sibling_index
  moreover have "rocks_laws (de_rocks one_byte_env)" "\<And>d wb. rk_write (de_rocks one_byte_env) d wb \<noteq> None"
    by (simp_all add: one_byte_env_def map_rocks_laws) (simp add: map_rocks_def)
  ultimately obtain t where t: "set_canonical_tail one_byte_env (sibling_block 3) sibling_state = Ok () t"
    "dc_indexed t = [Some (sibling_block 1), Some (sibling_block 3)]"
    "index_stored one_byte_env (rw_db (dc_mdb t)) [sibling_block 1, sibling_block 3]"
    using canonical_tail_set [of one_byte_env sibling_state "[sibling_block 1, sibling_block 2]" "[sibling_block 1, sibling_block 3]"]
      sibling_linked [of 2] sibling_linked [of 3] by (auto simp: sibling_state_def rw_new_def)
  then have "rk_get (de_rocks one_byte_env) (rw_db (dc_mdb t)) (gen_index_key (1 + 1)) = Some (Some (hash_as_bytes 3))"
    by (auto simp: index_stored_def sibling_hash)
  with t show ?thesis by (simp add: one_byte_env_def sibling_keys)
qed

end
