(* ===== verification/DemoTxs.thy ===== *)
theory DemoTxs
  imports DemoIndex
begin

text \<open>
  What the execution of the transactions of a block records, and the lookup of transactions by hash
  (\<open>process_state_transition\<close> and \<open>get_cached_tx\<close> of \<open>src/examples/demo.rs\<close>).
\<close>

section \<open>Gas of a block\<close>

definition tx_gas_limit :: "tx \<Rightarrow> gas" where
  "tx_gas_limit tx = tv_gas (tx_view_of (stx_inner tx))"

text \<open>The entries of \<open>gas_used\<close>: the gas of a transaction, after the sum up to and with it.\<close>

definition gas_entries_ok :: "(gas \<times> gas) list \<Rightarrow> bool" where
  "gas_entries_ok es \<longleftrightarrow> (\<forall>i<length es. fst (es ! i) = sum_list (map snd (take (Suc i) es)))"

definition accounted :: "tx_progress \<Rightarrow> nat \<Rightarrow> gas \<Rightarrow> bool" where
  "accounted p n limit \<longleftrightarrow>
     gas_entries_ok (pg_gas_used p) \<and> pg_gas_cumu p = sum_list (map snd (pg_gas_used p)) \<and>
     length (pg_contract_addrs p) = length (pg_gas_used p) \<and> length (pg_gas_used p) \<le> n \<and> pg_gas_cumu p \<le> limit"

lemma gas_entries_snoc: "gas_entries_ok es \<Longrightarrow> gas_entries_ok (es @ [(sum_list (map snd es) + g, g)])"
  by (auto simp: gas_entries_ok_def nth_append less_Suc_eq)

text \<open>A transaction leaves the record as it is, or adds an entry with the gas it has used.\<close>

lemma process_tx_record:
  assumes "process_tx keccak run_tx prev xenv tx p = Ok True q"
  shows "(pg_gas_used q = pg_gas_used p \<and> pg_gas_cumu q = pg_gas_cumu p \<and> pg_contract_addrs q = pg_contract_addrs p) \<or>
    (\<exists>g a. g \<le> tx_gas_limit tx \<and> pg_gas_used q = pg_gas_used p @ [(pg_gas_cumu p + g, g)] \<and>
      pg_gas_cumu q = pg_gas_cumu p + g \<and> pg_contract_addrs q = pg_contract_addrs p @ [a])"
proof -
  let ?t = "tx_view_of (stx_inner tx)"
  obtain paid where paid: "wei_checked_mul (tv_gas_price ?t) (word_of_nat (tv_gas ?t)) = Some paid"
    using assms by (auto simp: process_tx_def Let_def ret_def split: option.splits)
  obtain ok st where transfer: "transfer_balance (mem_ws keccak) (stx_from tx) 0 paid (pg_state p) = (ok, st)" by fastforce
  note body = assms [unfolded process_tx_def Let_def paid option.case bind_def gets_def modify_def transfer, simplified]
  show ?thesis
  proof (cases ok)
    case False
    with body show ?thesis by (auto simp: ret_def)
  next
    case True
    with body obtain st' res where "run_tx (stx_from tx) (tv_to ?t) (tv_value ?t) (tv_gas ?t) (tv_gas_price ?t) (tv_data ?t) st prev xenv =
        Some (st', res)"
      by (auto simp: unwrap_def panic_def split: option.splits)
    with body True show ?thesis
      by (cases res) (auto simp: unwrap_def ret_def panic_def u64_sub_def u64_add_def tx_gas_limit_def split: if_splits)
  qed
qed

lemma process_tx_accounted:
  "process_tx keccak run_tx prev xenv tx p = Ok True q \<Longrightarrow> accounted p n limit \<Longrightarrow>
    accounted q (Suc n) (limit + tx_gas_limit tx)"
  by (drule process_tx_record) (auto simp: accounted_def gas_entries_snoc)

lemma process_txs_accounted:
  "process_txs keccak run_tx prev xenv txs p = Ok True q \<Longrightarrow> accounted p n limit \<Longrightarrow>
    accounted q (n + length txs) (limit + sum_list (map tx_gas_limit txs))"
proof (induction txs arbitrary: p n limit)
  case Nil
  then show ?case by (simp add: ret_def)
next
  case (Cons tx txs)
  then obtain u where "process_tx keccak run_tx prev xenv tx p = Ok True u" "process_txs keccak run_tx prev xenv txs u = Ok True q"
    by (auto simp: bind_Ok_conv ret_def split: if_splits)
  with Cons.IH process_tx_accounted [OF _ Cons.prems(2)] show ?case by (fastforce simp: add.assoc)
qed

text \<open>
  The gas recorded for a block adds up: each entry has the sum of the gas of the entries so far, the total is
  at most the gas limits of the transactions together, there is a contract address for each entry, and there
  are at most as many entries as transactions (reverted and skipped ones have none).
\<close>

theorem block_gas_accounting:
  assumes "process_txs keccak run_tx prev xenv txs
      \<lparr>pg_state = st, pg_gas_cumu = 0, pg_gas_used = [], pg_contract_addrs = []\<rparr> = Ok True p"
  shows "(\<forall>i<length (pg_gas_used p). fst (pg_gas_used p ! i) = sum_list (map snd (take (Suc i) (pg_gas_used p)))) \<and>
    pg_gas_cumu p = sum_list (map snd (pg_gas_used p)) \<and> pg_gas_cumu p \<le> sum_list (map tx_gas_limit txs) \<and>
    length (pg_contract_addrs p) = length (pg_gas_used p) \<and> length (pg_gas_used p) \<le> length txs"
  using process_txs_accounted [OF assms, of 0 0] by (auto simp: accounted_def gas_entries_ok_def)

section \<open>Transactions by hash\<close>

definition cache_ok :: "'d demo_state \<Rightarrow> bool" where
  "cache_ok s \<longleftrightarrow> (\<forall>h b i. dc_tx_cache s h = Some (b, i) \<longrightarrow> i < length (db_txs b) \<and> stx_hash (db_txs b ! i) = h)"

lemma find_in_block_Some:
  "find_in_block h k txs = Some i \<Longrightarrow> k \<le> i \<and> i - k < length txs \<and> stx_hash (txs ! (i - k)) = h"
proof (induction h k txs rule: find_in_block.induct)
  case (2 h idx tx txs)
  then show ?case by (cases "stx_hash tx = h") (auto simp: nth_Cons' Suc_diff_le)
qed simp

lemma find_in_block_None: "find_in_block h k txs = None \<longleftrightarrow> (\<forall>tx\<in>set txs. stx_hash tx \<noteq> h)"
  by (induction h k txs rule: find_in_block.induct) auto

lemma find_in_index_Ok:
  "\<exists>r. find_in_index h (map Some bs) s = Ok r s \<and>
    (case r of None \<Rightarrow> \<forall>b\<in>set bs. \<forall>tx\<in>set (db_txs b). stx_hash tx \<noteq> h
     | Some (b, i) \<Rightarrow> b \<in> set bs \<and> i < length (db_txs b) \<and> stx_hash (db_txs b ! i) = h)"
proof (induction bs)
  case (Cons b bs)
  show ?case
  proof (cases "find_in_block h 0 (db_txs b)")
    case None
    then have "\<forall>tx\<in>set (db_txs b). stx_hash tx \<noteq> h" by (simp add: find_in_block_None)
    with None Cons show ?thesis by (auto simp: bind_def unwrap_def ret_def split: option.splits)
  next
    case (Some i)
    from find_in_block_Some [OF this] Some show ?thesis by (simp add: bind_def unwrap_def ret_def)
  qed
qed (simp add: ret_def)

text \<open>
  A request for a transaction by its hash is answered without a panic: with the transaction of that hash,
  or with nothing when neither the cache nor a block of the canonical chain has it; the cache stays correct.
\<close>

theorem tx_by_hash_correct:
  assumes "dc_indexed s = map Some bs" and "cache_ok s"
  shows "\<exists>r t. handle_get_tx_by_hash env h s = Ok r t \<and> cache_ok t \<and> dc_indexed t = dc_indexed s \<and> dc_chain t = dc_chain s \<and>
    (case r of Some reply \<Rightarrow> ts_hash reply = h
     | None \<Rightarrow> dc_tx_cache s h = None \<and> (\<forall>b\<in>set bs. \<forall>tx\<in>set (db_txs b). stx_hash tx \<noteq> h))"
proof (cases "dc_tx_cache s h")
  case (Some e)
  then show ?thesis using assms(2)
    by (cases e) (auto simp: handle_get_tx_by_hash_def get_cached_tx_def or_none_def bind_def gets_def ret_def cache_ok_def
        tx_response_of_def Let_def)
next
  case None
  obtain r where r: "find_in_index h (map Some (rev bs)) s = Ok r s"
    "case r of None \<Rightarrow> \<forall>b\<in>set bs. \<forall>tx\<in>set (db_txs b). stx_hash tx \<noteq> h
     | Some (b, i) \<Rightarrow> b \<in> set bs \<and> i < length (db_txs b) \<and> stx_hash (db_txs b ! i) = h"
    using find_in_index_Ok [of h "rev bs" s] unfolding set_rev by blast
  with None assms show ?thesis
    by (cases r) (auto simp: handle_get_tx_by_hash_def get_cached_tx_def or_none_def bind_def gets_def modify_def ret_def cache_ok_def
        tx_response_of_def Let_def rev_map)
qed

theorem tx_by_hash_correct_witness:
  "\<exists>reply t. handle_get_tx_by_hash one_byte_env 17 (sibling_state\<lparr>dc_indexed := map Some [sample_block]\<rparr>) = Ok (Some reply) t \<and>
     ts_hash reply = 17"
proof -
  let ?s = "sibling_state\<lparr>dc_indexed := map Some [sample_block]\<rparr>"
  have "dc_indexed ?s = map Some [sample_block]" "cache_ok ?s"
    by (simp_all add: sibling_state_def cache_ok_def)
  from tx_by_hash_correct [OF this, of one_byte_env 17] obtain r t where "handle_get_tx_by_hash one_byte_env 17 ?s = Ok r t"
    "case r of Some reply \<Rightarrow> ts_hash reply = 17 | None \<Rightarrow> \<forall>tx\<in>set (db_txs sample_block). stx_hash tx \<noteq> 17"
    by (auto split: option.splits)
  then show ?thesis by (cases r) (auto simp: demo_block_new_def)
qed

text \<open>A block of one transaction that uses a third of its gas.\<close>

definition frugal_run :: tx_runner where
  "frugal_run = (\<lambda>from to v gas price data st prev xenv. Some (st, TxSucceeded [] (gas - gas div 3) None))"

definition free_tx :: tx where
  "free_tx = \<lparr>stx_inner = DynamicFeeTx
     \<lparr>dt_chain_id = 1, dt_nonce = 0, dt_gas_tip_cap = 0, dt_gas_fee_cap = 0, dt_gas = 9, dt_to = None, dt_value = 0, dt_data = [],
      dt_access_list = [], dt_v = 0, dt_r = 0, dt_s = 0\<rparr>, stx_hash = 1, stx_from = 64\<rparr>"

lemma transfer_nothing: "\<exists>st. transfer_balance ws a b 0 s = (True, st)"
proof -
  have "unat x + unat (0 :: wei) < 2 ^ 256" for x :: wei using unsigned_less [of x] by simp
  then show ?thesis by (simp add: transfer_balance_def sub_balance_def add_balance_def wei_checked_sub_def wei_checked_add_def)
qed

theorem block_gas_accounting_witness:
  "\<exists>p. process_txs (\<lambda>_. 0) frugal_run (mem_rev_new (empty_state (\<lambda>_. 0))) (get_exec_env one_byte_env sibling_state sample_block)
      [free_tx, free_tx]
      \<lparr>pg_state = auto_new (empty_state (\<lambda>_. 0)), pg_gas_cumu = 0, pg_gas_used = [], pg_contract_addrs = []\<rparr> = Ok True p \<and>
    pg_gas_used p \<noteq> [] \<and> pg_gas_cumu p = sum_list (map snd (pg_gas_used p))"
proof -
  have view: "tv_gas (tx_view_of (stx_inner free_tx)) = 9" "tv_gas_price (tx_view_of (stx_inner free_tx)) = 0"
    by (simp_all add: free_tx_def dynamic_fee_view_def)
  have run: "\<exists>q. process_tx k frugal_run prev xenv free_tx p = Ok True q \<and> pg_gas_cumu q = pg_gas_cumu p + 3 \<and> pg_gas_used q \<noteq> []"
    if "pg_gas_cumu p \<le> 100" for k prev xenv p
    using transfer_nothing [of "mem_ws k" "stx_from free_tx" 0 "pg_state p"] that
    by (auto simp: process_tx_def Let_def view wei_checked_mul_def bind_def gets_def modify_def unwrap_def ret_def frugal_run_def
        u64_sub_def u64_add_def)
  let ?p = "\<lparr>pg_state = auto_new (empty_state (\<lambda>_. 0)), pg_gas_cumu = 0, pg_gas_used = [], pg_contract_addrs = []\<rparr>"
  let ?run = "process_txs (\<lambda>_. 0) frugal_run (mem_rev_new (empty_state (\<lambda>_. 0))) (get_exec_env one_byte_env sibling_state sample_block)"
  obtain q where "process_tx (\<lambda>_. 0) frugal_run (mem_rev_new (empty_state (\<lambda>_. 0))) (get_exec_env one_byte_env sibling_state sample_block) free_tx ?p = Ok True q"
    "pg_gas_cumu q = 3" using run [of ?p] by fastforce
  moreover obtain u where "process_tx (\<lambda>_. 0) frugal_run (mem_rev_new (empty_state (\<lambda>_. 0))) (get_exec_env one_byte_env sibling_state sample_block) free_tx q = Ok True u"
    "pg_gas_used u \<noteq> []" using run [of q] calculation(2) by fastforce
  ultimately have "?run [free_tx, free_tx] ?p = Ok True u" by (simp add: bind_def ret_def)
  with block_gas_accounting [OF this] \<open>pg_gas_used u \<noteq> []\<close> show ?thesis by blast
qed

end
