(* ===== verification/NodeExec.thy ===== *)
theory NodeExec
  imports ExecSupply DemoTxs
begin

text \<open>
  The demo node with the interpreter: the parameter \<open>run_tx\<close> of the block processing of \<open>src/examples/demo.rs\<close> is the
  interpreter of \<open>src/src/core/exec.rs\<close> on \<open>MemStateAuto\<close>, so that the guarantees of the interpreter hold for the
  transactions of a block.
\<close>

section \<open>The interpreter as the runner of the node\<close>

text \<open>
  \<open>run_single_tx\<close> on \<open>TxExecState::new\<close> without an access list: the state the transaction leaves behind the lock and its
  result, after at most \<open>fuel\<close> rounds; \<open>None\<close> is a panic of the executor, or more rounds.
\<close>

definition node_run :: "(bytes \<Rightarrow> hash) \<Rightarrow> (bytes \<Rightarrow> nat \<Rightarrow> bytes) \<Rightarrow> nat \<Rightarrow> tx_runner" where
  "node_run keccak rlp fuel from' to value gas gas_price data st prev_state xenv =
     (case tx_exec (mem_host keccak rlp) fuel from' to value gas gas_price data None st (Const prev_state) xenv of
        Some (Ok res c) \<Rightarrow> Some (cx_state c, res)
      | _ \<Rightarrow> None)"

lemma node_run_reaches:
  assumes "node_run keccak rlp fuel from' to value gas gas_price data st prev xenv = Some (st', res)"
  obtains al c t where "tx_begin (mem_host keccak rlp) from' to value gas data
      (tx_context (mem_host keccak rlp) from' gas gas_price al st (Const prev) xenv) = Ok () c"
    and "tx_reaches (mem_host keccak rlp) c t" and "cx_status t = Finished res" and "st' = cx_state t"
proof -
  from assms obtain t where "tx_exec (mem_host keccak rlp) fuel from' to value gas gas_price data None st (Const prev) xenv
      = Some (Ok res t)" and "st' = cx_state t"
    by (auto simp: node_run_def split: option.splits outcome.splits)
  with that show thesis by (auto elim: tx_exec_reaches)
qed

lemma node_run_supply:
  assumes "tip_undeleted st" and "node_run keccak rlp fuel from' to value gas gas_price data st prev xenv = Some (st', res)"
  shows "total_supply (rev_view keccak (convert_ref st')) \<le> total_supply (rev_view keccak (convert_ref st))"
  using assms(2)
proof (rule node_run_reaches)
  fix al c t
  assume "tx_begin (mem_host keccak rlp) from' to value gas data
      (tx_context (mem_host keccak rlp) from' gas gas_price al st (Const prev) xenv) = Ok () c"
    and "tx_reaches (mem_host keccak rlp) c t" and "st' = cx_state t"
  with mmoney.tx_supply(1) [OF assms(1)] show ?thesis by (simp add: mem_host_view mem_view)
qed

text \<open>
  A reverted transaction leaves the state with the nonce counted. A creation has counted it only if it was refused for the address,
  and then upon the shared revision its start has made of the state.
\<close>

definition counted :: "(bytes \<Rightarrow> hash) \<Rightarrow> addr \<Rightarrow> mem_auto \<Rightarrow> mem_auto" where
  "counted keccak a s = ws_set_nonce (mem_ws keccak) a (rev_get_nonce (convert_ref s) a + 1) s"

lemma node_run_reverted:
  assumes "node_run keccak rlp fuel from' to value gas gas_price data st prev xenv = Some (st', TxReverted d g e)"
  shows "rev_view keccak (convert_ref st') = rev_view keccak (convert_ref
    (if to \<noteq> None then counted keccak from' st else if e = ContractAddrCollision then counted keccak from' (Const (convert_ref st)) else st))"
  using assms
proof (rule node_run_reaches)
  let ?h = "mem_host keccak rlp" and ?s = "if to = None then st else counted keccak from' st"
  fix al c t
  assume begin': "tx_begin ?h from' to value gas data (tx_context ?h from' gas gas_price al st (Const prev) xenv) = Ok () c"
    and t: "tx_reaches ?h c t" "cx_status t = Finished (TxReverted d g e)" "st' = cx_state t"
  have snap: "ws_snapshot ?h (if to = None then st else ws_set_nonce ?h from' (ws_get_nonce ?h st from' + 1) st) =
      (Const (convert_ref ?s), Const (convert_ref ?s))"
    by (simp add: auto_snapshot_def to_shared_def counted_def)
  have "view ?h (ws_rollback ?h u s) = view ?h u" for u s by (simp add: auto_rollback_def)
  from reverted_state [OF snap refl this begin' t(1,2)] t(3) show ?thesis
    by (auto simp: mem_host_view mem_view counted_def)
qed

lemma counted_view:
  assumes "tip_undeleted s"
  shows "rev_view keccak (convert_ref (counted keccak a s)) =
    world_set_nonce a (rev_get_nonce (convert_ref s) a + 1) (rev_view keccak (convert_ref s))"
  using memst.set_nonce_law [OF assms, of keccak a] by (simp add: counted_def mem_view)

section \<open>Paying the fee\<close>

text \<open>A transfer on the abstract world; it may fail after the sender has paid, when the receiver would overflow.\<close>

definition world_transfer :: "addr \<Rightarrow> addr \<Rightarrow> wei \<Rightarrow> world \<Rightarrow> bool \<times> world" where
  "world_transfer src dst v w =
     (if w_balance w src < v then (False, w)
      else let u = world_set_balance src (w_balance w src - v) w in
           if unat (w_balance u dst) + unat v < 2 ^ 256
           then (True, world_set_balance dst (w_balance u dst + v) u) else (False, u))"

context world_state
begin

lemma transfer_refines:
  assumes "ok s" and "transfer_balance ws src dst v s = (r, t)"
  shows "ok t \<and> world_transfer src dst v (view ws s) = (r, view ws t)"
proof -
  obtain q u where u: "sub_balance ws src v s = (q, u)" by fastforce
  note sub = sub_balance_view [OF assms(1) u]
  show ?thesis
  proof (cases q)
    case False
    then show ?thesis using sub u assms by (simp add: transfer_balance_def world_transfer_def)
  next
    case True
    with u assms(2) have add: "add_balance ws dst v u = (r, t)" by (simp add: transfer_balance_def)
    have "ok u" "view ws u = world_set_balance src (ws_get_balance ws s src - v) (view ws s)" "v \<le> ws_get_balance ws s src"
      using sub True by simp_all
    with add_balance_view [OF _ add] show ?thesis
      by (cases r) (simp_all add: world_transfer_def Let_def flip: view_sel)
  qed
qed

end
lemma fee_view:
  assumes "tip_undeleted s" and "transfer_balance (mem_ws keccak) src dst v s = (r, t)"
  shows "tip_undeleted t" and "world_transfer src dst v (rev_view keccak (convert_ref s)) = (r, rev_view keccak (convert_ref t))"
  using memst.transfer_refines [OF assms] by (simp_all add: mem_view)

lemma fee_supply:
  assumes "tip_undeleted s" and "transfer_balance (mem_ws keccak) src dst v s = (r, t)"
  shows "total_supply (rev_view keccak (convert_ref t)) \<le> total_supply (rev_view keccak (convert_ref s))"
proof -
  have "transfer_balance (mem_host keccak no_rlp) src dst v s = (r, t)"
    using assms(2) by (auto simp: transfer_balance_def sub_balance_def add_balance_def split: option.splits)
  with mmoney.transfer_supply [OF assms(1), of keccak no_rlp src dst v] show ?thesis
    by (simp add: mem_host_view mem_view)
qed

section \<open>A transaction of a block\<close>

text \<open>The loop body: no fee, no funds for the fee, or a run with its result.\<close>

lemma process_tx_cases:
  assumes "process_tx keccak run_tx prev xenv tx p = Ok go q"
  obtains "\<not> go" "q = p"
  | paid st where "go" "wei_checked_mul (tv_gas_price (tx_view_of (stx_inner tx))) (word_of_nat (tx_gas_limit tx)) = Some paid"
      "transfer_balance (mem_ws keccak) (stx_from tx) 0 paid (pg_state p) = (False, st)" "q = p\<lparr>pg_state := st\<rparr>"
  | paid st st' res where "go" "wei_checked_mul (tv_gas_price (tx_view_of (stx_inner tx))) (word_of_nat (tx_gas_limit tx)) = Some paid"
      "transfer_balance (mem_ws keccak) (stx_from tx) 0 paid (pg_state p) = (True, st)"
      "run_tx (stx_from tx) (tv_to (tx_view_of (stx_inner tx))) (tv_value (tx_view_of (stx_inner tx))) (tx_gas_limit tx)
         (tv_gas_price (tx_view_of (stx_inner tx))) (tv_data (tx_view_of (stx_inner tx))) st prev xenv = Some (st', res)"
      "pg_state q = st'" "pg_gas_used q = pg_gas_used p \<longleftrightarrow> (\<exists>d g e. res = TxReverted d g e)"
proof (cases "wei_checked_mul (tv_gas_price (tx_view_of (stx_inner tx))) (word_of_nat (tx_gas_limit tx))")
  case None
  with assms that(1) show thesis by (simp add: process_tx_def Let_def tx_gas_limit_def ret_def)
next
  case paid: (Some paid)
  obtain r st where tr: "transfer_balance (mem_ws keccak) (stx_from tx) 0 paid (pg_state p) = (r, st)" by fastforce
  note body = assms [unfolded process_tx_def Let_def paid [unfolded tx_gas_limit_def] option.case bind_def gets_def modify_def tr,
      simplified]
  show thesis
  proof (cases r)
    case False
    with body that(2) paid tr show thesis by (simp add: ret_def)
  next
    case True
    with body obtain st' res where run: "run_tx (stx_from tx) (tv_to (tx_view_of (stx_inner tx))) (tv_value (tx_view_of (stx_inner tx)))
        (tx_gas_limit tx) (tv_gas_price (tx_view_of (stx_inner tx))) (tv_data (tx_view_of (stx_inner tx))) st prev xenv = Some (st', res)"
      by (auto simp: unwrap_def panic_def tx_gas_limit_def split: option.splits)
    have "go \<and> pg_state q = st' \<and> (pg_gas_used q = pg_gas_used p \<longleftrightarrow> (\<exists>d g e. res = TxReverted d g e))"
      using body True run
      by (cases res) (auto simp: unwrap_def ret_def panic_def u64_sub_def u64_add_def tx_gas_limit_def split: if_splits)
    moreover have "transfer_balance (mem_ws keccak) (stx_from tx) 0 paid (pg_state p) = (True, st)" using tr True by simp
    ultimately show thesis using that(3) [OF _ paid _ run] by blast
  qed
qed

text \<open>
  C9. A transaction of a block, run by the interpreter on the in-memory state. First its sender pays the price of its gas limit to
  address 0. If that fails, nothing else happens: what it has moved is nothing, or, when the balance of address 0 would overflow, the
  fee. If the fee is paid and the transaction is reverted, a call leaves the paid state with the nonce of the sender incremented; a
  creation leaves the paid state, or that with the nonce incremented (its address was taken). Both hold for every state of the block,
  also after deletions. When no deletion is pending at the tip of the state, this is so on the visible world too, and the sum of all
  balances does not grow, whether the transaction is reverted or not.
\<close>

theorem block_tx_effect:
  assumes "process_tx keccak (node_run keccak rlp fuel) prev xenv tx p = Ok True q"
  shows "let world = (\<lambda>s. rev_view keccak (convert_ref s)); t = tx_view_of (stx_inner tx); from' = stx_from tx in
    \<exists>paid done st. wei_checked_mul (tv_gas_price t) (word_of_nat (tv_gas t)) = Some paid \<and>
      transfer_balance (mem_ws keccak) from' 0 paid (pg_state p) = (done, st) \<and>
      (\<not> done \<longrightarrow> q = p\<lparr>pg_state := st\<rparr>) \<and>
      (done \<and> pg_gas_used q = pg_gas_used p \<longrightarrow>
        (if tv_to t \<noteq> None then world (pg_state q) = world (counted keccak from' st)
         else world (pg_state q) \<in> {world st, world (counted keccak from' (Const (convert_ref st)))})) \<and>
      (tip_undeleted (pg_state p) \<longrightarrow>
        total_supply (world (pg_state q)) \<le> total_supply (world (pg_state p)) \<and>
        (pg_gas_used q = pg_gas_used p \<longrightarrow>
          (case world_transfer from' 0 paid (world (pg_state p)) of
             (True, w) \<Rightarrow> world (pg_state q) = world_set_nonce from' (w_nonce w from' + 1) w \<or> tv_to t = None \<and> world (pg_state q) = w
           | (False, w) \<Rightarrow> world (pg_state q) = w)))"
  using assms
proof (cases rule: process_tx_cases)
  case (2 paid st)
  have "tip_undeleted (pg_state p) \<Longrightarrow> total_supply (rev_view keccak (convert_ref st)) \<le> total_supply (rev_view keccak (convert_ref (pg_state p)))
      \<and> world_transfer (stx_from tx) 0 paid (rev_view keccak (convert_ref (pg_state p))) = (False, rev_view keccak (convert_ref st))"
    using fee_view(2) [OF _ 2(3)] fee_supply [OF _ 2(3)] by blast
  with 2 show ?thesis unfolding Let_def by (intro exI [of _ paid] exI [of _ False] exI [of _ st]) (simp add: tx_gas_limit_def)
next
  case (3 paid st st' res)
  let ?t = "tx_view_of (stx_inner tx)" and ?world = "\<lambda>s. rev_view keccak (convert_ref s)" and ?from = "stx_from tx"
  have rev: "if tv_to ?t \<noteq> None then ?world st' = ?world (counted keccak ?from st)
      else ?world st' \<in> {?world st, ?world (counted keccak ?from (Const (convert_ref st)))}" if "res = TxReverted d g e" for d g e
    using node_run_reverted [OF 3(4) [unfolded that]] by auto
  have abs: "total_supply (?world st') \<le> total_supply (?world (pg_state p)) \<and> world_transfer ?from 0 paid (?world (pg_state p)) = (True, ?world st)
      \<and> ?world (counted keccak ?from st) = world_set_nonce ?from (w_nonce (?world st) ?from + 1) (?world st)
      \<and> ?world (counted keccak ?from (Const (convert_ref st))) = world_set_nonce ?from (w_nonce (?world st) ?from + 1) (?world st)"
    if "tip_undeleted (pg_state p)"
  proof -
    note fee = fee_view [OF that 3(3)]
    have "tip_undeleted (Const (convert_ref st))" using fee(1) by (simp add: tip_undeleted_def)
    from counted_view [OF this, of keccak ?from] counted_view [OF fee(1), of keccak ?from] fee(2)
      order_trans [OF node_run_supply [OF fee(1) 3(4)] fee_supply [OF that 3(3)]]
    show ?thesis by (simp add: rev_view_def)
  qed
  show ?thesis unfolding Let_def
    by (intro exI [of _ paid] exI [of _ True] exI [of _ st]) (use 3 rev abs in \<open>auto simp: tx_gas_limit_def\<close>)
qed simp

text \<open>A transaction that sends more than its sender has: it is reverted before its first instruction.\<close>

definition overdrawn_tx :: tx where
  "overdrawn_tx = \<lparr>stx_inner = DynamicFeeTx
     \<lparr>dt_chain_id = 1, dt_nonce = 0, dt_gas_tip_cap = 0, dt_gas_fee_cap = 0, dt_gas = 30000, dt_to = Some 2, dt_value = 1, dt_data = [],
      dt_access_list = [], dt_v = 0, dt_r = 0, dt_s = 0\<rparr>, stx_hash = 1, stx_from = 64\<rparr>"

definition fresh_progress :: tx_progress where
  "fresh_progress = \<lparr>pg_state = auto_new (empty_state no_hash), pg_gas_cumu = 0, pg_gas_used = [], pg_contract_addrs = []\<rparr>"

lemma overdrawn_runs:
  "\<exists>st' d g e. node_run no_hash no_rlp 0 64 (Some 2) 1 30000 0 [] st prev (sample_env London) = Some (st', TxReverted d g e)"
  if "tip_undeleted st" "rev_get_balance (convert_ref st) 64 = 0" "rev_get_nonce (convert_ref st) 64 = 0"
proof -
  have "rev_get_balance (rev_set_nonce 64 1 (convert_mut st)) 64 = 0"
    using memst.set_nonce_law [OF that(1), of no_hash 64 1] that(2)
    by (simp add: mem_view rev_view_def world_set_nonce_def)
  with that(3) show ?thesis
    by (simp add: node_run_def tx_exec_def sample_env_def al_init_def al_add_addr_def al_empty_def exec_defs tx_begin_def
        tx_start_def tx_context_def take_snapshot_def upd_state_def auto_snapshot_def to_shared_def call_do_def call_depth_def
        frame_new_def exec_loop_Finished)
qed

lemma transfer_of_nothing: "world_transfer a b 0 w = (r, u) \<Longrightarrow> w_balance u c = w_balance w c \<and> w_nonce u c = w_nonce w c"
  by (auto simp: world_transfer_def Let_def world_set_balance_def split: if_splits)

theorem block_tx_effect_witness:
  "\<exists>q. process_tx no_hash (node_run no_hash no_rlp 0) (mem_rev_new (empty_state no_hash)) (sample_env London) overdrawn_tx
      fresh_progress = Ok True q \<and> pg_gas_used q = []
    \<and> rev_get_nonce (convert_ref (pg_state q)) 64 = 1"
proof -
  let ?s = "pg_state fresh_progress"
  have s: "tip_undeleted ?s" "rev_get_balance (convert_ref ?s) 64 = 0" "rev_get_nonce (convert_ref ?s) 64 = 0"
    by (simp_all add: fresh_progress_def tip_undeleted_def auto_new_def mem_rev_new_def empty_delta_def rev_reads empty_state_def)
  obtain st where st: "transfer_balance (mem_ws no_hash) 64 0 0 ?s = (True, st)"
    using transfer_nothing [of "mem_ws no_hash" 64 0 ?s] by blast
  note fee = fee_view [OF s(1) st]
  have "rev_get_balance (convert_ref st) 64 = 0" "rev_get_nonce (convert_ref st) 64 = 0"
    using transfer_of_nothing [OF fee(2), of 64] s(2,3) by (simp_all add: rev_view_def)
  then obtain st' d g e where run: "node_run no_hash no_rlp 0 64 (Some 2) 1 30000 0 [] st (mem_rev_new (empty_state no_hash))
      (sample_env London) = Some (st', TxReverted d g e)"
    using overdrawn_runs [OF fee(1)] by blast
  have tx: "stx_from overdrawn_tx = 64"
    "tv_to (tx_view_of (stx_inner overdrawn_tx)) = Some 2" "tv_value (tx_view_of (stx_inner overdrawn_tx)) = 1"
    "tv_gas (tx_view_of (stx_inner overdrawn_tx)) = 30000" "tv_gas_price (tx_view_of (stx_inner overdrawn_tx)) = 0"
    "tv_data (tx_view_of (stx_inner overdrawn_tx)) = []"
    by (simp_all add: overdrawn_tx_def dynamic_fee_view_def)
  let ?q = "fresh_progress\<lparr>pg_state := st'\<rparr>"
  have q: "process_tx no_hash (node_run no_hash no_rlp 0) (mem_rev_new (empty_state no_hash)) (sample_env London) overdrawn_tx
      fresh_progress = Ok True ?q"
    by (simp add: process_tx_def Let_def tx wei_checked_mul_def bind_def gets_def modify_def st run unwrap_def ret_def)
  have "rev_view no_hash (convert_ref st') = world_set_nonce 64 1 (rev_view no_hash (convert_ref st))"
    using block_tx_effect [OF q] s(1) fee(2) \<open>rev_get_nonce (convert_ref st) 64 = 0\<close>
    by (auto simp: Let_def tx wei_checked_mul_def rev_view_def)
  with q show ?thesis by (auto simp: fresh_progress_def world_set_nonce_def rev_view_def)
qed

end
