(* ===== verification/Disasm.thy ===== *)
theory Disasm
  imports PlainCode
begin

text \<open>
  The disassembler of \<open>src/tools/src/lib.rs\<close>. \<open>enc\<close> is \<open>hex::encode\<close>. The reference cuts the code into instructions, each an
  opcode and the data of a push.
\<close>

primrec arith_str :: "arith_op \<Rightarrow> string" where
  "arith_str OpAdd = ''Add''"
| "arith_str OpMul = ''Mul''"
| "arith_str OpSub = ''Sub''"
| "arith_str OpDiv = ''Div''"
| "arith_str OpSDiv = ''SDiv''"
| "arith_str OpMod = ''Mod''"
| "arith_str OpSMod = ''SMod''"
| "arith_str OpAddMod = ''AddMod''"
| "arith_str OpMulMod = ''MulMod''"
| "arith_str OpExp = ''Exp''"
| "arith_str OpSignExtend = ''SignExtend''"

primrec logic_str :: "logic_op \<Rightarrow> string" where
  "logic_str OpLt = ''Lt''"
| "logic_str OpGt = ''Gt''"
| "logic_str OpSlt = ''Slt''"
| "logic_str OpSgt = ''Sgt''"
| "logic_str OpEql = ''Eql''"
| "logic_str OpIsZero = ''IsZero''"
| "logic_str OpAnd = ''And''"
| "logic_str OpOr = ''Or''"
| "logic_str OpXor = ''Xor''"
| "logic_str OpNot = ''Not''"
| "logic_str OpByte = ''Byte''"
| "logic_str OpShl = ''Shl''"
| "logic_str OpShr = ''Shr''"
| "logic_str OpSar = ''Sar''"

primrec env_str :: "env_op \<Rightarrow> string" where
  "env_str OpAddr = ''Addr''"
| "env_str OpBalance = ''Balance''"
| "env_str OpOrigin = ''Origin''"
| "env_str OpCaller = ''Caller''"
| "env_str OpCallValue = ''CallValue''"
| "env_str OpCallDataLoad = ''CallDataLoad''"
| "env_str OpCallDataSize = ''CallDataSize''"
| "env_str OpCallDataCopy = ''CallDataCopy''"
| "env_str OpCodeSize = ''CodeSize''"
| "env_str OpCodeCopy = ''CodeCopy''"
| "env_str OpGasPrice = ''GasPrice''"
| "env_str OpExtCodeSize = ''ExtCodeSize''"
| "env_str OpExtCodeCopy = ''ExtCodeCopy''"
| "env_str OpReturnDataSize = ''ReturnDataSize''"
| "env_str OpReturnDataCopy = ''ReturnDataCopy''"
| "env_str OpExtCodeHash = ''ExtCodeHash''"

primrec block_str :: "block_op \<Rightarrow> string" where
  "block_str OpBlockHash = ''BlockHash''"
| "block_str OpCoinbase = ''Coinbase''"
| "block_str OpTimestamp = ''Timestamp''"
| "block_str OpNumber = ''Number''"
| "block_str OpDifficulty = ''Difficulty''"
| "block_str OpGasLimit = ''GasLimit''"
| "block_str OpChainId = ''ChainId''"
| "block_str OpSelfBalance = ''SelfBalance''"
| "block_str OpBaseFee = ''BaseFee''"

primrec flow_str :: "flow_op \<Rightarrow> string" where
  "flow_str OpPop = ''Pop''"
| "flow_str OpMLoad = ''MLoad''"
| "flow_str OpMStore = ''MStore''"
| "flow_str OpMStore8 = ''MStore8''"
| "flow_str OpSLoad = ''SLoad''"
| "flow_str OpSStore = ''SStore''"
| "flow_str OpJump = ''Jump''"
| "flow_str OpJumpI = ''JumpI''"
| "flow_str OpPC = ''PC''"
| "flow_str OpMSize = ''MSize''"
| "flow_str OpGas = ''Gas''"
| "flow_str OpJumpDest = ''[JumpDest]''"

primrec family_str :: "family_op \<Rightarrow> string" where
  "family_str OpPush = ''Push''"
| "family_str OpDup = ''Dup''"
| "family_str OpSwap = ''Swap''"

primrec system_str :: "system_op \<Rightarrow> string" where
  "system_str OpCreate = ''Create''"
| "system_str OpCall = ''Call''"
| "system_str OpCallCode = ''CallCode''"
| "system_str OpReturn = ''Return''"
| "system_str OpDelegateCall = ''DelegateCall''"
| "system_str OpCreate2 = ''Create2''"
| "system_str OpStaticCall = ''StaticCall''"
| "system_str OpRevert = ''Revert''"
| "system_str OpInvalid = ''Invalid''"
| "system_str OpSelfDestruct = ''SelfDestruct''"

text \<open>Numbers in base 10 and 16, \<open>{}\<close> and \<open>{:x}\<close>, with the least number of digits for \<open>{:04x}\<close> and \<open>{:02x}\<close>.\<close>

definition digit_char :: "nat \<Rightarrow> char" where
  "digit_char d = ''0123456789abcdef'' ! d"

fun base_digits :: "nat \<Rightarrow> nat \<Rightarrow> string" where
  "base_digits b n = (if b < 2 \<or> n < b then [digit_char n] else base_digits b (n div b) @ [digit_char (n mod b)])"

declare base_digits.simps [simp del]

definition hex_padded :: "nat \<Rightarrow> nat \<Rightarrow> string" where
  "hex_padded w n = (let s = base_digits 16 n in replicate (w - length s) (CHR ''0'') @ s)"

definition opcode_to_str :: "u8 \<Rightarrow> string option" where
  "opcode_to_str opcode = map_option (\<lambda>opcode. case opcode of
      OpStop \<Rightarrow> ''Stop'' | OpSha3 \<Rightarrow> ''Sha3''
    | OpArith a \<Rightarrow> arith_str a | OpLogic l \<Rightarrow> logic_str l | OpEnv e \<Rightarrow> env_str e | OpBlock b \<Rightarrow> block_str b
    | OpFlow f \<Rightarrow> flow_str f | OpFamily f \<Rightarrow> family_str f | OpSystem s \<Rightarrow> system_str s
    | OpPushN n \<Rightarrow> ''Push'' @ base_digits 10 n | OpDupN n \<Rightarrow> ''Dup'' @ base_digits 10 n
    | OpSwapN n \<Rightarrow> ''Swap'' @ base_digits 10 n | OpLogN n \<Rightarrow> ''Log'' @ base_digits 10 n) (opcode_from_u8 opcode)"

section \<open>The disassembler\<close>

definition op_text :: "u8 \<Rightarrow> string" where
  "op_text c = (case opcode_to_str c of Some s \<Rightarrow> s | None \<Rightarrow> ''0x'' @ hex_padded 2 (unat c) @ ''?'')"

text \<open>The loop over the bytes with their bits; the texts and the data bytes that are not written yet are its accumulators.\<close>

fun disasm_loop :: "(bytes \<Rightarrow> string) \<Rightarrow> bool \<Rightarrow> nat \<Rightarrow> (u8 \<times> bool) list \<Rightarrow> string list \<Rightarrow> bytes \<Rightarrow> string list \<times> bytes" where
  "disasm_loop enc line_breaks i [] asm bytes = (asm, bytes)"
| "disasm_loop enc line_breaks i ((c, b) # rest) asm bytes =
     (if b then
        let asm = (if length bytes > 0 then asm @ [(if line_breaks then '' '' else '''') @ ''0x'' @ enc bytes] else asm);
            asm = (if length asm > 0 \<and> line_breaks then asm @ [[CHR 0x0A]] else asm);
            prefix = (if line_breaks then hex_padded 4 i @ '' '' else '''')
        in disasm_loop enc line_breaks (i + 1) rest (asm @ [prefix @ op_text c]) []
      else disasm_loop enc line_breaks (i + 1) rest asm (bytes @ [c]))"

primrec join_str :: "string \<Rightarrow> string list \<Rightarrow> string" where
  "join_str sep [] = ''''"
| "join_str sep (s # ss) = (if ss = [] then s else s @ sep @ join_str sep ss)"

definition disasm :: "(bytes \<Rightarrow> string) \<Rightarrow> bytes \<Rightarrow> bool \<Rightarrow> string" where
  "disasm enc code line_breaks =
     (case disasm_loop enc line_breaks 0 (zip code (gen_code_bitmap code)) [] [] of
        (asm, bytes) \<Rightarrow>
          let asm = (if length bytes > 0 then asm @ [''0x'' @ enc bytes] else asm)
          in join_str (if line_breaks then '''' else '' '') asm)"

section \<open>The reference\<close>

text \<open>
  The instructions of a code, and their texts: in one line, and one per line, where the data of the last one has
  no space before it.
\<close>

function insts :: "bytes \<Rightarrow> (u8 \<times> bytes) list" where
  "insts [] = []"
| "insts (b # bs) = (b, take (push_len b) bs) # insts (drop (push_len b) bs)"
  by pat_completeness auto

termination
  by (relation "measure length") auto

definition data_text :: "(bytes \<Rightarrow> string) \<Rightarrow> string \<Rightarrow> bytes \<Rightarrow> string list" where
  "data_text enc space d = (if d = [] then [] else [space @ ''0x'' @ enc d])"

fun asm_lines :: "(bytes \<Rightarrow> string) \<Rightarrow> nat \<Rightarrow> (u8 \<times> bytes) list \<Rightarrow> string list" where
  "asm_lines enc i [] = []"
| "asm_lines enc i ((b, d) # is) =
     (hex_padded 4 i @ '' '' @ op_text b @ concat (data_text enc (if is = [] then '''' else '' '') d)) #
     asm_lines enc (i + 1 + length d) is"

section \<open>The loop, instruction by instruction\<close>

lemma bitmap_skip:
  "code_bitmap_loop n bs = replicate (length (take n bs)) False @ code_bitmap_loop 0 (drop n bs)"
proof (induction n arbitrary: bs)
  case (Suc n)
  then show ?case by (cases bs) simp_all
qed simp

lemma bitmap_Cons: "code_bitmap_loop 0 (b # bs) = True # code_bitmap_loop (push_len b) bs"
  using code_bitmap_loop.simps(2) [of 0 b bs] unfolding push_skip_eq by simp

lemma loop_data:
  "disasm_loop enc lb i (zip (d @ rest) (replicate (length d) False @ bm)) asm bytes =
     disasm_loop enc lb (i + length d) (zip rest bm) asm (bytes @ d)"
  by (induction d arbitrary: i bytes) simp_all

lemma loop_inst:
  "disasm_loop enc lb i (zip (b # bs) (code_bitmap_loop 0 (b # bs))) asm bytes =
     (let asm = asm @ data_text enc (if lb then '' '' else '''') bytes;
          asm = (if asm \<noteq> [] \<and> lb then asm @ [[CHR 0x0A]] else asm);
          d = take (push_len b) bs
      in disasm_loop enc lb (i + 1 + length d) (zip (drop (push_len b) bs) (code_bitmap_loop 0 (drop (push_len b) bs)))
           (asm @ [(if lb then hex_padded 4 i @ '' '' else '''') @ op_text b]) d)"
proof -
  let ?n = "push_len b"
  have skip: "disasm_loop enc lb j (zip bs (code_bitmap_loop ?n bs)) a p =
      disasm_loop enc lb (j + length (take ?n bs)) (zip (drop ?n bs) (code_bitmap_loop 0 (drop ?n bs))) a (p @ take ?n bs)" for j a p
    using loop_data [of enc lb j "take ?n bs" "drop ?n bs"] by (subst bitmap_skip) (simp only: append_take_drop_id)
  show ?thesis unfolding bitmap_Cons zip_Cons_Cons disasm_loop.simps skip
    by (cases "bytes = []") (simp_all add: data_text_def Let_def)
qed

lemma data_text_empty [simp]: "data_text enc space d = [] \<longleftrightarrow> d = []"
  by (simp add: data_text_def)

lemma insts_empty: "insts code = [] \<longleftrightarrow> code = []"
  by (cases code) simp_all

text \<open>The texts of the loop with what is still to be written.\<close>

definition with_rest :: "(bytes \<Rightarrow> string) \<Rightarrow> string list \<times> bytes \<Rightarrow> string list" where
  "with_rest enc r = fst r @ data_text enc '''' (snd r)"

lemma loop_one_line:
  "with_rest enc (disasm_loop enc False i (zip code (code_bitmap_loop 0 code)) asm bytes) =
     asm @ data_text enc '''' bytes @ concat (map (\<lambda>(b, d). op_text b # data_text enc '''' d) (insts code))"
proof (induction code arbitrary: i asm bytes rule: insts.induct)
  case 1
  then show ?case by (simp add: with_rest_def)
next
  case (2 b bs)
  show ?case unfolding loop_inst using 2 by (simp add: Let_def)
qed

lemma loop_lines:
  "code \<noteq> [] \<Longrightarrow>
    concat (with_rest enc (disasm_loop enc True i (zip code (code_bitmap_loop 0 code)) asm bytes)) =
     concat (asm @ data_text enc '' '' bytes) @ (if asm = [] \<and> bytes = [] then '''' else [CHR 0x0A]) @
     join_str [CHR 0x0A] (asm_lines enc i (insts code))"
proof (induction code arbitrary: i asm bytes rule: insts.induct)
  case (2 b bs)
  let ?rest = "drop (push_len b) bs" and ?d = "take (push_len b) bs"
  show ?case
  proof (cases "?rest = []")
    case True
    then show ?thesis unfolding loop_inst by (simp add: Let_def with_rest_def)
  next
    case False
    then have lines: "asm_lines enc j (insts ?rest) \<noteq> []" "insts ?rest \<noteq> []" for j
      by (cases "insts ?rest"; auto simp: insts_empty)+
    show ?thesis unfolding loop_inst using 2(1) [OF False] lines by (simp add: Let_def)
  qed
qed simp

lemma one_line_data: "data_text enc '''' d = (if d = [] then [] else [''0x'' @ enc d])"
  by (simp add: data_text_def)

lemma join_empty: "join_str '''' ss = concat ss"
  by (induction ss) auto

text \<open>
  C34. The disassembler writes the instructions of the code: without line breaks the name of each, followed by the
  data of a push, separated by spaces; with line breaks a line for each, with its position. A push that the end of
  the code cuts off has the bytes there are; in the last line no space separates name and data.
\<close>

theorem disasm_correct:
  "disasm enc code False =
     join_str '' '' (concat (map (\<lambda>(b, d). op_text b # (if d = [] then [] else [''0x'' @ enc d])) (insts code))) \<and>
   disasm enc code True = join_str [CHR 0x0A] (asm_lines enc 0 (insts code))"
proof
  have "disasm enc code lb =
      join_str (if lb then '''' else '' '') (with_rest enc (disasm_loop enc lb 0 (zip code (code_bitmap_loop 0 code)) [] []))" for lb
    by (simp add: disasm_def gen_code_bitmap_def with_rest_def data_text_def split: prod.split)
  note eq = this [of False] this [of True]
  show "disasm enc code False =
     join_str '' '' (concat (map (\<lambda>(b, d). op_text b # (if d = [] then [] else [''0x'' @ enc d])) (insts code)))"
    unfolding eq loop_one_line by (simp add: one_line_data)
  show "disasm enc code True = join_str [CHR 0x0A] (asm_lines enc 0 (insts code))"
  proof (cases "code = []")
    case True
    then show ?thesis unfolding eq by (simp add: with_rest_def data_text_def)
  next
    case False
    from loop_lines [OF this, of enc 0 "[]" "[]"] show ?thesis unfolding eq by (simp add: join_empty data_text_def)
  qed
qed

text \<open>The instructions are the code, cut at the positions the interpreter decodes from.\<close>

lemma insts_code: "concat (map (\<lambda>(b, d). b # d) (insts code)) = code"
  by (induction code rule: insts.induct) simp_all

lemma insts_data: "(b, d) \<in> set (butlast (insts code)) \<Longrightarrow> length d = push_len b"
proof (induction code rule: insts.induct)
  case (2 c bs)
  show ?case
  proof (cases "drop (push_len c) bs = []")
    case False
    with 2 show ?thesis by (auto simp: insts_empty split: if_splits)
  qed (use 2 in simp)
qed simp

end
