(* ===== verification/DemoGenesis.thy ===== *)
theory DemoGenesis
  imports DemoIndex
begin

text \<open>
  \<open>DemoChainStateMutable::new\<close> of \<open>src/examples/demo.rs\<close>: the genesis block is read from the database or made and stored,
  and the index of the canonical chain is loaded. \<open>hasher\<close> is the hash function of the trie library, \<open>now\<close> the system time.
\<close>

definition genesis_world :: "(bytes \<Rightarrow> hash) \<Rightarrow> addr \<Rightarrow> wei \<Rightarrow> mem_auto" where
  "genesis_world keccak genesis_addr genesis_balance =
     (let ws = mem_ws keccak
      in ws_set_balance ws genesis_addr genesis_balance (ws_create_account ws genesis_addr (auto_new (empty_state keccak))))"

definition genesis_block :: "'d demo_env \<Rightarrow> nat \<Rightarrow> mem_auto \<Rightarrow> ('d demo_state, demo_block) exec" where
  "genesis_block env now gstate =
     bind (gets (\<lambda>s. rk_get (de_rocks env) (rw_db (dc_mdb s)) (gen_block_key 0))) (\<lambda>g_ret.
     bind (unwrap g_ret) (\<lambda>g_ret.
     case g_ret of
       Some g_raw \<Rightarrow>
         bind (gets dc_chain_id) (\<lambda>chain_id.
         bind (demo_decode (de_libs env) g_raw chain_id) unwrap)
     | None \<Rightarrow>
         let world_state = shared_consolidate None (snd (to_shared gstate)) in
         bind (unwrap (consolidated_delta world_state)) (\<lambda>delta.
         let outcome = \<lparr>bo_world_state = world_state, bo_gas_used = [], bo_contract_addrs = []\<rparr>;
             g = demo_block_new now 0 0 0 (Some 1655254842) []
         in bind (on_mdb (merkle_commit (de_trie env) (de_iter env) None delta
                (merkle_reader (de_keccak env) (de_trie env) (get_reader None)))) (\<lambda>root.
            let g = g\<lparr>db_root_hash := root\<rparr> in
            bind (on_mdb (wb_put (gen_block_key 0) (demo_encode (de_libs env) g))) (\<lambda>_.
            bind (on_mdb (wb_put (gen_outcome_key (demo_block_hash (de_keccak env) g)) (outcome_encode outcome))) (\<lambda>_.
            bind (on_mdb (wb_put (gen_index_key 0) (le_bytes 8 1))) (\<lambda>_.
            bind (on_mdb (wb_put (gen_index_key 1) (hash_as_bytes (demo_block_hash (de_keccak env) g)))) (\<lambda>_.
            bind (on_mdb (rw_commit (de_rocks env))) (\<lambda>_.
            ret g)))))))))"

fun load_index :: "'d demo_env \<Rightarrow> nat list \<Rightarrow> ('d demo_state, demo_block option list) exec" where
  "load_index env [] = ret []"
| "load_index env (i # is) =
     bind (gets (\<lambda>s. rk_get (de_rocks env) (rw_db (dc_mdb s)) (gen_index_key (i + 1)))) (\<lambda>val.
     bind (unwrap val) (\<lambda>val.
     bind (case val of
             None \<Rightarrow> ret None
           | Some r \<Rightarrow>
               bind (unwrap (hash_from_slice r)) (\<lambda>hash.
               bind (get_block_by_hash env hash) (\<lambda>found.
               bind (unwrap found) (\<lambda>b. ret (Some b))))) (\<lambda>block.
     bind (load_index env is) (\<lambda>blocks.
     ret (block # blocks)))))"

definition load_chain :: "'d demo_env \<Rightarrow> ('d demo_state, unit) exec" where
  "load_chain env =
     bind (gets (\<lambda>s. rk_get (de_rocks env) (rw_db (dc_mdb s)) (gen_index_key 0))) (\<lambda>val.
     bind (unwrap val) (\<lambda>val.
     case val of
       None \<Rightarrow> ret ()
     | Some raw_len \<Rightarrow>
         if length raw_len \<noteq> 8 then panic
         else
           bind (load_index env [1..<le_val raw_len]) (\<lambda>indexed.
           modify (\<lambda>s. s\<lparr>dc_indexed := Some (get_base (dc_chain s)) # indexed\<rparr>))))"

definition demo_new ::
  "'d demo_env \<Rightarrow> (bytes \<Rightarrow> bytes) \<Rightarrow> nat \<Rightarrow> addr \<Rightarrow> wei \<Rightarrow> 'd \<Rightarrow> u256 \<Rightarrow> ('d demo_state, unit) outcome" where
  "demo_new env hasher now genesis_addr genesis_balance db chain_id =
     bind (genesis_block env now (genesis_world (de_keccak env) genesis_addr genesis_balance)) (\<lambda>g.
     bind (modify (\<lambda>s. s\<lparr>dc_chain := chain_new (demo_bk env) g\<rparr>)) (\<lambda>_.
     load_chain env))
       \<lparr>dc_chain = chain_new (demo_bk env) (demo_block_new now 0 0 0 None []), dc_tx_cache = Map.empty, dc_indexed = [],
        dc_mdb = rw_new hasher DB_PREFIX_MERKLE db, dc_chain_id = chain_id\<rparr>"

section \<open>Loading the index\<close>

text \<open>Blocks the database can give back.\<close>

definition block_fits :: "'d demo_env \<Rightarrow> u256 \<Rightarrow> demo_block \<Rightarrow> bool" where
  "block_fits env chain_id b \<longleftrightarrow>
     (\<forall>tx\<in>set (db_txs b). tx_genuine (de_libs env) chain_id tx) \<and> length (db_txs b) < 2 ^ 64 \<and>
     db_number b < 2 ^ 64 \<and> db_timestamp b < 2 ^ 64 \<and> db_gas_limit b < 2 ^ 64"

text \<open>The database of a chain with the path \<open>bs\<close>; the genesis block is under the key of the hash 0.\<close>

definition chain_stored :: "'d demo_env \<Rightarrow> 'd \<Rightarrow> demo_block list \<Rightarrow> bool" where
  "chain_stored env d bs \<longleftrightarrow>
     index_stored env d bs \<and>
     rk_get (de_rocks env) d (gen_block_key 0) = Some (Some (demo_encode (de_libs env) (bs ! 0))) \<and>
     (\<forall>i<length bs. 0 < i \<longrightarrow> rk_get (de_rocks env) d (gen_block_key (demo_block_hash (de_keccak env) (bs ! i))) =
        Some (Some (demo_encode (de_libs env) (bs ! i))))"

text \<open>A block tree in which no hash of a block of \<open>bs\<close> belongs to another block.\<close>

definition tree_of :: "'d demo_env \<Rightarrow> demo_block list \<Rightarrow> demo_block chain \<Rightarrow> bool" where
  "tree_of env bs c \<longleftrightarrow>
     chain_inv (demo_bk env) c \<and>
     (\<forall>b\<in>set bs. get_block c (demo_block_hash (de_keccak env) b) \<in> {None, Some b})"

lemma demo_bk_hash [simp]: "bk_hash (demo_bk env) = demo_block_hash (de_keccak env)"
  by (simp add: demo_bk_def)

lemma load_block:
  assumes laws: "rlp_laws (tl_rlp (de_libs env))" and fits: "block_fits env (dc_chain_id t) b" and b: "b \<in> set bs"
    and nz: "demo_block_hash (de_keccak env) b \<noteq> 0" and inj: "inj_on (demo_block_hash (de_keccak env)) (set bs)"
    and stored: "get_block (dc_chain t) (demo_block_hash (de_keccak env) b) = Some b \<or>
      rk_get (de_rocks env) (rw_db (dc_mdb t)) (gen_block_key (demo_block_hash (de_keccak env) b)) =
        Some (Some (demo_encode (de_libs env) b))"
    and tree: "tree_of env bs (dc_chain t)"
  shows "\<exists>c. get_block_by_hash env (demo_block_hash (de_keccak env) b) t = Ok (Some b) (t\<lparr>dc_chain := c\<rparr>) \<and>
    tree_of env bs c \<and> ch_base c = ch_base (dc_chain t) \<and> get_block c (demo_block_hash (de_keccak env) b) = Some b \<and>
    (\<forall>h x. get_block (dc_chain t) h = Some x \<longrightarrow> get_block c h = Some x)"
proof (cases "get_block (dc_chain t) (demo_block_hash (de_keccak env) b)")
  case (Some x)
  then have "x = b" using tree b by (auto simp: tree_of_def)
  with Some nz tree show ?thesis by (intro exI [of _ "dc_chain t"]) (simp add: get_block_by_hash_def bind_def gets_def ret_def)
next
  case None
  let ?h = "demo_block_hash (de_keccak env)"
  have "demo_decode (de_libs env) (demo_encode (de_libs env) b) (dc_chain_id t) t = Ok (Some b) t"
    using fits by (intro demo_decode_of_encode [OF laws]) (auto simp: block_fits_def)
  moreover obtain c where add: "add_block (demo_bk env) b (dc_chain t) = Ok (the (get_block c (?h b))) c"
    and inv: "chain_inv (demo_bk env) c" and base: "ch_base c = ch_base (dc_chain t)"
    and known: "chain_known c = add_known (demo_bk env) b (chain_known (dc_chain t))"
    using tree add_block_Ok [of "demo_bk env" "dc_chain t" b] by (auto simp: tree_of_def)
  moreover have get: "get_block c h = (if h = ?h b then Some b else get_block (dc_chain t) h)" for h
    using None by (simp add: get_block_known known add_known_def map_add_def split: option.split)
  moreover have "tree_of env bs c" using tree inv b inj by (auto simp: tree_of_def get inj_on_def)
  ultimately show ?thesis
    using None nz stored
    by (intro exI [of _ c]) (auto simp: get_block_by_hash_def bind_def gets_def ret_def zoom_def)
qed

lemma hash_read_back: "hash_from_slice (hash_as_bytes h) = Some h"
proof -
  have "unat h < 256 ^ 32" using unsigned_less [of h] by simp
  then show ?thesis by (simp add: hash_from_slice_def hash_as_bytes_def be_val_be_bytes)
qed

text \<open>What is needed of the path: blocks that are read back, with different hashes other than 0.\<close>

definition path_fits :: "'d demo_env \<Rightarrow> u256 \<Rightarrow> demo_block list \<Rightarrow> bool" where
  "path_fits env chain_id bs \<longleftrightarrow>
     rlp_laws (tl_rlp (de_libs env)) \<and> inj_on (demo_block_hash (de_keccak env)) (set bs) \<and>
     (\<forall>b\<in>set bs. block_fits env chain_id b \<and> demo_block_hash (de_keccak env) b \<noteq> 0)"

lemma load_index_Ok:
  assumes path: "path_fits env (dc_chain_id t) bs" and stored: "chain_stored env (rw_db (dc_mdb t)) bs"
  shows "\<forall>i\<in>set is. 0 < i \<and> i < length bs \<Longrightarrow> tree_of env bs c \<Longrightarrow>
    \<exists>c'. load_index env is (t\<lparr>dc_chain := c\<rparr>) = Ok (map (\<lambda>i. Some (bs ! i)) is) (t\<lparr>dc_chain := c'\<rparr>) \<and>
      ch_base c' = ch_base c \<and> (\<forall>i\<in>set is. get_block c' (demo_block_hash (de_keccak env) (bs ! i)) = Some (bs ! i)) \<and>
      (\<forall>h x. get_block c h = Some x \<longrightarrow> get_block c' h = Some x)"
proof (induction "is" arbitrary: c)
  case Nil
  then show ?case by (auto simp: ret_def)
next
  case (Cons i "is")
  let ?h = "demo_block_hash (de_keccak env)"
  from Cons.prems(1) have i: "0 < i" "i < length bs" by auto
  then have b: "bs ! i \<in> set bs" by simp
  obtain c1 where one: "get_block_by_hash env (?h (bs ! i)) (t\<lparr>dc_chain := c\<rparr>) = Ok (Some (bs ! i)) (t\<lparr>dc_chain := c1\<rparr>)"
    and c1: "tree_of env bs c1" "ch_base c1 = ch_base c" "get_block c1 (?h (bs ! i)) = Some (bs ! i)"
      "\<forall>h x. get_block c h = Some x \<longrightarrow> get_block c1 h = Some x"
    using load_block [of env "t\<lparr>dc_chain := c\<rparr>" "bs ! i" bs] path stored Cons.prems(2) i b
    by (auto simp: path_fits_def chain_stored_def)
  obtain c' where rest: "load_index env is (t\<lparr>dc_chain := c1\<rparr>) = Ok (map (\<lambda>i. Some (bs ! i)) is) (t\<lparr>dc_chain := c'\<rparr>)"
    and c': "ch_base c' = ch_base c1" "\<forall>i\<in>set is. get_block c' (?h (bs ! i)) = Some (bs ! i)"
      "\<forall>h x. get_block c1 h = Some x \<longrightarrow> get_block c' h = Some x"
    using Cons.IH [OF _ c1(1)] Cons.prems(1) by auto
  have "rk_get (de_rocks env) (rw_db (dc_mdb t)) (gen_index_key (i + 1)) = Some (Some (hash_as_bytes (?h (bs ! i))))"
    using stored i by (simp add: chain_stored_def index_stored_def)
  with one rest have "load_index env (i # is) (t\<lparr>dc_chain := c\<rparr>) = Ok (map (\<lambda>i. Some (bs ! i)) (i # is)) (t\<lparr>dc_chain := c'\<rparr>)"
    by (simp add: bind_def gets_def unwrap_def ret_def hash_read_back)
  with c1 c' show ?case by (intro exI [of _ c']) auto
qed

lemma new_tree: "get_block (chain_new bk g) h = (if h = bk_hash bk g then Some g else None)" "ch_base (chain_new bk g) = g"
  by (simp_all add: get_block_def chain_new_def)

lemma genesis_tree:
  "inj_on (demo_block_hash (de_keccak env)) (set (g # bs)) \<Longrightarrow> tree_of env (g # bs) (chain_new (demo_bk env) g)"
  by (auto simp: tree_of_def chain_new_inv new_tree inj_on_def)

text \<open>
  A node that is started on the database of a chain comes back with it: whatever path of linked blocks the database
  holds as the canonical chain, \<open>DemoChainStateMutable::new\<close> does not panic, ends with exactly that index, has its blocks in the tree, and
  writes nothing.
\<close>

theorem restart_restores_chain:
  assumes path: "path_fits env chain_id bs" and stored: "chain_stored env d bs" and len: "bs \<noteq> []" "length bs < 2 ^ 64"
    and links: "\<forall>i<length bs. db_number (bs ! i) = i \<and>
      (0 < i \<longrightarrow> db_parent_hash (bs ! i) = demo_block_hash (de_keccak env) (bs ! (i - 1)))"
  shows "\<exists>t. demo_new env hasher now genesis_addr genesis_balance d chain_id = Ok () t \<and>
    dc_indexed t = map Some bs \<and> linked env t bs \<and> dc_mdb t = rw_new hasher DB_PREFIX_MERKLE d"
proof -
  let ?h = "demo_block_hash (de_keccak env)"
  let ?s = "\<lparr>dc_chain = chain_new (demo_bk env) (demo_block_new now 0 0 0 None []), dc_tx_cache = Map.empty, dc_indexed = [],
        dc_mdb = rw_new hasher DB_PREFIX_MERKLE d, dc_chain_id = chain_id\<rparr>"
  obtain g rest where bs: "bs = g # rest" using len by (cases bs) auto
  have "demo_decode (de_libs env) (demo_encode (de_libs env) g) chain_id ?s = Ok (Some g) ?s"
    using path by (intro demo_decode_of_encode) (auto simp: path_fits_def block_fits_def bs)
  then have g: "genesis_block env now gs ?s = Ok g ?s" for gs
    using stored by (simp add: genesis_block_def chain_stored_def bs bind_def gets_def unwrap_def ret_def rw_new_def)
  obtain c where load: "load_index env [1..<length bs] (?s\<lparr>dc_chain := chain_new (demo_bk env) g\<rparr>) =
      Ok (map (\<lambda>i. Some (bs ! i)) [1..<length bs]) (?s\<lparr>dc_chain := c\<rparr>)"
    and c: "ch_base c = g" "\<forall>i\<in>set [1..<length bs]. get_block c (?h (bs ! i)) = Some (bs ! i)" "get_block c (?h g) = Some g"
  proof -
    have "path_fits env (dc_chain_id ?s) bs" "chain_stored env (rw_db (dc_mdb ?s)) bs" "\<forall>i\<in>set [1..<length bs]. 0 < i \<and> i < length bs"
      "tree_of env bs (chain_new (demo_bk env) g)"
      using path stored genesis_tree [of env g rest] by (auto simp: path_fits_def bs rw_new_def)
    from load_index_Ok [OF this] show thesis using that by (auto simp: new_tree)
  qed
  have index: "Some g # map (\<lambda>i. Some (bs ! i)) [1..<length bs] = map Some bs"
    by (rule nth_equalityI) (auto simp: bs nth_Cons' simp del: upt_Suc)
  have "rk_get (de_rocks env) d (gen_index_key 0) = Some (Some (le_bytes 8 (length bs)))" "le_val (le_bytes 8 (length bs)) = length bs"
    using stored len(2) by (simp_all add: chain_stored_def index_stored_def)
  then have "load_chain env (?s\<lparr>dc_chain := chain_new (demo_bk env) g\<rparr>) = Ok () (?s\<lparr>dc_chain := c, dc_indexed := map Some bs\<rparr>)"
    using load c(1) index by (simp add: load_chain_def bind_def gets_def unwrap_def ret_def modify_def rw_new_def get_base_def)
  then have "demo_new env hasher now genesis_addr genesis_balance d chain_id = Ok () (?s\<lparr>dc_chain := c, dc_indexed := map Some bs\<rparr>)"
    by (simp add: demo_new_def bind_def g modify_def)
  moreover have "get_block c (?h (bs ! i)) = Some (bs ! i)" if "i < length bs" for i
  proof (cases "i = 0")
    case False
    with c(2) that show ?thesis by simp
  qed (use c(3) in \<open>simp add: bs\<close>)
  then have "linked env (?s\<lparr>dc_chain := c, dc_indexed := map Some bs\<rparr>) bs"
    using links path by (auto simp: linked_def in_chain_def path_fits_def)
  ultimately show ?thesis by auto
qed

text \<open>The path of two blocks of the sample chain, in a database with nothing else.\<close>

definition sibling_db :: "bytes \<rightharpoonup> bytes" where
  "sibling_db = rw_db (dc_mdb sibling_state) ++
     [gen_block_key 0 \<mapsto> demo_encode (de_libs one_byte_env) (sibling_block 1),
      gen_block_key 2 \<mapsto> demo_encode (de_libs one_byte_env) (sibling_block 2)]"

theorem restart_restores_chain_witness:
  "\<exists>t. demo_new one_byte_env id 7 1 2 sibling_db 1 = Ok () t \<and> dc_indexed t = [Some (sibling_block 1), Some (sibling_block 2)]"
proof -
  have keys: "gen_index_key i \<noteq> gen_block_key h" for i h
    by (simp add: gen_index_key_def gen_block_key_def DB_PREFIX_INDEX_def DB_PREFIX_BLOCK_def str_bytes_def)
  have key2: "gen_block_key 2 \<noteq> gen_block_key 0"
    using hash_read_back [of 0] hash_read_back [of 2] by (auto simp: gen_block_key_def)
  have "path_fits one_byte_env 1 [sibling_block 1, sibling_block 2]"
    by (auto simp: path_fits_def block_fits_def sibling_hash inj_on_def) (simp_all add: one_byte_env_def sample_libs_def rlp_std_laws sibling_block_def demo_block_new_def)
  moreover have "chain_stored one_byte_env sibling_db [sibling_block 1, sibling_block 2]"
  proof -
    have "rk_get (de_rocks one_byte_env) sibling_db (gen_index_key i) =
        rk_get (de_rocks one_byte_env) (rw_db (dc_mdb sibling_state)) (gen_index_key i)" for i
      by (simp add: one_byte_env_def map_rocks_def sibling_db_def keys)
    moreover have "rk_get (de_rocks one_byte_env) sibling_db k = Some (sibling_db k)" for k
      by (simp add: one_byte_env_def map_rocks_def)
    ultimately show ?thesis using sibling_index key2
      by (simp add: chain_stored_def index_stored_def less_Suc_eq sibling_hash all_conj_distrib)
         (simp add: sibling_db_def)
  qed
  moreover have "db_number (sibling_block 1) = 0" "db_number (sibling_block 2) = 1" "db_parent_hash (sibling_block 2) = 1"
    by (simp_all add: sibling_block_def demo_block_new_def)
  ultimately show ?thesis
    using restart_restores_chain [of one_byte_env 1 "[sibling_block 1, sibling_block 2]" sibling_db id 7 1 2] sibling_hash [of 1]
    by (auto simp: less_Suc_eq)
qed

end
