(* ===== verification/HexJson.thy ===== *)
theory HexJson
  imports Disasm DemoGenesis
begin

text \<open>
  The JSON forms of \<open>src/src/common.rs\<close> and \<open>src/src/chain.rs\<close>: strings with the prefix \<open>0x\<close>. A string is its bytes. A visitor gives
  \<open>None\<close> for an error of the deserializer. The crate \<open>hex\<close> and the text form of \<open>U256\<close> are parameters; numbers of 64 bits are
  printed and parsed by the standard library.
\<close>

record hex_libs =
  hx_encode :: "bytes \<Rightarrow> string"
  hx_decode :: "string \<Rightarrow> bytes option"
  hx_u256 :: "u256 \<Rightarrow> string"
  hx_u256_from_str :: "string \<Rightarrow> u256 option"

section \<open>Serializers\<close>

text \<open>\<open>LowerHex\<close> of \<open>BytesRef\<close> and of \<open>Wei\<close>.\<close>

definition bytes_lower_hex :: "hex_libs \<Rightarrow> bytes \<Rightarrow> string" where
  "bytes_lower_hex hx b = hx_encode hx b"

definition wei_lower_hex :: "hex_libs \<Rightarrow> wei \<Rightarrow> string" where
  "wei_lower_hex hx w = hx_u256 hx w"

definition bytes_serialize :: "hex_libs \<Rightarrow> bytes \<Rightarrow> string" where
  "bytes_serialize hx b = ''0x'' @ bytes_lower_hex hx b"

text \<open>\<open>Bytes\<close> and \<open>FixedBytes\<close> are written as their slices.\<close>

definition owned_bytes_serialize :: "hex_libs \<Rightarrow> bytes \<Rightarrow> string" where
  "owned_bytes_serialize hx b = bytes_serialize hx b"

definition fixed_bytes_serialize :: "hex_libs \<Rightarrow> bytes \<Rightarrow> string" where
  "fixed_bytes_serialize hx b = bytes_serialize hx b"

definition wei_serialize :: "hex_libs \<Rightarrow> wei \<Rightarrow> string" where
  "wei_serialize hx w = ''0x'' @ wei_lower_hex hx w"

definition addr_serialize :: "hex_libs \<Rightarrow> addr \<Rightarrow> string" where
  "addr_serialize hx a = bytes_serialize hx (addr_as_bytes a)"

definition hash_serialize :: "hex_libs \<Rightarrow> hash \<Rightarrow> string" where
  "hash_serialize hx h = bytes_serialize hx (hash_as_bytes h)"

definition u256_serialize :: "hex_libs \<Rightarrow> u256 \<Rightarrow> string" where
  "u256_serialize hx x = ''0x'' @ hx_u256 hx x"

definition u64_serialize :: "nat \<Rightarrow> string" where
  "u64_serialize x = ''0x'' @ base_digits 16 x"

definition gas_serialize :: "gas \<Rightarrow> string" where
  "gas_serialize g = ''0x'' @ base_digits 16 g"

definition bytes32_of_u256 :: "u256 \<Rightarrow> bytes" where
  "bytes32_of_u256 u = to_big_endian u"

definition bloom_serialize :: "hex_libs \<Rightarrow> nat list \<Rightarrow> string" where
  "bloom_serialize hx bloom = ''0x'' @ concat (map (\<lambda>x. hx_encode hx (le_bytes 8 x)) bloom)"

section \<open>Visitors\<close>

definition has_0x :: "string \<Rightarrow> bool" where
  "has_0x s = (s ! 0 = CHR ''0'' \<and> (s ! 1 = CHR ''x'' \<or> s ! 1 = CHR ''X''))"

definition bytes_visit :: "hex_libs \<Rightarrow> string \<Rightarrow> bytes option" where
  "bytes_visit hx s =
     (if length s < 2 then None
      else if has_0x s then hx_decode hx (drop 2 s)
      else None)"

definition u256_visit :: "hex_libs \<Rightarrow> string \<Rightarrow> u256 option" where
  "u256_visit hx s = hx_u256_from_str hx s"

text \<open>\<open>u64::from_str_radix(_, 16)\<close>: digits after an optional plus sign, in the range of \<open>u64\<close>.\<close>

definition digit_val :: "char \<Rightarrow> nat option" where
  "digit_val c =
     (let n = of_char c :: nat in
      if 48 \<le> n \<and> n \<le> 57 then Some (n - 48)
      else if 97 \<le> n \<and> n \<le> 102 then Some (n - 87)
      else if 65 \<le> n \<and> n \<le> 70 then Some (n - 55)
      else None)"

fun radix16_loop :: "nat \<Rightarrow> nat \<Rightarrow> string \<Rightarrow> nat option" where
  "radix16_loop limit acc [] = Some acc"
| "radix16_loop limit acc (c # s) =
     (case digit_val c of
        None \<Rightarrow> None
      | Some d \<Rightarrow> if acc * 16 + d < limit then radix16_loop limit (acc * 16 + d) s else None)"

definition u64_from_str_radix16 :: "string \<Rightarrow> nat option" where
  "u64_from_str_radix16 s =
     (case s of
        [] \<Rightarrow> None
      | c # rest \<Rightarrow> if c = CHR ''+'' then (if rest = [] then None else radix16_loop (2 ^ 64) 0 rest) else radix16_loop (2 ^ 64) 0 s)"

text \<open>\<open>bytes[0]\<close> and, after a \<open>0\<close>, \<open>bytes[1]\<close> are read without a check of the length.\<close>

definition u64_visit :: "string \<Rightarrow> ('s, nat option) exec" where
  "u64_visit s =
     (if s = [] then panic
      else if s ! 0 = CHR ''0'' then
        if length s < 2 then panic
        else if has_0x s then ret (u64_from_str_radix16 (drop 2 s)) else ret None
      else ret None)"

text \<open>The deserializers that only name a visitor.\<close>

definition bytes_deserialize :: "hex_libs \<Rightarrow> string \<Rightarrow> bytes option" where
  "bytes_deserialize hx s = bytes_visit hx s"

definition wei_from_str :: "hex_libs \<Rightarrow> string \<Rightarrow> wei option" where
  "wei_from_str hx s = hx_u256_from_str hx s"

definition wei_deserialize :: "hex_libs \<Rightarrow> string \<Rightarrow> wei option" where
  "wei_deserialize hx s = u256_visit hx s"

definition u256_deserialize :: "hex_libs \<Rightarrow> string \<Rightarrow> u256 option" where
  "u256_deserialize hx s = u256_visit hx s"

definition gas_deserialize :: "string \<Rightarrow> ('s, gas option) exec" where
  "gas_deserialize s = u64_visit s"

definition addr_deserialize :: "hex_libs \<Rightarrow> string \<Rightarrow> addr option" where
  "addr_deserialize hx s =
     (case bytes_visit hx s of None \<Rightarrow> None | Some b \<Rightarrow> if length b \<noteq> 20 then None else Some (addr_from_slice b))"

definition hash_deserialize :: "hex_libs \<Rightarrow> string \<Rightarrow> hash option" where
  "hash_deserialize hx s =
     (case bytes_visit hx s of None \<Rightarrow> None | Some b \<Rightarrow> if length b \<noteq> 32 then None else hash_from_slice b)"

definition block_number_visit :: "hex_libs \<Rightarrow> string \<Rightarrow> block_number option" where
  "block_number_visit hx s =
     (if s = ''latest'' then Some Latest
      else if s = ''earliest'' then Some Earliest
      else map_option Number (u256_visit hx s))"

section \<open>What is printed is read\<close>

text \<open>What the crates promise.\<close>

definition hex_laws :: "hex_libs \<Rightarrow> bool" where
  "hex_laws hx \<longleftrightarrow>
     (\<forall>b. hx_decode hx (hx_encode hx b) = Some b) \<and> (\<forall>x. hx_u256_from_str hx (''0x'' @ hx_u256 hx x) = Some x)"

lemma digit_val_char: "d < 16 \<Longrightarrow> digit_val (digit_char d) = Some d"
proof -
  have "\<forall>d\<in>set [0..<16]. digit_val (digit_char d) = Some d"
    by (simp add: upt_rec digit_val_def digit_char_def)
  then show "d < 16 \<Longrightarrow> digit_val (digit_char d) = Some d" by simp
qed

lemma radix16_append:
  "radix16_loop limit acc (s @ t) =
     (case radix16_loop limit acc s of None \<Rightarrow> None | Some a \<Rightarrow> radix16_loop limit a t)"
  by (induction limit acc s rule: radix16_loop.induct) (auto split: option.split)

lemma radix16_digits: "n < limit \<Longrightarrow> 16 \<le> limit \<Longrightarrow> radix16_loop limit 0 (base_digits 16 n) = Some n"
proof (induction "16 :: nat" n rule: base_digits.induct)
  case (1 n)
  show ?case
  proof (cases "n < 16")
    case True
    then show ?thesis using "1.prems" by (simp add: base_digits.simps [of 16 n] digit_val_char)
  next
    case False
    then have "radix16_loop limit 0 (base_digits 16 (n div 16)) = Some (n div 16)" using 1 by simp
    moreover have "n div 16 * 16 + n mod 16 = n" by simp
    ultimately show ?thesis using False "1.prems" by (simp add: base_digits.simps [of 16 n] radix16_append digit_val_char)
  qed
qed

lemma base_digits_head: "\<exists>c s. base_digits 16 n = c # s \<and> c \<noteq> CHR ''+''"
proof (induction "16 :: nat" n rule: base_digits.induct)
  case (1 n)
  have "\<forall>d\<in>set [0..<16]. digit_char d \<noteq> CHR ''+''" by (simp add: upt_rec digit_char_def)
  then have "digit_char d \<noteq> CHR ''+''" if "d < 16" for d using that by simp
  with 1 show ?case by (cases "n < 16") (auto simp: base_digits.simps [of 16 n])
qed

lemma addr_bytes_back: "addr_from_slice (addr_as_bytes a) = a" "length (addr_as_bytes a) = 20"
proof -
  have "unat a < 256 ^ 20" using unsigned_less [of a] by simp
  then show "addr_from_slice (addr_as_bytes a) = a" by (simp add: addr_from_slice_def addr_as_bytes_def be_val_be_bytes)
qed (simp add: addr_as_bytes_def)

lemma radix16_bound: "radix16_loop limit acc s = Some n \<Longrightarrow> acc < limit \<Longrightarrow> n < limit"
  by (induction limit acc s rule: radix16_loop.induct) (auto split: option.splits if_splits)

lemma u64_from_str_bound: "u64_from_str_radix16 s = Some n \<Longrightarrow> n < 2 ^ 64"
  using radix16_bound [of "2 ^ 64" 0]
  by (auto simp: u64_from_str_radix16_def simp del: radix16_loop.simps split: list.splits if_splits)

lemma u64_from_str_digits: "n < 2 ^ 64 \<Longrightarrow> u64_from_str_radix16 (base_digits 16 n) = Some n"
  using base_digits_head [of n] radix16_digits [of n "2 ^ 64"] by (auto simp: u64_from_str_radix16_def)

text \<open>
  C35. Every value of the JSON interface that is printed is read back by the deserializer of its type: byte strings, addresses, hashes,
  256-bit numbers, amounts, gas and 64-bit numbers, and block numbers.
\<close>

theorem json_roundtrip:
  assumes "hex_laws hx" and "n < 2 ^ 64"
  shows "bytes_deserialize hx (owned_bytes_serialize hx b) = Some b \<and> bytes_deserialize hx (fixed_bytes_serialize hx b) = Some b \<and>
    addr_deserialize hx (addr_serialize hx a) = Some a \<and> hash_deserialize hx (hash_serialize hx h) = Some h \<and>
    u256_deserialize hx (u256_serialize hx x) = Some x \<and> wei_deserialize hx (wei_serialize hx x) = Some x \<and>
    wei_from_str hx (wei_serialize hx x) = Some x \<and> gas_deserialize (gas_serialize n) s = Ok (Some n) s \<and>
    u64_visit (u64_serialize n) s = Ok (Some n) s \<and> block_number_visit hx (u256_serialize hx x) = Some (Number x)"
proof -
  have bytes: "bytes_visit hx (bytes_serialize hx b) = Some b" for b
    using assms(1) by (simp add: bytes_visit_def bytes_serialize_def bytes_lower_hex_def has_0x_def hex_laws_def)
  moreover have "u256_visit hx (u256_serialize hx x) = Some x"
    using assms(1) by (simp add: u256_visit_def u256_serialize_def hex_laws_def)
  moreover have "wei_serialize hx x = u256_serialize hx x" by (simp add: wei_serialize_def u256_serialize_def wei_lower_hex_def)
  moreover have "u64_visit (u64_serialize n) s = Ok (Some n) s"
    using u64_from_str_digits [OF assms(2)] by (simp add: u64_visit_def u64_serialize_def has_0x_def ret_def)
  moreover have "gas_serialize n = u64_serialize n" by (simp add: gas_serialize_def u64_serialize_def)
  moreover have "block_number_visit hx (u256_serialize hx x) = map_option Number (u256_visit hx (u256_serialize hx x))"
    by (simp add: block_number_visit_def u256_serialize_def)
  ultimately show ?thesis
    by (simp add: addr_deserialize_def addr_serialize_def hash_deserialize_def hash_serialize_def addr_bytes_back hash_read_back
        bytes_deserialize_def owned_bytes_serialize_def fixed_bytes_serialize_def u256_deserialize_def wei_deserialize_def wei_from_str_def
        gas_deserialize_def u256_visit_def)
qed

text \<open>
  Reading a 64-bit number leaves everything as it is, but the empty string and the string of one zero make the
  visitor panic; a number that is read is in range and comes from a string with digits after the prefix.
\<close>

theorem u64_visit_outcomes:
  "(u64_visit s st = Panic) = (s = '''' \<or> s = ''0'') \<and>
   (case u64_visit s st of Ok (Some n) t \<Rightarrow> t = st \<and> n < 2 ^ 64 \<and> 2 < length s | Ok None t \<Rightarrow> t = st | Err e t \<Rightarrow> False | Panic \<Rightarrow> True)"
proof -
  have "2 < length s" if "u64_from_str_radix16 (drop 2 s) = Some n" for n
  proof -
    have "drop 2 s \<noteq> []" using that by (auto simp: u64_from_str_radix16_def)
    then show ?thesis by simp
  qed
  moreover have "s = [CHR ''0'']" if "s ! 0 = CHR ''0''" "length s < 2" "s \<noteq> []"
    using that by (cases s) auto
  ultimately show ?thesis using u64_from_str_bound [of "drop 2 s"]
    by (auto simp: u64_visit_def ret_def panic_def split: option.split)
qed

text \<open>The crates with their documented text forms.\<close>

fun pairs_decode :: "string \<Rightarrow> bytes option" where
  "pairs_decode [] = Some []"
| "pairs_decode [c] = None"
| "pairs_decode (c # d # s) =
     (case (digit_val c, digit_val d, pairs_decode s) of
        (Some h, Some l, Some bs) \<Rightarrow> Some (word_of_nat (h * 16 + l) # bs)
      | _ \<Rightarrow> None)"

definition std_hex :: hex_libs where
  "std_hex =
     \<lparr>hx_encode = \<lambda>b. concat (map (\<lambda>x. [digit_char (unat x div 16), digit_char (unat x mod 16)]) b),
      hx_decode = pairs_decode,
      hx_u256 = \<lambda>x. base_digits 16 (unat x),
      hx_u256_from_str = \<lambda>s. map_option word_of_nat (radix16_loop (2 ^ 256) 0 (if take 2 s = ''0x'' then drop 2 s else s))\<rparr>"

lemma std_hex_laws: "hex_laws std_hex"
proof -
  have "pairs_decode (concat (map (\<lambda>x. [digit_char (unat x div 16), digit_char (unat x mod 16)]) b)) = Some b" for b :: bytes
  proof (induction b)
    case (Cons x b)
    have "unat x < 256" using unsigned_less [of x] by simp
    then show ?case using Cons by (simp add: digit_val_char)
  qed simp
  moreover have "radix16_loop (2 ^ 256) 0 (base_digits 16 (unat x)) = Some (unat x)" for x :: u256
    using radix16_digits [of "unat x" "2 ^ 256"] unsigned_less [of x] by simp
  ultimately show ?thesis by (simp add: hex_laws_def std_hex_def)
qed

theorem json_roundtrip_witness:
  "hash_deserialize std_hex (hash_serialize std_hex 255) = Some 255 \<and> u64_visit (u64_serialize 21000) () = Ok (Some 21000) ()"
  using json_roundtrip [OF std_hex_laws, of 21000 "[]" 0 255 0 "()"] by simp

end
