(* ===== verification/Playback.thy ===== *)
theory Playback
  imports NodeExec HexJson
begin

text \<open>
  The example \<open>src/examples/playback.rs\<close>: a script of lines (transactions in JSON, creations of accounts, nonces and block
  commits) is played on an in-memory state over the empty world. \<open>serde_json\<close> and the text forms of \<open>U256\<close> and \<open>H160\<close>
  are parameters; the printed lines are kept in the state. The function for block hashes is \<open>unimplemented!()\<close> in the
  source: it is a parameter here, and every theorem holds for all its values.
\<close>

section \<open>State\<close>

record play_tx =
  ptx_block_number :: string
  ptx_from :: string
  ptx_gas :: string
  ptx_gas_price :: string
  ptx_hash :: string
  ptx_input :: string
  ptx_to :: "string option"
  ptx_value :: string

record play_libs = hex_libs +
  pl_tx_json :: "string \<Rightarrow> play_tx option"
  pl_outer_json :: "string \<Rightarrow> play_tx option"
  pl_h160_from_str :: "string \<Rightarrow> addr option"
  pl_h160 :: "addr \<Rightarrow> string"
  pl_block_hash :: "nat \<Rightarrow> hash"

record playback =
  pb_state :: mem_auto
  pb_committed :: mem_rev
  pb_out :: "string list"

definition println :: "string \<Rightarrow> (playback, unit) exec" where
  "println line = modify (\<lambda>p. p\<lparr>pb_out := pb_out p @ [line]\<rparr>)"

text \<open>The text \<open>{:?}\<close> of an error.\<close>

primrec exec_error_debug :: "exec_error \<Rightarrow> string" where
  "exec_error_debug OutOfGas = ''OutOfGas''"
| "exec_error_debug CodeStoreOutOfGas = ''CodeStoreOutOfGas''"
| "exec_error_debug Depth = ''Depth''"
| "exec_error_debug InsufficientBalance = ''InsufficientBalance''"
| "exec_error_debug ContractAddrCollision = ''ContractAddrCollision''"
| "exec_error_debug Reverted = ''Reverted''"
| "exec_error_debug MaxCodeSizeExceeded = ''MaxCodeSizeExceeded''"
| "exec_error_debug InvalidJump = ''InvalidJump''"
| "exec_error_debug WriteProtection = ''WriteProtection''"
| "exec_error_debug ReturnDataOutOfBounds = ''ReturnDataOutOfBounds''"
| "exec_error_debug GasIntOverflow = ''GasIntOverflow''"
| "exec_error_debug InvalidCode = ''InvalidCode''"
| "exec_error_debug NonceIntOverflow = ''NonceIntOverflow''"
| "exec_error_debug StackOverflow = ''StackOverflow''"
| "exec_error_debug StackUnderflow = ''StackUnderflow''"
| "exec_error_debug OutOfMemory = ''OutOfMemory''"
| "exec_error_debug InvalidOpcode = ''InvalidOpcode''"

section \<open>Transactions\<close>

definition play_parse :: "play_libs \<Rightarrow> string \<Rightarrow> play_tx option" where
  "play_parse pl json = (case pl_tx_json pl json of Some tx \<Rightarrow> Some tx | None \<Rightarrow> pl_outer_json pl json)"

definition play_env :: "play_libs \<Rightarrow> u256 \<Rightarrow> exec_env" where
  "play_env pl number =
     \<lparr>env_chain_id = 43114,
      env_block = \<lparr>bi_coinbase = 0, bi_timestamp = 0, bi_number = number, bi_difficulty = 0, bi_gas_limit = 8000000,
        bi_base_fee = 0, bi_fork = London\<rparr>,
      env_precompiled = [], env_block_hash = pl_block_hash pl\<rparr>"

text \<open>The slice \<open>[2..]\<close> of a string panics when it is shorter.\<close>

definition slice2 :: "string \<Rightarrow> ('s, string) exec" where
  "slice2 s = (if length s < 2 then panic else ret (drop 2 s))"

text \<open>An early return of \<open>Err(())\<close> is the result \<open>False\<close>.\<close>

definition or_fail :: "'a option \<Rightarrow> ('a \<Rightarrow> ('s, bool) exec) \<Rightarrow> ('s, bool) exec" where
  "or_fail x f = (case x of None \<Rightarrow> ret False | Some a \<Rightarrow> f a)"

definition play_exec ::
  "tx_runner \<Rightarrow> addr \<Rightarrow> addr option \<Rightarrow> wei \<Rightarrow> gas \<Rightarrow> wei \<Rightarrow> bytes \<Rightarrow> exec_env \<Rightarrow> (playback, tx_exec_result) exec" where
  "play_exec run_tx sender to value gas gas_price input env =
     bind (gets (\<lambda>p. run_tx sender to value gas gas_price input (pb_state p) (pb_committed p) env)) (\<lambda>r.
     bind (unwrap r) (\<lambda>(st, res).
     bind (modify (\<lambda>p. p\<lparr>pb_state := st\<rparr>)) (\<lambda>_.
     ret res)))"

definition play_run_tx :: "play_libs \<Rightarrow> tx_runner \<Rightarrow> string \<Rightarrow> (playback, bool) exec" where
  "play_run_tx pl run_tx json =
     or_fail (play_parse pl json) (\<lambda>tx.
     or_fail (hx_u256_from_str pl (ptx_block_number tx)) (\<lambda>number.
     let env = play_env pl number in
     or_fail (pl_h160_from_str pl (ptx_from tx)) (\<lambda>sender.
     or_fail (hx_u256_from_str pl (ptx_value tx)) (\<lambda>value.
     bind (slice2 (ptx_gas tx)) (\<lambda>gas.
     or_fail (u64_from_str_radix16 gas) (\<lambda>gas.
     or_fail (hx_u256_from_str pl (ptx_gas_price tx)) (\<lambda>gas_price.
     bind (slice2 (ptx_input tx)) (\<lambda>input.
     or_fail (hx_decode pl input) (\<lambda>input.
     case ptx_to tx of
       None \<Rightarrow>
         bind (play_exec run_tx sender None value gas gas_price input env) (\<lambda>res.
         case res of
           TxSucceeded data _ addr \<Rightarrow>
             bind (unwrap addr) (\<lambda>addr.
             bind (println (''contract 0x'' @ hx_encode pl (addr_as_bytes addr) @ '' deployed (runtime=0x''
                     @ hx_encode pl data @ '', '' @ disasm (hx_encode pl) data False @ '')'')) (\<lambda>_.
             ret True))
         | TxReverted data _ err \<Rightarrow>
             bind (println (''contract creation tx '' @ ptx_hash tx @ '' reverted (data='' @ hx_encode pl data
                     @ '' err='' @ exec_error_debug err @ '')'')) (\<lambda>_.
             ret True))
     | Some to \<Rightarrow>
         or_fail (pl_h160_from_str pl to) (\<lambda>to.
         bind (play_exec run_tx sender (Some to) value gas gas_price input env) (\<lambda>res.
         case res of
           TxSucceeded data _ _ \<Rightarrow>
             bind (println (''tx '' @ ptx_hash tx @ '' returned (data='' @ hx_encode pl data @ '')'')) (\<lambda>_. ret True)
         | TxReverted data _ err \<Rightarrow>
             bind (println (''tx '' @ ptx_hash tx @ '' reverted (data='' @ hx_encode pl data @ '' err=''
                     @ exec_error_debug err @ '')'')) (\<lambda>_. ret True))))))))))))"

section \<open>Actions\<close>

text \<open>\<open>split(' ')\<close>: the parts between the spaces, at least one.\<close>

fun split_spaces :: "string \<Rightarrow> string list" where
  "split_spaces [] = [[]]"
| "split_spaces (c # s) =
     (if c = CHR '' '' then [] # split_spaces s
      else case split_spaces s of t # ts \<Rightarrow> (c # t) # ts | [] \<Rightarrow> [[c]])"

text \<open>\<open>u64::from_str\<close>: decimal digits after an optional plus sign, in the range of \<open>u64\<close>.\<close>

fun radix10_loop :: "nat \<Rightarrow> nat \<Rightarrow> string \<Rightarrow> nat option" where
  "radix10_loop limit acc [] = Some acc"
| "radix10_loop limit acc (c # s) =
     (case digit_val c of
        None \<Rightarrow> None
      | Some d \<Rightarrow> if d < 10 \<and> acc * 10 + d < limit then radix10_loop limit (acc * 10 + d) s else None)"

definition u64_from_str :: "string \<Rightarrow> nat option" where
  "u64_from_str s =
     (case s of
        [] \<Rightarrow> None
      | c # rest \<Rightarrow> if c = CHR ''+'' then (if rest = [] then None else radix10_loop (2 ^ 64) 0 rest) else radix10_loop (2 ^ 64) 0 s)"

definition play_run :: "(bytes \<Rightarrow> hash) \<Rightarrow> play_libs \<Rightarrow> tx_runner \<Rightarrow> string \<Rightarrow> string \<Rightarrow> (playback, unit) exec" where
  "play_run keccak pl run_tx action data =
     (if action = ''tx'' then
        bind (play_run_tx pl run_tx data) (\<lambda>ok. if ok then ret () else panic)
      else if action = ''create_account'' then
        let tokens = split_spaces data in
        if length tokens \<noteq> 1 then panic
        else bind (unwrap (pl_h160_from_str pl (tokens ! 0))) (\<lambda>acc.
             bind (println (pl_h160 pl acc @ ''.create'')) (\<lambda>_.
             modify (\<lambda>p. p\<lparr>pb_state := ws_create_account (mem_ws keccak) acc (pb_state p)\<rparr>)))
      else if action = ''set_nonce'' then
        let tokens = split_spaces data in
        if length tokens \<noteq> 2 then panic
        else bind (unwrap (pl_h160_from_str pl (tokens ! 0))) (\<lambda>acc.
             bind (unwrap (u64_from_str (tokens ! 1))) (\<lambda>nonce.
             bind (println (pl_h160 pl acc @ ''.nonce = '' @ base_digits 10 nonce)) (\<lambda>_.
             modify (\<lambda>p. p\<lparr>pb_state := ws_set_nonce (mem_ws keccak) acc nonce (pb_state p)\<rparr>))))
      else if action = ''block_commit'' then
        bind (modify (\<lambda>p. case to_shared (pb_state p) of (st, shared) \<Rightarrow>
                p\<lparr>pb_state := st, pb_committed := shared_consolidate None shared\<rparr>)) (\<lambda>_.
        println ''block_commit'')
      else ret ())"

text \<open>\<open>main\<close>: the line is cut at its first space; a line without one is ignored.\<close>

fun find_space :: "string \<Rightarrow> nat option" where
  "find_space [] = None"
| "find_space (c # s) = (if c = CHR '' '' then Some 0 else map_option Suc (find_space s))"

definition play_line :: "(bytes \<Rightarrow> hash) \<Rightarrow> play_libs \<Rightarrow> tx_runner \<Rightarrow> string \<Rightarrow> (playback, unit) exec" where
  "play_line keccak pl run_tx s =
     (case find_space s of
        Some pos \<Rightarrow> play_run keccak pl run_tx (take pos s) (drop (pos + 1) s)
      | None \<Rightarrow> ret ())"

definition playback_new :: "(bytes \<Rightarrow> hash) \<Rightarrow> playback" where
  "playback_new keccak =
     (case to_shared (auto_new (empty_state keccak)) of (st, shared) \<Rightarrow> \<lparr>pb_state = st, pb_committed = shared, pb_out = []\<rparr>)"

definition playback_main :: "(bytes \<Rightarrow> hash) \<Rightarrow> play_libs \<Rightarrow> tx_runner \<Rightarrow> string list \<Rightarrow> (playback, unit) outcome" where
  "playback_main keccak pl run_tx lines = for_each lines (play_line keccak pl run_tx) (playback_new keccak)"

section \<open>A playback has no money\<close>

text \<open>No revision of the chain and not the reader below it gives an account a balance.\<close>

definition delta_free :: "state_delta \<Rightarrow> bool" where
  "delta_free d \<longleftrightarrow> (\<forall>a acc b. sd_accounts d a = Some acc \<longrightarrow> ad_balance acc = Some b \<longrightarrow> b = 0)"

fun money_free :: "mem_rev \<Rightarrow> bool" where
  "money_free (MemStateRev (Internal p) d) \<longleftrightarrow> delta_free d \<and> money_free p"
| "money_free (MemStateRev (External w) d) \<longleftrightarrow> delta_free d \<and> (\<forall>a. w_balance w a = 0)"

primrec source_free :: "state_source \<Rightarrow> bool" where
  "source_free (Internal p) \<longleftrightarrow> money_free p"
| "source_free (External w) \<longleftrightarrow> (\<forall>a. w_balance w a = 0)"

lemma money_free_iff: "money_free r \<longleftrightarrow> delta_free (rev_delta r) \<and> source_free (rev_parent r)"
  by (cases r rule: money_free.cases) auto

lemma free_walk:
  "money_free r \<Longrightarrow> rev_walk (\<lambda>d. Option.bind (sd_accounts d a) ad_balance) (\<lambda>w. w_balance w a) r = 0"
proof (induction r rule: money_free.induct)
  case (1 p d)
  then show ?case by (cases "sd_accounts d a") (auto simp: delta_free_def split: option.splits)
next
  case (2 w d)
  then show ?case by (cases "sd_accounts d a") (auto simp: delta_free_def split: option.splits)
qed

lemma free_balance: "money_free r \<Longrightarrow> rev_get_balance r a = 0"
  by (simp add: rev_get_balance_def free_walk)

lemma delta_free_empty [simp]: "delta_free empty_delta"
  by (simp add: delta_free_def empty_delta_def)

lemma free_convert: "money_free (convert_ref s) \<Longrightarrow> money_free (convert_mut s)"
  by (cases s) (simp_all add: mut_from_shared_def)

lemma free_upd: "money_free r \<Longrightarrow> (delta_free (rev_delta r) \<Longrightarrow> delta_free (f (rev_delta r))) \<Longrightarrow> money_free (upd_delta f r)"
  by (simp add: money_free_iff)

lemma free_writes:
  assumes "money_free r"
  shows "money_free (rev_set_state a k v r)" "money_free (rev_set_code keccak a c r)" "money_free (rev_set_nonce a n r)"
    "money_free (rev_set_balance a 0 r)" "money_free (rev_create_account keccak a r)" "money_free (rev_delete_account a r)"
    "rev_add_log a topics data bn r = Some t \<Longrightarrow> money_free t"
  using assms free_balance [OF assms, of a]
  by (auto simp: rev_writes rev_create_account_def rev_delete_account_def rev_add_log_def Let_def delta_free_def
      account_delta_default_def intro!: free_upd split: option.splits if_splits)

lemma free_overlay: "delta_free d \<Longrightarrow> delta_free m \<Longrightarrow> delta_free (overlay_delta d m)"
  by (auto simp: delta_free_def overlay_delta_def overlay_account_def Let_def account_delta_default_def
      split: option.splits if_splits)

lemma free_collect: "money_free r \<Longrightarrow> delta_free (merged_delta (fst (collect_revs n r))) \<and> source_free (snd (collect_revs n r))"
  by (induction n r rule: collect_revs.induct) (auto simp: free_overlay split: prod.splits)

lemma free_consolidate: "money_free r \<Longrightarrow> money_free (shared_consolidate n r)"
  using free_collect [of r n]
  by (simp add: shared_consolidate_def rev_consolidate_eq money_free_iff [of "MemStateRev _ _"] split: state_source.split)

text \<open>The interpreter keeps it so.\<close>

definition penniless :: "mem_auto \<Rightarrow> bool" where
  "penniless s \<longleftrightarrow> money_free (convert_ref s)"

lemma penniless_mut: "penniless s \<Longrightarrow> money_free (convert_mut s)"
  by (simp add: penniless_def free_convert)

lemma penniless_set_balance: "penniless s \<Longrightarrow> penniless (ws_set_balance (mem_ws keccak) a 0 s)"
  by (simp add: penniless_def free_writes free_convert)

lemma penniless_balance: "penniless s \<Longrightarrow> rev_get_balance (convert_ref s) a = 0"
  by (simp add: penniless_def free_balance)

lemma penniless_transfer:
  assumes "penniless s"
  shows "penniless (snd (transfer_balance (mem_host keccak rlp) src dst v s))"
proof (cases "v = 0")
  case True
  let ?t = "ws_set_balance (mem_ws keccak) src 0 s"
  have t: "penniless ?t" by (rule penniless_set_balance [OF assms])
  have "transfer_balance (mem_host keccak rlp) src dst v s = (True, ws_set_balance (mem_ws keccak) dst 0 ?t)"
    using True penniless_balance [OF assms] penniless_balance [OF t]
    by (simp add: transfer_balance_def sub_balance_def add_balance_def wei_checked_sub_def wei_checked_add_def del: mem_ws_sel(7))
  then show ?thesis using penniless_set_balance [OF t] by simp
next
  case False
  then have "transfer_balance (mem_host keccak rlp) src dst v s = (False, s)"
    using penniless_balance [OF assms]
    by (simp add: transfer_balance_def sub_balance_def wei_checked_sub_def)
  then show ?thesis using assms by simp
qed

interpretation poor: tx_property "mem_host keccak rlp" penniless penniless for keccak rlp
proof
  fix s a k v code n topics data bn t u src dst b
  assume s: "penniless s"
  note mut = penniless_mut [OF s]
  show "penniless (ws_set_state (mem_host keccak rlp) a k v s)" "penniless (ws_set_code (mem_host keccak rlp) a code s)"
    "penniless (ws_set_nonce (mem_host keccak rlp) a n s)" "penniless (ws_create_account (mem_host keccak rlp) a s)"
    "penniless (ws_delete_account (mem_host keccak rlp) a s)"
    using mut by (simp_all add: penniless_def free_writes)
  show "ws_add_log (mem_host keccak rlp) a topics data bn s = Some t \<Longrightarrow> penniless t"
    using free_writes(7) [OF mut] by (auto simp: penniless_def)
  show "ws_snapshot (mem_host keccak rlp) s = (t, u) \<Longrightarrow> penniless t \<and> penniless u"
    using s by (auto simp: penniless_def auto_snapshot_def to_shared_def)
  show "penniless (destruct (mem_host keccak rlp) a b s)"
    using s penniless_set_balance
    by (simp add: destruct_def add_balance_def penniless_balance wei_checked_add_def del: mem_ws_sel(7))
  show "penniless (snd (transfer_balance (mem_host keccak rlp) src dst v s))"
    by (rule penniless_transfer [OF s])
  show "penniless s" by (rule s)
next
  show "penniless u \<Longrightarrow> penniless (ws_rollback (mem_host keccak rlp) u s)" for u s
    by (simp add: auto_rollback_def)
qed

lemma node_run_penniless:
  assumes "penniless st" and "node_run keccak rlp fuel from' to value gas gas_price data st prev xenv = Some (st', res)"
  shows "penniless st'"
  using assms(2)
proof (rule node_run_reaches)
  fix al c t
  assume "tx_begin (mem_host keccak rlp) from' to value gas data
      (tx_context (mem_host keccak rlp) from' gas gas_price al st (Const prev) xenv) = Ok () c"
    and "tx_reaches (mem_host keccak rlp) c t" and "st' = cx_state t"
  with poor.tx_keeps_property [OF assms(1)] show ?thesis by (simp split: if_splits)
qed

text \<open>The invariant of a session.\<close>

definition play_inv :: "playback \<Rightarrow> bool" where
  "play_inv p \<longleftrightarrow> penniless (pb_state p) \<and> money_free (pb_committed p)"

lemma println_keeps: "pres (keeps play_inv) (println line)"
  by (simp add: println_def pres_def keeps_def modify_def play_inv_def)

lemma play_exec_keeps: "pres (keeps play_inv) (play_exec (node_run keccak rlp fuel) sender to value gas gp input env)"
  using node_run_penniless
  by (fastforce simp: play_exec_def pres_def keeps_def play_inv_def bind_def gets_def unwrap_def ret_def panic_def modify_def
      split: option.splits)

lemma or_fail_keeps: "(\<And>a. pres (keeps P) (f a)) \<Longrightarrow> pres (keeps P) (or_fail x f)"
  by (cases x) (simp_all add: or_fail_def keep.pres_ret)

lemma slice2_keeps: "pres (keeps P) (slice2 s)"
  unfolding slice2_def by (intro keep.pres_rules)

lemma pres_result:
  "(\<And>d g a. pres R (m d g a)) \<Longrightarrow> (\<And>d g e. pres R (n d g e)) \<Longrightarrow>
    pres R (case r of TxSucceeded d g a \<Rightarrow> m d g a | TxReverted d g e \<Rightarrow> n d g e)"
  by (cases r) simp_all

lemma play_run_tx_keeps: "pres (keeps play_inv) (play_run_tx pl (node_run keccak rlp fuel) json)"
  unfolding play_run_tx_def
  by (intro or_fail_keeps slice2_keeps play_exec_keeps println_keeps pres_result keep.pres_rules)

lemma play_state_keeps:
  "pres (keeps play_inv) (modify (\<lambda>p. p\<lparr>pb_state := ws_create_account (mem_ws keccak) acc (pb_state p)\<rparr>))"
  "pres (keeps play_inv) (modify (\<lambda>p. p\<lparr>pb_state := ws_set_nonce (mem_ws keccak) acc nonce (pb_state p)\<rparr>))"
  "pres (keeps play_inv) (modify (\<lambda>p. case to_shared (pb_state p) of (st, shared) \<Rightarrow>
     p\<lparr>pb_state := st, pb_committed := shared_consolidate None shared\<rparr>))"
  by (simp_all add: pres_def keeps_def modify_def play_inv_def penniless_def free_writes free_convert to_shared_def free_consolidate)

lemma play_run_keeps: "pres (keeps play_inv) (play_run keccak pl (node_run keccak rlp fuel) action data)"
  unfolding play_run_def
  by (intro play_state_keeps play_run_tx_keeps println_keeps keep.pres_rules)

lemma play_line_keeps: "pres (keeps play_inv) (play_line keccak pl (node_run keccak rlp fuel) s)"
  unfolding play_line_def by (intro keep.pres_rules play_run_keeps)

lemma playback_new_inv: "play_inv (playback_new keccak)"
  by (simp add: playback_new_def play_inv_def penniless_def to_shared_def auto_new_def mem_rev_new_def empty_state_def)

lemma al_init_Ok: "\<exists>al. al_init f t ps als al_empty = Ok () al"
  using acts_init [of f t ps als] al_wf_empty unfolding acts_def by fastforce

lemma overdraft_reverts:
  assumes "penniless st" and "value \<noteq> 0" and "21000 \<le> gas" and "rev_get_nonce (convert_ref st) from' + 1 < 2 ^ 64"
  shows "\<exists>st'. node_run keccak rlp fuel from' to value gas gp input st prev env = Some (st', TxReverted [] (gas - 21000) InsufficientBalance)"
proof -
  let ?h = "mem_host keccak rlp"
  obtain al where al: "al_init from' to (map fst (env_precompiled env)) None al_empty = Ok () al" using al_init_Ok by blast
  have pos: "0 < value" using assms(2) by (simp add: word_neq_0_conv)
  have zero: "rev_get_balance (convert_ref st) a = 0" "rev_get_balance (rev_set_nonce from' n (convert_mut st)) a = 0" for a n
    using assms(1) by (simp_all add: penniless_balance free_balance free_writes penniless_mut)
  show ?thesis
    using assms(3,4) al pos zero
    by (cases to) (simp_all add: node_run_def tx_exec_def tx_begin_def tx_start_def tx_context_def exec_defs take_snapshot_def
        upd_state_def auto_snapshot_def to_shared_def call_do_def create_do_def call_depth_def Let_def exec_loop_Finished)
qed

text \<open>
  C27. A playback session: whatever the script, as long as it does not panic, no account ever has a balance, in the
  state played on and in the committed one; so every transaction with a value, from any account and to any address or as a
  creation, is reverted for lack of funds before its first instruction (a transaction line of the recorded
  chain that moved money is replayed as a failure).
\<close>

theorem playback_moves_no_money:
  assumes "playback_main keccak pl (node_run keccak rlp fuel) script = Ok () p"
  shows "(\<forall>a. rev_get_balance (convert_ref (pb_state p)) a = 0 \<and> rev_get_balance (pb_committed p) a = 0) \<and>
    (\<forall>from' to value gas gp input env. value \<noteq> 0 \<and> 21000 \<le> gas \<and> rev_get_nonce (convert_ref (pb_state p)) from' + 1 < 2 ^ 64 \<longrightarrow>
      (\<exists>q. play_exec (node_run keccak rlp fuel) from' to value gas gp input env p
         = Ok (TxReverted [] (gas - 21000) InsufficientBalance) q))"
proof -
  have "pres (keeps play_inv) (for_each script (play_line keccak pl (node_run keccak rlp fuel)))"
    by (rule for_each_pres) (rule play_line_keeps)
  from pres_OkD [OF this assms [unfolded playback_main_def]] have inv: "play_inv p"
    using playback_new_inv by (simp add: keeps_def)
  then have p: "penniless (pb_state p)" "money_free (pb_committed p)" by (simp_all add: play_inv_def)
  have "\<exists>q. play_exec (node_run keccak rlp fuel) from' to v gas gp input env p
      = Ok (TxReverted [] (gas - 21000) InsufficientBalance) q"
    if "v \<noteq> 0" "21000 \<le> gas" "rev_get_nonce (convert_ref (pb_state p)) from' + 1 < 2 ^ 64" for from' to v gas gp input env
    using overdraft_reverts [OF p(1) that, of keccak rlp fuel to gp input "pb_committed p" env]
    by (auto simp: play_exec_def bind_def gets_def unwrap_def ret_def modify_def)
  with p show ?thesis by (simp add: penniless_balance free_balance)
qed

text \<open>A script that creates an account, sets its nonce and commits, with the addresses written in decimal digits.\<close>

definition sample_play :: play_libs where
  "sample_play = hex_libs.extend std_hex (play_libs.fields (\<lambda>_. None) (\<lambda>_. None)
     (\<lambda>s. map_option word_of_nat (u64_from_str s)) (\<lambda>a. base_digits 10 (unat a)) (\<lambda>_. 0))"

definition sample_script :: "string list" where
  "sample_script = [''create_account 7'', ''set_nonce 7 41'', ''comment'', ''block_commit '']"

lemma sample_play_sel [simp]:
  "pl_h160_from_str sample_play s = map_option word_of_nat (u64_from_str s)"
  "pl_h160 sample_play a = base_digits 10 (unat a)"
  by (simp_all add: sample_play_def hex_libs.defs play_libs.defs)

lemma sample_lines:
  "play_line k sample_play run ''create_account 7'' = bind (println (base_digits 10 7 @ ''.create'')) (\<lambda>_.
     modify (\<lambda>p. p\<lparr>pb_state := ws_create_account (mem_ws k) 7 (pb_state p)\<rparr>))"
  "play_line k sample_play run ''set_nonce 7 41'' = bind (println (base_digits 10 7 @ ''.nonce = '' @ base_digits 10 41)) (\<lambda>_.
     modify (\<lambda>p. p\<lparr>pb_state := ws_set_nonce (mem_ws k) 7 41 (pb_state p)\<rparr>))"
  "play_line k sample_play run ''comment'' = ret ()"
  by (simp_all add: play_line_def play_run_def Let_def u64_from_str_def digit_val_def bind_def unwrap_def ret_def fun_eq_iff)

theorem playback_witness:
  "\<exists>p q. playback_main no_hash sample_play (node_run no_hash no_rlp 0) sample_script = Ok () p
    \<and> rev_get_nonce (pb_committed p) 7 = 41
    \<and> play_exec (node_run no_hash no_rlp 0) 7 (Some 2) 1 30000 0 [] (sample_env London) p
        = Ok (TxReverted [] 9000 InsufficientBalance) q"
proof -
  obtain p where p: "playback_main no_hash sample_play (node_run no_hash no_rlp 0) sample_script = Ok () p"
    "rev_get_nonce (pb_committed p) 7 = 41" "rev_get_nonce (convert_ref (pb_state p)) 7 = 41"
    by (simp add: playback_main_def sample_script_def sample_lines playback_new_def to_shared_def auto_new_def mem_rev_new_def
        bind_def modify_def println_def ret_def play_line_def [of _ _ _ "''block_commit ''"] play_run_def mut_from_shared_def
        rev_writes rev_create_account_def Let_def upd_delta_def shared_consolidate_def rev_consolidate_def overlay_delta_def
        overlay_account_def empty_delta_def account_delta_default_def rev_get_nonce_def)
  have "\<exists>q. play_exec (node_run no_hash no_rlp 0) 7 (Some 2) 1 30000 0 [] (sample_env London) p
      = Ok (TxReverted [] (30000 - 21000) InsufficientBalance) q"
    by (rule playback_moves_no_money [OF p(1), THEN conjunct2, rule_format]) (simp add: p(3))
  with p show ?thesis by simp
qed

end
