(* ===== verification/HelloWorld.thy ===== *)
theory HelloWorld
  imports Playback
begin

text \<open>
  The example \<open>src/examples/hello-world.rs\<close>: a contract is deployed on the empty world and called three times, each
  transaction through \<open>run_single_tx\<close>, and the results are printed. The locals \<open>state\<close> and \<open>committed_state\<close> and the printed
  lines are those of \<open>playback\<close>; the hex crate and the text forms of addresses are parameters.
\<close>

definition hello_code :: string where
  "hello_code =
     ''60806040526000805463ffffffff1916905534801561001d57600080fd5b506101c48061002d6000396000f3fe60806040523480156100'' @
     ''1057600080fd5b506004361061002b5760003560e01c8063247fbaa314610030575b600080fd5b61004361003e3660046100c8565b6100'' @
     ''5a565b6040516100519291906100f5565b60405180910390f35b600080546060919083908290819061007990849063ffffffff16610158'' @
     ''565b82546101009290920a63ffffffff81810219909316918316021790915560005460408051808201909152600d81526c48656c6c6f2c'' @
     ''20576f726c642160981b6020820152969116945092505050565b6000602082840312156100da57600080fd5b813563ffffffff81168114'' @
     ''6100ee57600080fd5b9392505050565b604081526000835180604084015260005b81811015610123576020818701810151606086840101'' @
     ''5201610106565b81811115610135576000606083860101525b5063ffffffff93909316602083015250601f91909101601f191601606001'' @
     ''919050565b600063ffffffff80831681851680830382111561018557634e487b7160e01b600052601160045260246000fd5b0194935050'' @
     ''505056fea264697066735822122099dc4dc06dd14a16b616dff4a116b5da7d7ff983f15d95b639cfcc47afd275b364736f6c634300080b'' @
     ''0033''"

definition hello_input :: string where
  "hello_input = ''247fbaa3000000000000000000000000000000000000000000000000000000000000002a''"

definition hello_env :: "play_libs \<Rightarrow> exec_env" where
  "hello_env pl =
     \<lparr>env_chain_id = 0,
      env_block = \<lparr>bi_coinbase = 0, bi_timestamp = 0, bi_number = 0, bi_difficulty = 0, bi_gas_limit = 1000000,
        bi_base_fee = 0, bi_fork = London\<rparr>,
      env_precompiled = [], env_block_hash = pl_block_hash pl\<rparr>"

definition hello_deploy :: "play_libs \<Rightarrow> tx_runner \<Rightarrow> addr \<Rightarrow> bytes \<Rightarrow> (playback, addr) exec" where
  "hello_deploy pl run_tx alice code =
     bind (play_exec run_tx alice None 0 1000000 0 code (hello_env pl)) (\<lambda>res.
     case res of
       TxSucceeded data _ addr \<Rightarrow>
         bind (unwrap addr) (\<lambda>addr.
         bind (println (''contract deployed (data='' @ hx_encode pl data @ '' addr='' @ pl_h160 pl addr @ '')'')) (\<lambda>_.
         ret addr))
     | TxReverted _ _ _ \<Rightarrow> panic)"

definition hello_call :: "play_libs \<Rightarrow> tx_runner \<Rightarrow> addr \<Rightarrow> addr \<Rightarrow> (playback, unit) exec" where
  "hello_call pl run_tx alice addr =
     bind (unwrap (hx_decode pl hello_input)) (\<lambda>input.
     bind (play_exec run_tx alice (Some addr) 0 1000000 0 input (hello_env pl)) (\<lambda>res.
     case res of
       TxSucceeded data _ _ \<Rightarrow> println (''tx returned (data='' @ hx_encode pl data @ '')'')
     | TxReverted data _ err \<Rightarrow>
         println (''tx reverted (data='' @ hx_encode pl data @ '' err='' @ exec_error_debug err @ '')'')))"

definition hello_main :: "(bytes \<Rightarrow> hash) \<Rightarrow> play_libs \<Rightarrow> tx_runner \<Rightarrow> (playback, unit) outcome" where
  "hello_main keccak pl run_tx =
     bind (unwrap (hx_decode pl hello_code)) (\<lambda>code.
     bind (println (''code: '' @ disasm (hx_encode pl) code False)) (\<lambda>_.
     bind (unwrap (pl_h160_from_str pl ''0x71C7656EC7ab88b098defB751B7401B5f6d8976F'')) (\<lambda>alice.
     bind (hello_deploy pl run_tx alice code) (\<lambda>addr.
     for_each [0..<3::nat] (\<lambda>_. hello_call pl run_tx alice addr))))) (playback_new keccak)"

end
