(* ===== verification/NodeStore.thy ===== *)
theory NodeStore
  imports DemoGenesis DemoTxs
begin

text \<open>
  The database of the demo node as one store: what a key holds once the pending batch is written, which keys the tries
  of the world state use, and what \<open>AddBlocks\<close> makes of a chain that is indexed and stored.
\<close>

section \<open>What the keys hold\<close>

definition seen :: "'d rocks_if \<Rightarrow> 'd rw_db \<Rightarrow> bytes \<Rightarrow> bytes option option" where
  "seen rk w k = (case map_of (rev (pending w)) k of Some v \<Rightarrow> Some (Some v) | None \<Rightarrow> rk_get rk (rw_db w) k)"

lemma seen_idle: "rw_wb w = None \<Longrightarrow> seen rk w k = rk_get rk (rw_db w) k"
  by (simp add: seen_def pending_def)

lemma seen_puts:
  "seen rk (wb_puts puts w) k = (case map_of (rev puts) k of Some v \<Rightarrow> Some (Some v) | None \<Rightarrow> seen rk w k)"
  by (auto simp: seen_def map_add_def split: option.splits)

lemma seen_commit:
  assumes "rocks_laws rk" and "rw_commit rk w = Ok a t"
  shows "rw_wb t = None" "rw_prefix t = rw_prefix w" "rk_get rk (rw_db t) k = seen rk w k"
proof -
  from assms(2) consider "rw_wb w = None" "t = w"
    | wb d where "rw_wb w = Some wb" "rk_write rk (rw_db w) wb = Some d" "t = w\<lparr>rw_wb := None, rw_db := d\<rparr>"
    by (auto simp: rw_commit_def exec_defs split: option.splits)
  then have "rw_wb t = None \<and> rw_prefix t = rw_prefix w \<and> rk_get rk (rw_db t) k = seen rk w k"
  proof cases
    case (2 wb d)
    with assms(1) have "rk_get rk d k = (case map_of (rev wb) k of Some v \<Rightarrow> Some (Some v) | None \<Rightarrow> rk_get rk (rw_db w) k)"
      unfolding rocks_laws_def by blast
    with 2 show ?thesis by (simp add: seen_def pending_def)
  qed (simp add: seen_idle)
  then show "rw_wb t = None" "rw_prefix t = rw_prefix w" "rk_get rk (rw_db t) k = seen rk w k" by blast+
qed

section \<open>The tries keep to their prefix\<close>

text \<open>
  The trie library reaches the database only through the methods of \<open>HashDB\<close> that \<open>ReadWriteDB\<close> implements. These put nothing
  under a key without the prefix of the tries, so a commit of the world state leaves blocks, outcomes and the index alone.
\<close>

definition trie_hashdb :: "'d rocks_if \<Rightarrow> 'd trie_if \<Rightarrow> bool" where
  "trie_hashdb rk tr \<longleftrightarrow>
     (\<forall>w root kvs w' r. tr_write tr w root kvs = Some (w', r) \<longrightarrow>
        (\<exists>hasher kf ops. Commit \<notin> set ops \<and> for_each ops (rw_step rk hasher kf) w = Ok () w'))"

definition store_apart :: "'d rocks_if \<Rightarrow> 'd rw_db \<Rightarrow> 'd rw_db \<Rightarrow> bool" where
  "store_apart rk w t \<longleftrightarrow>
     rw_prefix t = rw_prefix w \<and> (\<forall>k. (\<forall>s. k \<noteq> rw_prefix w @ s) \<longrightarrow> seen rk t k = seen rk w k)"

interpretation apart: run_rel "store_apart rk" for rk
  by unfold_locales (auto simp: store_apart_def)

lemma puts_apart: "\<forall>(k, v)\<in>set puts. \<exists>s. k = rw_prefix w @ s \<Longrightarrow> store_apart rk w (wb_puts puts w)"
  by (fastforce simp: store_apart_def seen_puts split: option.split dest!: map_of_SomeD)

lemma node_key_puts: "store_apart rk w (wb_puts [(finalize_key kf w key pre suf, v)] w)"
  "store_apart rk w (wb_puts [(finalize_key kf w key pre suf, v), (finalize_key kf w key' pre' suf', v')] w)"
  by (rule puts_apart, simp add: finalize_key_def)+

lemma emplace_apart: "pres (store_apart rk) (rw_emplace rk kf key pre v)"
  unfolding pres_def
proof
  fix w
  show "case rw_emplace rk kf key pre v w of Ok a t \<Rightarrow> store_apart rk w t | Err e t \<Rightarrow> store_apart rk w t | Panic \<Rightarrow> True"
    using apart.R_refl [of rk w]
    by (auto simp: rw_emplace_def Let_def bind_def unwrap_def ret_def panic_def counter_decode_val when_do_def
        i64_succ_def wb_put_puts node_key_puts split: option.split)
qed

lemma rw_step_apart: "op \<noteq> Commit \<Longrightarrow> pres (store_apart rk) (rw_step rk hasher kf op)"
proof (cases op)
  case (Insert pre v)
  have "pres (store_apart rk) (rw_insert rk hasher kf pre v)"
    using emplace_apart [of rk kf "hasher v" pre v] apart.R_refl [of rk]
    by (auto simp: pres_def rw_insert_def Let_def bind_def ret_def split: outcome.splits)
  with Insert show ?thesis by (auto intro!: apart.pres_rules)
qed (auto simp: rw_remove_def intro: emplace_apart apart.pres_rules)

lemma write_trie_apart:
  assumes "trie_hashdb rk tr"
  shows "pres (store_apart rk) (write_trie tr root kvs)"
proof -
  have "store_apart rk w w'" if wrote: "tr_write tr w root kvs = Some (w', r)" for w w' r
  proof -
    from assms wrote obtain hasher kf ops where ops: "Commit \<notin> set ops" "for_each ops (rw_step rk hasher kf) w = Ok () w'"
      unfolding trie_hashdb_def by blast
    have "pres (store_apart rk) (for_each ops (rw_step rk hasher kf))"
      using ops(1) by (induction ops) (auto intro!: apart.pres_rules rw_step_apart)
    from pres_OkD [OF this ops(2)] show ?thesis .
  qed
  then show ?thesis by (auto simp: pres_def write_trie_def split: option.split)
qed

lemma map_each_apart: "(\<And>x. pres (store_apart rk) (f x)) \<Longrightarrow> pres (store_apart rk) (map_each xs f)"
  by (induction xs) (auto intro!: apart.pres_rules)

lemma reader_account_apart: "pres (store_apart rk) (reader_account tr root a)"
proof -
  have "pres (store_apart rk) (mdb_get tr key root)" for key
    using apart.R_refl [of rk] by (auto simp: pres_def mdb_get_def split: option.split)
  moreover have "pres (store_apart rk) (account_decode raw)" for raw
    unfolding account_decode_def Let_def by (intro apart.pres_rules)
  ultimately show ?thesis unfolding reader_account_def by (intro apart.pres_rules)
qed

lemma merkle_commit_apart:
  assumes "trie_hashdb rk tr"
  shows "pres (store_apart rk) (merkle_commit tr it root delta (merkle_reader keccak tr r))"
proof -
  have "pres (store_apart rk) (gather_account (merkle_reader keccak tr r) aa)" for aa
    unfolding gather_account_def merkle_reader_def account_reader.simps reader_get_balance_def reader_get_nonce_def
      reader_get_code_def reader_get_account_root_def Let_def
    by (intro apart.pres_rules reader_account_apart)
  moreover have "pres (store_apart rk) (write_account tr it g)" for g
    unfolding write_account_def by (intro apart.pres_rules write_trie_apart assms)
  ultimately show ?thesis
    unfolding merkle_commit_def by (intro apart.pres_rules map_each_apart write_trie_apart assms)
qed

text \<open>In turn, blocks, outcomes and the index touch no key of the tries.\<close>

definition own_keys :: "'d rocks_if \<Rightarrow> 'd rw_db \<Rightarrow> 'd rw_db \<Rightarrow> bool" where
  "own_keys rk w t \<longleftrightarrow>
     rw_prefix t = rw_prefix w \<and> rw_null_hash t = rw_null_hash w \<and> rw_null_data t = rw_null_data w \<and>
     (\<forall>s. seen rk t (rw_prefix w @ s) = seen rk w (rw_prefix w @ s))"

interpretation own: run_rel "own_keys rk" for rk
  by unfold_locales (auto simp: own_keys_def)

lemma own_puts: "\<forall>(k, v)\<in>set puts. \<forall>s. k \<noteq> rw_prefix w @ s \<Longrightarrow> own_keys rk w (wb_puts puts w)"
  by (fastforce simp: own_keys_def seen_puts split: option.split dest!: map_of_SomeD)

lemma own_commit:
  assumes "rocks_laws rk" and "rw_commit rk w = Ok a t"
  shows "own_keys rk w t"
proof -
  note after = seen_commit [OF assms]
  have "rw_null_hash t = rw_null_hash w" "rw_null_data t = rw_null_data w"
    using assms(2) by (auto simp: rw_commit_def exec_defs split: option.splits)
  then show ?thesis using after by (simp add: own_keys_def seen_idle)
qed

lemma own_db:
  assumes "rw_wb w = None" and "\<And>s. rk_get rk d (rw_prefix w @ s) = rk_get rk (rw_db w) (rw_prefix w @ s)"
  shows "own_keys rk w (w\<lparr>rw_db := d\<rparr>)"
  using assms by (simp add: own_keys_def seen_idle)

text \<open>
  The trie library reads through \<open>HashDB::get\<close> and \<open>contains\<close>, which look at the keys with the prefix of the tries in the
  database and not at the pending batch.
\<close>

definition trie_own :: "'d rocks_if \<Rightarrow> 'd trie_if \<Rightarrow> bool" where
  "trie_own rk tr \<longleftrightarrow>
     (\<forall>w t. rw_prefix t = rw_prefix w \<and> rw_null_hash t = rw_null_hash w \<and> rw_null_data t = rw_null_data w \<and>
        (\<forall>s. rk_get rk (rw_db t) (rw_prefix w @ s) = rk_get rk (rw_db w) (rw_prefix w @ s)) \<longrightarrow>
        tr_read tr t = tr_read tr w \<and> tr_has tr t = tr_has tr w)"

section \<open>A chain that is indexed and stored\<close>

text \<open>
  The path \<open>bs\<close> is the index, in memory and on disk; the block tree has its blocks, all attached, and the
  database no other block; no batch is pending; the cache of transactions points into the path.
\<close>

abbreviation block_hash :: "'d demo_env \<Rightarrow> demo_block \<Rightarrow> hash" where
  "block_hash env \<equiv> demo_block_hash (de_keccak env)"

definition tree_is :: "'d demo_env \<Rightarrow> demo_block chain \<Rightarrow> demo_block list \<Rightarrow> bool" where
  "tree_is env c bs \<longleftrightarrow>
     chain_inv (demo_bk env) c \<and> chain_known c = map_of (map (\<lambda>b. (block_hash env b, b)) bs) \<and>
     (\<forall>b\<in>set bs. is_attached c (block_hash env b)) \<and> distinct (0 # map (block_hash env) bs)"

definition path_linked :: "'d demo_env \<Rightarrow> demo_block list \<Rightarrow> bool" where
  "path_linked env bs \<longleftrightarrow>
     (\<forall>i<length bs. db_number (bs ! i) = i \<and> (0 < i \<longrightarrow> db_parent_hash (bs ! i) = block_hash env (bs ! (i - 1))))"

definition outcome_stored :: "'d demo_env \<Rightarrow> 'd \<Rightarrow> demo_block \<Rightarrow> bool" where
  "outcome_stored env d b \<longleftrightarrow>
     (\<exists>o' :: unit block_outcome. rk_get (de_rocks env) d (gen_outcome_key (block_hash env b)) = Some (Some (outcome_encode o')) \<and>
        length (bo_contract_addrs o') = length (bo_gas_used o') \<and> length (bo_gas_used o') < 2 ^ 64)"

definition store_has :: "'d demo_env \<Rightarrow> 'd rw_db \<Rightarrow> demo_block list \<Rightarrow> bool" where
  "store_has env w bs \<longleftrightarrow>
     rw_wb w = None \<and> rw_prefix w = DB_PREFIX_MERKLE \<and> chain_stored env (rw_db w) bs \<and> (\<forall>b\<in>set bs. outcome_stored env (rw_db w) b) \<and>
     (\<forall>h raw. h \<notin> set (0 # map (block_hash env) bs) \<longrightarrow> rk_get (de_rocks env) (rw_db w) (gen_block_key h) \<noteq> Some (Some raw))"

definition cache_in :: "'d demo_state \<Rightarrow> demo_block list \<Rightarrow> bool" where
  "cache_in s bs \<longleftrightarrow>
     (\<forall>h b i. dc_tx_cache s h = Some (b, i) \<longrightarrow> b \<in> set bs \<and> i < length (db_txs b) \<and> stx_hash (db_txs b ! i) = h)"

definition chain_holds :: "'d demo_env \<Rightarrow> 'd demo_state \<Rightarrow> demo_block list \<Rightarrow> bool" where
  "chain_holds env s bs \<longleftrightarrow>
     bs \<noteq> [] \<and> length bs < 2 ^ 64 \<and> dc_indexed s = map Some bs \<and> path_linked env bs \<and> tree_is env (dc_chain s) bs \<and>
     store_has env (dc_mdb s) bs \<and> cache_in s bs"

lemma read_gas_used_total:
  "\<exists>gs'. read_gas_used (length gs) (concat (map (\<lambda>(g0, g1). le_bytes 8 g0 @ le_bytes 8 g1) gs) @ rest) = Some (gs', rest)"
  by (induction gs) (auto simp: read_exact_append)

lemma read_contract_addrs_total:
  "\<exists>as'. read_contract_addrs (length as)
      (concat (map (\<lambda>addr. addr_as_bytes (case addr of Some a \<Rightarrow> a | None \<Rightarrow> 0)) as) @ rest) = Some (as', rest)"
  by (induction as) (auto simp: read_exact_append Let_def)

lemma outcome_reads:
  assumes "length (bo_contract_addrs o') = length (bo_gas_used o')" and "length (bo_gas_used o') < 2 ^ 64"
  shows "\<exists>bo. outcome_decode (outcome_encode o') w s = Ok (Some bo) s \<and> bo_world_state bo = w"
proof -
  let ?as = "concat (map (\<lambda>addr. addr_as_bytes (case addr of Some a \<Rightarrow> a | None \<Rightarrow> 0)) (bo_contract_addrs o'))"
  obtain gs where "read_gas_used (length (bo_gas_used o')) (concat (map (\<lambda>(g0, g1). le_bytes 8 g0 @ le_bytes 8 g1) (bo_gas_used o')) @
      le_bytes 8 (length (bo_contract_addrs o')) @ ?as) = Some (gs, le_bytes 8 (length (bo_contract_addrs o')) @ ?as)"
    using read_gas_used_total by blast
  moreover obtain as where "read_contract_addrs (length (bo_contract_addrs o')) ?as = Some (as, [])"
    using read_contract_addrs_total [of "bo_contract_addrs o'" "[]"] by auto
  ultimately show ?thesis using assms
    by (simp add: outcome_decode_def outcome_encode_def read_exact_append ret_def)
qed

lemma stored_state_reads:
  assumes "outcome_stored env (rw_db (dc_mdb s)) b"
  obtains bo where "get_block_state env b s = Ok (Some bo) s"
    "bo_world_state bo = mem_rev_new (merkle_world (de_keccak env) (de_trie env) (dc_mdb s)
       (if db_root_hash b = 0 then None else Some (db_root_hash b)))"
proof -
  from assms obtain o' :: "unit block_outcome" where
    o': "rk_get (de_rocks env) (rw_db (dc_mdb s)) (gen_outcome_key (block_hash env b)) = Some (Some (outcome_encode o'))"
    "length (bo_contract_addrs o') = length (bo_gas_used o')" "length (bo_gas_used o') < 2 ^ 64"
    unfolding outcome_stored_def by blast
  let ?w = "mem_rev_new (merkle_world (de_keccak env) (de_trie env) (dc_mdb s) (if db_root_hash b = 0 then None else Some (db_root_hash b)))"
  obtain bo where "outcome_decode (outcome_encode o') ?w s = Ok (Some bo) s \<and> bo_world_state bo = ?w"
    using outcome_reads [OF o'(2,3), of ?w s] by (rule exE)
  then show thesis by (intro that) (simp add: get_block_state_def o'(1) Let_def, blast)
qed

lemma tree_is_block:
  assumes "tree_is env c bs" and "b \<in> set bs"
  shows "get_block c (block_hash env b) = Some b" "is_attached c (block_hash env b)" "block_hash env b \<noteq> 0"
proof -
  have "distinct (map fst (map (\<lambda>b. (block_hash env b, b)) bs))" using assms(1) by (simp add: tree_is_def comp_def)
  with assms have "map_of (map (\<lambda>b. (block_hash env b, b)) bs) (block_hash env b) = Some b" by (intro map_of_is_SomeI) auto
  with assms(1) show "get_block c (block_hash env b) = Some b" by (simp add: tree_is_def get_block_known)
  show "is_attached c (block_hash env b)" "block_hash env b \<noteq> 0" using assms by (auto simp: tree_is_def)
qed

lemma tree_is_known: "tree_is env c bs \<Longrightarrow> h \<notin> set (map (block_hash env) bs) \<Longrightarrow> chain_known c h = None"
  by (auto simp: tree_is_def map_of_eq_None_iff)

lemma holds_linked:
  assumes "path_linked env bs" and "tree_is env (dc_chain s) bs"
  shows "linked env s bs"
  using assms tree_is_block [OF assms(2)] by (auto simp: linked_def path_linked_def in_chain_def)

lemma path_snoc:
  assumes "path_linked env bs" and "bs \<noteq> []" and "db_number b = length bs" and "db_parent_hash b = block_hash env (last bs)"
  shows "path_linked env (bs @ [b])"
  unfolding path_linked_def
proof (intro allI impI)
  fix i
  assume "i < length (bs @ [b])"
  then consider "i < length bs" | "i = length bs" by fastforce
  then show "db_number ((bs @ [b]) ! i) = i \<and> (0 < i \<longrightarrow> db_parent_hash ((bs @ [b]) ! i) = block_hash env ((bs @ [b]) ! (i - 1)))"
    by cases (use assms in \<open>auto simp: path_linked_def nth_append last_conv_nth\<close>)
qed

text \<open>A block whose hash is new is attached to its parent.\<close>

lemma tree_snoc:
  assumes tree: "tree_is env c bs" and ne: "bs \<noteq> []" and par: "db_parent_hash b = block_hash env (last bs)"
    and add: "add_block (demo_bk env) b c = Ok b' t" and new: "block_hash env b' \<notin> set (0 # map (block_hash env) bs)"
  shows "b' = b" "tree_is env t (bs @ [b])"
proof -
  let ?h = "block_hash env"
  have inv: "chain_inv (demo_bk env) c" using tree by (simp add: tree_is_def)
  have fresh: "?h b \<notin> set (map ?h bs)"
  proof
    assume "?h b \<in> set (map ?h bs)"
    then obtain b0 where b0: "b0 \<in> set bs" "?h b = ?h b0" by auto
    note got = tree_is_block(1) [OF tree b0(1)]
    have "b' = b0" using add got b0(2) by (auto simp: add_block_def get_block_def Let_def split: option.splits)
    then show False using new b0(1) by simp
  qed
  from tree_is_block(2) [OF tree last_in_set [OF ne]] obtain p where
    "map_of (ch_attached c) (bk_parent (demo_bk env) b) = Some p" by (auto simp: is_attached_def demo_bk_def par)
  from add_block_attach [OF inv _ this] tree_is_known [OF tree fresh] add have
    t: "b' = b" "chain_inv (demo_bk env) t" "chain_known t = (chain_known c)(?h b \<mapsto> b)" "ch_base t = ch_base c"
    by auto
  then show "b' = b" by blast
  have sub: "chain_known c \<subseteq>\<^sub>m chain_known t" using tree_is_known [OF tree fresh] by (auto simp: t(3) map_le_def dom_def)
  have conn: "is_attached c h \<Longrightarrow> is_attached t h" for h
    using attached_iff_connected [OF inv] attached_iff_connected [OF t(2)] connected_mono [OF _ sub] t(4) by metis
  have "is_attached t (bk_parent (demo_bk env) b)"
    using conn tree_is_block(2) [OF tree last_in_set [OF ne]] by (simp add: demo_bk_def par)
  then have "is_attached t (?h b)"
    using t(3) by (auto simp: attached_iff_connected [OF t(2)] intro: connected_child)
  with tree conn t new fresh tree_is_known [OF tree fresh] show "tree_is env t (bs @ [b])"
    by (auto simp: tree_is_def fun_eq_iff map_add_def split: option.splits)
qed

section \<open>Adding one block\<close>

lemma block_key_eq: "gen_block_key a = gen_block_key b \<longleftrightarrow> a = b"
  by (simp add: gen_block_key_def hash_bytes_inj)

lemma outcome_key_eq: "gen_outcome_key a = gen_outcome_key b \<longleftrightarrow> a = b"
  by (simp add: gen_outcome_key_def hash_bytes_inj)

lemma keys_apart:
  "gen_block_key h \<noteq> gen_index_key i" "gen_block_key h \<noteq> gen_outcome_key g" "gen_outcome_key g \<noteq> gen_index_key i"
  "gen_block_key h \<noteq> DB_PREFIX_MERKLE @ s" "gen_outcome_key h \<noteq> DB_PREFIX_MERKLE @ s" "gen_index_key i \<noteq> DB_PREFIX_MERKLE @ s"
  by (simp_all add: gen_block_key_def gen_index_key_def gen_outcome_key_def prefix_values)

lemmas keys_apart' = keys_apart [THEN not_sym]

text \<open>The store after the tries, the block and its outcome have been written.\<close>

lemma block_put:
  assumes "rocks_laws rk" and "store_apart rk w w1" and "rw_prefix w = DB_PREFIX_MERKLE" and "rw_wb w = None"
    and "rw_commit rk (wb_puts [(gen_block_key h, v), (gen_outcome_key g, v')] w1) = Ok () w2"
  shows "rw_wb w2 = None" "rw_prefix w2 = DB_PREFIX_MERKLE"
    "rk_get rk (rw_db w2) (gen_block_key h') = (if h' = h then Some (Some v) else rk_get rk (rw_db w) (gen_block_key h'))"
    "rk_get rk (rw_db w2) (gen_index_key i) = rk_get rk (rw_db w) (gen_index_key i)"
    "rk_get rk (rw_db w2) (gen_outcome_key g') = (if g' = g then Some (Some v') else rk_get rk (rw_db w) (gen_outcome_key g'))"
proof -
  note after = seen_commit [OF assms(1,5)]
  have same: "seen rk w1 k = rk_get rk (rw_db w) k" if "\<forall>s. k \<noteq> DB_PREFIX_MERKLE @ s" for k
    using that assms(2,3) seen_idle [OF assms(4), of rk k] by (simp add: store_apart_def)
  show "rw_wb w2 = None" "rw_prefix w2 = DB_PREFIX_MERKLE" using after assms(2,3) by (simp_all add: store_apart_def)
  show "rk_get rk (rw_db w2) (gen_block_key h') = (if h' = h then Some (Some v) else rk_get rk (rw_db w) (gen_block_key h'))"
    by (simp add: after(3) seen_puts keys_apart keys_apart' block_key_eq same)
  show "rk_get rk (rw_db w2) (gen_index_key i) = rk_get rk (rw_db w) (gen_index_key i)"
    by (simp add: after(3) seen_puts keys_apart keys_apart' same)
  show "rk_get rk (rw_db w2) (gen_outcome_key g') = (if g' = g then Some (Some v') else rk_get rk (rw_db w) (gen_outcome_key g'))"
    by (simp add: after(3) seen_puts keys_apart keys_apart' outcome_key_eq same)
qed

lemma bind_found: "m s = Ok a t \<Longrightarrow> bind m f s = f a t"
  by (simp add: bind_def)

lemma transition_reads:
  assumes holds: "chain_holds env s bs" and par: "db_parent_hash block = block_hash env (last bs)"
    and run: "process_state_transition env run_tx block s = Ok r t"
  shows "t = s"
proof -
  have last: "last bs \<in> set bs" and tree: "tree_is env (dc_chain s) bs" using holds by (simp_all add: chain_holds_def)
  have got: "get_block_by_hash env (db_parent_hash block) s = Ok (Some (last bs)) s"
    unfolding par by (rule get_block_by_hash_in_chain [of env s]) (use tree_is_block [OF tree last] in \<open>simp_all add: in_chain_def\<close>)
  note run [unfolded process_state_transition_def bind_found [where m = "get_block_by_hash env (db_parent_hash block)", OF got] option.case]
  then show ?thesis
    by (rule reads_onlyD [rotated]) (intro reads_rules reads_block_state, auto simp: pres_def split: outcome.split bool.split)
qed

text \<open>An outcome has an entry of each kind per successful transaction.\<close>

lemma transition_lengths:
  assumes "process_state_transition env run_tx block s = Ok (Some (outcome, old_root)) t"
  shows "length (bo_contract_addrs outcome) = length (bo_gas_used outcome)" "length (bo_gas_used outcome) \<le> length (db_txs block)"
proof -
  have "length (pg_contract_addrs p) = length (pg_gas_used p) \<and> length (pg_gas_used p) \<le> length (db_txs block)"
    if "process_txs (de_keccak env) run_tx w xenv (db_txs block)
        \<lparr>pg_state = Const w, pg_gas_cumu = 0, pg_gas_used = [], pg_contract_addrs = []\<rparr> = Ok True p" for w xenv p
  proof -
    have "accounted p (0 + length (db_txs block)) (0 + sum_list (map tx_gas_limit (db_txs block)))"
      by (rule process_txs_accounted [OF that]) (simp add: accounted_def gas_entries_ok_def)
    then show ?thesis by (simp add: accounted_def)
  qed
  with assms show "length (bo_contract_addrs outcome) = length (bo_gas_used outcome)" "length (bo_gas_used outcome) \<le> length (db_txs block)"
    by (auto simp: process_state_transition_def bind_def ret_def split: option.splits outcome.splits bool.splits)
qed

text \<open>What the statements of the loop of \<open>AddBlocks\<close> have done when they have not panicked.\<close>

lemma add_one_block_Ok:
  assumes holds: "chain_holds env s bs" and par: "p_hash = block_hash env (last bs)"
    and run: "add_one_block env run_tx number p_hash block s = Ok h t"
  obtains root outcome delta old_root w1 b c w2 where
    "process_state_transition env run_tx (block\<lparr>db_number := number, db_parent_hash := p_hash\<rparr>) s = Ok (Some (outcome, old_root)) s"
    "consolidated_delta (bo_world_state outcome) = Some delta"
    "merkle_commit (de_trie env) (de_iter env) (Some old_root) delta
       (merkle_reader (de_keccak env) (de_trie env) (get_reader (Some old_root))) (dc_mdb s) = Ok root w1"
    "add_block (demo_bk env) (block\<lparr>db_number := number, db_parent_hash := p_hash, db_root_hash := root\<rparr>) (dc_chain s) = Ok b c"
    "h = block_hash env b"
    "rw_commit (de_rocks env) (wb_puts [(gen_block_key h, demo_encode (de_libs env) b), (gen_outcome_key h, outcome_encode outcome)] w1)
       = Ok () w2"
    "when_do (word_of_nat (length (dc_indexed s)) \<le> bk_number (demo_bk env) b \<and> is_attached c h) (set_canonical_tail env b)
       (s\<lparr>dc_chain := c, dc_mdb := w2\<rparr>) = Ok () t"
proof -
  let ?block = "block\<lparr>db_number := number, db_parent_hash := p_hash\<rparr>"
  from run obtain r s1 where trans: "process_state_transition env run_tx ?block s = Ok r s1"
    by (auto simp: add_one_block_def bind_Ok_conv Let_def)
  have "s1 = s" by (rule transition_reads [OF holds _ trans]) (simp add: par)
  with run trans show thesis
    by (auto simp: add_one_block_def bind_def unwrap_def ret_def panic_def gets_def Let_def zoom_def wb_put_puts
        split: option.splits outcome.splits prod.splits) (rule that, assumption, assumption, assumption, assumption, simp_all)
qed

text \<open>The database with the block and the index of the longer path.\<close>

lemma store_snoc:
  assumes rocks: "rocks_laws (de_rocks env)" and store: "store_has env w bs" and ne: "bs \<noteq> []" and len: "length bs + 1 < 2 ^ 64"
    and apart: "store_apart (de_rocks env) w w1" and new: "block_hash env b \<notin> set (0 # map (block_hash env) bs)"
    and put: "rw_commit (de_rocks env) (wb_puts [(gen_block_key (block_hash env b), demo_encode (de_libs env) b),
        (gen_outcome_key (block_hash env b), outcome_encode o')] w1) = Ok () w2"
    and lens: "length (bo_contract_addrs o') = length (bo_gas_used o')" "length (bo_gas_used o') < 2 ^ 64"
    and k: "\<forall>j<k. j < length bs \<and> bs ! j = (bs @ [b]) ! j"
    and d: "rk_write (de_rocks env) (rw_db w2) (tail_puts env k (bs @ [b])) = Some d"
  shows "store_has env (w2\<lparr>rw_db := d\<rparr>) (bs @ [b])"
proof -
  from store have w: "rw_prefix w = DB_PREFIX_MERKLE" "rw_wb w = None" and stored: "chain_stored env (rw_db w) bs"
    by (simp_all add: store_has_def)
  note w2 = block_put [OF rocks apart w put]
  have "index_stored env (rw_db w2) bs" using stored w2(4) by (simp add: chain_stored_def index_stored_def)
  note d' = tail_puts_stored [OF _ rocks d this k]
  have blocks: "rk_get (de_rocks env) d (gen_block_key h) =
      (if h = block_hash env b then Some (Some (demo_encode (de_libs env) b)) else rk_get (de_rocks env) (rw_db w) (gen_block_key h))" for h
    using d'(2) [of "gen_block_key h"] len w2(3) by (simp add: keys_apart)
  have "chain_stored env d (bs @ [b])"
    unfolding chain_stored_def
  proof (intro conjI allI impI)
    show "index_stored env d (bs @ [b])" using d'(1) len by simp
    show "rk_get (de_rocks env) d (gen_block_key 0) = Some (Some (demo_encode (de_libs env) ((bs @ [b]) ! 0)))"
      using blocks new stored ne by (simp add: chain_stored_def nth_append)
    show "rk_get (de_rocks env) d (gen_block_key (block_hash env ((bs @ [b]) ! i))) =
        Some (Some (demo_encode (de_libs env) ((bs @ [b]) ! i)))" if "i < length (bs @ [b])" "0 < i" for i
    proof (cases "i < length bs")
      case True
      then have "block_hash env (bs ! i) \<noteq> block_hash env b" using new by (metis list.set_intros(2) nth_map nth_mem length_map)
      with True that stored show ?thesis by (simp add: blocks chain_stored_def nth_append)
    next
      case False
      then have "(bs @ [b]) ! i = b" using that(1) by (simp add: less_Suc_eq)
      then show ?thesis by (simp add: blocks)
    qed
  qed
  moreover have "outcome_stored env d b'" if "b' \<in> set (bs @ [b])" for b'
  proof (cases "block_hash env b' = block_hash env b")
    case True
    have "outcome_encode o' = outcome_encode \<lparr>bo_world_state = (), bo_gas_used = bo_gas_used o', bo_contract_addrs = bo_contract_addrs o'\<rparr>"
      by (simp add: outcome_encode_def)
    with True lens show ?thesis
      using d'(2) [of "gen_outcome_key (block_hash env b)"] len
      by (auto simp: outcome_stored_def w2(5) keys_apart
          intro!: exI [of _ "\<lparr>bo_world_state = (), bo_gas_used = bo_gas_used o', bo_contract_addrs = bo_contract_addrs o'\<rparr>"])
  next
    case False
    then have "outcome_stored env (rw_db w) b'" using that store by (auto simp: store_has_def)
    with False show ?thesis
      using d'(2) [of "gen_outcome_key (block_hash env b')"] len by (simp add: outcome_stored_def w2(5) keys_apart)
  qed
  ultimately show ?thesis using store w2(1,2) by (simp add: store_has_def blocks)
qed

lemma tail_number: "set_canonical_tail env b s = Ok a t \<Longrightarrow> db_number b + 1 < 2 ^ 64"
  by (auto simp: set_canonical_tail_def bind_Ok_conv u64_add_def panic_def split: if_splits)

text \<open>
  \<open>AddBlocks\<close> with one block whose hash is new: the index, in memory and on disk, the tree and the database are those of the
  path with the block.
\<close>

lemma add_one_block_effect:
  assumes rocks: "rocks_laws (de_rocks env)" and trie: "trie_hashdb (de_rocks env) (de_trie env)"
    and holds: "chain_holds env s bs"
    and run: "add_one_block env run_tx (length bs) (block_hash env (last bs)) block s = Ok h t"
    and new: "h \<notin> set (0 # map (block_hash env) bs)" and txs: "length (db_txs block) < 2 ^ 64"
  obtains b root outcome delta old_root w1 where
    "b = block\<lparr>db_number := length bs, db_parent_hash := block_hash env (last bs), db_root_hash := root\<rparr>" "h = block_hash env b"
    "chain_holds env t (bs @ [b])"
    "process_state_transition env run_tx (block\<lparr>db_number := length bs, db_parent_hash := block_hash env (last bs)\<rparr>) s =
      Ok (Some (outcome, old_root)) s"
    "consolidated_delta (bo_world_state outcome) = Some delta"
    "merkle_commit (de_trie env) (de_iter env) (Some old_root) delta
       (merkle_reader (de_keccak env) (de_trie env) (get_reader (Some old_root))) (dc_mdb s) = Ok root w1"
    "own_keys (de_rocks env) w1 (dc_mdb t)" "dc_chain_id t = dc_chain_id s"
    "\<forall>g. rk_get (de_rocks env) (rw_db (dc_mdb t)) (gen_outcome_key g) =
      (if g = h then Some (Some (outcome_encode outcome)) else rk_get (de_rocks env) (rw_db (dc_mdb s)) (gen_outcome_key g))"
  using holds refl run
proof (rule add_one_block_Ok)
  fix root outcome delta old_root w1 b' c w2
  assume trans: "process_state_transition env run_tx (block\<lparr>db_number := length bs, db_parent_hash := block_hash env (last bs)\<rparr>) s =
      Ok (Some (outcome, old_root)) s"
    and delta: "consolidated_delta (bo_world_state outcome) = Some delta"
    and commit: "merkle_commit (de_trie env) (de_iter env) (Some old_root) delta
       (merkle_reader (de_keccak env) (de_trie env) (get_reader (Some old_root))) (dc_mdb s) = Ok root w1"
    and add: "add_block (demo_bk env) (block\<lparr>db_number := length bs, db_parent_hash := block_hash env (last bs),
         db_root_hash := root\<rparr>) (dc_chain s) = Ok b' c"
    and h: "h = block_hash env b'"
    and put: "rw_commit (de_rocks env) (wb_puts [(gen_block_key h, demo_encode (de_libs env) b'),
         (gen_outcome_key h, outcome_encode outcome)] w1) = Ok () w2"
    and tail: "when_do (word_of_nat (length (dc_indexed s)) \<le> bk_number (demo_bk env) b' \<and> is_attached c h)
         (set_canonical_tail env b') (s\<lparr>dc_chain := c, dc_mdb := w2\<rparr>) = Ok () t"
  from holds have ne: "bs \<noteq> []" and index: "dc_indexed s = map Some bs" and path: "path_linked env bs"
    and tree: "tree_is env (dc_chain s) bs" and store: "store_has env (dc_mdb s) bs" and cache: "cache_in s bs"
    by (simp_all add: chain_holds_def)
  define b where "b = block\<lparr>db_number := length bs, db_parent_hash := block_hash env (last bs), db_root_hash := root\<rparr>"
  have b: "db_number b = length bs" "db_parent_hash b = block_hash env (last bs)" by (simp_all add: b_def)
  from tree_snoc [OF tree ne b(2) add [folded b_def]] new h have b': "b' = b" and tree': "tree_is env c (bs @ [b])" by auto
  let ?s = "s\<lparr>dc_chain := c, dc_mdb := w2\<rparr>"
  note apart = pres_OkD [OF merkle_commit_apart [OF trie] commit]
  have idle: "rw_wb w2 = None" by (rule seen_commit(1) [OF rocks put])
  have linked: "linked env ?s (bs @ [b])" using holds_linked [OF path_snoc [OF path ne b]] tree' by simp
  then have linked': "linked env ?s bs" by (auto simp: linked_def nth_append split: if_splits)
  have "word_of_nat (length bs) \<le> bk_number (demo_bk env) b" by (simp add: demo_bk_def b)
  then have "set_canonical_tail env (last (bs @ [b])) ?s = Ok () t"
    using tail tree_is_block(2) [OF tree', of b] by (simp add: index b' h when_do_def)
  moreover from this have len: "length bs + 1 < 2 ^ 64" using tail_number b(1) by fastforce
  ultimately obtain k d where
    k: "\<forall>j<k. j < length bs \<and> bs ! j = (bs @ [b]) ! j"
    and d: "rk_write (de_rocks env) (rw_db w2) (tail_puts env k (bs @ [b])) = Some d"
    and t: "t = ?s\<lparr>dc_indexed := map Some (bs @ [b]), dc_mdb := w2\<lparr>rw_db := d\<rparr>\<rparr>"
    using tail_set_run [OF linked' _ linked] idle by (auto simp: index split: option.splits)
  have lens: "length (bo_contract_addrs outcome) = length (bo_gas_used outcome)" "length (bo_gas_used outcome) < 2 ^ 64"
    using transition_lengths [OF trans] txs by simp_all
  from store_snoc [OF rocks store ne len apart _ _ lens k d] new put have "store_has env (w2\<lparr>rw_db := d\<rparr>) (bs @ [b])"
    by (simp add: h b')
  with tree' path_snoc [OF path ne b] cache len have "chain_holds env t (bs @ [b])"
    by (auto simp: chain_holds_def t cache_in_def)
  moreover have prefix: "rw_prefix w1 = DB_PREFIX_MERKLE" "rw_prefix w2 = DB_PREFIX_MERKLE"
    using apart store own_commit [OF rocks put] by (simp_all add: store_apart_def store_has_def own_keys_def)
  have "length (bs @ [b]) < 2 ^ 64" "index_stored env (rw_db w2) bs"
    using len store block_put(4) [OF rocks apart _ _ put] by (simp_all add: store_has_def chain_stored_def index_stored_def)
  note kept = tail_puts_stored(2) [OF this(1) rocks d this(2) k]
  have "own_keys (de_rocks env) w1 (dc_mdb t)"
  proof (rule own.R_trans [OF own.R_trans [OF own_puts own_commit [OF rocks put]]])
    show "own_keys (de_rocks env) w2 (dc_mdb t)"
      unfolding t by (simp, rule own_db [OF idle]) (rule kept, simp add: prefix keys_apart')
  qed (simp add: prefix keys_apart)
  moreover have "rk_get (de_rocks env) (rw_db (dc_mdb t)) (gen_outcome_key g) =
      (if g = h then Some (Some (outcome_encode outcome)) else rk_get (de_rocks env) (rw_db (dc_mdb s)) (gen_outcome_key g))" for g
    using kept [of "gen_outcome_key g"] block_put(5) [OF rocks apart _ _ put] store by (simp add: t keys_apart store_has_def)
  ultimately show thesis using that [OF b_def _ _ trans delta commit] by (simp add: h b' t)
qed

lemma add_one_block_extends:
  assumes rocks: "rocks_laws (de_rocks env)" and trie: "trie_hashdb (de_rocks env) (de_trie env)"
    and holds: "chain_holds env s bs"
    and run: "add_one_block env run_tx (length bs) (block_hash env (last bs)) block s = Ok h t"
    and new: "h \<notin> set (0 # map (block_hash env) bs)" and txs: "length (db_txs block) < 2 ^ 64"
  shows "\<exists>root. let b = block\<lparr>db_number := length bs, db_parent_hash := block_hash env (last bs), db_root_hash := root\<rparr> in
    h = block_hash env b \<and> chain_holds env t (bs @ [b])"
  by (rule add_one_block_effect [OF assms]) (auto simp: Let_def)


section \<open>When a block is added\<close>

lemma consolidated_all: "consolidated_delta (shared_consolidate None r) \<noteq> None"
proof (cases "rev_parent r")
  case (Internal p)
  have "consolidated_delta (rev_consolidate None r) \<noteq> None"
    using rev_depth_consolidate [of r]
    by (cases "rev_consolidate None r" rule: rev_depth.cases) (simp_all add: consolidated_delta_def)
  with Internal show ?thesis by (simp add: shared_consolidate_def)
qed (simp add: shared_consolidate_def consolidated_delta_def)

text \<open>No statement panics when the state of the tail can be read, the transactions run, and the libraries return.\<close>

lemma add_one_block_runs:
  assumes holds: "chain_holds env s bs" and len: "length bs + 1 < 2 ^ 64" and writes: "\<And>d wb. rk_write (de_rocks env) d wb \<noteq> None"
    and rocks: "rocks_laws (de_rocks env)"
    and state: "get_block_state env (last bs) s = Ok (Some bo) s"
    and txs: "process_txs (de_keccak env) run_tx (bo_world_state bo)
        (get_exec_env env s (block\<lparr>db_number := length bs, db_parent_hash := block_hash env (last bs)\<rparr>)) (db_txs block)
        \<lparr>pg_state = Const (bo_world_state bo), pg_gas_cumu = 0, pg_gas_used = [], pg_contract_addrs = []\<rparr> = Ok True p"
    and commit: "\<And>delta. consolidated_delta (shared_consolidate None (snd (to_shared (pg_state p)))) = Some delta \<Longrightarrow>
        \<exists>root w1. merkle_commit (de_trie env) (de_iter env) (Some (db_root_hash (last bs))) delta
        (merkle_reader (de_keccak env) (de_trie env) (get_reader (Some (db_root_hash (last bs))))) (dc_mdb s) = Ok root w1"
    and new: "\<And>root. block_hash env (block\<lparr>db_number := length bs, db_parent_hash := block_hash env (last bs), db_root_hash := root\<rparr>)
        \<notin> set (0 # map (block_hash env) bs)"
  shows "\<exists>root t. add_one_block env run_tx (length bs) (block_hash env (last bs)) block s =
    Ok (block_hash env (block\<lparr>db_number := length bs, db_parent_hash := block_hash env (last bs), db_root_hash := root\<rparr>)) t"
proof -
  let ?b = "block\<lparr>db_number := length bs, db_parent_hash := block_hash env (last bs)\<rparr>"
  from holds have ne: "bs \<noteq> []" and index: "dc_indexed s = map Some bs" and path: "path_linked env bs"
    and tree: "tree_is env (dc_chain s) bs" by (simp_all add: chain_holds_def)
  obtain delta where delta: "consolidated_delta (shared_consolidate None (snd (to_shared (pg_state p)))) = Some delta"
    using consolidated_all by blast
  obtain root w1 where w1: "merkle_commit (de_trie env) (de_iter env) (Some (db_root_hash (last bs))) delta
      (merkle_reader (de_keccak env) (de_trie env) (get_reader (Some (db_root_hash (last bs))))) (dc_mdb s) = Ok root w1"
    using commit [OF delta] by blast
  define b where "b = ?b\<lparr>db_root_hash := root\<rparr>"
  have b: "db_number b = length bs" "db_parent_hash b = block_hash env (last bs)" by (simp_all add: b_def)
  obtain b' c where add: "add_block (demo_bk env) b (dc_chain s) = Ok b' c"
    using tree add_block_Ok [of "demo_bk env" "dc_chain s" b] by (auto simp: tree_is_def)
  have "chain_known (dc_chain s) (block_hash env b) = None" using tree_is_known [OF tree] new [of root] by (simp add: b_def)
  then have "b' = b" using add by (auto simp: add_block_def get_block_known [symmetric] get_block_def Let_def split: option.splits outcome.splits)
  with tree_snoc(2) [OF tree ne b(2) add] new [of root] have tree': "tree_is env c (bs @ [b])" by (simp add: b_def)
  let ?puts = "[(gen_block_key (block_hash env b), demo_encode (de_libs env) b), (gen_outcome_key (block_hash env b),
      outcome_encode \<lparr>bo_world_state = shared_consolidate None (snd (to_shared (pg_state p))), bo_gas_used = pg_gas_used p,
        bo_contract_addrs = pg_contract_addrs p\<rparr>)]"
  obtain w2 where w2: "rw_commit (de_rocks env) (wb_puts ?puts w1) = Ok () w2"
    using writes by (fastforce simp: rw_commit_def exec_defs split: option.splits)
  let ?s = "s\<lparr>dc_chain := c, dc_mdb := w2\<rparr>"
  have linked: "linked env ?s (bs @ [b])" using holds_linked [OF path_snoc [OF path ne b]] tree' by simp
  then have "linked env ?s bs" by (auto simp: linked_def nth_append split: if_splits)
  from tail_set_run [OF this _ linked] obtain t where tail: "set_canonical_tail env b ?s = Ok () t"
    using len index seen_commit(1) [OF rocks w2] writes by (fastforce split: option.splits)
  have got: "get_block_by_hash env (block_hash env (last bs)) s = Ok (Some (last bs)) s"
    by (rule get_block_by_hash_in_chain [of env s]) (use tree_is_block [OF tree last_in_set [OF ne]] in \<open>simp_all add: in_chain_def\<close>)
  have "process_state_transition env run_tx ?b s = Ok (Some (\<lparr>bo_world_state = shared_consolidate None (snd (to_shared (pg_state p))),
      bo_gas_used = pg_gas_used p, bo_contract_addrs = pg_contract_addrs p\<rparr>, db_root_hash (last bs))) s"
    using got state txs by (simp add: process_state_transition_def bind_def)
  then show ?thesis
    using delta w1 add \<open>b' = b\<close> w2 tail unfolding b_def [symmetric]
    by (intro exI [of _ root]) (simp add: add_one_block_def bind_def unwrap_def ret_def gets_def Let_def zoom_def wb_put_puts when_do_def b_def [symmetric]
        split: if_splits)
qed

section \<open>Adding blocks\<close>

text \<open>The loop of \<open>AddBlocks\<close> with the hashes of the blocks it has added.\<close>

inductive blocks_added ::
  "'d demo_env \<Rightarrow> tx_runner \<Rightarrow> nat \<Rightarrow> hash \<Rightarrow> demo_block list \<Rightarrow> 'd demo_state \<Rightarrow> hash list \<Rightarrow> 'd demo_state \<Rightarrow> bool"
  for env run_tx where
  added_none: "blocks_added env run_tx number p_hash [] s [] s"
| added_more: "number + 1 < 2 ^ 64 \<Longrightarrow> add_one_block env run_tx (number + 1) p_hash block s = Ok h u \<Longrightarrow>
    blocks_added env run_tx (number + 1) h blocks u hs t \<Longrightarrow>
    blocks_added env run_tx number p_hash (block # blocks) s (h # hs) t"

inductive_cases added_noneE: "blocks_added env run_tx number p_hash [] s hs t"

inductive_cases added_moreE: "blocks_added env run_tx number p_hash (block # blocks) s hs t"

lemma add_blocks_loop_iff:
  "add_blocks_loop env run_tx number p_hash blocks s = Ok () t \<longleftrightarrow> (\<exists>hs. blocks_added env run_tx number p_hash blocks s hs t)"
proof (induction blocks arbitrary: number p_hash s)
  case (Cons block blocks)
  show ?case
    by (fastforce simp: bind_Ok_conv u64_add_def ret_def panic_def Cons.IH split: if_splits intro: added_more elim!: added_moreE)
qed (auto simp: ret_def intro: added_none elim: added_noneE)

lemma add_blocks_iff:
  assumes "chain_holds env s bs"
  shows "add_blocks env run_tx blocks s = Ok () t \<longleftrightarrow>
    (\<exists>hs. blocks_added env run_tx (length bs - 1) (block_hash env (last bs)) blocks s hs t)"
proof -
  from assms have bs: "bs \<noteq> []" "dc_indexed s = map Some bs" "db_number (last bs) = length bs - 1"
    by (auto simp: chain_holds_def path_linked_def last_conv_nth)
  then have "get_block_by_number Latest s = Ok (Some (last bs)) s"
    by (simp add: get_block_by_number_def exec_defs last_conv_nth Suc_le_eq)
  moreover have "as_u64 (bk_number (demo_bk env) (last bs)) s = Ok (length bs - 1) s"
  proof -
    have "length bs - 1 < 2 ^ 64" using assms by (simp add: chain_holds_def less_imp_diff_less)
    then show ?thesis by (simp add: as_u64_def demo_bk_def bs(3) checked_as_u64_eq unwrap_def ret_def unat_of_nat)
  qed
  ultimately show ?thesis by (simp add: add_blocks_def bind_def unwrap_def ret_def add_blocks_loop_iff)
qed

text \<open>The blocks as the chain keeps them: number, parent and state root are filled in, the rest is as it was sent.\<close>

definition completes :: "demo_block list \<Rightarrow> demo_block list \<Rightarrow> bool" where
  "completes sent blocks \<longleftrightarrow>
     list_all2 (\<lambda>a b. db_txs b = db_txs a \<and> db_timestamp b = db_timestamp a \<and> db_gas_limit b = db_gas_limit a) sent blocks"

lemma blocks_added_extends:
  assumes rocks: "rocks_laws (de_rocks env)" and trie: "trie_hashdb (de_rocks env) (de_trie env)"
  shows "blocks_added env run_tx number p_hash blocks s hs t \<Longrightarrow> chain_holds env s bs \<Longrightarrow> number = length bs - 1 \<Longrightarrow>
    p_hash = block_hash env (last bs) \<Longrightarrow> distinct (0 # map (block_hash env) bs @ hs) \<Longrightarrow>
    \<forall>b\<in>set blocks. length (db_txs b) < 2 ^ 64 \<Longrightarrow>
    \<exists>new. chain_holds env t (bs @ new) \<and> map (block_hash env) new = hs \<and> completes blocks new"
proof (induction arbitrary: bs rule: blocks_added.induct)
  case (added_none number p_hash s)
  then show ?case by (intro exI [of _ "[]"]) (simp add: completes_def)
next
  case (added_more number p_hash block s h u blocks hs t)
  have num: "number + 1 = length bs" using added_more.prems(1,2) by (simp add: chain_holds_def Suc_leI)
  have add: "add_one_block env run_tx (length bs) (block_hash env (last bs)) block s = Ok h u"
    using added_more.hyps(2) by (simp only: num added_more.prems(3))
  obtain root where root: "let b = block\<lparr>db_number := length bs, db_parent_hash := block_hash env (last bs), db_root_hash := root\<rparr> in
      h = block_hash env b \<and> chain_holds env u (bs @ [b])"
    using add_one_block_extends [OF rocks trie added_more.prems(1) add] added_more.prems(4,5) by auto
  then obtain b where b: "h = block_hash env b" "chain_holds env u (bs @ [b])" "completes [block] [b]"
    by (auto simp: Let_def completes_def)
  from added_more.IH [OF b(2)] added_more.prems(4,5) num b(1) obtain new where
    "chain_holds env t ((bs @ [b]) @ new)" "map (block_hash env) new = hs" "completes blocks new" by auto
  with b show ?case by (intro exI [of _ "b # new"]) (auto simp: completes_def)
qed

section \<open>The first start\<close>

text \<open>The batch of the first start: the genesis block under the key of the hash 0, its outcome and the index.\<close>

definition genesis_puts :: "'d demo_env \<Rightarrow> demo_block \<Rightarrow> bytes \<Rightarrow> (bytes \<times> bytes) list" where
  "genesis_puts env g v =
     [(gen_block_key 0, demo_encode (de_libs env) g), (gen_outcome_key (block_hash env g), v),
      (gen_index_key 0, le_bytes 8 1), (gen_index_key 1, hash_as_bytes (block_hash env g))]"

lemma genesis_made:
  assumes "rk_get (de_rocks env) (rw_db (dc_mdb s)) (gen_block_key 0) = Some None"
    and "genesis_block env now gstate s = Ok g t"
  obtains delta root w1 v w2 where
    "consolidated_delta (shared_consolidate None (snd (to_shared gstate))) = Some delta"
    "merkle_commit (de_trie env) (de_iter env) None delta (merkle_reader (de_keccak env) (de_trie env) (get_reader None)) (dc_mdb s)
       = Ok root w1"
    "g = (demo_block_new now 0 0 0 (Some 1655254842) [])\<lparr>db_root_hash := root\<rparr>"
    "v = outcome_encode \<lparr>bo_world_state = (), bo_gas_used = [], bo_contract_addrs = []\<rparr>"
    "rw_commit (de_rocks env) (wb_puts (genesis_puts env g v) w1) = Ok () w2" "t = s\<lparr>dc_mdb := w2\<rparr>"
  using assms
  by (auto simp: genesis_block_def bind_def gets_def unwrap_def ret_def panic_def zoom_def wb_put_puts Let_def genesis_puts_def outcome_encode_def
      split: option.splits outcome.splits)

lemma genesis_store:
  assumes rocks: "rocks_laws (de_rocks env)" and fresh: "\<And>k. rk_get (de_rocks env) d k = Some None"
    and apart: "store_apart (de_rocks env) (rw_new hasher DB_PREFIX_MERKLE d) w1"
    and v: "v = outcome_encode \<lparr>bo_world_state = (), bo_gas_used = [], bo_contract_addrs = []\<rparr>"
    and put: "rw_commit (de_rocks env) (wb_puts (genesis_puts env g v) w1) = Ok () w2"
  shows "store_has env w2 [g]"
proof -
  note after = seen_commit [OF rocks put]
  have same: "seen (de_rocks env) w1 k = Some None" if "\<forall>s. k \<noteq> DB_PREFIX_MERKLE @ s" for k
    using that apart fresh by (simp add: store_apart_def rw_new_def seen_def pending_def)
  have ix: "gen_index_key 0 \<noteq> gen_index_key 1" by (simp add: index_key_eq)
  have "rw_prefix w2 = DB_PREFIX_MERKLE" using after(2) apart by (simp add: store_apart_def rw_new_def)
  moreover have "rk_get (de_rocks env) (rw_db w2) (gen_block_key h) = Some (if h = 0 then Some (demo_encode (de_libs env) g) else None)" for h
    by (simp add: after(3) seen_puts genesis_puts_def keys_apart keys_apart' block_key_eq same)
  moreover have "rk_get (de_rocks env) (rw_db w2) (gen_index_key 0) = Some (Some (le_bytes 8 1))"
    "rk_get (de_rocks env) (rw_db w2) (gen_index_key 1) = Some (Some (hash_as_bytes (block_hash env g)))"
    using ix by (simp_all add: after(3) seen_puts genesis_puts_def keys_apart keys_apart')
  moreover have "rk_get (de_rocks env) (rw_db w2) (gen_outcome_key (block_hash env g)) = Some (Some v)"
    by (simp add: after(3) seen_puts genesis_puts_def keys_apart keys_apart')
  then have "outcome_stored env (rw_db w2) g"
    unfolding outcome_stored_def v by (intro exI [of _ "\<lparr>bo_world_state = (), bo_gas_used = [], bo_contract_addrs = []\<rparr>"]) simp
  ultimately show ?thesis using after(1)
    by (auto simp: store_has_def chain_stored_def index_stored_def)
qed

lemma genesis_effect:
  assumes rocks: "rocks_laws (de_rocks env)" and trie: "trie_hashdb (de_rocks env) (de_trie env)"
    and fresh: "\<And>k. rk_get (de_rocks env) d k = Some None"
    and run: "demo_new env hasher now genesis_addr genesis_balance d chain_id = Ok () t"
  obtains g delta w1 where "dc_indexed t = [Some g]" "db_txs g = []" "db_timestamp g = 1655254842" "db_gas_limit g = 8000000"
    "dc_chain_id t = chain_id" "block_hash env g \<noteq> 0 \<Longrightarrow> chain_holds env t [g]"
    "consolidated_delta (shared_consolidate None (snd (to_shared (genesis_world (de_keccak env) genesis_addr genesis_balance)))) = Some delta"
    "merkle_commit (de_trie env) (de_iter env) None delta (merkle_reader (de_keccak env) (de_trie env) (get_reader None))
       (rw_new hasher DB_PREFIX_MERKLE d) = Ok (db_root_hash g) w1"
    "own_keys (de_rocks env) w1 (dc_mdb t)"
proof -
  let ?s = "\<lparr>dc_chain = chain_new (demo_bk env) (demo_block_new now 0 0 0 None []), dc_tx_cache = Map.empty, dc_indexed = [],
        dc_mdb = rw_new hasher DB_PREFIX_MERKLE d, dc_chain_id = chain_id\<rparr>"
  from run obtain g s1 where made: "genesis_block env now (genesis_world (de_keccak env) genesis_addr genesis_balance) ?s = Ok g s1"
    and load: "load_chain env (s1\<lparr>dc_chain := chain_new (demo_bk env) g\<rparr>) = Ok () t"
    by (auto simp: demo_new_def bind_Ok_conv modify_def)
  have none: "rk_get (de_rocks env) (rw_db (dc_mdb ?s)) (gen_block_key 0) = Some None" by (simp add: rw_new_def fresh)
  obtain delta root w1 v w2 where
    delta: "consolidated_delta (shared_consolidate None (snd (to_shared (genesis_world (de_keccak env) genesis_addr genesis_balance)))) = Some delta"
    and commit: "merkle_commit (de_trie env) (de_iter env) None delta
       (merkle_reader (de_keccak env) (de_trie env) (get_reader None)) (dc_mdb ?s) = Ok root w1"
    and g: "g = (demo_block_new now 0 0 0 (Some 1655254842) [])\<lparr>db_root_hash := root\<rparr>"
    and v: "v = outcome_encode \<lparr>bo_world_state = (), bo_gas_used = [], bo_contract_addrs = []\<rparr>"
    and put: "rw_commit (de_rocks env) (wb_puts (genesis_puts env g v) w1) = Ok () w2" and s1: "s1 = ?s\<lparr>dc_mdb := w2\<rparr>"
    by (rule genesis_made [OF none made])
  have store: "store_has env w2 [g]"
    using genesis_store [OF rocks fresh _ v put] pres_OkD [OF merkle_commit_apart [OF trie] commit] by simp
  then have "rk_get (de_rocks env) (rw_db w2) (gen_index_key 0) = Some (Some (le_bytes 8 1))"
    by (simp add: store_has_def chain_stored_def index_stored_def)
  with load have t: "t = ?s\<lparr>dc_mdb := w2, dc_chain := chain_new (demo_bk env) g, dc_indexed := [Some g]\<rparr>"
    by (simp add: load_chain_def s1 bind_def gets_def unwrap_def ret_def modify_def get_base_def chain_new_def)
  have "tree_is env (chain_new (demo_bk env) g) [g]" if "block_hash env g \<noteq> 0"
    using that chain_new_inv [of "demo_bk env" g]
    by (auto simp: tree_is_def chain_known_def is_attached_def) (simp_all add: chain_new_def)
  with store have "chain_holds env t [g]" if "block_hash env g \<noteq> 0"
    using that by (auto simp: chain_holds_def t path_linked_def cache_in_def g demo_block_new_def)
  moreover have "rw_prefix w1 = DB_PREFIX_MERKLE"
    using pres_OkD [OF merkle_commit_apart [OF trie] commit] by (simp add: store_apart_def rw_new_def)
  then have "own_keys (de_rocks env) w1 w2"
    by (intro own.R_trans [OF own_puts own_commit [OF rocks put]]) (simp add: genesis_puts_def keys_apart)
  ultimately show thesis using that [of g delta w1] delta commit by (simp add: t g demo_block_new_def)
qed

lemma genesis_holds:
  assumes rocks: "rocks_laws (de_rocks env)" and trie: "trie_hashdb (de_rocks env) (de_trie env)"
    and fresh: "\<And>k. rk_get (de_rocks env) d k = Some None"
    and run: "demo_new env hasher now genesis_addr genesis_balance d chain_id = Ok () t"
  obtains g where "dc_indexed t = [Some g]" "db_txs g = []" "db_timestamp g = 1655254842" "db_gas_limit g = 8000000"
    "dc_chain_id t = chain_id" "block_hash env g \<noteq> 0 \<Longrightarrow> chain_holds env t [g]"
  by (rule genesis_effect [OF assms]) (rule that; assumption)


text \<open>The first start does not panic when the libraries return.\<close>

lemma rw_commit_total: "(\<And>d wb. rk_write rk d wb \<noteq> None) \<Longrightarrow> \<exists>t. rw_commit rk w = Ok () t"
  by (cases "rw_wb w") (fastforce simp: rw_commit_def exec_defs split: option.splits)+

lemma genesis_runs:
  assumes "rocks_laws (de_rocks env)" and "trie_hashdb (de_rocks env) (de_trie env)" and fresh: "\<And>k. rk_get (de_rocks env) d k = Some None"
    and writes: "\<And>d wb. rk_write (de_rocks env) d wb \<noteq> None"
    and commit: "\<And>delta. consolidated_delta (shared_consolidate None (snd (to_shared
        (genesis_world (de_keccak env) genesis_addr genesis_balance)))) = Some delta \<Longrightarrow> \<exists>root w1. merkle_commit (de_trie env) (de_iter env) None delta
        (merkle_reader (de_keccak env) (de_trie env) (get_reader None)) (rw_new hasher DB_PREFIX_MERKLE d) = Ok root w1"
  shows "\<exists>t. demo_new env hasher now genesis_addr genesis_balance d chain_id = Ok () t"
proof -
  let ?gs = "genesis_world (de_keccak env) genesis_addr genesis_balance"
  let ?s = "\<lparr>dc_chain = chain_new (demo_bk env) (demo_block_new now 0 0 0 None []), dc_tx_cache = Map.empty, dc_indexed = [],
        dc_mdb = rw_new hasher DB_PREFIX_MERKLE d, dc_chain_id = chain_id\<rparr>"
  have none: "rk_get (de_rocks env) (rw_db (dc_mdb ?s)) (gen_block_key 0) = Some None" by (simp add: rw_new_def fresh)
  obtain delta where delta: "consolidated_delta (shared_consolidate None (snd (to_shared ?gs))) = Some delta"
    using consolidated_all by blast
  obtain root w1 where w1: "merkle_commit (de_trie env) (de_iter env) None delta
      (merkle_reader (de_keccak env) (de_trie env) (get_reader None)) (rw_new hasher DB_PREFIX_MERKLE d) = Ok root w1"
    using commit [OF delta] by blast
  let ?g = "(demo_block_new now 0 0 0 (Some 1655254842) [])\<lparr>db_root_hash := root\<rparr>"
  let ?v = "outcome_encode \<lparr>bo_world_state = (), bo_gas_used = [], bo_contract_addrs = []\<rparr>"
  obtain w2 where w2: "rw_commit (de_rocks env) (wb_puts (genesis_puts env ?g ?v) w1) = Ok () w2"
    using rw_commit_total [OF writes] by blast
  have made: "genesis_block env now ?gs ?s = Ok ?g (?s\<lparr>dc_mdb := w2\<rparr>)"
    using none delta w1 w2
    by (simp add: genesis_block_def bind_def gets_def unwrap_def ret_def zoom_def wb_put_puts Let_def genesis_puts_def outcome_encode_def)
  have "store_has env w2 [?g]"
    by (rule genesis_store [OF assms(1) fresh pres_OkD [OF merkle_commit_apart [OF assms(2)] w1] refl w2])
  then have "rk_get (de_rocks env) (rw_db w2) (gen_index_key 0) = Some (Some (le_bytes 8 1))"
    by (simp add: store_has_def chain_stored_def index_stored_def)
  with made show ?thesis
    by (simp add: demo_new_def load_chain_def bind_def gets_def unwrap_def ret_def modify_def)
qed

end
