(* ===== verification/DemoCall.thy ===== *)
theory DemoCall
  imports DemoIndex
begin

text \<open>
  Calls and gas estimation of \<open>src/examples/demo.rs\<close>: \<open>do_call\<close> runs a message on the state of a block,
  \<open>do_estimate_gas\<close> bounds its gas from the request, the block, the balance of the sender and the gas cap and then
  searches by bisection. \<open>low + high\<close> is a checked addition of \<open>u64\<close> values.
\<close>

definition RPC_GAS_CAP :: gas where "RPC_GAS_CAP = 50000000"

record rpc_tx_args =
  ta_from :: "addr option"
  ta_to :: "addr option"
  ta_gas :: "gas option"
  ta_gas_price :: "wei option"
  ta_max_fee_per_gas :: "wei option"
  ta_max_priority_fee_per_gas :: "wei option"
  ta_value :: "wei option"
  ta_data :: "bytes option"

definition unwrap_or :: "'a option \<Rightarrow> 'a \<Rightarrow> 'a" where
  "unwrap_or x d = (case x of Some a \<Rightarrow> a | None \<Rightarrow> d)"

definition do_call ::
  "'d demo_env \<Rightarrow> tx_runner \<Rightarrow> rpc_tx_args \<Rightarrow> block_number \<Rightarrow> gas \<Rightarrow> ('d demo_state, tx_exec_result option) exec" where
  "do_call env run_tx args number global_gas_cap =
     or_none (get_block_by_number number) (\<lambda>block.
     or_none (get_block_state env block) (\<lambda>bs.
     let prev_state = bo_world_state bs in
     bind (gets (\<lambda>s. get_exec_env env s block)) (\<lambda>xenv.
     bind (unwrap (run_tx (unwrap_or (ta_from args) 0) (ta_to args) (unwrap_or (ta_value args) 0)
        (unwrap_or (ta_gas args) global_gas_cap) (unwrap_or (ta_gas_price args) 0) (unwrap_or (ta_data args) [])
        (Const prev_state) prev_state xenv)) (\<lambda>(_, res).
     ret (Some res)))))"

definition succeeded :: "tx_exec_result \<Rightarrow> bool" where
  "succeeded res = (case res of TxSucceeded _ _ _ \<Rightarrow> True | TxReverted _ _ _ \<Rightarrow> False)"

text \<open>The bisection; \<open>call\<close> runs the message with the given gas.\<close>

function est_loop :: "(gas \<Rightarrow> ('s, tx_exec_result option) exec) \<Rightarrow> gas \<Rightarrow> gas \<Rightarrow> ('s, gas option) exec" where
  "est_loop call low high =
     (if low + 1 < high then
        let mid = (low + high) div 2 in
        bind (u64_add low high) (\<lambda>_.
        or_none (call mid) (\<lambda>res.
        if succeeded res then est_loop call low mid else est_loop call mid high))
      else ret (Some high))"
  by pat_completeness auto

termination
  by (relation "measure (\<lambda>(call, low, high). high - low)") auto

declare est_loop.simps [simp del]

definition fee_cap_of :: "rpc_tx_args \<Rightarrow> u256 option" where
  "fee_cap_of args =
     (if ta_gas_price args \<noteq> None \<and> (ta_max_fee_per_gas args \<noteq> None \<or> ta_max_priority_fee_per_gas args \<noteq> None) then None
      else case ta_gas_price args of
             Some p \<Rightarrow> Some p
           | None \<Rightarrow> (case ta_max_fee_per_gas args of Some p \<Rightarrow> Some p | None \<Rightarrow> Some 0))"

text \<open>The upper end of the search before the gas cap: from the request or the block, and from the funds of the sender.\<close>

definition high_of_request :: "rpc_tx_args \<Rightarrow> block_number \<Rightarrow> ('d demo_state, gas option) exec" where
  "high_of_request args number =
     (case ta_gas args of
        Some gas \<Rightarrow> if gas \<ge> GAS_TX then ret (Some gas)
          else or_none (get_block_by_number number) (\<lambda>block. ret (Some (db_gas_limit block)))
      | None \<Rightarrow> or_none (get_block_by_number number) (\<lambda>block. ret (Some (db_gas_limit block))))"

definition high_of_funds ::
  "'d demo_env \<Rightarrow> rpc_tx_args \<Rightarrow> block_number \<Rightarrow> u256 \<Rightarrow> gas \<Rightarrow> ('d demo_state, gas option) exec" where
  "high_of_funds env args number fee_cap high =
     (if fee_cap = 0 then ret (Some high)
      else
        or_none (state_at env number) (\<lambda>state.
        let avail = rev_get_balance state (unwrap_or (ta_from args) 0) in
        if (case ta_value args of Some val \<Rightarrow> val \<ge> avail | None \<Rightarrow> False) then ret None
        else
          case checked_as_u64 (avail div fee_cap) of
            Some a \<Rightarrow> ret (Some (if high > a then a else high))
          | None \<Rightarrow> ret (Some high)))"

definition do_estimate_gas ::
  "'d demo_env \<Rightarrow> tx_runner \<Rightarrow> rpc_tx_args \<Rightarrow> block_number \<Rightarrow> gas \<Rightarrow> ('d demo_state, gas option) exec" where
  "do_estimate_gas env run_tx args number gas_cap =
     or_none (high_of_request args number) (\<lambda>high.
     case fee_cap_of args of
       None \<Rightarrow> ret None
     | Some fee_cap \<Rightarrow>
         or_none (high_of_funds env args number fee_cap high) (\<lambda>high.
         let cap = (if gas_cap \<noteq> 0 \<and> high > gas_cap then gas_cap else high);
             call = (\<lambda>gas. do_call env run_tx (args\<lparr>ta_gas := Some gas\<rparr>) number gas_cap)
         in or_none (est_loop call (GAS_TX - 1) cap) (\<lambda>high.
            if cap = high then
              or_none (call high) (\<lambda>res. if succeeded res then ret (Some high) else ret None)
            else ret (Some high))))"

definition handle_call :: "'d demo_env \<Rightarrow> tx_runner \<Rightarrow> rpc_tx_args \<Rightarrow> block_number \<Rightarrow> ('d demo_state, tx_exec_result option) exec" where
  "handle_call env run_tx args number = do_call env run_tx args number RPC_GAS_CAP"

definition handle_estimate_gas :: "'d demo_env \<Rightarrow> tx_runner \<Rightarrow> rpc_tx_args \<Rightarrow> block_number \<Rightarrow> ('d demo_state, gas option) exec" where
  "handle_estimate_gas env run_tx args number = do_estimate_gas env run_tx args number RPC_GAS_CAP"

section \<open>Requests leave the state alone\<close>

lemma reads_do_call: "reads_only (do_call env run_tx args n cap)"
  unfolding do_call_def by (intro reads_rules reads_block_number reads_block_state)

lemma reads_high: "reads_only (high_of_request args n)" "reads_only (high_of_funds env args n fee high)"
  unfolding high_of_request_def high_of_funds_def by (intro reads_rules reads_block_number reads_state_at)+

lemma reads_est_loop: "(\<And>g. reads_only (call g)) \<Longrightarrow> reads_only (est_loop call low high)"
proof (induction call low high rule: est_loop.induct)
  case (1 call low high)
  then show ?case by (subst est_loop.simps) (auto simp: Let_def intro!: unchanged.pres_bind unchanged.pres_u64_add unchanged.pres_ret reads_or_none)
qed

lemma infallible_lookups: "infallible (get_block_by_number n)" "infallible (get_block_state env b)"
  by (auto simp: infallible_def get_block_by_number_def get_block_state_def outcome_decode_def exec_defs Let_def
      split: block_number.splits option.splits if_splits)

lemma infallible_do_call: "infallible (do_call env run_tx args n cap)"
  unfolding do_call_def or_none_def Let_def by (intro infallible_rules infallible_lookups)

section \<open>The bisection\<close>

definition call_ok :: "(gas \<Rightarrow> ('s, tx_exec_result option) exec) \<Rightarrow> 's \<Rightarrow> gas \<Rightarrow> bool" where
  "call_ok call s g \<longleftrightarrow> (\<exists>res. call g s = Ok (Some res) s \<and> succeeded res)"

definition call_reverts :: "(gas \<Rightarrow> ('s, tx_exec_result option) exec) \<Rightarrow> 's \<Rightarrow> gas \<Rightarrow> bool" where
  "call_reverts call s g \<longleftrightarrow> (\<exists>res. call g s = Ok (Some res) s \<and> \<not> succeeded res)"

text \<open>
  What the bisection between a gas with which the message is not tried and an upper end comes to: the first panic of a call, the
  first call without an answer, or a gas with which the message succeeds, unless it is the upper end, and not with one unit less.
\<close>

lemma est_loop_cases:
  assumes "\<And>g. reads_only (call g)" and "low < high" and "high < 2 ^ 63" and "\<And>g. infallible (call g)"
  shows "case est_loop call low high s of
      Err _ _ \<Rightarrow> False
    | Panic \<Rightarrow> \<exists>g. low < g \<and> g < high \<and> call g s = Panic
    | Ok None t \<Rightarrow> t = s \<and> (\<exists>g. low < g \<and> g < high \<and> call g s = Ok None s)
    | Ok (Some g) t \<Rightarrow> t = s \<and> low < g \<and> g \<le> high \<and> (g = high \<or> call_ok call s g) \<and> (g = low + 1 \<or> call_reverts call s (g - 1))"
  using assms
proof (induction call low high rule: est_loop.induct)
  case (1 call low high)
  let ?mid = "(low + high) div 2" and ?next = "\<lambda>res. if succeeded res then est_loop call low ((low + high) div 2) else est_loop call ((low + high) div 2) high"
  show ?case
  proof (cases "low + 1 < high")
    case False
    then show ?thesis using "1.prems" by (subst est_loop.simps) (auto simp: ret_def)
  next
    case True
    have mid: "low < ?mid" "?mid < high" using True by auto
    have loop: "est_loop call low high s = or_none (call ?mid) ?next s"
      using True "1.prems"(3) by (subst est_loop.simps) (simp add: Let_def bind_def u64_add_def ret_def)
    show ?thesis
    proof (cases "call ?mid s")
      case Panic
      then show ?thesis using loop mid by (auto simp: or_none_def bind_def)
    next
      case (Err e t)
      then show ?thesis using "1.prems"(4) by (simp add: infallible_def)
    next
      case (Ok r t)
      have t: "t = s" using reads_onlyD [OF "1.prems"(1) Ok] .
      show ?thesis
      proof (cases r)
        case None
        then show ?thesis using loop mid Ok t by (auto simp: or_none_def bind_def ret_def)
      next
        case (Some res)
        then have step: "est_loop call low high s = ?next res s" using loop Ok t by (simp add: or_none_def bind_def)
        show ?thesis
        proof (cases "succeeded res")
          case True
          then have "call_ok call s ?mid" using Ok t Some by (auto simp: call_ok_def)
          then show ?thesis using "1.IH"(1) [OF \<open>low + 1 < high\<close> refl, of res] True mid "1.prems" step
            by (fastforce split: outcome.splits option.splits)
        next
          case False
          then have rev: "call_reverts call s ?mid" using Ok t Some by (auto simp: call_reverts_def)
          have raise: "low < g" "g = ?mid + 1 \<Longrightarrow> call_reverts call s (g - 1)" if "?mid < g" for g
            using that mid(1) rev by simp_all
          show ?thesis using "1.IH"(2) [OF \<open>low + 1 < high\<close> refl False "1.prems"(1) mid(2) "1.prems"(3,4)] False step
            by (auto split: outcome.splits option.splits dest: raise)
        qed
      qed
    qed
  qed
qed

section \<open>Requests are answered\<close>

text \<open>A computation that ends without a panic and leaves the state as it is.\<close>

definition answers :: "('s, 'a) exec \<Rightarrow> 's \<Rightarrow> bool" where
  "answers m s \<longleftrightarrow> (\<exists>a. m s = Ok a s)"

lemma answers_or_none: "answers m s \<Longrightarrow> (\<And>a. m s = Ok (Some a) s \<Longrightarrow> answers (f a) s) \<Longrightarrow> answers (or_none m f) s"
  by (auto simp: answers_def or_none_def bind_def ret_def split: option.split)

lemma answers_ret: "answers (ret a) s"
  by (simp add: answers_def ret_def)

lemma answers_block_number:
  assumes "dc_indexed s = map Some bs" and "bs \<noteq> []"
  shows "answers (get_block_by_number n) s"
    and "get_block_by_number n s = Ok (Some b) s \<Longrightarrow> b \<in> set bs"
  using assms by (cases n; auto simp: answers_def get_block_by_number_def exec_defs Suc_le_eq split: if_splits)+

lemma answers_block_state: "get_block_state env b s \<noteq> Panic \<Longrightarrow> answers (get_block_state env b) s"
  by (auto simp: answers_def get_block_state_def outcome_decode_def ret_def panic_def Let_def split: option.splits if_splits)

text \<open>The states in which every request about a block can be answered.\<close>

definition serviceable :: "'d demo_env \<Rightarrow> 'd demo_state \<Rightarrow> bool" where
  "serviceable env s \<longleftrightarrow>
     dc_indexed s \<noteq> [] \<and> (\<forall>b\<in>set (dc_indexed s). b \<noteq> None \<and> get_block_state env (the b) s \<noteq> Panic)"

lemma serviceable_blocks:
  assumes "serviceable env s"
  shows "answers (get_block_by_number n) s"
    and "get_block_by_number n s = Ok (Some b) s \<Longrightarrow> answers (get_block_state env b) s"
proof -
  have bs: "dc_indexed s = map Some (map the (dc_indexed s))" "map the (dc_indexed s) \<noteq> []"
    using assms by (auto simp: serviceable_def intro!: map_idI [symmetric])
  then show "answers (get_block_by_number n) s" by (rule answers_block_number)
  assume "get_block_by_number n s = Ok (Some b) s"
  from answers_block_number(2) [OF bs this] assms show "answers (get_block_state env b) s"
    by (intro answers_block_state) (auto simp: serviceable_def)
qed

section \<open>The estimate\<close>

lemma RPC_GAS_CAP_pos: "RPC_GAS_CAP \<noteq> 0"
  by (simp add: RPC_GAS_CAP_def)

text \<open>The upper end of the search: what the request or the block allows, what the sender can pay, and the cap of the service.\<close>

definition estimate_cap :: "'d demo_env \<Rightarrow> rpc_tx_args \<Rightarrow> block_number \<Rightarrow> ('d demo_state, gas option) exec" where
  "estimate_cap env args number =
     or_none (high_of_request args number) (\<lambda>high.
     case fee_cap_of args of
       None \<Rightarrow> ret None
     | Some fee_cap \<Rightarrow> or_none (high_of_funds env args number fee_cap high) (\<lambda>high. ret (Some (min high RPC_GAS_CAP))))"

lemma estimate_by_cap:
  "handle_estimate_gas env run_tx args number =
     or_none (estimate_cap env args number) (\<lambda>cap.
     let call = (\<lambda>gas. do_call env run_tx (args\<lparr>ta_gas := Some gas\<rparr>) number RPC_GAS_CAP)
     in or_none (est_loop call (GAS_TX - 1) cap) (\<lambda>high.
        if cap = high then or_none (call high) (\<lambda>res. if succeeded res then ret (Some high) else ret None) else ret (Some high)))"
proof -
  have cap: "(if RPC_GAS_CAP \<noteq> 0 \<and> high > RPC_GAS_CAP then RPC_GAS_CAP else high) = min high RPC_GAS_CAP" for high
    by (simp add: RPC_GAS_CAP_pos min_def)
  show ?thesis
    unfolding handle_estimate_gas_def do_estimate_gas_def estimate_cap_def cap
    by (auto simp: fun_eq_iff or_none_def bind_def ret_def Let_def split: outcome.split option.split)
qed

lemma reads_cap: "reads_only (estimate_cap env args number)"
  unfolding estimate_cap_def by (intro reads_rules reads_high)

lemma infallible_cap: "infallible (estimate_cap env args number)"
  unfolding estimate_cap_def high_of_request_def high_of_funds_def state_at_def or_none_def Let_def
  by (intro infallible_rules infallible_lookups)

lemma cap_bound: "estimate_cap env args number s = Ok (Some cap) t \<Longrightarrow> cap \<le> RPC_GAS_CAP"
  by (auto simp: estimate_cap_def or_none_Ok ret_def split: option.splits)

text \<open>Whether a block and its state are found does not depend on the message.\<close>

lemma do_call_none:
  "do_call env run_tx args number cap s = Ok None t \<Longrightarrow> do_call env run_tx args' number cap s = Ok None t"
  by (auto simp: do_call_def or_none_def bind_def ret_def gets_def unwrap_def panic_def Let_def
      split: outcome.splits option.splits if_splits prod.splits)

lemma cap_panics:
  assumes "estimate_cap env args number s = Panic"
  shows "do_call env run_tx args' number cap s = Panic"
proof -
  have number: "get_block_by_number number s \<noteq> Err e t" and state: "get_block_state env b s \<noteq> Err e t" for e t b
    by (rule infallible_lookups [unfolded infallible_def, rule_format])+
  show ?thesis
  proof (cases "get_block_by_number number s")
    case (Ok r t)
    have [simp]: "t = s" using reads_onlyD [OF reads_block_number Ok] .
    show ?thesis
    proof (cases "\<exists>b. r = Some b \<and> get_block_state env b s = Panic")
      case True
      with Ok show ?thesis by (auto simp: do_call_def or_none_def bind_def)
    next
      case False
      then have "\<exists>x. get_block_state env b s = Ok x s" if "r = Some b" for b
        using that state [of b] reads_onlyD [OF reads_block_state, of env b s] by (cases "get_block_state env b s") auto
      then have "estimate_cap env args number s \<noteq> Panic" using Ok
        by (cases r) (auto simp: estimate_cap_def high_of_request_def high_of_funds_def state_at_def or_none_def bind_def ret_def
            Let_def split: outcome.splits option.splits if_splits)
      with assms show ?thesis by simp
    qed
  qed (use number in \<open>auto simp: do_call_def or_none_def bind_def\<close>)
qed

text \<open>The answer for any runner with which no message succeeds on less than the base cost of a transaction.\<close>

lemma estimate_cases:
  fixes env :: "'d demo_env" and run_tx args number
  defines "call \<equiv> \<lambda>gas. do_call env run_tx (args\<lparr>ta_gas := Some gas\<rparr>) number RPC_GAS_CAP"
  assumes cap: "estimate_cap env args number s = Ok (Some cap) s" and cheap: "\<And>g res. g < GAS_TX \<Longrightarrow> call g s \<noteq> Ok (Some res) s"
  shows "case handle_estimate_gas env run_tx args number s of
      Err _ _ \<Rightarrow> False
    | Panic \<Rightarrow> \<exists>g\<le>cap. (GAS_TX \<le> g \<or> g = cap) \<and> call g s = Panic
    | Ok None t \<Rightarrow> t = s \<and> (call cap s = Ok None s \<or> call_reverts call s cap)
    | Ok (Some g) t \<Rightarrow> t = s \<and> GAS_TX \<le> g \<and> g \<le> cap \<and> call_ok call s g \<and> (g = GAS_TX \<or> call_reverts call s (g - 1))"
proof -
  have reads: "reads_only (call g)" for g unfolding call_def by (rule reads_do_call)
  have total: "infallible (call g)" for g unfolding call_def by (rule infallible_do_call)
  let ?last = "\<lambda>g. if cap = g then or_none (call g) (\<lambda>res. if succeeded res then ret (Some g) else ret None) else ret (Some g)"
  have est: "handle_estimate_gas env run_tx args number s = or_none (est_loop call (GAS_TX - 1) cap) ?last s"
    unfolding estimate_by_cap call_def by (simp add: or_none_def bind_def cap Let_def)
  have last: "case ?last cap s of Err _ _ \<Rightarrow> False | Panic \<Rightarrow> call cap s = Panic | Ok None t \<Rightarrow> t = s \<and> (call cap s = Ok None s \<or> call_reverts call s cap)
      | Ok (Some g) t \<Rightarrow> t = s \<and> g = cap \<and> call_ok call s cap"
    using reads_onlyD [OF reads] total [of cap]
    by (cases "call cap s") (auto simp: infallible_def or_none_def bind_def ret_def call_ok_def call_reverts_def split: option.splits)
  show ?thesis
  proof (cases "GAS_TX \<le> cap")
    case False
    then have "handle_estimate_gas env run_tx args number s = ?last cap s"
      unfolding est by (subst est_loop.simps) (auto simp: or_none_def bind_def ret_def)
    with last False cheap [of cap] show ?thesis
      by (auto simp: call_ok_def split: outcome.splits option.splits)
  next
    case True
    have tx: "GAS_TX - 1 < g \<longleftrightarrow> GAS_TX \<le> g" "GAS_TX - 1 + 1 = GAS_TX" for g by auto
    have "cap < 2 ^ 63" using cap_bound [OF cap] by (simp add: RPC_GAS_CAP_def)
    with True est_loop_cases [of call "GAS_TX - 1" cap s, OF reads _ _ total, unfolded tx] have loop: "case est_loop call (GAS_TX - 1) cap s of
        Err _ _ \<Rightarrow> False
      | Panic \<Rightarrow> \<exists>g. GAS_TX \<le> g \<and> g < cap \<and> call g s = Panic
      | Ok None t \<Rightarrow> t = s \<and> (\<exists>g. GAS_TX \<le> g \<and> g < cap \<and> call g s = Ok None s)
      | Ok (Some g) t \<Rightarrow> t = s \<and> GAS_TX \<le> g \<and> g \<le> cap \<and> (g = cap \<or> call_ok call s g) \<and> (g = GAS_TX \<or> call_reverts call s (g - 1))"
      by blast
    have none: "call g s = Ok None s \<Longrightarrow> call cap s = Ok None s" for g unfolding call_def by (rule do_call_none)
    show ?thesis
    proof (cases "est_loop call (GAS_TX - 1) cap s")
      case Panic
      with loop est show ?thesis by (auto simp: or_none_def bind_def intro: less_imp_le)
    next
      case (Err e t)
      with loop show ?thesis by simp
    next
      case (Ok r t)
      with loop est none last True show ?thesis
        by (cases r) (auto simp: or_none_def bind_def ret_def split: outcome.splits option.splits if_splits)
    qed
  qed
qed

end
