(* ===== verification/DemoMempool.thy ===== *)
theory DemoMempool
  imports DemoChain
begin

text \<open>
  The mempool of \<open>src/examples/demo.rs\<close>: a queue of transactions without repetitions, cut into blocks of at most two.
  The handler of \<open>GenBlocks\<close> keeps the \<open>RefCell\<close> borrowed until the chain has taken the blocks: it is modelled by its two
  halves, before and after the \<open>await\<close>, and a handler that borrows in between panics. \<open>now\<close> is the system time.
\<close>

definition MAX_BLOCK_TXS :: nat where "MAX_BLOCK_TXS = 2"

record mempool =
  mp_tx_queue :: "tx list"
  mp_in_queue :: "hash set"
  mp_chain_id :: u256
  mp_borrowed :: bool

definition mempool_new :: "nat \<Rightarrow> mempool" where
  "mempool_new chain_id =
     \<lparr>mp_tx_queue = [], mp_in_queue = {}, mp_chain_id = word_of_nat chain_id, mp_borrowed = False\<rparr>"

definition borrow_mut :: "(mempool, unit) exec" where
  "borrow_mut = bind (gets mp_borrowed) (\<lambda>b. if b then panic else ret ())"

definition add_transaction :: "tx_libs \<Rightarrow> bytes \<Rightarrow> (mempool, hash option) exec" where
  "add_transaction libs raw =
     bind borrow_mut (\<lambda>_.
     bind (gets mp_chain_id) (\<lambda>chain_id.
     bind (tx_decode libs raw chain_id) (\<lambda>decoded.
     case decoded of
       None \<Rightarrow> ret None
     | Some tx \<Rightarrow>
         bind (gets (\<lambda>m. stx_hash tx \<notin> mp_in_queue m)) (\<lambda>new.
         bind (modify (\<lambda>m. m\<lparr>mp_in_queue := insert (stx_hash tx) (mp_in_queue m)\<rparr>)) (\<lambda>_.
         bind (when_do new (modify (\<lambda>m. m\<lparr>mp_tx_queue := mp_tx_queue m @ [tx]\<rparr>))) (\<lambda>_.
         ret (Some (stx_hash tx))))))))"

definition gas_price :: "(mempool, wei) exec" where
  "gas_price = ret 0x174876e800"

text \<open>The loop over the queue, with the transactions of the open block and the blocks that are done.\<close>

definition flush_txs :: "nat \<Rightarrow> tx list \<Rightarrow> demo_block" where
  "flush_txs now txs = demo_block_new now 0 0 0 None txs"

fun gen_loop :: "nat \<Rightarrow> tx list \<Rightarrow> tx list \<Rightarrow> demo_block list \<Rightarrow> tx list \<times> demo_block list" where
  "gen_loop now [] block_txs blocks = (block_txs, blocks)"
| "gen_loop now (p # queue) block_txs blocks =
     (let block_txs = block_txs @ [p] in
      if length block_txs = MAX_BLOCK_TXS then gen_loop now queue [] (blocks @ [flush_txs now block_txs])
      else gen_loop now queue block_txs blocks)"

definition gen_blocks :: "nat \<Rightarrow> (mempool, demo_block list) exec" where
  "gen_blocks now =
     bind borrow_mut (\<lambda>_.
     bind (gets mp_tx_queue) (\<lambda>queue.
     bind (modify (\<lambda>m. m\<lparr>mp_tx_queue := [], mp_borrowed := True\<rparr>)) (\<lambda>_.
     case gen_loop now queue [] [] of
       (block_txs, blocks) \<Rightarrow> ret (if length block_txs > 0 then blocks @ [flush_txs now block_txs] else blocks))))"

definition gen_blocks_end :: "(mempool, unit) exec" where
  "gen_blocks_end = modify (\<lambda>m. m\<lparr>mp_borrowed := False\<rparr>)"

section \<open>The blocks of a queue\<close>

lemma gen_loop_blocks:
  assumes "gen_loop now queue open blocks = (open', blocks')" and "length open < MAX_BLOCK_TXS"
  shows "length open' < MAX_BLOCK_TXS \<and>
    (\<exists>new. blocks' = blocks @ new \<and> (\<forall>b\<in>set new. length (db_txs b) = MAX_BLOCK_TXS) \<and>
       open @ queue = concat (map db_txs new) @ open')"
  using assms
proof (induction now queue "open" blocks rule: gen_loop.induct)
  case (1 now block_txs blocks)
  then show ?case by simp
next
  case (2 now p queue block_txs blocks)
  show ?case
  proof (cases "length (block_txs @ [p]) = MAX_BLOCK_TXS")
    case True
    with "2.prems" "2.IH"(1) [OF refl True] obtain new where
      "length open' < MAX_BLOCK_TXS" "blocks' = (blocks @ [flush_txs now (block_txs @ [p])]) @ new"
      "\<forall>b\<in>set new. length (db_txs b) = MAX_BLOCK_TXS" "queue = concat (map db_txs new) @ open'"
      by (auto simp: MAX_BLOCK_TXS_def)
    with True show ?thesis
      by (auto simp: flush_txs_def demo_block_new_def intro!: exI [of _ "flush_txs now (block_txs @ [p]) # new"])
  next
    case False
    with "2.prems" have "length (block_txs @ [p]) < MAX_BLOCK_TXS" by simp
    with False "2.prems" "2.IH"(2) [OF refl False] show ?thesis by simp
  qed
qed

lemma sum_lengths_eq: "\<forall>b\<in>set bs. length (f b) = n \<Longrightarrow> length (concat (map f bs)) = n * length bs"
  by (induction bs) auto

text \<open>
  \<open>GenBlocks\<close> cuts the queue into blocks: they hold its transactions in order, each of them one or two, all but the last
  two, and the queue is empty afterwards.
\<close>

lemma gen_blocks_Ok:
  assumes "\<not> mp_borrowed m"
  shows "\<exists>blocks. gen_blocks now m = Ok blocks (m\<lparr>mp_tx_queue := [], mp_borrowed := True\<rparr>) \<and>
    concat (map db_txs blocks) = mp_tx_queue m \<and> (\<forall>b\<in>set blocks. 0 < length (db_txs b)) \<and>
    (\<forall>b\<in>set (butlast blocks). length (db_txs b) = MAX_BLOCK_TXS) \<and>
    length blocks = (length (mp_tx_queue m) + MAX_BLOCK_TXS - 1) div MAX_BLOCK_TXS"
proof -
  obtain open' blocks' where loop: "gen_loop now (mp_tx_queue m) [] [] = (open', blocks')" by fastforce
  from gen_loop_blocks [OF loop] have open': "length open' < MAX_BLOCK_TXS"
    and full: "\<forall>b\<in>set blocks'. length (db_txs b) = MAX_BLOCK_TXS"
    and queue: "mp_tx_queue m = concat (map db_txs blocks') @ open'"
    by (auto simp: MAX_BLOCK_TXS_def)
  from queue sum_lengths_eq [OF full] have "length (mp_tx_queue m) = MAX_BLOCK_TXS * length blocks' + length open'" by simp
  moreover have "length open' = 1" if "open' \<noteq> []" using that open' by (cases open') (auto simp: MAX_BLOCK_TXS_def)
  ultimately show ?thesis using loop full queue assms
    by (auto simp: gen_blocks_def borrow_mut_def exec_defs flush_txs_def demo_block_new_def MAX_BLOCK_TXS_def
        dest: in_set_butlastD)
qed

section \<open>No transaction is sent twice\<close>

text \<open>The messages the mempool handles, one after the other; \<open>sent\<close> are the transactions of all blocks handed to the chain.\<close>

inductive mp_step :: "tx_libs \<Rightarrow> mempool \<times> tx list \<Rightarrow> mempool \<times> tx list \<Rightarrow> bool" for libs where
  step_add: "add_transaction libs raw m = Ok r m' \<Longrightarrow> mp_step libs (m, sent) (m', sent)"
| step_gen: "gen_blocks now m = Ok blocks m' \<Longrightarrow> mp_step libs (m, sent) (m', sent @ concat (map db_txs blocks))"
| step_end: "mp_borrowed m \<Longrightarrow> gen_blocks_end m = Ok () m' \<Longrightarrow> mp_step libs (m, sent) (m', sent)"

inductive_cases mp_stepE: "mp_step libs (m, sent) (m', sent')"

definition mp_inv :: "u256 \<Rightarrow> mempool \<times> tx list \<Rightarrow> bool" where
  "mp_inv chain_id c = (case c of (m, sent) \<Rightarrow>
     distinct (map stx_hash (sent @ mp_tx_queue m)) \<and> mp_in_queue m = stx_hash ` set (sent @ mp_tx_queue m) \<and>
     mp_chain_id m = chain_id)"

lemma add_transaction_Ok:
  "add_transaction libs raw m = Ok r m' \<longleftrightarrow>
     \<not> mp_borrowed m \<and>
     ((tx_decode libs raw (mp_chain_id m) m = Ok None m \<and> r = None \<and> m' = m) \<or>
      (\<exists>tx. tx_decode libs raw (mp_chain_id m) m = Ok (Some tx) m \<and> r = Some (stx_hash tx) \<and>
         m' = m\<lparr>mp_in_queue := insert (stx_hash tx) (mp_in_queue m),
                mp_tx_queue := mp_tx_queue m @ (if stx_hash tx \<in> mp_in_queue m then [] else [tx])\<rparr>))"
proof (cases "tx_decode libs raw (mp_chain_id m) m")
  case (Ok d t)
  moreover from this have "t = m" by (rule reads_onlyD [OF reads_tx_decode])
  ultimately show ?thesis by (cases d) (auto simp: add_transaction_def borrow_mut_def exec_defs)
qed (auto simp: add_transaction_def borrow_mut_def exec_defs)

lemma mp_step_inv:
  assumes "mp_step libs c c'" and "mp_inv chain_id c"
  shows "mp_inv chain_id c'"
  using assms
proof (cases rule: mp_step.cases)
  case (step_add raw m r m' sent)
  from step_add(3) consider "m' = m"
    | tx where "stx_hash tx \<notin> mp_in_queue m" "m' = m\<lparr>mp_in_queue := insert (stx_hash tx) (mp_in_queue m), mp_tx_queue := mp_tx_queue m @ [tx]\<rparr>"
    by (auto simp: add_transaction_Ok insert_absorb split: if_splits)
  then show ?thesis using assms(2) step_add(1,2) by cases (auto simp: mp_inv_def)
next
  case (step_gen now m blocks m' sent)
  then have "\<not> mp_borrowed m" by (auto simp: gen_blocks_def borrow_mut_def exec_defs split: if_splits)
  from gen_blocks_Ok [OF this, of now] step_gen assms(2) show ?thesis by (auto simp: mp_inv_def)
next
  case (step_end m m' sent)
  then show ?thesis using assms(2) by (auto simp: mp_inv_def gen_blocks_end_def modify_def)
qed

lemma mp_new_inv: "mp_inv (word_of_nat chain_id) (mempool_new chain_id, [])"
  by (simp add: mp_inv_def mempool_new_def)

text \<open>
  No transaction is put into a block twice: however messages are handled, the transactions handed to the chain and
  the waiting ones have different hashes, and the set of known hashes is exactly the set of their hashes.
\<close>

theorem mempool_no_duplicates:
  assumes "(mp_step libs)\<^sup>*\<^sup>* (mempool_new chain_id, []) (m, sent)"
  shows "distinct (map stx_hash (sent @ mp_tx_queue m)) \<and> mp_in_queue m = stx_hash ` set (sent @ mp_tx_queue m)"
proof -
  have "mp_inv (word_of_nat chain_id) (m, sent)"
    using assms by (induction rule: rtranclp_induct) (blast intro: mp_new_inv mp_step_inv)+
  then show ?thesis by (simp add: mp_inv_def)
qed

text \<open>A transaction that is submitted twice and then put into a block.\<close>

lemma sample_add:
  assumes "\<not> mp_borrowed m" and "mp_chain_id m = 1"
  shows "add_transaction sample_libs (tx_encode sample_libs fee_tx) m =
    Ok (Some 17) (m\<lparr>mp_in_queue := insert 17 (mp_in_queue m), mp_tx_queue := mp_tx_queue m @
      (if 17 \<in> mp_in_queue m then [] else [\<lparr>stx_inner = fee_tx, stx_hash = 17, stx_from = 64\<rparr>])\<rparr>)"
proof -
  have "rlp_laws (tl_rlp sample_libs)" "tx_u64_fields fee_tx" "tl_keccak sample_libs (tx_encode sample_libs fee_tx) = 17"
    using fee_tx_length by (simp_all add: sample_libs_def rlp_std_laws fee_tx_def)
  then have "tx_decode sample_libs (tx_encode sample_libs fee_tx) 1 m =
      Ok (Some \<lparr>stx_inner = fee_tx, stx_hash = 17, stx_from = 64\<rparr>) m"
    by (subst tx_decode_of_encode) (simp_all add: fee_tx_length fee_tx_sender ret_def)
  then show ?thesis using assms by (subst add_transaction_Ok) simp
qed

theorem mempool_no_duplicates_witness:
  "\<exists>m sent. (mp_step sample_libs)\<^sup>*\<^sup>* (mempool_new 1, []) (m, sent) \<and> sent \<noteq> [] \<and>
     distinct (map stx_hash (sent @ mp_tx_queue m)) \<and> mp_in_queue m = stx_hash ` set (sent @ mp_tx_queue m)"
proof -
  let ?tx = "\<lparr>stx_inner = fee_tx, stx_hash = 17, stx_from = 64\<rparr>"
  let ?m = "(mempool_new 1)\<lparr>mp_in_queue := {17}, mp_tx_queue := [?tx]\<rparr>"
  have "mp_step sample_libs (mempool_new 1, []) (?m, [])" "mp_step sample_libs (?m, []) (?m, [])"
    using sample_add [of "mempool_new 1"] sample_add [of ?m] by (auto simp: mempool_new_def intro!: step_add)
  moreover obtain blocks where "gen_blocks 0 ?m = Ok blocks (?m\<lparr>mp_tx_queue := [], mp_borrowed := True\<rparr>)"
    "concat (map db_txs blocks) = [?tx]"
    using gen_blocks_Ok [of ?m 0] by (auto simp: mempool_new_def)
  then have "mp_step sample_libs (?m, []) (?m\<lparr>mp_tx_queue := [], mp_borrowed := True\<rparr>, [?tx])"
    using step_gen [of 0 ?m blocks _ sample_libs "[]"] by simp
  ultimately have "(mp_step sample_libs)\<^sup>*\<^sup>* (mempool_new 1, []) (?m\<lparr>mp_tx_queue := [], mp_borrowed := True\<rparr>, [?tx])"
    by (meson converse_rtranclp_into_rtranclp rtranclp.rtrancl_refl)
  with mempool_no_duplicates [OF this] show ?thesis by blast
qed

end
