(* ===== verification/Rpc.thy ===== *)
theory Rpc
  imports DemoCall DemoMempool HexJson
begin

text \<open>
  The methods of the JSON-RPC service, \<open>src/src/rpc.rs\<close>, over the traits \<open>ChainStateService\<close> and \<open>MempoolService\<close>: records of the handlers of
  their messages, in a state \<open>'s\<close>. A message to an actor that has stopped is answered by a mailbox error. The parser of JSON
  values, \<open>serde_json\<close>, is a parameter. The node of \<open>demo.rs\<close> is an instance of the records.
\<close>

datatype rpc_error = INTERNAL_ERROR | INVALID_REQUEST

record 's chain_service =
  cs_alive :: "'s \<Rightarrow> bool"
  cs_get_balance :: "addr \<Rightarrow> block_number \<Rightarrow> ('s, wei option) exec"
  cs_get_nonce :: "addr \<Rightarrow> block_number \<Rightarrow> ('s, nat option) exec"
  cs_get_state :: "addr \<Rightarrow> u256 \<Rightarrow> block_number \<Rightarrow> ('s, u256 option) exec"
  cs_get_code :: "addr \<Rightarrow> block_number \<Rightarrow> ('s, bytes option) exec"
  cs_get_tail_block :: "('s, u256 \<times> hash) exec"
  cs_call :: "rpc_tx_args \<Rightarrow> block_number \<Rightarrow> ('s, tx_exec_result option) exec"
  cs_estimate_gas :: "rpc_tx_args \<Rightarrow> block_number \<Rightarrow> ('s, gas option) exec"
  cs_get_tx_receipt :: "hash \<Rightarrow> ('s, tx_receipt option) exec"
  cs_get_tx_by_hash :: "hash \<Rightarrow> ('s, tx_response option) exec"
  cs_get_network_id :: "('s, string) exec"
  cs_get_chain_id :: "('s, u256) exec"
  cs_get_block_by_hash :: "hash \<Rightarrow> bool \<Rightarrow> ('s, block_reply option) exec"
  cs_get_block_by_number :: "block_number \<Rightarrow> bool \<Rightarrow> ('s, block_reply option) exec"

record 's mempool_service =
  ms_alive :: "'s \<Rightarrow> bool"
  ms_add_transaction :: "bytes \<Rightarrow> ('s, hash option) exec"
  ms_gas_price :: "('s, wei) exec"

text \<open>\<open>send(..).await.map_err(|_| INTERNAL_ERROR)\<close>, and \<open>and_then(|h| h.ok_or(INVALID_REQUEST))\<close>.\<close>

definition send_msg :: "('s \<Rightarrow> bool) \<Rightarrow> ('s, 'a) exec \<Rightarrow> ('s, rpc_error + 'a) exec" where
  "send_msg alive m = bind (gets alive) (\<lambda>up. if up then bind m (\<lambda>a. ret (Inr a)) else ret (Inl INTERNAL_ERROR))"

definition required :: "('s, rpc_error + 'a option) exec \<Rightarrow> ('s, rpc_error + 'a) exec" where
  "required m = bind m (\<lambda>r. ret (case r of Inl e \<Rightarrow> Inl e | Inr None \<Rightarrow> Inl INVALID_REQUEST | Inr (Some a) \<Rightarrow> Inr a))"

section \<open>The methods\<close>

definition send_raw_tx :: "'s mempool_service \<Rightarrow> bytes \<Rightarrow> ('s, rpc_error + hash) exec" where
  "send_raw_tx ms raw = required (send_msg (ms_alive ms) (ms_add_transaction ms raw))"

definition rpc_get_tx_count :: "'s chain_service \<Rightarrow> addr \<Rightarrow> block_number \<Rightarrow> ('s, rpc_error + nat) exec" where
  "rpc_get_tx_count cs a n = required (send_msg (cs_alive cs) (cs_get_nonce cs a n))"

definition rpc_get_balance :: "'s chain_service \<Rightarrow> addr \<Rightarrow> block_number \<Rightarrow> ('s, rpc_error + wei) exec" where
  "rpc_get_balance cs a n = required (send_msg (cs_alive cs) (cs_get_balance cs a n))"

definition rpc_block_number :: "'s chain_service \<Rightarrow> ('s, rpc_error + u256) exec" where
  "rpc_block_number cs = bind (send_msg (cs_alive cs) (cs_get_tail_block cs)) (\<lambda>r. ret (map_sum id fst r))"

definition result_data :: "tx_exec_result \<Rightarrow> bytes" where
  "result_data h = (case h of TxSucceeded d _ _ \<Rightarrow> d | TxReverted d _ _ \<Rightarrow> d)"

definition rpc_call :: "'s chain_service \<Rightarrow> rpc_tx_args \<Rightarrow> block_number \<Rightarrow> ('s, rpc_error + bytes) exec" where
  "rpc_call cs args n =
     (if ta_to args = None then ret (Inl INTERNAL_ERROR)
      else bind (required (send_msg (cs_alive cs) (cs_call cs args n))) (\<lambda>r. ret (map_sum id result_data r)))"

definition rpc_get_tx_receipt :: "'s chain_service \<Rightarrow> hash \<Rightarrow> ('s, rpc_error + tx_receipt option) exec" where
  "rpc_get_tx_receipt cs h = send_msg (cs_alive cs) (cs_get_tx_receipt cs h)"

definition rpc_get_tx_by_hash :: "'s chain_service \<Rightarrow> hash \<Rightarrow> ('s, rpc_error + tx_response option) exec" where
  "rpc_get_tx_by_hash cs h = send_msg (cs_alive cs) (cs_get_tx_by_hash cs h)"

definition net_version :: "'s chain_service \<Rightarrow> ('s, rpc_error + string) exec" where
  "net_version cs = send_msg (cs_alive cs) (cs_get_network_id cs)"

definition rpc_chain_id :: "'s chain_service \<Rightarrow> ('s, rpc_error + u256) exec" where
  "rpc_chain_id cs = send_msg (cs_alive cs) (cs_get_chain_id cs)"

definition rpc_get_block_by_hash :: "'s chain_service \<Rightarrow> hash \<Rightarrow> bool \<Rightarrow> ('s, rpc_error + block_reply) exec" where
  "rpc_get_block_by_hash cs h verbose = required (send_msg (cs_alive cs) (cs_get_block_by_hash cs h verbose))"

definition rpc_get_block_by_number :: "'s chain_service \<Rightarrow> block_number \<Rightarrow> bool \<Rightarrow> ('s, rpc_error + block_reply) exec" where
  "rpc_get_block_by_number cs n verbose = required (send_msg (cs_alive cs) (cs_get_block_by_number cs n verbose))"

definition rpc_get_storage_at :: "'s chain_service \<Rightarrow> addr \<Rightarrow> u256 \<Rightarrow> block_number \<Rightarrow> ('s, rpc_error + bytes) exec" where
  "rpc_get_storage_at cs a key n =
     bind (required (send_msg (cs_alive cs) (cs_get_state cs a key n))) (\<lambda>r. ret (map_sum id bytes32_of_u256 r))"

definition rpc_get_code :: "'s chain_service \<Rightarrow> addr \<Rightarrow> block_number \<Rightarrow> ('s, rpc_error + bytes) exec" where
  "rpc_get_code cs a n = required (send_msg (cs_alive cs) (cs_get_code cs a n))"

text \<open>The parameters of \<open>eth_estimateGas\<close> are raw values; \<open>params[0]\<close> is not checked.\<close>

definition rpc_estimate_gas ::
  "(string \<Rightarrow> rpc_tx_args option) \<Rightarrow> (string \<Rightarrow> block_number option) \<Rightarrow> 's chain_service \<Rightarrow> string list \<Rightarrow> ('s, rpc_error + gas) exec" where
  "rpc_estimate_gas parse_args parse_number cs params =
     (if length params > 2 then ret (Inl INVALID_REQUEST)
      else if params = [] then panic
      else
        case parse_args (params ! 0) of
          None \<Rightarrow> ret (Inl INVALID_REQUEST)
        | Some args \<Rightarrow>
            case (if length params < 2 then Some Latest else parse_number (params ! 1)) of
              None \<Rightarrow> ret (Inl INVALID_REQUEST)
            | Some n \<Rightarrow> required (send_msg (cs_alive cs) (cs_estimate_gas cs args n)))"

definition rpc_gas_price :: "'s mempool_service \<Rightarrow> ('s, rpc_error + wei) exec" where
  "rpc_gas_price ms = send_msg (ms_alive ms) (ms_gas_price ms)"

definition net_listening :: "('s, rpc_error + bool) exec" where
  "net_listening = ret (Inr True)"

section \<open>The demo node as the service\<close>

definition handle_get_network_id :: "string \<Rightarrow> ('d demo_state, string) exec" where
  "handle_get_network_id network_id = ret network_id"

definition handle_get_chain_id :: "('d demo_state, u256) exec" where
  "handle_get_chain_id = gets dc_chain_id"

definition demo_service :: "'d demo_env \<Rightarrow> tx_runner \<Rightarrow> string \<Rightarrow> 'd demo_state chain_service" where
  "demo_service env run_tx network_id =
     \<lparr>cs_alive = \<lambda>_. True, cs_get_balance = handle_get_balance env, cs_get_nonce = handle_get_nonce env,
      cs_get_state = handle_get_state env, cs_get_code = handle_get_code env, cs_get_tail_block = handle_get_tail_block env,
      cs_call = handle_call env run_tx, cs_estimate_gas = handle_estimate_gas env run_tx,
      cs_get_tx_receipt = handle_get_tx_receipt env, cs_get_tx_by_hash = handle_get_tx_by_hash env,
      cs_get_network_id = handle_get_network_id network_id, cs_get_chain_id = handle_get_chain_id,
      cs_get_block_by_hash = handle_get_block_by_hash env, cs_get_block_by_number = handle_get_block_by_number env\<rparr>"

definition demo_mempool_service :: "tx_libs \<Rightarrow> mempool mempool_service" where
  "demo_mempool_service libs =
     \<lparr>ms_alive = \<lambda>_. True, ms_add_transaction = add_transaction libs, ms_gas_price = gas_price\<rparr>"

section \<open>Requests are answered\<close>

lemma answers_bind: "answers m s \<Longrightarrow> (\<And>a. m s = Ok a s \<Longrightarrow> answers (f a) s) \<Longrightarrow> answers (bind m f) s"
  by (auto simp: answers_def bind_def)

lemma answers_gets: "answers (gets f) s"
  by (simp add: answers_def gets_def)

lemma answers_send: "answers m s \<Longrightarrow> answers (send_msg alive m) s"
  unfolding send_msg_def by (auto intro!: answers_bind answers_gets answers_ret)

lemma answers_required: "answers m s \<Longrightarrow> answers (required m) s"
  unfolding required_def by (auto intro!: answers_bind answers_ret)

lemma answers_state_at: "serviceable env s \<Longrightarrow> answers (state_at env n) s"
  unfolding state_at_def by (auto intro!: answers_or_none answers_ret serviceable_blocks)

lemmas answers_rules = answers_bind answers_gets answers_ret answers_send answers_required answers_or_none answers_state_at

lemma answers_tail:
  assumes "serviceable env s"
  shows "answers (handle_get_tail_block env) s"
proof -
  from assms have ne: "dc_indexed s \<noteq> []" and some: "\<forall>b\<in>set (dc_indexed s). b \<noteq> None"
    by (auto simp: serviceable_def)
  then obtain b where "last (dc_indexed s) = Some b" using last_in_set by blast
  with ne have "get_block_by_number Latest s = Ok (Some b) s"
    by (simp add: get_block_by_number_def exec_defs last_conv_nth Suc_le_eq)
  then show ?thesis by (simp add: answers_def handle_get_tail_block_def bind_def unwrap_def ret_def)
qed

text \<open>
  A node whose blocks are readable answers every request about accounts and blocks, without a panic and without a change; so it does
  a call without a receiver, which is an error. The request \<open>eth_estimateGas\<close> without parameters panics.
\<close>

lemma rpc_requests_answered:
  assumes ok: "serviceable env s"
  shows "answers (rpc_get_balance (demo_service env run_tx nid) a n) s"
    and "answers (rpc_get_tx_count (demo_service env run_tx nid) a n) s"
    and "answers (rpc_get_storage_at (demo_service env run_tx nid) a key n) s"
    and "answers (rpc_get_code (demo_service env run_tx nid) a n) s"
    and "answers (rpc_block_number (demo_service env run_tx nid)) s"
    and "answers (rpc_get_block_by_number (demo_service env run_tx nid) n verbose) s"
    and "answers (rpc_chain_id (demo_service env run_tx nid)) s"
    and "answers (net_version (demo_service env run_tx nid)) s"
    and "ta_to args = None \<Longrightarrow> answers (rpc_call (demo_service env run_tx nid) args n) s"
    and "rpc_estimate_gas parse_args parse_number (demo_service env run_tx nid) [] s = Panic"
proof -
  note defs = demo_service_def chain_service.simps
  show "answers (rpc_get_balance (demo_service env run_tx nid) a n) s"
    unfolding rpc_get_balance_def defs handle_get_balance_def by (intro answers_rules ok)
  show "answers (rpc_get_tx_count (demo_service env run_tx nid) a n) s"
    unfolding rpc_get_tx_count_def defs handle_get_nonce_def by (intro answers_rules ok)
  show "answers (rpc_get_storage_at (demo_service env run_tx nid) a key n) s"
    unfolding rpc_get_storage_at_def defs handle_get_state_def by (intro answers_rules ok)
  show "answers (rpc_get_code (demo_service env run_tx nid) a n) s"
    unfolding rpc_get_code_def defs handle_get_code_def by (intro answers_rules ok)
  show "answers (rpc_block_number (demo_service env run_tx nid)) s"
    unfolding rpc_block_number_def defs by (intro answers_rules answers_tail ok)
  show "answers (rpc_get_block_by_number (demo_service env run_tx nid) n verbose) s"
    unfolding rpc_get_block_by_number_def defs handle_get_block_by_number_def get_block_info_def
    by (intro answers_rules serviceable_blocks [OF ok])
  show "answers (rpc_chain_id (demo_service env run_tx nid)) s" "answers (net_version (demo_service env run_tx nid)) s"
    unfolding rpc_chain_id_def net_version_def defs handle_get_network_id_def handle_get_chain_id_def by (intro answers_rules)+
  show "answers (rpc_call (demo_service env run_tx nid) args n) s" if "ta_to args = None"
    using that by (simp add: rpc_call_def answers_ret)
  show "rpc_estimate_gas parse_args parse_number (demo_service env run_tx nid) [] s = Panic"
    by (simp add: rpc_estimate_gas_def panic_def)
qed

end
