(* ===== verification/DemoNode.thy ===== *)
theory DemoNode
  imports NodeStore Rpc
begin

text \<open>
  The demo node as a whole: the chain state, the mempool and the methods that the RPC server registers (\<open>src/src/rpc.rs\<close>,
  \<open>src/examples/demo.rs\<close>), from the first start through requests, the periodic \<open>GenBlocks\<close> and the \<open>AddBlocks\<close> that the mempool
  awaits. What holds of a session is stated by the requests it has handled and the hashes of the blocks it has made.
\<close>

record 'd node =
  nd_chain :: "'d demo_state"
  nd_network_id :: string
  nd_mempool :: mempool
  nd_blocks :: "demo_block list option"

text \<open>\<open>DemoChainState::new\<close> and \<open>DemoMempool::new\<close>; the constants are those of \<open>main\<close>. \<open>nd_blocks\<close> is the message that \<open>GenBlocks\<close> awaits.\<close>

definition demo_start ::
  "'d demo_env \<Rightarrow> (bytes \<Rightarrow> bytes) \<Rightarrow> nat \<Rightarrow> nat \<Rightarrow> string \<Rightarrow> addr \<times> wei \<Rightarrow> 'd \<Rightarrow> 'd node option" where
  "demo_start env hasher now chain_id network_id genesis_account db =
     (case demo_new env hasher now (fst genesis_account) (snd genesis_account) db (word_of_nat chain_id) of
        Ok _ s \<Rightarrow> Some \<lparr>nd_chain = s, nd_network_id = network_id, nd_mempool = mempool_new chain_id, nd_blocks = None\<rparr>
      | _ \<Rightarrow> None)"

definition demo_main :: "'d demo_env \<Rightarrow> (bytes \<Rightarrow> bytes) \<Rightarrow> nat \<Rightarrow> 'd \<Rightarrow> 'd node option" where
  "demo_main env hasher now db =
     demo_start env hasher now 10086 ''10086'' (0xa91212112ab5a2469429A8B2A948097065F4970b, 0x1000000000000000000) db"

section \<open>The registered methods\<close>

datatype rpc_request =
    EthSendRawTransaction bytes
  | EthGetBalance addr block_number
  | EthBlockNumber
  | EthCall rpc_tx_args block_number
  | EthGetTransactionCount addr block_number
  | EthGetTransactionReceipt hash
  | EthGetTransactionByHash hash
  | EthGetBlockByNumber block_number bool
  | EthGetBlockByHash hash bool
  | EthGetStorageAt addr u256 block_number
  | EthGetCode addr block_number
  | EthChainId
  | EthGasPrice
  | NetVersion
  | EthEstimateGas "string list"
  | NetListening

fun rpc_method :: "rpc_request \<Rightarrow> string" where
  "rpc_method (EthSendRawTransaction _) = ''eth_sendRawTransaction''"
| "rpc_method (EthGetBalance _ _) = ''eth_getBalance''"
| "rpc_method EthBlockNumber = ''eth_blockNumber''"
| "rpc_method (EthCall _ _) = ''eth_call''"
| "rpc_method (EthGetTransactionCount _ _) = ''eth_getTransactionCount''"
| "rpc_method (EthGetTransactionReceipt _) = ''eth_getTransactionReceipt''"
| "rpc_method (EthGetTransactionByHash _) = ''eth_getTransactionByHash''"
| "rpc_method (EthGetBlockByNumber _ _) = ''eth_getBlockByNumber''"
| "rpc_method (EthGetBlockByHash _ _) = ''eth_getBlockByHash''"
| "rpc_method (EthGetStorageAt _ _ _) = ''eth_getStorageAt''"
| "rpc_method (EthGetCode _ _) = ''eth_getCode''"
| "rpc_method EthChainId = ''eth_chainId''"
| "rpc_method EthGasPrice = ''eth_gasPrice''"
| "rpc_method NetVersion = ''net_version''"
| "rpc_method (EthEstimateGas _) = ''eth_estimateGas''"
| "rpc_method NetListening = ''net_listening''"

datatype rpc_reply =
    HashReply "rpc_error + hash"
  | WeiReply "rpc_error + wei"
  | NumberReply "rpc_error + u256"
  | BytesReply "rpc_error + bytes"
  | CountReply "rpc_error + nat"
  | ReceiptReply "rpc_error + tx_receipt option"
  | TxReply "rpc_error + tx_response option"
  | BlockReply "rpc_error + block_reply"
  | TextReply "rpc_error + string"
  | BoolReply "rpc_error + bool"

abbreviation on_node_chain :: "('d demo_state, 'a) exec \<Rightarrow> ('d node, 'a) exec" where
  "on_node_chain \<equiv> zoom nd_chain (\<lambda>s n. n\<lparr>nd_chain := s\<rparr>)"

abbreviation on_mempool :: "(mempool, 'a) exec \<Rightarrow> ('d node, 'a) exec" where
  "on_mempool \<equiv> zoom nd_mempool (\<lambda>m n. n\<lparr>nd_mempool := m\<rparr>)"

definition replies :: "('a \<Rightarrow> 'b) \<Rightarrow> ('s, 'a) exec \<Rightarrow> ('s, 'b) exec" where
  "replies f m = bind m (\<lambda>a. ret (f a))"

text \<open>The parsers of the raw parameters of \<open>eth_estimateGas\<close> are arguments.\<close>

definition rpc_serve ::
  "(string \<Rightarrow> rpc_tx_args option) \<Rightarrow> (string \<Rightarrow> block_number option) \<Rightarrow> 'd demo_env \<Rightarrow> tx_runner \<Rightarrow> rpc_request \<Rightarrow>
   ('d node, rpc_reply) exec" where
  "rpc_serve parse_args parse_number env run_tx req =
     bind (gets nd_network_id) (\<lambda>nid.
     let cs = demo_service env run_tx nid; ms = demo_mempool_service (de_libs env) in
     case req of
       EthSendRawTransaction raw \<Rightarrow> replies HashReply (on_mempool (send_raw_tx ms raw))
     | EthGetBalance a n \<Rightarrow> replies WeiReply (on_node_chain (rpc_get_balance cs a n))
     | EthBlockNumber \<Rightarrow> replies NumberReply (on_node_chain (rpc_block_number cs))
     | EthCall args n \<Rightarrow> replies BytesReply (on_node_chain (rpc_call cs args n))
     | EthGetTransactionCount a n \<Rightarrow> replies CountReply (on_node_chain (rpc_get_tx_count cs a n))
     | EthGetTransactionReceipt h \<Rightarrow> replies ReceiptReply (on_node_chain (rpc_get_tx_receipt cs h))
     | EthGetTransactionByHash h \<Rightarrow> replies TxReply (on_node_chain (rpc_get_tx_by_hash cs h))
     | EthGetBlockByNumber n v \<Rightarrow> replies BlockReply (on_node_chain (rpc_get_block_by_number cs n v))
     | EthGetBlockByHash h v \<Rightarrow> replies BlockReply (on_node_chain (rpc_get_block_by_hash cs h v))
     | EthGetStorageAt a key n \<Rightarrow> replies BytesReply (on_node_chain (rpc_get_storage_at cs a key n))
     | EthGetCode a n \<Rightarrow> replies BytesReply (on_node_chain (rpc_get_code cs a n))
     | EthChainId \<Rightarrow> replies NumberReply (on_node_chain (rpc_chain_id cs))
     | EthGasPrice \<Rightarrow> replies WeiReply (on_mempool (rpc_gas_price ms))
     | NetVersion \<Rightarrow> replies TextReply (on_node_chain (net_version cs))
     | EthEstimateGas ps \<Rightarrow> replies CountReply (on_node_chain (rpc_estimate_gas parse_args parse_number cs ps))
     | NetListening \<Rightarrow> replies BoolReply net_listening)"

text \<open>\<open>GenBlocks\<close>, before and after the chain state has handled \<open>AddBlocks\<close>.\<close>

definition node_gen_blocks :: "nat \<Rightarrow> ('d node, unit) exec" where
  "node_gen_blocks now =
     bind (on_mempool (gen_blocks now)) (\<lambda>blocks. modify (\<lambda>n. n\<lparr>nd_blocks := Some blocks\<rparr>))"

definition node_add_blocks :: "'d demo_env \<Rightarrow> tx_runner \<Rightarrow> ('d node, unit) exec" where
  "node_add_blocks env run_tx =
     bind (gets nd_blocks) (\<lambda>sent.
     bind (unwrap sent) (\<lambda>blocks.
     bind (on_node_chain (add_blocks env run_tx blocks)) (\<lambda>_.
     bind (on_mempool gen_blocks_end) (\<lambda>_.
     modify (\<lambda>n. n\<lparr>nd_blocks := None\<rparr>)))))"

section \<open>Requests keep the chain\<close>

lemma reads_keep:
  assumes "reads_only m"
  shows "pres (keeps P) m"
  unfolding pres_def
proof
  fix s
  from assms have "case m s of Ok a t \<Rightarrow> s = t | Err e t \<Rightarrow> s = t | Panic \<Rightarrow> True" by (simp add: pres_def)
  then show "case m s of Ok a t \<Rightarrow> keeps P s t | Err e t \<Rightarrow> keeps P s t | Panic \<Rightarrow> True"
    by (cases "m s") (simp_all add: keeps_def)
qed

lemma keep_or_none: "pres (keeps P) m \<Longrightarrow> (\<And>a. pres (keeps P) (f a)) \<Longrightarrow> pres (keeps P) (or_none m f)"
  unfolding or_none_def by (intro keep.pres_rules)

lemma keep_send: "pres (keeps P) m \<Longrightarrow> pres (keeps P) (send_msg alive m)"
  unfolding send_msg_def by (intro keep.pres_rules)

lemma keep_required: "pres (keeps P) m \<Longrightarrow> pres (keeps P) (required m)"
  unfolding required_def by (intro keep.pres_rules)

lemmas node_rules = keep.pres_rules keep_or_none keep_send keep_required

text \<open>A block that is asked for by its hash is in the tree or unknown: nothing is loaded.\<close>

lemma known_by_hash:
  assumes "chain_holds env s bs"
  shows "get_block_by_hash env h s =
    (if h = 0 then Panic else Ok (map_of (map (\<lambda>b. (block_hash env b, b)) bs) h) s)"
proof (cases "h \<in> set (0 # map (block_hash env) bs)")
  case True
  then consider "h = 0" | b where "b \<in> set bs" "h = block_hash env b" by auto
  then show ?thesis
  proof cases
    case (2 b)
    note b = tree_is_block [OF _ 2(1), of env "dc_chain s"]
    with assms have "get_block (dc_chain s) h = Some b" "h \<noteq> 0" by (simp_all add: chain_holds_def 2(2))
    moreover have "get_block (dc_chain s) h = map_of (map (\<lambda>b. (block_hash env b, b)) bs) h"
      using assms by (simp add: chain_holds_def tree_is_def get_block_known)
    ultimately show ?thesis by (simp add: get_block_by_hash_def bind_def gets_def ret_def)
  qed (simp add: get_block_by_hash_def panic_def)
next
  case False
  with assms have "get_block (dc_chain s) h = None" "map_of (map (\<lambda>b. (block_hash env b, b)) bs) h = None"
    by (auto simp: chain_holds_def get_block_known map_of_eq_None_iff dest!: tree_is_known)
  moreover have "rk_get (de_rocks env) (rw_db (dc_mdb s)) (gen_block_key h) \<noteq> Some (Some raw)" for raw
    using assms False by (simp add: chain_holds_def store_has_def)
  ultimately show ?thesis using False
    by (auto simp: get_block_by_hash_def bind_def gets_def ret_def split: option.split)
qed

lemma cached_tx_found:
  assumes "chain_holds env s bs"
  obtains r t where "get_cached_tx h s = Ok r t" "chain_holds env t bs" "dc_mdb t = dc_mdb s" "dc_chain_id t = dc_chain_id s"
    "case r of None \<Rightarrow> \<forall>b\<in>set bs. \<forall>tx\<in>set (db_txs b). stx_hash tx \<noteq> h
      | Some (b, i) \<Rightarrow> b \<in> set bs \<and> i < length (db_txs b) \<and> stx_hash (db_txs b ! i) = h"
proof (cases "dc_tx_cache s h")
  case (Some e)
  then have "get_cached_tx h s = Ok (Some e) s" by (simp add: get_cached_tx_def bind_def gets_def ret_def)
  moreover have "case e of (b, i) \<Rightarrow> b \<in> set bs \<and> i < length (db_txs b) \<and> stx_hash (db_txs b ! i) = h"
    using Some assms by (cases e) (auto simp: chain_holds_def cache_in_def)
  ultimately show thesis using that [OF _ assms refl refl] by simp
next
  case None
  obtain f where f: "find_in_index h (map Some (rev bs)) s = Ok f s"
    "case f of None \<Rightarrow> \<forall>b\<in>set bs. \<forall>tx\<in>set (db_txs b). stx_hash tx \<noteq> h
     | Some (b, i) \<Rightarrow> b \<in> set bs \<and> i < length (db_txs b) \<and> stx_hash (db_txs b ! i) = h"
    using find_in_index_Ok [of h "rev bs" s] unfolding set_rev by blast
  have index: "rev (dc_indexed s) = map Some (rev bs)" using assms by (simp add: chain_holds_def rev_map)
  show thesis
  proof (cases f)
    case None': None
    with None index f assms that [of None s] show thesis
      by (simp add: get_cached_tx_def bind_def gets_def ret_def)
  next
    case (Some e)
    let ?t = "s\<lparr>dc_tx_cache := (dc_tx_cache s)(h \<mapsto> e)\<rparr>"
    have "get_cached_tx h s = Ok (Some e) ?t"
      using None index f(1) Some by (simp add: get_cached_tx_def bind_def gets_def ret_def modify_def)
    moreover have "chain_holds env ?t bs"
      using assms f(2) Some by (cases e) (auto simp: chain_holds_def cache_in_def)
    ultimately show thesis using that [of "Some e" ?t] f(2) Some by simp
  qed
qed

text \<open>The chain, its database and its identifier.\<close>

definition chain_at :: "'d demo_env \<Rightarrow> demo_block list \<Rightarrow> 'd rw_db \<Rightarrow> u256 \<Rightarrow> 'd demo_state \<Rightarrow> bool" where
  "chain_at env bs w cid s \<longleftrightarrow> chain_holds env s bs \<and> dc_mdb s = w \<and> dc_chain_id s = cid"

lemma handlers_keep:
  "pres (keeps (chain_at env bs w cid)) (get_cached_tx h)"
  "pres (keeps (chain_at env bs w cid)) (get_block_by_hash env h)"
  "pres (keeps (chain_at env bs w cid)) (get_block_by_number n)"
  "pres (keeps (chain_at env bs w cid)) (get_block_state env b)"
  "pres (keeps (chain_at env bs w cid)) (state_at env n)"
  "pres (keeps (chain_at env bs w cid)) (do_call env run_tx args n cap)"
  "pres (keeps (chain_at env bs w cid)) (high_of_request args n)"
  "pres (keeps (chain_at env bs w cid)) (high_of_funds env args n fee high)"
  "(\<And>g. reads_only (call g)) \<Longrightarrow> pres (keeps (chain_at env bs w cid)) (est_loop call low high)"
proof -
  show "pres (keeps (chain_at env bs w cid)) (get_cached_tx h)"
    unfolding pres_def
  proof
    fix s :: "'a demo_state"
    show "case get_cached_tx h s of Ok a t \<Rightarrow> keeps (chain_at env bs w cid) s t
      | Err e t \<Rightarrow> keeps (chain_at env bs w cid) s t | Panic \<Rightarrow> True"
    proof (cases "chain_at env bs w cid s")
      case True
      then have "chain_holds env s bs" by (simp add: chain_at_def)
      then obtain r t where "get_cached_tx h s = Ok r t" "chain_holds env t bs" "dc_mdb t = dc_mdb s" "dc_chain_id t = dc_chain_id s"
        by (rule cached_tx_found)
      with True show ?thesis by (simp add: keeps_def chain_at_def)
    qed (simp add: keeps_def split: outcome.split)
  qed
  show "pres (keeps (chain_at env bs w cid)) (get_block_by_hash env h)"
    by (auto simp: pres_def keeps_def chain_at_def known_by_hash split: outcome.splits if_splits)
qed (intro reads_keep reads_block_number reads_block_state reads_state_at reads_do_call reads_high reads_est_loop; assumption)+

lemma estimate_keeps: "pres (keeps (chain_at env bs w cid)) (handle_estimate_gas env run_tx args n)"
  unfolding handle_estimate_gas_def do_estimate_gas_def Let_def by (intro node_rules handlers_keep reads_do_call)

lemma methods_keep:
  fixes nid :: string and env :: "'d demo_env" and run_tx :: tx_runner and bs :: "demo_block list" and w :: "'d rw_db" and cid :: u256
  defines "cs \<equiv> demo_service env run_tx nid" and "H \<equiv> chain_at env bs w cid"
  shows "pres (keeps H) (rpc_get_balance cs a n)" "pres (keeps H) (rpc_block_number cs)" "pres (keeps H) (rpc_call cs args n)"
    "pres (keeps H) (rpc_get_tx_count cs a n)" "pres (keeps H) (rpc_get_tx_receipt cs h)" "pres (keeps H) (rpc_get_tx_by_hash cs h)"
    "pres (keeps H) (rpc_get_block_by_number cs n v)" "pres (keeps H) (rpc_get_block_by_hash cs h v)"
    "pres (keeps H) (rpc_get_storage_at cs a key n)" "pres (keeps H) (rpc_get_code cs a n)" "pres (keeps H) (rpc_chain_id cs)"
    "pres (keeps H) (net_version cs)" "pres (keeps H) (rpc_estimate_gas parse_args parse_number cs ps)"
  unfolding cs_def H_def demo_service_def rpc_get_balance_def rpc_block_number_def rpc_call_def rpc_get_tx_count_def
    rpc_get_tx_receipt_def rpc_get_tx_by_hash_def rpc_get_block_by_number_def rpc_get_block_by_hash_def rpc_get_storage_at_def
    rpc_get_code_def rpc_chain_id_def net_version_def rpc_estimate_gas_def chain_service.simps handle_get_balance_def
    handle_get_nonce_def handle_get_state_def handle_get_code_def handle_get_tail_block_def handle_call_def
    handle_get_tx_receipt_def handle_get_tx_by_hash_def handle_get_block_by_hash_def handle_get_block_by_number_def
    handle_get_network_id_def handle_get_chain_id_def
    get_block_info_def Let_def
  by (intro node_rules handlers_keep estimate_keeps)+

lemma on_node_chain_Ok:
  "on_node_chain m n = Ok a n' \<longleftrightarrow> (\<exists>t. m (nd_chain n) = Ok a t \<and> n' = n\<lparr>nd_chain := t\<rparr>)"
  by (auto simp: zoom_def split: outcome.splits)

lemma on_mempool_Ok:
  "on_mempool m n = Ok a n' \<longleftrightarrow> (\<exists>t. m (nd_mempool n) = Ok a t \<and> n' = n\<lparr>nd_mempool := t\<rparr>)"
  by (auto simp: zoom_def split: outcome.splits)

lemma replies_Ok: "replies f m s = Ok b t \<longleftrightarrow> (\<exists>a. m s = Ok a t \<and> b = f a)"
  by (auto simp: replies_def bind_Ok_conv ret_def)

text \<open>A request leaves the chain as it is, and only \<open>eth_sendRawTransaction\<close> changes the mempool.\<close>

lemma chain_method_kept:
  assumes "pres (keeps (chain_at env bs w cid)) m" and "chain_at env bs w cid (nd_chain n)"
    and "replies f (on_node_chain m) n = Ok r n'"
  shows "chain_at env bs w cid (nd_chain n') \<and> nd_blocks n' = nd_blocks n \<and> nd_mempool n' = nd_mempool n"
  using assms pres_OkD [OF assms(1)] by (fastforce simp: replies_Ok on_node_chain_Ok keeps_def)

lemmas methods_kept = methods_keep [THEN chain_method_kept]

lemma serve_effect:
  assumes "rpc_serve parse_args parse_number env run_tx req n = Ok r n'" and "chain_at env bs w cid (nd_chain n)"
  shows "chain_at env bs w cid (nd_chain n') \<and> nd_blocks n' = nd_blocks n \<and>
    (case req of EthSendRawTransaction raw \<Rightarrow> \<exists>a. add_transaction (de_libs env) raw (nd_mempool n) = Ok a (nd_mempool n')
     | _ \<Rightarrow> nd_mempool n' = nd_mempool n)"
proof (cases req)
  case (EthSendRawTransaction raw)
  with assms show ?thesis
    by (auto simp: rpc_serve_def bind_def gets_def replies_Ok on_mempool_Ok send_raw_tx_def required_def send_msg_def
        demo_mempool_service_def ret_def split: outcome.splits)
next
  case EthGasPrice
  with assms show ?thesis
    by (auto simp: rpc_serve_def bind_def gets_def replies_Ok on_mempool_Ok rpc_gas_price_def send_msg_def
        demo_mempool_service_def gas_price_def ret_def)
next
  case NetListening
  with assms show ?thesis
    by (auto simp: rpc_serve_def bind_def gets_def replies_Ok net_listening_def ret_def)
qed (use assms(1) in \<open>auto simp: rpc_serve_def bind_def gets_def Let_def dest!: methods_kept [OF assms(2)]\<close>)

section \<open>Decoding does not depend on the state\<close>

definition same_run :: "('s, 'a) exec \<Rightarrow> (unit, 'a) exec \<Rightarrow> bool" where
  "same_run m m' \<longleftrightarrow> (\<forall>s. m s = (case m' () of Ok a _ \<Rightarrow> Ok a s | Err e _ \<Rightarrow> Err e s | Panic \<Rightarrow> Panic))"

lemma same_basic:
  "same_run (ret a) (ret a)" "same_run panic panic" "same_run (throw e) (throw e)" "same_run (unwrap x) (unwrap x)"
  "same_run (u64_add i j) (u64_add i j)" "same_run (u64_sub i j) (u64_sub i j)"
  by (auto simp: same_run_def exec_defs split: option.split)

lemma same_bind: "same_run m m' \<Longrightarrow> (\<And>a. same_run (f a) (f' a)) \<Longrightarrow> same_run (bind m f) (bind m' f')"
  by (auto simp: same_run_def bind_def split: outcome.split)

lemma same_if: "same_run m m' \<Longrightarrow> same_run k k' \<Longrightarrow> same_run (if b then m else k) (if b then m' else k')"
  by simp

lemma same_option:
  "same_run m m' \<Longrightarrow> (\<And>a. same_run (f a) (f' a)) \<Longrightarrow>
    same_run (case x of None \<Rightarrow> m | Some a \<Rightarrow> f a) (case x of None \<Rightarrow> m' | Some a \<Rightarrow> f' a)"
  by (cases x) simp_all

lemma same_prod: "(\<And>a b. same_run (f a b) (f' a b)) \<Longrightarrow> same_run (case p of (a, b) \<Rightarrow> f a b) (case p of (a, b) \<Rightarrow> f' a b)"
  by (cases p) simp

lemmas same_rules = same_basic same_bind same_if same_option same_prod

lemma tx_decode_same: "same_run (tx_decode libs raw chain_id) (tx_decode libs raw chain_id)"
proof -
  have "same_run (tx_chain_id tx) (tx_chain_id tx)" for tx
    by (cases tx) (auto simp: derive_chain_id_def Let_def intro!: same_rules)
  then have "same_run (tx_new libs tx h chain_id) (tx_new libs tx h chain_id)" for tx h
    unfolding tx_new_def recover_sender_def recover_plain_def Let_def by (intro same_rules)
  then have "same_run (tx_decoded libs t h chain_id) (tx_decoded libs t h chain_id)" for t h
    unfolding tx_decoded_def by (cases t) (simp_all add: same_basic)
  then show ?thesis unfolding tx_decode_def Let_def by (intro same_rules)
qed

section \<open>Sessions\<close>

text \<open>The transactions the mempool takes from the requests: those that are decoded and whose hash is new, in order.\<close>

definition tx_of_raw :: "tx_libs \<Rightarrow> u256 \<Rightarrow> bytes \<Rightarrow> tx option" where
  "tx_of_raw libs chain_id raw = (case tx_decode libs raw chain_id () of Ok r _ \<Rightarrow> r | _ \<Rightarrow> None)"

definition admit :: "tx_libs \<Rightarrow> u256 \<Rightarrow> rpc_request \<Rightarrow> tx list \<Rightarrow> tx list" where
  "admit libs chain_id req txs =
     (case req of
        EthSendRawTransaction raw \<Rightarrow>
          (case tx_of_raw libs chain_id raw of
             Some tx \<Rightarrow> if stx_hash tx \<in> stx_hash ` set txs then txs else txs @ [tx]
           | None \<Rightarrow> txs)
      | _ \<Rightarrow> txs)"

definition admitted :: "tx_libs \<Rightarrow> u256 \<Rightarrow> rpc_request list \<Rightarrow> tx list" where
  "admitted libs chain_id reqs = fold (admit libs chain_id) reqs []"

lemma admitted_snoc: "admitted libs chain_id (reqs @ [req]) = admit libs chain_id req (admitted libs chain_id reqs)"
  by (simp add: admitted_def)

lemma distinct_admit: "distinct (map stx_hash txs) \<Longrightarrow> distinct (map stx_hash (admit libs chain_id req txs))"
  by (auto simp: admit_def split: rpc_request.split option.split)

lemma distinct_admitted: "distinct (map stx_hash (admitted libs chain_id reqs))"
  by (induction reqs rule: rev_induct) (simp_all add: admitted_def distinct_admit)

lemma add_transaction_admits:
  assumes "add_transaction libs raw m = Ok a m'" and "mp_in_queue m = stx_hash ` set txs"
  obtains new where "mp_tx_queue m' = mp_tx_queue m @ new" "admit libs (mp_chain_id m) (EthSendRawTransaction raw) txs = txs @ new"
    "mp_chain_id m' = mp_chain_id m" "mp_in_queue m' = stx_hash ` set (txs @ new)" "mp_borrowed m' = mp_borrowed m"
proof -
  have dec: "tx_of_raw libs (mp_chain_id m) raw = r" if "tx_decode libs raw (mp_chain_id m) m = Ok r m" for r
  proof -
    have "tx_decode libs raw (mp_chain_id m) m = (case tx_decode libs raw (mp_chain_id m) () of
        Ok a _ \<Rightarrow> Ok a m | Err e _ \<Rightarrow> Err e m | Panic \<Rightarrow> Panic)"
      by (rule tx_decode_same [unfolded same_run_def, rule_format])
    with that show ?thesis by (auto simp: tx_of_raw_def split: outcome.splits)
  qed
  from assms(1) consider "tx_of_raw libs (mp_chain_id m) raw = None" "m' = m"
    | tx where "tx_of_raw libs (mp_chain_id m) raw = Some tx" "m' = m\<lparr>mp_in_queue := insert (stx_hash tx) (mp_in_queue m),
        mp_tx_queue := mp_tx_queue m @ (if stx_hash tx \<in> mp_in_queue m then [] else [tx])\<rparr>"
    by (auto simp: add_transaction_Ok dest!: dec)
  then show thesis
  proof cases
    case 1
    with assms(2) show thesis by (intro that [of "[]"]) (simp_all add: admit_def)
  next
    case (2 tx)
    with assms(2) show thesis
      by (intro that [of "if stx_hash tx \<in> mp_in_queue m then [] else [tx]"]) (auto simp: admit_def)
  qed
qed

text \<open>
  A session from a node: requests, the two halves of \<open>GenBlocks\<close> (its clock is a \<open>u64\<close>), one after the other, as long as nothing
  panics; with the requests that were handled and the hashes of the blocks that were made.
\<close>

inductive session ::
  "(string \<Rightarrow> rpc_tx_args option) \<Rightarrow> (string \<Rightarrow> block_number option) \<Rightarrow> 'd demo_env \<Rightarrow> tx_runner \<Rightarrow> 'd node \<Rightarrow>
   rpc_request list \<Rightarrow> hash list \<Rightarrow> 'd node \<Rightarrow> bool"
  for parse_args parse_number env run_tx n0 where
  session_start: "session parse_args parse_number env run_tx n0 [] [] n0"
| session_request: "session parse_args parse_number env run_tx n0 reqs hs n \<Longrightarrow>
    rpc_serve parse_args parse_number env run_tx req n = Ok r n' \<Longrightarrow>
    session parse_args parse_number env run_tx n0 (reqs @ [req]) hs n'"
| session_gen: "session parse_args parse_number env run_tx n0 reqs hs n \<Longrightarrow> now < 2 ^ 64 \<Longrightarrow>
    node_gen_blocks now n = Ok () n' \<Longrightarrow> session parse_args parse_number env run_tx n0 reqs hs n'"
| session_add: "session parse_args parse_number env run_tx n0 reqs hs n \<Longrightarrow> node_add_blocks env run_tx n = Ok () n' \<Longrightarrow>
    nd_blocks n = Some blocks \<Longrightarrow> last (dc_indexed (nd_chain n)) = Some tail \<Longrightarrow>
    blocks_added env run_tx (length (dc_indexed (nd_chain n)) - 1) (block_hash env tail) blocks (nd_chain n) made (nd_chain n') \<Longrightarrow>
    session parse_args parse_number env run_tx n0 reqs (hs @ made) n'"

text \<open>Blocks as \<open>GenBlocks\<close> makes them.\<close>

definition block_sound :: "demo_block \<Rightarrow> bool" where
  "block_sound b \<longleftrightarrow> db_timestamp b < 2 ^ 64 \<and> db_gas_limit b < 2 ^ 64 \<and> length (db_txs b) \<le> MAX_BLOCK_TXS"

definition awaited :: "'d node \<Rightarrow> demo_block list" where
  "awaited n = (case nd_blocks n of Some blocks \<Rightarrow> blocks | None \<Rightarrow> [])"

definition node_inv :: "'d demo_env \<Rightarrow> u256 \<Rightarrow> rpc_request list \<Rightarrow> hash list \<Rightarrow> 'd node \<Rightarrow> demo_block list \<Rightarrow> bool" where
  "node_inv env chain_id reqs hashes n bs \<longleftrightarrow>
     chain_holds env (nd_chain n) bs \<and> map (block_hash env) bs = hashes \<and> (\<forall>b\<in>set (bs @ awaited n). block_sound b) \<and>
     concat (map db_txs (bs @ awaited n)) @ mp_tx_queue (nd_mempool n) = admitted (de_libs env) chain_id reqs \<and>
     mp_in_queue (nd_mempool n) = stx_hash ` set (admitted (de_libs env) chain_id reqs) \<and> mp_chain_id (nd_mempool n) = chain_id \<and>
     (nd_blocks n \<noteq> None \<longleftrightarrow> mp_borrowed (nd_mempool n))"

lemma completes_txs: "completes as bs \<Longrightarrow> concat (map db_txs bs) = concat (map db_txs as)"
  unfolding completes_def by (induction rule: list_all2_induct) simp_all

lemma completes_sound: "completes as bs \<Longrightarrow> \<forall>a\<in>set as. block_sound a \<Longrightarrow> \<forall>b\<in>set bs. block_sound b"
  by (simp add: completes_def list_all2_conv_all_nth all_set_conv_all_nth block_sound_def)

lemma gen_loop_sound:
  assumes "gen_loop now queue txs blocks = (txs', blocks')" and "now < 2 ^ 64" and "length txs < MAX_BLOCK_TXS"
    and "\<forall>b\<in>set blocks. block_sound b"
  shows "length txs' < MAX_BLOCK_TXS \<and> (\<forall>b\<in>set blocks'. block_sound b)"
  using assms
proof (induction now queue txs blocks rule: gen_loop.induct)
  case (2 now p queue block_txs blocks)
  have "block_sound (flush_txs now (block_txs @ [p]))"
    using "2.prems" by (simp add: block_sound_def flush_txs_def demo_block_new_def)
  moreover have "length block_txs = 1 \<or> block_txs = []" using "2.prems"(3) by (cases block_txs) (auto simp: MAX_BLOCK_TXS_def)
  ultimately show ?case using "2.prems" "2.IH" [OF refl] by (auto simp: MAX_BLOCK_TXS_def)
qed simp

lemma gen_blocks_sound:
  assumes "gen_blocks now m = Ok blocks m'" and "now < 2 ^ 64"
  shows "\<forall>b\<in>set blocks. block_sound b" "\<not> mp_borrowed m" "m' = m\<lparr>mp_tx_queue := [], mp_borrowed := True\<rparr>"
    "concat (map db_txs blocks) = mp_tx_queue m"
proof -
  show free: "\<not> mp_borrowed m" using assms(1) by (auto simp: gen_blocks_def borrow_mut_def exec_defs split: if_splits)
  from gen_blocks_Ok [OF this, of now] assms(1) show "m' = m\<lparr>mp_tx_queue := [], mp_borrowed := True\<rparr>"
    "concat (map db_txs blocks) = mp_tx_queue m" by auto
  obtain txs' blocks' where loop: "gen_loop now (mp_tx_queue m) [] [] = (txs', blocks')" by fastforce
  from gen_loop_sound [OF this assms(2)] show "\<forall>b\<in>set blocks. block_sound b"
    using assms free loop
    by (auto simp: gen_blocks_def borrow_mut_def exec_defs MAX_BLOCK_TXS_def block_sound_def flush_txs_def demo_block_new_def
        split: if_splits)
qed

section \<open>What a session keeps\<close>

lemma request_keeps_inv:
  assumes inv: "node_inv env chain_id reqs hs n bs" and run: "rpc_serve parse_args parse_number env run_tx req n = Ok r n'"
  shows "node_inv env chain_id (reqs @ [req]) hs n' bs"
proof -
  have "chain_at env bs (dc_mdb (nd_chain n)) (dc_chain_id (nd_chain n)) (nd_chain n)" using inv by (simp add: node_inv_def chain_at_def)
  note eff = serve_effect [OF run this]
  show ?thesis
  proof (cases "\<exists>raw. req = EthSendRawTransaction raw")
    case True
    then obtain raw a where req: "req = EthSendRawTransaction raw"
      and add: "add_transaction (de_libs env) raw (nd_mempool n) = Ok a (nd_mempool n')" using eff by auto
    have "mp_in_queue (nd_mempool n) = stx_hash ` set (admitted (de_libs env) chain_id reqs)" using inv by (simp add: node_inv_def)
    then obtain new where
      "mp_tx_queue (nd_mempool n') = mp_tx_queue (nd_mempool n) @ new"
      "admit (de_libs env) (mp_chain_id (nd_mempool n)) req (admitted (de_libs env) chain_id reqs) = admitted (de_libs env) chain_id reqs @ new"
      "mp_chain_id (nd_mempool n') = mp_chain_id (nd_mempool n)"
      "mp_in_queue (nd_mempool n') = stx_hash ` set (admitted (de_libs env) chain_id reqs @ new)"
      "mp_borrowed (nd_mempool n') = mp_borrowed (nd_mempool n)"
      unfolding req by (rule add_transaction_admits [OF add])
    moreover have "chain_holds env (nd_chain n') bs" "nd_blocks n' = nd_blocks n" using eff by (simp_all add: chain_at_def)
    moreover note inv [unfolded node_inv_def]
    ultimately show ?thesis unfolding node_inv_def by (simp add: awaited_def admitted_snoc)
  next
    case False
    then have "admitted (de_libs env) chain_id (reqs @ [req]) = admitted (de_libs env) chain_id reqs"
      by (auto simp: admitted_snoc admit_def split: rpc_request.split)
    moreover have "nd_mempool n' = nd_mempool n" using eff False by (cases req) auto
    ultimately show ?thesis using inv eff by (simp add: node_inv_def awaited_def chain_at_def)
  qed
qed

lemma gen_keeps_inv:
  assumes inv: "node_inv env chain_id reqs hs n bs" and now: "now < 2 ^ 64" and run: "node_gen_blocks now n = Ok () n'"
  shows "node_inv env chain_id reqs hs n' bs"
proof -
  from run obtain blocks m where gen: "gen_blocks now (nd_mempool n) = Ok blocks m"
    and n': "n' = n\<lparr>nd_mempool := m, nd_blocks := Some blocks\<rparr>"
    by (auto simp: node_gen_blocks_def bind_Ok_conv on_mempool_Ok modify_def)
  note blocks = gen_blocks_sound [OF gen now]
  have "nd_blocks n = None" using inv blocks(2) by (auto simp: node_inv_def)
  then show ?thesis using inv blocks by (auto simp: node_inv_def awaited_def n')
qed

lemma add_keeps_inv:
  assumes rocks: "rocks_laws (de_rocks env)" and trie: "trie_hashdb (de_rocks env) (de_trie env)"
    and inv: "node_inv env chain_id reqs hs n bs" and run: "node_add_blocks env run_tx n = Ok () n'"
    and added: "nd_blocks n = Some blocks" "last (dc_indexed (nd_chain n)) = Some tail"
      "blocks_added env run_tx (length (dc_indexed (nd_chain n)) - 1) (block_hash env tail) blocks (nd_chain n) made (nd_chain n')"
    and new: "distinct (0 # hs @ made)"
  shows "\<exists>more. node_inv env chain_id reqs (hs @ made) n' (bs @ more)"
proof -
  from inv have holds: "chain_holds env (nd_chain n) bs" and hs: "map (block_hash env) bs = hs" by (simp_all add: node_inv_def)
  then have bs: "bs \<noteq> []" "dc_indexed (nd_chain n) = map Some bs" by (simp_all add: chain_holds_def)
  then have tail: "tail = last bs" using added(2) by (simp add: last_map)
  have "\<forall>b\<in>set blocks. block_sound b" using inv added(1) by (simp add: node_inv_def awaited_def)
  then have "\<forall>b\<in>set blocks. length (db_txs b) < 2 ^ 64" by (auto simp: block_sound_def MAX_BLOCK_TXS_def)
  with blocks_added_extends [OF rocks trie added(3) holds] obtain more where
    more: "chain_holds env (nd_chain n') (bs @ more)" "map (block_hash env) more = made" "completes blocks more"
    using bs new hs by (auto simp: tail)
  have "nd_mempool n' = (nd_mempool n)\<lparr>mp_borrowed := False\<rparr>" "nd_blocks n' = None"
    using run by (auto simp: node_add_blocks_def bind_Ok_conv gets_def unwrap_def ret_def on_node_chain_Ok on_mempool_Ok modify_def
        gen_blocks_end_def panic_def split: option.splits)
  moreover have "\<forall>b\<in>set more. block_sound b"
    using completes_sound [OF more(3)] inv added(1) by (simp add: node_inv_def awaited_def)
  ultimately have "node_inv env chain_id reqs (hs @ made) n' (bs @ more)"
    using inv more completes_txs [OF more(3)] added(1) by (auto simp: node_inv_def awaited_def)
  then show ?thesis by blast
qed

lemma session_keeps_inv:
  assumes "session parse_args parse_number env run_tx n0 reqs hs n"
    and rocks: "rocks_laws (de_rocks env)" and trie: "trie_hashdb (de_rocks env) (de_trie env)"
    and start: "node_inv env chain_id [] hs0 n0 bs0" and "distinct (0 # hs0 @ hs)"
  shows "\<exists>bs. node_inv env chain_id reqs (hs0 @ hs) n bs"
  using assms(1,5)
proof (induction rule: session.induct)
  case session_start
  then show ?case using start by auto
next
  case (session_request reqs hs n req r n')
  then show ?case using request_keeps_inv by blast
next
  case (session_gen reqs hs n now n')
  then show ?case using gen_keeps_inv by blast
next
  case (session_add reqs hs n n' blocks tail made)
  then obtain bs where inv: "node_inv env chain_id reqs (hs0 @ hs) n bs" by auto
  from add_keeps_inv [OF rocks trie inv session_add.hyps(2-5)] session_add.prems show ?case by simp blast
qed

section \<open>Sessions of a new node\<close>

definition index_hashes :: "'d demo_env \<Rightarrow> 'd node \<Rightarrow> hash list" where
  "index_hashes env n = map (\<lambda>b. block_hash env (the b)) (dc_indexed (nd_chain n))"

lemma start_inv:
  assumes rocks: "rocks_laws (de_rocks env)" and trie: "trie_hashdb (de_rocks env) (de_trie env)"
    and fresh: "\<forall>k. rk_get (de_rocks env) db k = Some None"
    and start: "demo_start env hasher now chain_id network_id account db = Some n0"
  obtains g where "index_hashes env n0 = [block_hash env g]"
    "block_hash env g \<noteq> 0 \<Longrightarrow> node_inv env (word_of_nat chain_id) [] [block_hash env g] n0 [g]"
proof -
  from start obtain s where new: "demo_new env hasher now (fst account) (snd account) db (word_of_nat chain_id) = Ok () s"
    and n0: "n0 = \<lparr>nd_chain = s, nd_network_id = network_id, nd_mempool = mempool_new chain_id, nd_blocks = None\<rparr>"
    by (auto simp: demo_start_def split: outcome.splits)
  obtain g where "dc_indexed s = [Some g]" "db_txs g = []" "db_timestamp g = 1655254842" "db_gas_limit g = 8000000"
    "block_hash env g \<noteq> 0 \<Longrightarrow> chain_holds env s [g]"
    using fresh by (blast intro: genesis_holds [OF rocks trie _ new])
  then show thesis
    by (intro that [of g]) (simp_all add: index_hashes_def n0 node_inv_def awaited_def admitted_def mempool_new_def block_sound_def)
qed

lemma session_inv:
  assumes "rocks_laws (de_rocks env)" and "trie_hashdb (de_rocks env) (de_trie env)"
    and "\<forall>k. rk_get (de_rocks env) db k = Some None"
    and "demo_start env hasher now chain_id network_id account db = Some n0"
    and "session parse_args parse_number env run_tx n0 reqs hs n" and "distinct (0 # index_hashes env n0 @ hs)"
  obtains bs where "node_inv env (word_of_nat chain_id) reqs (index_hashes env n0 @ hs) n bs"
proof -
  from start_inv [OF assms(1-4)] obtain g where g: "index_hashes env n0 = [block_hash env g]"
    "block_hash env g \<noteq> 0 \<Longrightarrow> node_inv env (word_of_nat chain_id) [] [block_hash env g] n0 [g]" by blast
  with assms(6) have "node_inv env (word_of_nat chain_id) [] (index_hashes env n0) n0 [g]" by simp
  from session_keeps_inv [OF assms(5,1,2) this assms(6)] that show thesis by blast
qed

text \<open>
  C3. A node from its first start through any session of requests and block generation in which nothing panics and no two blocks
  have the same hash: the index is a path of linked blocks from the genesis block to the last one made, on disk as in
  memory, and its transactions, followed by those the chain is given and those that wait, are exactly the ones
  submitted, each once, in the order of their arrival: none is lost, repeated or overtaken.
\<close>

theorem node_session:
  assumes "rocks_laws (de_rocks env)" and "trie_hashdb (de_rocks env) (de_trie env)"
    and "\<forall>k. rk_get (de_rocks env) db k = Some None"
    and "demo_start env hasher now chain_id network_id account db = Some n0"
    and "session parse_args parse_number env run_tx n0 reqs hs n" and "distinct (0 # index_hashes env n0 @ hs)"
  shows "\<exists>bs. dc_indexed (nd_chain n) = map Some bs \<and> path_linked env bs \<and> chain_stored env (rw_db (dc_mdb (nd_chain n))) bs \<and>
    map (block_hash env) bs = index_hashes env n0 @ hs \<and>
    concat (map db_txs (bs @ awaited n)) @ mp_tx_queue (nd_mempool n) = admitted (de_libs env) (word_of_nat chain_id) reqs \<and>
    distinct (map stx_hash (concat (map db_txs (bs @ awaited n)) @ mp_tx_queue (nd_mempool n)))"
proof -
  obtain bs where inv: "node_inv env (word_of_nat chain_id) reqs (index_hashes env n0 @ hs) n bs"
    by (rule session_inv [OF assms])
  then show ?thesis using distinct_admitted [of "de_libs env" "word_of_nat chain_id" reqs]
    by (intro exI [of _ bs]) (simp add: node_inv_def chain_holds_def store_has_def)
qed

text \<open>
  C33. Asking for a transaction by its hash, at any point of such a session, is answered: with the transaction at its position in a block of
  the index if there is one of that hash, else with nothing.
\<close>

theorem node_tx_found:
  assumes "rocks_laws (de_rocks env)" and "trie_hashdb (de_rocks env) (de_trie env)"
    and "\<forall>k. rk_get (de_rocks env) db k = Some None"
    and "demo_start env hasher now chain_id network_id account db = Some n0"
    and "session parse_args parse_number env run_tx n0 reqs hs n" and "distinct (0 # index_hashes env n0 @ hs)"
  shows "\<exists>reply n'. rpc_serve parse_args parse_number env run_tx (EthGetTransactionByHash h) n = Ok (TxReply (Inr reply)) n' \<and>
    (case reply of
       None \<Rightarrow> \<forall>b. Some b \<in> set (dc_indexed (nd_chain n)) \<longrightarrow> h \<notin> stx_hash ` set (db_txs b)
     | Some r \<Rightarrow> \<exists>b i. Some b \<in> set (dc_indexed (nd_chain n)) \<and> i < length (db_txs b) \<and> stx_hash (db_txs b ! i) = h \<and>
         r = tx_response_of env b i (db_txs b ! i))"
proof -
  obtain bs where "node_inv env (word_of_nat chain_id) reqs (index_hashes env n0 @ hs) n bs"
    by (rule session_inv [OF assms])
  then have holds: "chain_holds env (nd_chain n) bs" and index: "dc_indexed (nd_chain n) = map Some bs"
    by (simp_all add: node_inv_def chain_holds_def)
  from holds obtain e t where found: "get_cached_tx h (nd_chain n) = Ok e t"
    "case e of None \<Rightarrow> \<forall>b\<in>set bs. \<forall>tx\<in>set (db_txs b). stx_hash tx \<noteq> h
      | Some (b, i) \<Rightarrow> b \<in> set bs \<and> i < length (db_txs b) \<and> stx_hash (db_txs b ! i) = h"
    by (rule cached_tx_found)
  show ?thesis
  proof (cases e)
    case None
    with found show ?thesis
      by (intro exI [of _ None] exI [of _ "n\<lparr>nd_chain := t\<rparr>"])
        (auto simp: rpc_serve_def bind_def gets_def replies_Ok on_node_chain_Ok rpc_get_tx_by_hash_def send_msg_def demo_service_def
          handle_get_tx_by_hash_def or_none_def ret_def index)
  next
    case (Some p)
    with found show ?thesis
      by (intro exI [of _ "Some (tx_response_of env (fst p) (snd p) (db_txs (fst p) ! snd p))"] exI [of _ "n\<lparr>nd_chain := t\<rparr>"])
        (auto simp: rpc_serve_def bind_def gets_def replies_Ok on_node_chain_Ok rpc_get_tx_by_hash_def send_msg_def demo_service_def
          handle_get_tx_by_hash_def or_none_def ret_def index split: prod.splits)
  qed
qed

text \<open>
  C8. A node that is stopped at any point of such a session and started again on its database comes back with the same index, whatever the
  time and the genesis account it is started with; what waited in the mempool is lost. The transactions must have been submitted
  in their canonical encoding: a block is stored by re-encoding them.
\<close>

theorem node_restart:
  assumes "rocks_laws (de_rocks env)" and "trie_hashdb (de_rocks env) (de_trie env)" and "rlp_laws (tl_rlp (de_libs env))"
    and "\<forall>k. rk_get (de_rocks env) db k = Some None"
    and "demo_start env hasher now chain_id network_id account db = Some n0"
    and "session parse_args parse_number env run_tx n0 reqs hs n" and "distinct (0 # index_hashes env n0 @ hs)"
    and "\<forall>tx\<in>set (admitted (de_libs env) (word_of_nat chain_id) reqs). tx_genuine (de_libs env) (word_of_nat chain_id) tx"
  shows "\<exists>n'. demo_start env hasher' now' chain_id network_id account' (rw_db (dc_mdb (nd_chain n))) = Some n' \<and>
    dc_indexed (nd_chain n') = dc_indexed (nd_chain n) \<and> nd_mempool n' = mempool_new chain_id"
proof -
  obtain bs where inv: "node_inv env (word_of_nat chain_id) reqs (index_hashes env n0 @ hs) n bs"
    by (rule session_inv [OF assms(1,2,4-7)])
  then have holds: "bs \<noteq> []" "length bs < 2 ^ 64" "path_linked env bs" "chain_stored env (rw_db (dc_mdb (nd_chain n))) bs"
    "dc_indexed (nd_chain n) = map Some bs" and hashes: "distinct (0 # map (block_hash env) bs)"
    using assms(7) by (simp_all add: node_inv_def chain_holds_def store_has_def)
  have "path_fits env (word_of_nat chain_id) bs"
    unfolding path_fits_def
  proof (intro conjI ballI)
    fix b
    assume b: "b \<in> set bs"
    then have "db_number b < 2 ^ 64" using holds(2,3) by (auto simp: in_set_conv_nth path_linked_def)
    moreover have "\<forall>tx\<in>set (db_txs b). tx_genuine (de_libs env) (word_of_nat chain_id) tx"
    proof
      fix tx assume "tx \<in> set (db_txs b)"
      with b have "tx \<in> set (concat (map db_txs (bs @ awaited n)) @ mp_tx_queue (nd_mempool n))" by auto
      also have "concat (map db_txs (bs @ awaited n)) @ mp_tx_queue (nd_mempool n) = admitted (de_libs env) (word_of_nat chain_id) reqs"
        using inv unfolding node_inv_def by blast
      finally show "tx_genuine (de_libs env) (word_of_nat chain_id) tx" using assms(8) by blast
    qed
    moreover have "block_sound b" using inv b by (simp add: node_inv_def)
    ultimately show "block_fits env (word_of_nat chain_id) b" by (simp add: block_fits_def block_sound_def MAX_BLOCK_TXS_def)
    show "block_hash env b \<noteq> 0" using hashes b by auto
  qed (use assms(3) hashes in \<open>simp_all add: distinct_map\<close>)
  from restart_restores_chain [OF this holds(4,1,2), of hasher' now' "fst account'" "snd account'"] holds(3,5) obtain t where
    "demo_new env hasher' now' (fst account') (snd account') (rw_db (dc_mdb (nd_chain n))) (word_of_nat chain_id) = Ok () t"
    "dc_indexed t = map Some bs" by (auto simp: path_linked_def)
  then show ?thesis using holds(5) by (simp add: demo_start_def)
qed

section \<open>Which requests are answered\<close>

lemma stored_state_answers:
  assumes "chain_holds env s bs" and "b \<in> set bs"
  shows "answers (get_block_state env b) s"
proof -
  have "outcome_stored env (rw_db (dc_mdb s)) b" using assms by (simp add: chain_holds_def store_has_def)
  then show ?thesis by (rule stored_state_reads) (simp add: answers_def)
qed

lemma holds_serviceable:
  assumes "chain_holds env s bs"
  shows "serviceable env s"
proof -
  have "get_block_state env b s \<noteq> Panic" if "b \<in> set bs" for b
    using stored_state_answers [OF assms that] by (auto simp: answers_def)
  with assms show ?thesis by (auto simp: serviceable_def chain_holds_def)
qed

text \<open>The requests that are answered, among those that neither run a message nor ask for a receipt.\<close>

definition answerable :: "'d demo_env \<Rightarrow> 'd node \<Rightarrow> rpc_request \<Rightarrow> bool" where
  "answerable env n req =
     (case req of
        EthSendRawTransaction raw \<Rightarrow>
          nd_blocks n = None \<and> (\<exists>r. tx_decode (de_libs env) raw (mp_chain_id (nd_mempool n)) () = Ok r ())
      | EthGetBlockByHash h _ \<Rightarrow> h \<noteq> 0
      | EthEstimateGas ps \<Rightarrow> ps \<noteq> []
      | _ \<Rightarrow> True)"

definition runs_message :: "rpc_request \<Rightarrow> bool" where
  "runs_message req = (case req of EthCall args _ \<Rightarrow> ta_to args \<noteq> None | EthEstimateGas ps \<Rightarrow> ps \<noteq> [] | _ \<Rightarrow> False)"

lemma serve_chain_answers: "answers m (nd_chain n) \<Longrightarrow> \<exists>r n'. replies f (on_node_chain m) n = Ok r n'"
  by (auto simp: answers_def replies_def bind_def zoom_def ret_def)

lemma send_answered:
  assumes "nd_blocks n \<noteq> None \<longleftrightarrow> mp_borrowed (nd_mempool n)"
  shows "(\<exists>r n'. rpc_serve parse_args parse_number env run_tx (EthSendRawTransaction raw) n = Ok r n') \<longleftrightarrow>
    answerable env n (EthSendRawTransaction raw)"
proof -
  let ?dec = "tx_decode (de_libs env) raw (mp_chain_id (nd_mempool n))"
  have dec: "?dec m = (case ?dec () of Ok a _ \<Rightarrow> Ok a m | Err e _ \<Rightarrow> Err e m | Panic \<Rightarrow> Panic)" for m :: mempool
    by (rule tx_decode_same [unfolded same_run_def, rule_format])
  have "(\<exists>r n'. rpc_serve parse_args parse_number env run_tx (EthSendRawTransaction raw) n = Ok r n') \<longleftrightarrow>
      (\<exists>a m. add_transaction (de_libs env) raw (nd_mempool n) = Ok a m)"
    by (auto simp: rpc_serve_def bind_def gets_def replies_Ok on_mempool_Ok send_raw_tx_def required_def send_msg_def
        demo_mempool_service_def ret_def split: outcome.splits)
  also have "\<dots> \<longleftrightarrow> \<not> mp_borrowed (nd_mempool n) \<and> (\<exists>r. ?dec (nd_mempool n) = Ok r (nd_mempool n))"
    by (auto simp: add_transaction_Ok) (metis option.exhaust)+
  also have "\<dots> \<longleftrightarrow> answerable env n (EthSendRawTransaction raw)"
    using assms by (auto simp: answerable_def dec [of "nd_mempool n"] split: outcome.splits)
  finally show ?thesis .
qed

lemma tx_by_hash_answered:
  assumes holds: "chain_holds env (nd_chain n) bs"
  shows "\<exists>r n'. rpc_serve parse_args parse_number env run_tx (EthGetTransactionByHash h) n = Ok r n'"
proof -
  from holds obtain e t where "get_cached_tx h (nd_chain n) = Ok e t"
    "case e of None \<Rightarrow> \<forall>b\<in>set bs. \<forall>tx\<in>set (db_txs b). stx_hash tx \<noteq> h
      | Some (b, i) \<Rightarrow> b \<in> set bs \<and> i < length (db_txs b) \<and> stx_hash (db_txs b ! i) = h"
    by (rule cached_tx_found)
  then show ?thesis
    by (cases e) (auto simp: rpc_serve_def bind_def gets_def replies_def zoom_def rpc_get_tx_by_hash_def send_msg_def demo_service_def
      handle_get_tx_by_hash_def or_none_def ret_def split: prod.splits)
qed

lemma block_by_hash_answered:
  assumes holds: "chain_holds env (nd_chain n) bs"
  shows "if h \<noteq> 0 then \<exists>r n'. rpc_serve parse_args parse_number env run_tx (EthGetBlockByHash h v) n = Ok r n'
    else rpc_serve parse_args parse_number env run_tx (EthGetBlockByHash h v) n = Panic"
proof (cases "h = 0")
  case True
  then show ?thesis
    by (auto simp: rpc_serve_def bind_def gets_def replies_def zoom_def rpc_get_block_by_hash_def required_def send_msg_def demo_service_def
      handle_get_block_by_hash_def or_none_def known_by_hash [OF holds] ret_def)
next
  case False
  have "b \<in> set bs" if "map_of (map (\<lambda>b. (block_hash env b, b)) bs) h = Some b" for b
    using map_of_SomeD [OF that] by auto
  then have "answers (get_block_state env b) (nd_chain n)" if "map_of (map (\<lambda>b. (block_hash env b, b)) bs) h = Some b" for b
    using that stored_state_answers [OF holds] by blast
  with False have "answers (rpc_get_block_by_hash (demo_service env run_tx (nd_network_id n)) h v) (nd_chain n)"
    unfolding rpc_get_block_by_hash_def demo_service_def chain_service.simps handle_get_block_by_hash_def get_block_info_def
    by (intro answers_rules) (auto simp: answers_def known_by_hash [OF holds])
  from serve_chain_answers [OF this] False show ?thesis by (simp add: rpc_serve_def bind_def gets_def)
qed

text \<open>What is not answered is a panic.\<close>

lemma infallible_tx_decode: "infallible (tx_decode libs raw chain_id)"
proof -
  have "infallible (tx_chain_id tx)" for tx
    by (cases tx) (auto simp: derive_chain_id_def Let_def intro!: infallible_rules)
  then have "infallible (tx_new libs tx h chain_id)" for tx h
    unfolding tx_new_def recover_sender_def recover_plain_def Let_def by (intro infallible_rules)
  then have "infallible (tx_decoded libs t h chain_id)" for t h
    unfolding tx_decoded_def by (cases t) (simp_all add: infallible_basic)
  then show ?thesis unfolding tx_decode_def Let_def by (intro infallible_rules)
qed

lemma infallible_send: "infallible (rpc_serve parse_args parse_number env run_tx (EthSendRawTransaction raw))"
  unfolding rpc_serve_def rpc_request.case send_raw_tx_def required_def send_msg_def demo_mempool_service_def mempool_service.simps
    add_transaction_def borrow_mut_def replies_def Let_def
  by (intro infallible_rules infallible_tx_decode)

lemma requests_answered:
  assumes holds: "chain_holds env (nd_chain n) bs" and blocks: "nd_blocks n \<noteq> None \<longleftrightarrow> mp_borrowed (nd_mempool n)"
    and req: "\<not> runs_message req" "\<forall>h. req \<noteq> EthGetTransactionReceipt h"
  shows "if answerable env n req then \<exists>r n'. rpc_serve parse_args parse_number env run_tx req n = Ok r n'
    else rpc_serve parse_args parse_number env run_tx req n = Panic"
proof -
  note ans = rpc_requests_answered [where run_tx = run_tx and nid = "nd_network_id n", OF holds_serviceable [OF holds]]
  show ?thesis
  proof (cases req)
    case (EthSendRawTransaction raw)
    moreover have "rpc_serve parse_args parse_number env run_tx (EthSendRawTransaction raw) n \<noteq> Err e t" for e t
      by (rule infallible_send [unfolded infallible_def, rule_format])
    ultimately show ?thesis using send_answered [OF blocks, of parse_args parse_number env run_tx raw]
      by (cases "rpc_serve parse_args parse_number env run_tx (EthSendRawTransaction raw) n") auto
  next
    case (EthGetBlockByHash h v)
    then show ?thesis using block_by_hash_answered [OF holds, of h parse_args parse_number run_tx v] by (auto simp: answerable_def)
  next
    case (EthGetTransactionByHash h)
    then show ?thesis using tx_by_hash_answered [OF holds] by (simp add: answerable_def)
  next
    case (EthEstimateGas ps)
    then show ?thesis using req(1)
      by (simp add: runs_message_def answerable_def rpc_serve_def bind_def gets_def replies_def zoom_def ans(10) Let_def)
  next
    case EthGasPrice
    then show ?thesis
      by (simp add: answerable_def rpc_serve_def bind_def gets_def rpc_gas_price_def send_msg_def demo_mempool_service_def gas_price_def
          replies_def zoom_def ret_def)
  next
    case NetListening
    then show ?thesis by (simp add: answerable_def rpc_serve_def bind_def gets_def net_listening_def replies_def ret_def)
  qed (use req ans in \<open>auto simp: runs_message_def answerable_def rpc_serve_def bind_def gets_def intro!: serve_chain_answers\<close>)
qed

section \<open>A session\<close>

text \<open>A node over a map, with a trie library that returns a fixed root; the hash of a block is the length of its header.\<close>

definition node_env :: "(bytes \<rightharpoonup> bytes) demo_env" where
  "node_env = \<lparr>de_libs = sample_libs, de_rocks = map_rocks,
     de_trie = \<lparr>tr_read = \<lambda>_ _. None, tr_has = \<lambda>_ _. None, tr_write = \<lambda>w _ _. Some (w, replicate 32 7)\<rparr>,
     de_iter = \<lparr>it_accounts = \<lambda>_. [], it_state = \<lambda>_. []\<rparr>\<rparr>"

definition sample_signed :: tx where
  "sample_signed = \<lparr>stx_inner = fee_tx, stx_hash = 17, stx_from = 64\<rparr>"

lemma node_env_laws:
  "rocks_laws (de_rocks node_env)" "trie_hashdb (de_rocks node_env) (de_trie node_env)" "rk_write (de_rocks node_env) d wb \<noteq> None"
  "rk_get (de_rocks node_env) Map.empty k = Some None" "rlp_laws (tl_rlp (de_libs node_env))"
proof -
  show "trie_hashdb (de_rocks node_env) (de_trie node_env)"
    unfolding trie_hashdb_def
  proof (intro allI impI)
    fix w root kvs w' r
    assume "tr_write (de_trie node_env) w root kvs = Some (w', r)"
    then show "\<exists>hasher kf ops. Commit \<notin> set ops \<and> for_each ops (rw_step (de_rocks node_env) hasher kf) w = Ok () w'"
      by (intro exI [of _ "[]"] exI) (simp add: node_env_def ret_def)
  qed
qed (simp_all add: node_env_def map_rocks_laws sample_libs_def rlp_std_laws, simp_all add: map_rocks_def)

lemma sample_hash:
  assumes "de_libs env = sample_libs"
  shows "block_hash env b = word_of_nat (120 + 32 * length (db_txs b))"
proof -
  have "length (concat (map (\<lambda>tx. hash_as_bytes (stx_hash tx)) txs)) = 32 * length txs" for txs
    by (induction txs) simp_all
  from this [of "db_txs b"] show ?thesis by (simp add: demo_block_hash_def assms sample_libs_def del: length_concat)
qed

lemma node_libs: "de_libs node_env = sample_libs"
  by (simp add: node_env_def)

lemma node_commit:
  "merkle_commit (de_trie node_env) (de_iter node_env) root delta reader w = Ok (from_big_endian (replicate 32 7)) w"
  by (simp add: merkle_commit_def node_env_def bind_def ret_def write_trie_def)

text \<open>The transaction is submitted and put into a block.\<close>

abbreviation sample_submit :: rpc_request where
  "sample_submit \<equiv> EthSendRawTransaction (tx_encode sample_libs fee_tx)"

abbreviation sample_session_in ::
  "'d demo_env \<Rightarrow> tx_runner \<Rightarrow> 'd node \<Rightarrow> rpc_request list \<Rightarrow> hash list \<Rightarrow> 'd node \<Rightarrow> bool" where
  "sample_session_in \<equiv> session (\<lambda>_. None) (\<lambda>_. None)"

lemma sample_cut:
  assumes "nd_mempool n0 = mempool_new 1" and libs: "de_libs env = sample_libs"
  obtains n m where "sample_session_in env run_tx n0 [sample_submit] [] n"
    "n = n0\<lparr>nd_mempool := m, nd_blocks := Some [flush_txs 5 [sample_signed]]\<rparr>"
proof -
  let ?m = "(mempool_new 1)\<lparr>mp_in_queue := {17}, mp_tx_queue := [sample_signed]\<rparr>"
  have "add_transaction sample_libs (tx_encode sample_libs fee_tx) (mempool_new 1) = Ok (Some 17) ?m"
    by (subst sample_add) (simp_all add: mempool_new_def sample_signed_def)
  then have "rpc_serve (\<lambda>_. None) (\<lambda>_. None) env run_tx sample_submit n0 = Ok (HashReply (Inr 17)) (n0\<lparr>nd_mempool := ?m\<rparr>)"
    using assms by (simp add: rpc_serve_def bind_def gets_def replies_def zoom_def send_raw_tx_def required_def send_msg_def
        demo_mempool_service_def ret_def)
  from session_request [OF session_start this] have "sample_session_in env run_tx n0 [sample_submit] [] (n0\<lparr>nd_mempool := ?m\<rparr>)" by simp
  moreover have "node_gen_blocks 5 (n0\<lparr>nd_mempool := ?m\<rparr>) =
      Ok () (n0\<lparr>nd_mempool := ?m\<lparr>mp_tx_queue := [], mp_borrowed := True\<rparr>, nd_blocks := Some [flush_txs 5 [sample_signed]]\<rparr>)"
    by (simp add: node_gen_blocks_def gen_blocks_def borrow_mut_def exec_defs mempool_new_def MAX_BLOCK_TXS_def Let_def)
  ultimately show thesis by (intro that [OF session_gen [of _ _ _ _ _ _ _ _ 5]]) simp_all
qed

text \<open>Its sender cannot pay: the block leaves the world as it is.\<close>

lemma sample_unpaid:
  assumes "w_balance w 64 = 0"
  shows "process_txs keccak run_tx prev xenv [sample_signed]
     \<lparr>pg_state = Const (mem_rev_new w), pg_gas_cumu = 0, pg_gas_used = [], pg_contract_addrs = []\<rparr> =
   Ok True \<lparr>pg_state = Const (mem_rev_new w), pg_gas_cumu = 0, pg_gas_used = [], pg_contract_addrs = []\<rparr>"
proof -
  let ?st = "Const (mem_rev_new w)"
  have "ws_get_balance (mem_ws keccak) ?st 64 = 0"
    using assms by (simp add: mem_rev_new_def rev_get_balance_def empty_delta_def)
  then have "transfer_balance (mem_ws keccak) 64 0 27 ?st = (False, ?st)"
    by (simp add: transfer_balance_def sub_balance_def wei_checked_sub_def)
  moreover have "wei_checked_mul 3 9 = Some 27" by (simp add: wei_checked_mul_def)
  ultimately show ?thesis
    by (simp add: process_tx_def sample_signed_def fee_tx_def dynamic_fee_view_def bind_def gets_def modify_def ret_def Let_def)
qed

lemma unchanged_delta:
  "consolidated_delta (shared_consolidate None (snd (to_shared (Const (mem_rev_new w))))) = Some delta \<Longrightarrow> sd_accounts delta = Map.empty"
  by (auto simp: to_shared_def shared_consolidate_def consolidated_delta_def mem_rev_new_def empty_delta_def split: mem_rev.splits)

text \<open>The world that the genesis block of a node shows.\<close>

abbreviation first_world :: "'d demo_env \<Rightarrow> 'd demo_state \<Rightarrow> demo_block \<Rightarrow> world" where
  "first_world env s g \<equiv> merkle_world (de_keccak env) (de_trie env) (dc_mdb s) (if db_root_hash g = 0 then None else Some (db_root_hash g))"

lemma sample_added:
  assumes holds: "chain_holds env (nd_chain n) [g]" and hash: "block_hash env g = 120" and libs: "de_libs env = sample_libs"
    and rocks: "rocks_laws (de_rocks env)" and writes: "\<And>d wb. rk_write (de_rocks env) d wb \<noteq> None"
    and blocks: "nd_blocks n = Some [flush_txs 5 [sample_signed]]" and poor: "w_balance (first_world env (nd_chain n) g) 64 = 0"
    and commit: "\<And>delta. sd_accounts delta = Map.empty \<Longrightarrow> \<exists>root w1. merkle_commit (de_trie env) (de_iter env) (Some (db_root_hash g)) delta
        (merkle_reader (de_keccak env) (de_trie env) (get_reader (Some (db_root_hash g)))) (dc_mdb (nd_chain n)) = Ok root w1"
  obtains n' where "node_add_blocks env run_tx n = Ok () n'"
    "blocks_added env run_tx 0 120 [flush_txs 5 [sample_signed]] (nd_chain n) [152] (nd_chain n')"
proof -
  let ?s = "nd_chain n" and ?b = "flush_txs 5 [sample_signed]" and ?bs = "[g]"
  have "outcome_stored env (rw_db (dc_mdb ?s)) g" using holds by (simp add: chain_holds_def store_has_def)
  then obtain bo where bo: "get_block_state env (last ?bs) ?s = Ok (Some bo) ?s" "bo_world_state bo = mem_rev_new (first_world env ?s g)"
    by (auto elim: stored_state_reads)
  have txs: "db_txs ?b = [sample_signed]" by (simp add: flush_txs_def demo_block_new_def)
  have new: "block_hash env (?b\<lparr>db_number := i, db_parent_hash := p, db_root_hash := r\<rparr>) = 152" for i p r
    by (simp add: sample_hash [OF libs] txs)
  have "\<exists>root t. add_one_block env run_tx (length ?bs) (block_hash env (last ?bs)) ?b ?s =
      Ok (block_hash env (?b\<lparr>db_number := length ?bs, db_parent_hash := block_hash env (last ?bs), db_root_hash := root\<rparr>)) t"
  proof (rule add_one_block_runs [OF holds _ writes rocks bo(1)])
    fix delta
    assume "consolidated_delta (shared_consolidate None (snd (to_shared (pg_state
      \<lparr>pg_state = Const (mem_rev_new (first_world env ?s g)), pg_gas_cumu = 0, pg_gas_used = [], pg_contract_addrs = []\<rparr>)))) = Some delta"
    then show "\<exists>root w1. merkle_commit (de_trie env) (de_iter env) (Some (db_root_hash (last ?bs))) delta
        (merkle_reader (de_keccak env) (de_trie env) (get_reader (Some (db_root_hash (last ?bs))))) (dc_mdb ?s) = Ok root w1"
      using commit unchanged_delta by simp
  qed (simp_all add: bo(2) txs new hash sample_unpaid [OF poor] del: process_txs.simps)
  then obtain t where add: "add_one_block env run_tx 1 120 ?b ?s = Ok 152 t"
    by (auto simp: new hash)
  then have "blocks_added env run_tx 0 120 [?b] ?s [152] t" by (intro added_more [OF _ _ added_none]) simp_all
  moreover from this have "add_blocks env run_tx [?b] ?s = Ok () t" using add_blocks_iff [OF holds] hash by auto
  then have "node_add_blocks env run_tx n = Ok () (n\<lparr>nd_chain := t, nd_mempool := (nd_mempool n)\<lparr>mp_borrowed := False\<rparr>, nd_blocks := None\<rparr>)"
    using blocks by (simp add: node_add_blocks_def bind_def gets_def unwrap_def ret_def zoom_def gen_blocks_end_def modify_def)
  ultimately show thesis using that by simp
qed

text \<open>A first start, the submission, the block, and the block in the chain.\<close>

lemma sample_run_in:
  assumes libs: "de_libs env = sample_libs" and rocks: "rocks_laws (de_rocks env)" and trie: "trie_hashdb (de_rocks env) (de_trie env)"
    and writes: "\<And>d wb. rk_write (de_rocks env) d wb \<noteq> None" and fresh: "\<And>k. rk_get (de_rocks env) db k = Some None"
    and start: "demo_start env id 7 1 ''1'' (5, 1000) db = Some n0"
    and poor: "\<And>g. dc_indexed (nd_chain n0) = [Some g] \<Longrightarrow> w_balance (first_world env (nd_chain n0) g) 64 = 0"
    and commit: "\<And>g delta. dc_indexed (nd_chain n0) = [Some g] \<Longrightarrow> sd_accounts delta = Map.empty \<Longrightarrow>
      \<exists>root w1. merkle_commit (de_trie env) (de_iter env) (Some (db_root_hash g)) delta
        (merkle_reader (de_keccak env) (de_trie env) (get_reader (Some (db_root_hash g)))) (dc_mdb (nd_chain n0)) = Ok root w1"
  obtains n where "index_hashes env n0 = [120]" "sample_session_in env run_tx n0 [sample_submit] [152] n"
proof -
  from start obtain s where s: "demo_new env id 7 5 1000 db (word_of_nat 1) = Ok () s"
    and n0: "n0 = \<lparr>nd_chain = s, nd_network_id = ''1'', nd_mempool = mempool_new 1, nd_blocks = None\<rparr>"
    by (auto simp: demo_start_def split: outcome.splits)
  obtain g where g: "dc_indexed s = [Some g]" "db_txs g = []" "block_hash env g \<noteq> 0 \<Longrightarrow> chain_holds env s [g]"
    by (blast intro: genesis_holds [OF rocks trie fresh s])
  have hash: "block_hash env g = 120" by (simp add: sample_hash [OF libs] g(2))
  obtain n m where cut: "sample_session_in env run_tx n0 [sample_submit] [] n"
    "n = n0\<lparr>nd_mempool := m, nd_blocks := Some [flush_txs 5 [sample_signed]]\<rparr>"
    by (rule sample_cut [OF _ libs, of n0]) (simp_all add: n0)
  have n: "nd_chain n = s" "nd_blocks n = Some [flush_txs 5 [sample_signed]]" by (simp_all add: cut(2) n0)
  obtain n' where n': "node_add_blocks env run_tx n = Ok () n'"
    "blocks_added env run_tx 0 120 [flush_txs 5 [sample_signed]] (nd_chain n) [152] (nd_chain n')"
    by (rule sample_added [of env n g])
      (use g hash libs rocks writes poor [of g] commit [of g] n in \<open>simp_all add: n0\<close>)
  have "sample_session_in env run_tx n0 [sample_submit] ([] @ [152]) n'"
    by (rule session_add [OF cut(1) n'(1), where tail = g]) (use g(1) n n'(2) in \<open>simp_all add: hash\<close>)
  moreover have "index_hashes env n0 = [120]" by (simp add: index_hashes_def n0 g(1) hash)
  ultimately show thesis using that by simp
qed

abbreviation sample_session :: "(bytes \<rightharpoonup> bytes) node \<Rightarrow> rpc_request list \<Rightarrow> hash list \<Rightarrow> (bytes \<rightharpoonup> bytes) node \<Rightarrow> bool" where
  "sample_session \<equiv> sample_session_in node_env frugal_run"

lemma sample_run:
  obtains n0 n where "demo_start node_env id 7 1 ''1'' (5, 1000) Map.empty = Some n0"
    "index_hashes node_env n0 = [120]" "sample_session n0 [sample_submit] [152] n"
proof -
  obtain s where "demo_new node_env id 7 5 1000 Map.empty (word_of_nat 1) = Ok () s"
    using genesis_runs [OF node_env_laws(1,2,4,3)] node_commit by blast
  then obtain n0 where n0: "demo_start node_env id 7 1 ''1'' (5, 1000) Map.empty = Some n0" by (simp add: demo_start_def)
  have "w_balance (first_world node_env s g) a = 0" for s g a
    by (simp add: merkle_world_def reader_get_balance_def reader_account_def mdb_get_def node_env_def bind_def ret_def Let_def)
  then obtain n where "index_hashes node_env n0 = [120]" "sample_session n0 [sample_submit] [152] n"
    by (rule sample_run_in [OF node_libs node_env_laws(1,2,3,4) n0]) (use node_commit in blast)
  with n0 show thesis using that by simp
qed

lemma fee_tx_facts:
  "rlp_laws (tl_rlp sample_libs)" "tx_u64_fields fee_tx" "tl_keccak sample_libs (tx_encode sample_libs fee_tx) = 17"
  using fee_tx_length by (simp_all add: sample_libs_def rlp_std_laws fee_tx_def)

lemma sample_admitted: "admitted sample_libs 1 [sample_submit] = [sample_signed]"
proof -
  have "tx_decode sample_libs (tx_encode sample_libs fee_tx) 1 () = Ok (Some sample_signed) ()"
    by (subst tx_decode_of_encode) (simp_all add: fee_tx_facts fee_tx_length fee_tx_sender ret_def sample_signed_def)
  then show ?thesis by (simp add: admitted_def admit_def tx_of_raw_def)
qed

theorem node_session_witness:
  "\<exists>n0 n bs. demo_start node_env id 7 1 ''1'' (5, 1000) Map.empty = Some n0 \<and> sample_session n0 [sample_submit] [152] n \<and>
     dc_indexed (nd_chain n) = map Some bs \<and> map (block_hash node_env) bs = [120, 152] \<and>
     concat (map db_txs (bs @ awaited n)) @ mp_tx_queue (nd_mempool n) = [sample_signed]"
proof -
  obtain n0 n where run: "demo_start node_env id 7 1 ''1'' (5, 1000) Map.empty = Some n0"
    "index_hashes node_env n0 = [120]" "sample_session n0 [sample_submit] [152] n" by (rule sample_run)
  have "\<forall>k. rk_get (de_rocks node_env) Map.empty k = Some None" using node_env_laws(4) by blast
  moreover have "distinct (0 # index_hashes node_env n0 @ [152])" by (simp add: run(2))
  ultimately obtain bs where "dc_indexed (nd_chain n) = map Some bs" "map (block_hash node_env) bs = index_hashes node_env n0 @ [152]"
    "concat (map db_txs (bs @ awaited n)) @ mp_tx_queue (nd_mempool n) = admitted (de_libs node_env) (word_of_nat 1) [sample_submit]"
    using node_session [OF node_env_laws(1,2) _ run(1,3)] by blast
  then show ?thesis using run sample_admitted
    by (intro exI [of _ n0] exI [of _ n] exI [of _ bs]) (simp add: node_env_def)
qed

theorem node_tx_found_witness:
  "\<exists>n0 n reply n'. demo_start node_env id 7 1 ''1'' (5, 1000) Map.empty = Some n0 \<and> sample_session n0 [sample_submit] [152] n \<and>
     rpc_serve (\<lambda>_. None) (\<lambda>_. None) node_env frugal_run (EthGetTransactionByHash 17) n = Ok (TxReply (Inr reply)) n'"
proof -
  obtain n0 n where run: "demo_start node_env id 7 1 ''1'' (5, 1000) Map.empty = Some n0"
    "index_hashes node_env n0 = [120]" "sample_session n0 [sample_submit] [152] n" by (rule sample_run)
  have "\<forall>k. rk_get (de_rocks node_env) Map.empty k = Some None" using node_env_laws(4) by blast
  from node_tx_found [OF node_env_laws(1,2) this run(1,3), of 17] run show ?thesis by (auto simp: run(2))
qed

theorem node_restart_witness:
  "\<exists>n0 n n'. demo_start node_env id 7 1 ''1'' (5, 1000) Map.empty = Some n0 \<and> sample_session n0 [sample_submit] [152] n \<and>
     demo_start node_env id 9 1 ''1'' (6, 0) (rw_db (dc_mdb (nd_chain n))) = Some n' \<and>
     dc_indexed (nd_chain n') = dc_indexed (nd_chain n)"
proof -
  obtain n0 n where run: "demo_start node_env id 7 1 ''1'' (5, 1000) Map.empty = Some n0"
    "index_hashes node_env n0 = [120]" "sample_session n0 [sample_submit] [152] n" by (rule sample_run)
  have fresh: "\<forall>k. rk_get (de_rocks node_env) Map.empty k = Some None" using node_env_laws(4) by blast
  have "tx_genuine sample_libs 1 sample_signed"
    by (simp add: tx_genuine_def sample_signed_def ret_def fee_tx_facts fee_tx_length fee_tx_sender)
  then have "\<forall>tx\<in>set (admitted (de_libs node_env) (word_of_nat 1) [sample_submit]). tx_genuine (de_libs node_env) (word_of_nat 1) tx"
    using sample_admitted by (simp add: node_env_def)
  from node_restart [OF node_env_laws(1,2,5) fresh run(1,3) _ this, of id 9 "(6, 0)"] run show ?thesis by auto
qed

end
