(* ===== verification/Persist.thy ===== *)
theory Persist
  imports DemoChain
begin

text \<open>
  The data flow of \<open>src/src/lib.rs\<close>: a state is read from a persistent store, changed in a chain of in-memory revisions,
  consolidated to a delta and committed, which gives a new state root. The locale \<open>world_state_store\<close> is the trait
  \<open>WorldStateStore\<close> of \<open>src/src/state.rs\<close> with what \<open>MemStateRev\<close> relies on; the Merkle store of
  \<open>src/tools/src/merkle.rs\<close> implements it.
\<close>

section \<open>Deltas that can be committed\<close>

definition codes_made :: "(bytes \<Rightarrow> hash) \<Rightarrow> state_delta \<Rightarrow> bool" where
  "codes_made keccak d \<longleftrightarrow> (\<forall>ad\<in>ran (sd_accounts d). \<forall>c\<in>set_option (ad_code ad). c = PlainCode_new keccak (code_bytes c))"

definition delta_sound :: "(bytes \<Rightarrow> hash) \<Rightarrow> state_delta \<Rightarrow> bool" where
  "delta_sound keccak d \<longleftrightarrow> delta_fits d \<and> codes_made keccak d"

definition world_after :: "(bytes \<Rightarrow> hash) \<Rightarrow> world \<Rightarrow> state_delta \<Rightarrow> world" where
  "world_after keccak w d = rev_view keccak (MemStateRev (External w) d)"

text \<open>
  What a commit makes of a delta: its accounts are laid over the old world; its deletions are not looked at. The account under an
  address is what a reader shows of it.
\<close>

definition persisted :: "(bytes \<Rightarrow> hash) \<Rightarrow> world \<Rightarrow> state_delta \<Rightarrow> world" where
  "persisted keccak w d = world_after keccak w (d\<lparr>sd_deleted := {}\<rparr>)"

definition account_of :: "world \<Rightarrow> addr \<Rightarrow> (hash \<Rightarrow> u256) \<times> wei \<times> plain_code \<times> nat \<times> bool" where
  "account_of w a = (w_state w a, w_balance w a, w_code w a, w_nonce w a, w_exist w a)"

lemma persisted_kept:
  "a \<notin> sd_deleted d \<Longrightarrow> account_of (persisted keccak w d) a = account_of (rev_view keccak (MemStateRev (External w) d)) a"
  by (simp add: account_of_def persisted_def world_after_def rev_view_def rev_reads fun_eq_iff)

lemma persisted_deleted: "sd_accounts d a = None \<Longrightarrow> account_of (persisted keccak w d) a = account_of w a"
  by (simp add: account_of_def persisted_def world_after_def rev_view_def rev_reads fun_eq_iff)

lemma persisted_all: "sd_deleted d = {} \<Longrightarrow> persisted keccak w d = world_after keccak w d"
  by (cases d) (simp add: persisted_def)

text \<open>Overlaying keeps a delta sound.\<close>

lemma codes_made_iff: "codes_made keccak d \<longleftrightarrow>
    (\<forall>a ad c. sd_accounts d a = Some ad \<longrightarrow> ad_code ad = Some c \<longrightarrow> c = PlainCode_new keccak (code_bytes c))"
  by (auto simp: codes_made_def ran_def)

lemma delta_fits_iff: "delta_fits d \<longleftrightarrow> finite (dom (sd_accounts d)) \<and>
    (\<forall>a ad. sd_accounts d a = Some ad \<longrightarrow> finite (dom (ad_state ad)) \<and>
      (\<forall>n. ad_nonce ad = Some n \<longrightarrow> n < 2 ^ 64) \<and> (\<forall>c. ad_code ad = Some c \<longrightarrow> length (code_bytes c) < 2 ^ 63))"
  by (auto simp: delta_fits_def ran_def)

lemma sound_iff: "delta_sound keccak d \<longleftrightarrow> finite (dom (sd_accounts d)) \<and>
    (\<forall>a ad. sd_accounts d a = Some ad \<longrightarrow> finite (dom (ad_state ad)) \<and> (\<forall>n. ad_nonce ad = Some n \<longrightarrow> n < 2 ^ 64) \<and>
      (\<forall>c. ad_code ad = Some c \<longrightarrow> length (code_bytes c) < 2 ^ 63 \<and> c = PlainCode_new keccak (code_bytes c)))"
  unfolding delta_sound_def delta_fits_iff codes_made_iff by blast

lemma sound_overlay:
  assumes "delta_sound keccak d" and "delta_sound keccak m"
  shows "delta_sound keccak (overlay_delta d m)"
proof -
  have "dom (sd_accounts (overlay_delta d m)) \<subseteq> dom (sd_accounts d) \<union> dom (sd_accounts m)"
    by (auto simp: overlay_delta_def Let_def split: option.splits if_splits)
  then have "finite (dom (sd_accounts (overlay_delta d m)))"
    using assms by (auto simp: sound_iff dest: finite_subset)
  moreover have "finite (dom (ad_state ad)) \<and> (\<forall>n. ad_nonce ad = Some n \<longrightarrow> n < 2 ^ 64) \<and>
      (\<forall>c. ad_code ad = Some c \<longrightarrow> length (code_bytes c) < 2 ^ 63 \<and> c = PlainCode_new keccak (code_bytes c))"
    if "sd_accounts (overlay_delta d m) a = Some ad" for a ad
    using that assms
    by (auto simp: sound_iff overlay_delta_def overlay_account_def Let_def account_delta_default_def split: option.splits if_splits)
  ultimately show ?thesis unfolding sound_iff by blast
qed

lemma sound_empty: "delta_sound keccak empty_delta"
  by (simp add: sound_iff empty_delta_def)

lemma sound_merged: "\<forall>d\<in>set ds. delta_sound keccak d \<Longrightarrow> delta_sound keccak (merged_delta ds)"
  by (induction ds) (simp_all add: sound_empty sound_overlay)

text \<open>What consolidating a chain of revisions over a reader gives to the store.\<close>

lemma consolidated_chain:
  assumes "collect_revs None rv = (ds, External x)" and "consolidated_delta (shared_consolidate None rv) = Some d"
  shows "shared_consolidate None rv = MemStateRev (External x) d" and "ds = [d] \<or> d = merged_delta ds"
proof -
  have "shared_consolidate None rv = MemStateRev (External x) d \<and> (ds = [d] \<or> d = merged_delta ds)"
  proof (cases "rev_parent rv")
    case (External y)
    then show ?thesis using assms by (cases rv) (auto simp: shared_consolidate_def consolidated_delta_def)
  next
    case (Internal p)
    then have "shared_consolidate None rv = MemStateRev (External x) (merged_delta ds)"
      using assms(1) by (simp add: shared_consolidate_def rev_consolidate_eq)
    with assms(2) show ?thesis by (simp add: consolidated_delta_def)
  qed
  then show "shared_consolidate None rv = MemStateRev (External x) d" "ds = [d] \<or> d = merged_delta ds" by blast+
qed

lemma consolidated_sound:
  assumes "collect_revs None rv = (ds, External x)" and "consolidated_delta (shared_consolidate None rv) = Some d"
    and "\<forall>d\<in>set ds. delta_sound keccak d"
  shows "delta_sound keccak d"
  using consolidated_chain(2) [OF assms(1,2)] assms(3) sound_merged by auto

lemma consolidated_world:
  assumes "collect_revs None rv = (ds, External x)" and "consolidated_delta (shared_consolidate None rv) = Some d"
    and "\<forall>d\<in>set ds. sd_deleted d = {}"
  shows "persisted keccak x d = rev_view keccak rv"
proof -
  have "sd_deleted d = {}" using consolidated_chain(2) [OF assms(1,2)] assms(3) merged_undeleted by auto
  moreover have "rev_view keccak (shared_consolidate None rv) = rev_view keccak rv"
    using consolidate_view [of None rv keccak] assms(1,3) by (simp add: shared_consolidate_def split: state_source.split)
  ultimately show ?thesis by (simp add: persisted_all world_after_def consolidated_chain(1) [OF assms(1,2)])
qed

lemma consolidated_account:
  assumes "collect_revs None rv = (ds, External x)" and "consolidated_delta (shared_consolidate None rv) = Some d"
  shows "a \<notin> sd_deleted d \<Longrightarrow> account_of (persisted keccak x d) a = account_of (rev_view keccak (shared_consolidate None rv)) a"
    and "sd_accounts d a = None \<Longrightarrow> account_of (persisted keccak x d) a = account_of x a"
  by (simp_all add: persisted_kept consolidated_chain(1) [OF assms] persisted_deleted)

section \<open>The store\<close>

text \<open>The loop of reading, modifying and writing back: a commit for each of a sequence of deltas.\<close>

fun commit_all ::
  "('root option \<Rightarrow> state_delta \<Rightarrow> ('w, 'root) exec) \<Rightarrow> 'root option \<Rightarrow> state_delta list \<Rightarrow> ('w, 'root option) exec" where
  "commit_all commit root [] = ret root"
| "commit_all commit root (d # ds) = bind (commit root d) (\<lambda>r. commit_all commit (Some r) ds)"

locale world_state_store =
  fixes keccak :: "bytes \<Rightarrow> hash" and valid :: "'w \<Rightarrow> 'root option \<Rightarrow> bool" and read_at :: "'w \<Rightarrow> 'root option \<Rightarrow> world"
    and commit :: "'root option \<Rightarrow> state_delta \<Rightarrow> ('w, 'root) exec"
  assumes commit_law: "valid w root \<Longrightarrow> delta_sound keccak d \<Longrightarrow> commit root d w = Ok r u \<Longrightarrow>
    valid u (Some r) \<and> read_at u (Some r) = persisted keccak (read_at w root) d"
begin

text \<open>A chain of revisions over the reader of a root.\<close>

lemma commit_chain:
  assumes "valid w root" and "collect_revs None rv = (ds, External (read_at w root))"
    and "\<forall>d\<in>set ds. delta_sound keccak d" and "consolidated_delta (shared_consolidate None rv) = Some d"
    and "commit root d w = Ok r u"
  shows "valid u (Some r) \<and> read_at u (Some r) = persisted keccak (read_at w root) d"
  using commit_law [OF assms(1) consolidated_sound [OF assms(2,4,3)] assms(5)] .

lemma commit_all_world:
  "valid w root \<Longrightarrow> \<forall>d\<in>set ds. delta_sound keccak d \<Longrightarrow> commit_all commit root ds w = Ok root' u \<Longrightarrow>
    valid u root' \<and> read_at u root' = foldl (persisted keccak) (read_at w root) ds"
proof (induction ds arbitrary: root w)
  case (Cons d ds)
  from Cons.prems(3) obtain r t where "commit root d w = Ok r t" "commit_all commit (Some r) ds t = Ok root' u"
    by (auto simp: bind_Ok_conv)
  with Cons.IH [of t "Some r"] commit_law [OF Cons.prems(1), of d r t] Cons.prems(2) show ?case by simp
qed (simp add: ret_def)

end

section \<open>The Merkle store\<close>

text \<open>A commit of the node: \<open>commit\<close>, which fills the batch, and the write of the batch.\<close>

definition store_commit ::
  "(bytes \<Rightarrow> hash) \<Rightarrow> 'd rocks_if \<Rightarrow> 'd trie_if \<Rightarrow> map_iter \<Rightarrow> hash option \<Rightarrow> state_delta \<Rightarrow> ('d rw_db, hash) exec" where
  "store_commit keccak rk tr it root d =
     bind (merkle_commit tr it root d (merkle_reader keccak tr (get_reader root))) (\<lambda>r.
     bind (rw_commit rk) (\<lambda>_. ret r))"

definition store_valid :: "'d trie_if \<Rightarrow> 'd rw_db \<Rightarrow> hash option \<Rightarrow> bool" where
  "store_valid tr w root \<longleftrightarrow> rw_wb w = None \<and> (\<exists>S. represents tr w root S)"

definition world_of :: "(bytes \<Rightarrow> hash) \<Rightarrow> (addr \<rightharpoonup> merkle_account) \<Rightarrow> world" where
  "world_of keccak S =
     \<lparr>w_state = \<lambda>a k. (case Option.bind (S a) (\<lambda>m. ma_storage m k) of Some v \<Rightarrow> v | None \<Rightarrow> 0),
      w_balance = \<lambda>a. (case S a of Some m \<Rightarrow> ma_balance m | None \<Rightarrow> 0),
      w_code = \<lambda>a. PlainCode_new keccak (case S a of Some m \<Rightarrow> ma_code m | None \<Rightarrow> []),
      w_nonce = \<lambda>a. (case S a of Some m \<Rightarrow> ma_nonce m | None \<Rightarrow> 0),
      w_exist = \<lambda>a. S a \<noteq> None\<rparr>"

lemma represents_none: "represents tr w None S \<Longrightarrow> S a = None"
  by (auto simp: represents_def starts_def account_held_def split: option.splits)

lemma merkle_world_of:
  assumes "trie_laws rk tr" and "represents tr w root S"
  shows "merkle_world keccak tr w root = world_of keccak S"
proof -
  have "(case reader_exist tr (get_reader root) a w of Ok v _ \<Rightarrow> v | _ \<Rightarrow> False) \<longleftrightarrow> S a \<noteq> None" for a
  proof (cases root)
    case None
    then have "S a = None" using represents_none assms(2) by blast
    with None show ?thesis by (simp add: exist_without_root_panics [OF assms(1)])
  next
    case (Some r)
    then show ?thesis using reader_exist_held [of tr w r S a] assms(2) by simp
  qed
  then show ?thesis by (simp add: merkle_world_def world_of_def Let_def reader_reads [OF assms])
qed

lemma world_of_delta:
  assumes "codes_made keccak d"
  shows "persisted keccak (world_of keccak S) d = world_of keccak (apply_delta S d)"
  using assms
  by (auto simp: persisted_def world_after_def rev_view_def rev_reads world_of_def apply_delta_def overlay_def default_account_def Let_def
      codes_made_iff map_add_def fun_eq_iff split: option.splits)

text \<open>Every read of a root ends without a panic and shows the world.\<close>

definition reader_shows :: "(bytes \<Rightarrow> hash) \<Rightarrow> 'd trie_if \<Rightarrow> 'd rw_db \<Rightarrow> hash \<Rightarrow> world \<Rightarrow> bool" where
  "reader_shows keccak tr w root x \<longleftrightarrow>
     (let r = get_reader (Some root) in
      \<forall>a k. reader_get_state tr r a k w = Ok (w_state x a k) w \<and> reader_get_balance tr r a w = Ok (w_balance x a) w \<and>
        reader_get_code keccak tr r a w = Ok (w_code x a) w \<and> reader_get_nonce tr r a w = Ok (w_nonce x a) w \<and>
        reader_exist tr r a w = Ok (w_exist x a) w)"

lemma represents_shows:
  "trie_laws rk tr \<Longrightarrow> represents tr w (Some root) S \<Longrightarrow> reader_shows keccak tr w root (world_of keccak S)"
  by (simp add: reader_shows_def reader_reads reader_exist_held world_of_def Let_def)

lemma rw_commit_idle: "rw_commit rk t = Ok () u \<Longrightarrow> rw_wb u = None"
  by (auto simp: rw_commit_def bind_Ok_conv unwrap_def ret_def panic_def modify_def split: option.splits)

locale merkle_libs =
  fixes rk :: "'d rocks_if" and tr :: "'d trie_if" and it :: map_iter
  assumes libs: "trie_laws rk tr" "iter_laws it"
begin

sublocale store: world_state_store keccak "store_valid tr" "merkle_world keccak tr" "store_commit keccak rk tr it" for keccak
proof
  fix w root d r u
  assume w: "store_valid tr w root" and d: "delta_sound keccak d" and run: "store_commit keccak rk tr it root d w = Ok r u"
  from w obtain S where S: "represents tr w root S" "rw_wb w = None" by (auto simp: store_valid_def)
  from run obtain t where t: "merkle_commit tr it root d (merkle_reader keccak tr (get_reader root)) w = Ok r t"
    "rw_commit rk t = Ok () u"
    by (auto simp: store_commit_def bind_Ok_conv ret_def)
  have fits: "delta_fits d" "codes_made keccak d" using d by (simp_all add: delta_sound_def)
  note rep = commit_represents(1) [OF libs S fits(1) t]
  show "store_valid tr u (Some r) \<and> merkle_world keccak tr u (Some r) = persisted keccak (merkle_world keccak tr w root) d"
    using rep rw_commit_idle [OF t(2)] world_of_delta [OF fits(2), of S]
    by (auto simp: store_valid_def merkle_world_of [OF libs(1) rep] merkle_world_of [OF libs(1) S(1)])
qed

lemmas chain_persisted = store.commit_chain

end

interpretation logst: merkle_libs log_rocks log_trie sorted_iter
  by unfold_locales (fact log_laws, fact sorted_iter_laws)


text \<open>A chain of two revisions over the empty store.\<close>

definition two_revs :: mem_rev where
  "two_revs = MemStateRev (Internal (MemStateRev
     (External (merkle_world (\<lambda>_. 0) log_trie (rw_new (\<lambda>v. v) [] []) None)) sample_delta)) empty_delta"

lemma merged_sample: "overlay_delta empty_delta (overlay_delta sample_delta empty_delta) = sample_delta"
  by (auto simp: overlay_delta_def overlay_account_def empty_delta_def account_delta_default_def Let_def fun_eq_iff map_add_def
      split: option.splits)


end
