(* ===== verification/FlatTrie.thy ===== *)
theory FlatTrie
  imports NodeStore
begin

text \<open>
  A trie library over \<open>ReadWriteDB\<close> that keeps every law the development assumes of the library: a trie is one node, the list of
  its insertions, under a root that no node has yet. With it the theorems on the node are applied.
\<close>

section \<open>Insertions as bytes\<close>

definition str_enc :: "bytes \<Rightarrow> bytes" where
  "str_enc s = concat (map (\<lambda>b. [1, b]) s) @ [0, 0]"

definition kvs_enc :: "(bytes \<times> bytes) list \<Rightarrow> bytes" where
  "kvs_enc kvs = concat (map (\<lambda>(k, v). str_enc k @ str_enc v) kvs)"

fun strs_dec :: "bytes \<Rightarrow> bytes \<Rightarrow> bytes list" where
  "strs_dec cur (t # b # raw) = (if t = 1 then strs_dec (cur @ [b]) raw else cur # strs_dec [] raw)"
| "strs_dec cur _ = []"

fun pair_up :: "'a list \<Rightarrow> ('a \<times> 'a) list" where
  "pair_up (k # v # xs) = (k, v) # pair_up xs"
| "pair_up _ = []"

lemma str_dec: "strs_dec cur (str_enc s @ raw) = (cur @ s) # strs_dec [] raw"
  by (induction s arbitrary: cur) (simp_all add: str_enc_def)

lemma kvs_dec: "pair_up (strs_dec [] (kvs_enc kvs)) = kvs"
  by (induction kvs) (auto simp: kvs_enc_def str_dec)

section \<open>The library\<close>

definition flat_key :: "(bytes \<rightharpoonup> bytes) rw_db \<Rightarrow> bytes \<Rightarrow> bytes \<Rightarrow> bytes" where
  "flat_key w r suffix = finalize_key (\<lambda>k _. k) w r ([], None) suffix"

definition flat_at :: "(bytes \<rightharpoonup> bytes) rw_db \<Rightarrow> bytes \<Rightarrow> (bytes \<times> bytes) list option" where
  "flat_at w r =
     (if length r = 32 \<and> r \<noteq> replicate 32 0 then
        (case rk_get map_rocks (rw_db w) (flat_key w r DATA_SUFFIX) of
           Some (Some (t # raw)) \<Rightarrow> Some (pair_up (strs_dec [] raw))
         | _ \<Rightarrow> None)
      else None)"

definition flat_unused :: "(bytes \<rightharpoonup> bytes) rw_db \<Rightarrow> bytes \<Rightarrow> bool" where
  "flat_unused w r \<longleftrightarrow>
     seen map_rocks w (flat_key w r CNT_SUFFIX) = Some None \<and> seen map_rocks w (flat_key w r DATA_SUFFIX) = Some None"

definition flat_trie :: "(bytes \<rightharpoonup> bytes) trie_if" where
  "flat_trie =
     \<lparr>tr_read = \<lambda>w r. map_option (\<lambda>kvs k. Some (map_of (rev kvs) k)) (flat_at w r),
      tr_has = \<lambda>w r. map_option (\<lambda>kvs k. Some (map_of (rev kvs) k \<noteq> None)) (flat_at w r),
      tr_write = \<lambda>w root kvs.
        (case (case root of None \<Rightarrow> Some [] | Some r \<Rightarrow> flat_at w r) of
           None \<Rightarrow> None
         | Some old \<Rightarrow>
             let v = 2 # kvs_enc (old @ kvs) in
             (case find (flat_unused w) (map (\<lambda>n. hash_as_bytes (word_of_nat n)) [1..<5]) of
                None \<Rightarrow> None
              | Some r \<Rightarrow>
                  if v = rw_null_data w then None
                  else (case rw_insert map_rocks (\<lambda>_. r) (\<lambda>k _. k) ([], None) v w of Ok _ t \<Rightarrow> Some (t, r) | _ \<Rightarrow> None)))\<rparr>"

lemma flat_holds: "holds flat_trie w r f \<longleftrightarrow> (\<exists>kvs. flat_at w r = Some kvs \<and> f = map_of (rev kvs))"
  by (auto simp: holds_def flat_trie_def fun_eq_iff)

text \<open>A write puts the counter and the data of a new node.\<close>

lemma flat_write:
  assumes "tr_write flat_trie w root kvs = Some (t, r)"
  obtains old where "(case root of None \<Rightarrow> Some [] | Some r \<Rightarrow> flat_at w r) = Some old" "flat_unused w r"
    "length r = 32" "r \<noteq> replicate 32 0" "rw_insert map_rocks (\<lambda>_. r) (\<lambda>k _. k) ([], None) (2 # kvs_enc (old @ kvs)) w = Ok r t"
    "t = wb_puts [(flat_key w r CNT_SUFFIX, counter_encode 1), (flat_key w r DATA_SUFFIX, 2 # kvs_enc (old @ kvs))] w"
proof -
  from assms obtain old a where old: "(case root of None \<Rightarrow> Some [] | Some r \<Rightarrow> flat_at w r) = Some old"
    and r: "find (flat_unused w) (map (\<lambda>n. hash_as_bytes (word_of_nat n)) [1..<5]) = Some r"
    and v: "2 # kvs_enc (old @ kvs) \<noteq> rw_null_data w"
    and ins: "rw_insert map_rocks (\<lambda>_. r) (\<lambda>k _. k) ([], None) (2 # kvs_enc (old @ kvs)) w = Ok a t"
    by (auto simp: flat_trie_def Let_def split: option.splits if_splits outcome.splits)
  from r have unused: "flat_unused w r" and "\<exists>n. 0 < n \<and> n < 5 \<and> r = hash_as_bytes (word_of_nat n)"
    by (auto simp: find_Some_iff)
  then obtain n :: nat where n: "0 < n" "n < 5" "r = hash_as_bytes (word_of_nat n)" by blast
  then have "unat (word_of_nat n :: hash) = n" by (simp add: unat_of_nat)
  then have "word_of_nat n \<noteq> (0 :: hash)" using n(1) by auto
  then have len: "length r = 32" "r \<noteq> replicate 32 0" using hash_bytes_zero [of "word_of_nat n"] by (simp_all add: n(3))
  have "rk_get map_rocks (rw_db w) (flat_key w r CNT_SUFFIX) = Some None"
    using unused by (auto simp: flat_unused_def seen_def split: option.splits)
  then have "a = r \<and> t = wb_puts [(flat_key w r CNT_SUFFIX, counter_encode 1), (flat_key w r DATA_SUFFIX, 2 # kvs_enc (old @ kvs))] w"
    using ins v by (auto simp: rw_insert_def rw_emplace_def flat_key_def Let_def bind_def unwrap_def ret_def wb_put_puts)
  with that [OF old unused len] ins show thesis by simp
qed

section \<open>The laws\<close>

lemma flat_flushed:
  "rw_prefix (flushed map_rocks w) = rw_prefix w" "rw_null_hash (flushed map_rocks w) = rw_null_hash w"
  "rk_get map_rocks (rw_db (flushed map_rocks w)) k = seen map_rocks w k"
proof -
  have "\<And>d wb. rk_write map_rocks d wb \<noteq> None" by (simp add: map_rocks_def)
  then obtain t where "rw_commit map_rocks w = Ok () t" using rw_commit_total by blast
  with seen_commit [OF map_rocks_laws this] own_commit [OF map_rocks_laws this]
  show "rw_prefix (flushed map_rocks w) = rw_prefix w" "rw_null_hash (flushed map_rocks w) = rw_null_hash w"
    "rk_get map_rocks (rw_db (flushed map_rocks w)) k = seen map_rocks w k"
    by (simp_all add: flushed_def own_keys_def)
qed

lemma flat_keys: "flat_key w r s = flat_key w r' s' \<longleftrightarrow> r @ s = r' @ s'"
  and flat_key_same: "rw_prefix t = rw_prefix w \<Longrightarrow> flat_key t = flat_key w"
  by (simp_all add: flat_key_def finalize_key_def fun_eq_iff)

lemma flat_laws: "trie_laws map_rocks flat_trie"
proof -
  have "length r = 32 \<and> holds flat_trie (flushed map_rocks t) r (f ++ map_of (rev kvs)) \<and>
      (\<forall>r g. holds flat_trie w r g \<longrightarrow> holds flat_trie t r g) \<and>
      (\<forall>r g. holds flat_trie (flushed map_rocks w) r g \<longrightarrow> holds flat_trie (flushed map_rocks t) r g)"
    if run: "tr_write flat_trie w root kvs = Some (t, r)" and start: "starts flat_trie w root f" for w root kvs t r f
    using run
  proof (rule flat_write)
    fix old
    assume old: "(case root of None \<Rightarrow> Some [] | Some r \<Rightarrow> flat_at w r) = Some old" and unused: "flat_unused w r"
      and r: "length r = 32" "r \<noteq> replicate 32 0"
      and t: "t = wb_puts [(flat_key w r CNT_SUFFIX, counter_encode 1), (flat_key w r DATA_SUFFIX, 2 # kvs_enc (old @ kvs))] w"
    have f: "f = map_of (rev old)" using old start by (auto simp: starts_def flat_holds split: option.splits)
    have key: "flat_key t = flat_key w" "flat_key (flushed map_rocks t) = flat_key w" "flat_key (flushed map_rocks w) = flat_key w"
      by (rule flat_key_same, simp add: t flat_flushed)+
    have seen: "seen map_rocks t (flat_key w r' DATA_SUFFIX) =
        (if r' = r then Some (Some (2 # kvs_enc (old @ kvs))) else seen map_rocks w (flat_key w r' DATA_SUFFIX))" for r'
      by (simp add: t seen_puts flat_keys CNT_SUFFIX_def DATA_SUFFIX_def)
    have "flat_at (flushed map_rocks t) r = Some (old @ kvs)"
      using r by (simp add: flat_at_def flat_flushed key seen kvs_dec)
    then have "holds flat_trie (flushed map_rocks t) r (f ++ map_of (rev kvs))" by (simp add: flat_holds f map_add_def fun_eq_iff)
    moreover have "flat_at t r' = flat_at w r'" for r' by (simp add: flat_at_def key) (simp add: t)
    moreover have "flat_at (flushed map_rocks w) r' = Some g \<Longrightarrow> flat_at (flushed map_rocks t) r' = Some g" for r' g
      using unused by (cases "r' = r") (auto simp: flat_at_def flat_flushed key seen flat_unused_def split: if_splits)
    ultimately show ?thesis using r(1) by (simp add: flat_holds) blast
  qed
  moreover have "tr_read flat_trie w (replicate 32 0) = None \<and> tr_has flat_trie w (replicate 32 0) = None" for w
    by (simp add: flat_trie_def flat_at_def)
  ultimately show ?thesis unfolding trie_laws_def by blast
qed

lemma flat_hashdb: "trie_hashdb map_rocks flat_trie"
  unfolding trie_hashdb_def
proof (intro allI impI)
  fix w root kvs t r
  assume "tr_write flat_trie w root kvs = Some (t, r)"
  then show "\<exists>hasher kf ops. Commit \<notin> set ops \<and> for_each ops (rw_step map_rocks hasher kf) w = Ok () t"
  proof (rule flat_write)
    fix old
    assume "rw_insert map_rocks (\<lambda>_. r) (\<lambda>k _. k) ([], None) (2 # kvs_enc (old @ kvs)) w = Ok r t"
    then show ?thesis
      by (intro exI [of _ "\<lambda>_. r"] exI [of _ "\<lambda>k _. k"] exI [of _ "[Insert ([], None) (2 # kvs_enc (old @ kvs))]"])
        (simp add: bind_def ret_def)
  qed
qed

lemma flat_own: "trie_own map_rocks flat_trie"
  unfolding trie_own_def
proof (intro allI impI)
  fix w t :: "(bytes \<rightharpoonup> bytes) rw_db"
  assume "rw_prefix t = rw_prefix w \<and> rw_null_hash t = rw_null_hash w \<and> rw_null_data t = rw_null_data w \<and>
    (\<forall>s. rk_get map_rocks (rw_db t) (rw_prefix w @ s) = rk_get map_rocks (rw_db w) (rw_prefix w @ s))"
  then have "flat_at t r = flat_at w r" for r
    by (simp add: flat_at_def flat_key_def finalize_key_def)
  then have "flat_at t = flat_at w" by (simp add: fun_eq_iff)
  then show "tr_read flat_trie t = tr_read flat_trie w \<and> tr_has flat_trie t = tr_has flat_trie w"
    by (simp add: flat_trie_def)
qed

section \<open>Writes that succeed\<close>

text \<open>The roots that are left. A write takes one of them.\<close>

definition flat_free :: "(bytes \<rightharpoonup> bytes) rw_db \<Rightarrow> nat set" where
  "flat_free w = {n \<in> {1..<5}. flat_unused w (hash_as_bytes (word_of_nat n))}"

lemma flat_write_Ok:
  assumes "(case root of None \<Rightarrow> Some [] | Some r \<Rightarrow> flat_at w r) = Some old" and "rw_null_data w = [0]" and "flat_free w \<noteq> {}"
  shows "\<exists>t r. tr_write flat_trie w root kvs = Some (t, r)"
proof -
  let ?rs = "map (\<lambda>n. hash_as_bytes (word_of_nat n)) [1..<5]"
  have "find (flat_unused w) ?rs \<noteq> None"
    unfolding find_None_iff using assms(3) by (auto simp: flat_free_def simp del: upt_rec_numeral)
  then obtain r where r: "find (flat_unused w) ?rs = Some r" by blast
  then have "flat_unused w r" by (auto simp: find_Some_iff)
  then have "rk_get map_rocks (rw_db w) (finalize_key (\<lambda>k _. k) w r ([], None) CNT_SUFFIX) = Some None"
    by (auto simp: flat_unused_def flat_key_def seen_def split: option.splits)
  then have "\<exists>t. rw_insert map_rocks (\<lambda>_. r) (\<lambda>k _. k) ([], None) (2 # kvs_enc (old @ kvs)) w = Ok r t"
    using assms(2) by (simp add: rw_insert_def rw_emplace_def Let_def bind_def unwrap_def ret_def wb_put_puts)
  with r assms(1,2) show ?thesis by (auto simp: flat_trie_def Let_def simp del: upt_rec_numeral)
qed

lemma flat_write_free:
  assumes "tr_write flat_trie w root kvs = Some (t, r)"
  shows "\<exists>n. flat_free w - {n} \<subseteq> flat_free t" "rw_null_data t = rw_null_data w"
proof -
  obtain old where t: "t = wb_puts [(flat_key w r CNT_SUFFIX, counter_encode 1), (flat_key w r DATA_SUFFIX, 2 # kvs_enc (old @ kvs))] w"
    by (rule flat_write [OF assms])
  have key: "flat_key t = flat_key w" by (rule flat_key_same) (simp add: t)
  have kept: "flat_unused t r'" if "flat_unused w r'" "r' \<noteq> r" for r'
    using that by (simp add: flat_unused_def key) (simp add: t seen_puts flat_keys CNT_SUFFIX_def DATA_SUFFIX_def)
  have inj: "hash_as_bytes (word_of_nat m) \<noteq> hash_as_bytes (word_of_nat n)" if "m < 5" "n < 5" "m \<noteq> n" for m n :: nat
  proof
    assume "hash_as_bytes (word_of_nat m) = hash_as_bytes (word_of_nat n)"
    then have "unat (word_of_nat m :: hash) = unat (word_of_nat n :: hash)" by (simp add: hash_bytes_inj)
    with that show False by (simp add: unat_of_nat)
  qed
  show "\<exists>n. flat_free w - {n} \<subseteq> flat_free t"
  proof (cases "\<exists>n\<in>{1..<5}. hash_as_bytes (word_of_nat n) = r")
    case True
    then obtain n where "n \<in> {1..<5}" "hash_as_bytes (word_of_nat n) = r" by blast
    with inj kept show ?thesis by (intro exI [of _ n]) (fastforce simp: flat_free_def)
  next
    case False
    with kept show ?thesis by (fastforce simp: flat_free_def)
  qed
  show "rw_null_data t = rw_null_data w" by (simp add: t)
qed

text \<open>Two tries in a new store: the storage of one account and the accounts.\<close>

lemma flat_commit_Ok:
  assumes delta: "sd_accounts d = [a \<mapsto> \<lparr>ad_state = Map.empty, ad_balance = Some b, ad_nonce = Some c, ad_code = Some code\<rparr>]"
  shows "\<exists>r t. merkle_commit flat_trie sorted_iter None d (merkle_reader keccak flat_trie (get_reader None))
    (rw_new hasher prefix Map.empty) = Ok r t \<and> flat_free t \<noteq> {} \<and> rw_null_data t = [0]"
proof -
  let ?w = "rw_new hasher prefix Map.empty"
  have w: "rw_null_data ?w = [0]" "flat_free ?w = {1..<5}"
    by (auto simp: rw_new_def flat_free_def flat_unused_def seen_def pending_def map_rocks_def)
  then obtain t r where t: "tr_write flat_trie ?w None [] = Some (t, r)"
    using flat_write_Ok [where root = None and w = ?w and old = "[]" and kvs = "[]"] by auto
  note left = flat_write_free [OF t]
  let ?acc = "\<lparr>as_root_hash = from_big_endian r, as_balance = b, as_nonce = c, as_code = code_bytes code\<rparr>"
  obtain m where m: "{1..<5} - {m} \<subseteq> flat_free t" using left(1) w(2) by auto
  then have "flat_free t \<noteq> {}" using subsetD [OF m, of 1] subsetD [OF m, of 2] by (cases "m = 1") auto
  then obtain u r' where u: "tr_write flat_trie t None [(addr_as_bytes a, account_encode ?acc)] = Some (u, r')"
    using flat_write_Ok [where root = None and w = t and old = "[]" and kvs = "[(addr_as_bytes a, account_encode ?acc)]"] left(2) w(1) by auto
  obtain n where n: "flat_free t - {n} \<subseteq> flat_free u" using flat_write_free(1) [OF u] by blast
  have "\<exists>x\<in>{1, 2, 3}. x \<noteq> m \<and> x \<noteq> n" by auto
  then obtain x where x: "x \<in> {1, 2, 3}" "x \<noteq> m" "x \<noteq> n" by blast
  then have "x \<in> {1..<5}" by auto
  with x m n have "x \<in> flat_free u" by blast
  then have "flat_free u \<noteq> {}" by blast
  moreover have "rw_null_data u = [0]" using flat_write_free(2) [OF u] left(2) w(1) by simp
  moreover have zero: "tr_read flat_trie ?w (replicate 32 0) = None" by (simp add: flat_trie_def flat_at_def)
  have "merkle_commit flat_trie sorted_iter None d (merkle_reader keccak flat_trie (get_reader None)) ?w = Ok (from_big_endian r') u"
    using u by (simp add: merkle_commit_def sorted_iter_def delta bind_def ret_def gather_account_def merkle_reader_def get_reader_def
        reader_get_account_root_def reader_account_def mdb_get_def zero write_account_def write_trie_def t)
  ultimately show ?thesis by blast
qed

text \<open>A commit of no change at a root that is known.\<close>

lemma flat_commit_none:
  assumes "sd_accounts d = Map.empty" and "holds flat_trie w (hash_as_bytes root) f" and "rw_null_data w = [0]" and "flat_free w \<noteq> {}"
  shows "\<exists>r t. merkle_commit flat_trie sorted_iter (Some root) d reader w = Ok r t"
proof -
  obtain old where "flat_at w (hash_as_bytes root) = Some old" using assms(2) by (auto simp: flat_holds)
  then obtain t r where "tr_write flat_trie w (Some (hash_as_bytes root)) [] = Some (t, r)"
    using flat_write_Ok [OF _ assms(3,4), of "Some (hash_as_bytes root)" old "[]"] by auto
  then show ?thesis by (simp add: merkle_commit_def sorted_iter_def assms(1) bind_def ret_def write_trie_def)
qed

lemma flat_free_own:
  assumes "own_keys map_rocks w t"
  shows "flat_free t = flat_free w"
  using assms by (simp add: flat_free_def flat_unused_def own_keys_def flat_key_def finalize_key_def)

end
