(* ===== verification/NodeWorlds.thy ===== *)
theory NodeWorlds
  imports DemoNode Persist NodeExec FlatTrie
begin

text \<open>
  The worlds of a chain: every block of the demo node has a state root, whose reader shows what executing the block's
  transactions with the interpreter has made of the world of its parent, from the genesis world on. This joins the
  interpreter, the revisions in memory, the Merkle store, the block tree, the index and the requests.
\<close>

section \<open>What the interpreter leaves in the revisions\<close>

text \<open>A chain of revisions over the reader \<open>w\<close> whose deltas the store can take.\<close>

fun rev_sound :: "(bytes \<Rightarrow> hash) \<Rightarrow> world \<Rightarrow> mem_rev \<Rightarrow> bool" where
  "rev_sound keccak w (MemStateRev (Internal p) d) \<longleftrightarrow> delta_sound keccak d \<and> rev_sound keccak w p"
| "rev_sound keccak w (MemStateRev (External x) d) \<longleftrightarrow> delta_sound keccak d \<and> x = w"

lemma sound_collect:
  "rev_sound keccak w r \<Longrightarrow> \<exists>ds. collect_revs None r = (ds, External w) \<and> (\<forall>d\<in>set ds. delta_sound keccak d)"
  by (induction keccak w r rule: rev_sound.induct) auto

lemma sound_upd:
  "rev_sound keccak w r \<Longrightarrow> (delta_sound keccak (rev_delta r) \<Longrightarrow> delta_sound keccak (f (rev_delta r))) \<Longrightarrow>
    rev_sound keccak w (upd_delta f r)"
  by (cases "(keccak, w, r)" rule: rev_sound.cases) (auto simp: upd_delta_def)

lemma code_new [simp]: "code_bytes (PlainCode_new keccak c) = c"
  by (simp add: PlainCode_new_def)

lemma sound_writes:
  assumes "rev_sound keccak w r"
  shows "rev_sound keccak w (rev_set_state a k v r)" "length c < 2 ^ 63 \<Longrightarrow> rev_sound keccak w (rev_set_code keccak a c r)"
    "n < 2 ^ 64 \<Longrightarrow> rev_sound keccak w (rev_set_nonce a n r)" "rev_sound keccak w (rev_set_balance a b r)"
    "rev_sound keccak w (rev_create_account keccak a r)" "rev_sound keccak w (rev_delete_account a r)"
    "rev_add_log a topics data bn r = Some t \<Longrightarrow> rev_sound keccak w t"
  using assms
  by (auto simp: rev_writes rev_create_account_def rev_delete_account_def rev_add_log_def Let_def sound_iff
      account_delta_default_def intro!: sound_upd split: option.splits if_splits)

definition auto_sound :: "(bytes \<Rightarrow> hash) \<Rightarrow> world \<Rightarrow> mem_auto \<Rightarrow> bool" where
  "auto_sound keccak w s \<longleftrightarrow> rev_sound keccak w (convert_ref s)"

lemma sound_mut: "auto_sound keccak w s \<Longrightarrow> rev_sound keccak w (convert_mut s)"
  by (cases s) (simp_all add: auto_sound_def mut_from_shared_def sound_empty)

lemma sound_set_balance: "auto_sound keccak w s \<Longrightarrow> auto_sound keccak w (ws_set_balance (mem_ws keccak) a b s)"
  using sound_writes(4) [OF sound_mut] by (simp add: auto_sound_def)

lemma sound_transfer:
  assumes "auto_sound keccak w s"
  shows "auto_sound keccak w (snd (transfer_balance (mem_ws keccak) src dst v s))"
    and "auto_sound keccak w (snd (transfer_balance (mem_host keccak rlp) src dst v s))"
    and "auto_sound keccak w (destruct (mem_host keccak rlp) a b s)"
  using assms
  by (auto simp: transfer_balance_def sub_balance_def add_balance_def destruct_def sound_set_balance simp del: mem_ws_sel(7)
      split: option.split prod.split)

interpretation sound: tx_property "mem_host keccak rlp" "auto_sound keccak w" "auto_sound keccak w" for keccak rlp w
proof
  fix s a k v code n topics data bn t u src dst b
  assume s: "auto_sound keccak w s"
  note writes = sound_writes [OF sound_mut [OF s]]
  show "auto_sound keccak w (ws_set_state (mem_host keccak rlp) a k v s)"
    "auto_sound keccak w (ws_create_account (mem_host keccak rlp) a s)" "auto_sound keccak w (ws_delete_account (mem_host keccak rlp) a s)"
    using writes by (simp_all add: auto_sound_def)
  show "length code < 2 ^ 63 \<Longrightarrow> auto_sound keccak w (ws_set_code (mem_host keccak rlp) a code s)"
    "n < 2 ^ 64 \<Longrightarrow> auto_sound keccak w (ws_set_nonce (mem_host keccak rlp) a n s)"
    using writes(2,3) by (simp_all add: auto_sound_def)
  show "ws_add_log (mem_host keccak rlp) a topics data bn s = Some t \<Longrightarrow> auto_sound keccak w t"
    using writes(7) by (auto simp: auto_sound_def)
  show "ws_snapshot (mem_host keccak rlp) s = (t, u) \<Longrightarrow> auto_sound keccak w t \<and> auto_sound keccak w u"
    using s by (auto simp: auto_sound_def auto_snapshot_def to_shared_def)
  show "auto_sound keccak w (snd (transfer_balance (mem_host keccak rlp) src dst v s))"
    "auto_sound keccak w (destruct (mem_host keccak rlp) a b s)"
    by (rule sound_transfer [OF s])+
  show "auto_sound keccak w s" by (rule s)
next
  show "auto_sound keccak w u \<Longrightarrow> auto_sound keccak w (ws_rollback (mem_host keccak rlp) u s)" for u s
    by (simp add: auto_rollback_def)
qed

lemma node_run_sound:
  assumes "auto_sound keccak w st" and "node_run keccak rlp fuel from' to value gas gp data st prev xenv = Some (st', res)"
  shows "auto_sound keccak w st'"
  using assms(2)
proof (rule node_run_reaches)
  fix al c t
  assume "tx_begin (mem_host keccak rlp) from' to value gas data
      (tx_context (mem_host keccak rlp) from' gas gp al st (Const prev) xenv) = Ok () c"
    and "tx_reaches (mem_host keccak rlp) c t" and "st' = cx_state t"
  with sound.tx_keeps_property [OF assms(1)] show ?thesis by (simp split: if_splits)
qed

lemma process_txs_sound:
  "pres (keeps (\<lambda>p. auto_sound keccak w (pg_state p))) (process_txs keccak (node_run keccak rlp fuel) prev xenv txs)"
proof -
  have "pres (keeps (\<lambda>p. auto_sound keccak w (pg_state p))) (process_tx keccak (node_run keccak rlp fuel) prev xenv tx)" for tx
    unfolding pres_def
  proof
    fix p :: tx_progress
    let ?t = "transfer_balance (mem_ws keccak) (stx_from tx) 0"
    show "case process_tx keccak (node_run keccak rlp fuel) prev xenv tx p of
        Ok a q \<Rightarrow> keeps (\<lambda>p. auto_sound keccak w (pg_state p)) p q
      | Err e q \<Rightarrow> keeps (\<lambda>p. auto_sound keccak w (pg_state p)) p q | Panic \<Rightarrow> True"
      using sound_transfer(1) [of keccak w "pg_state p" "stx_from tx" 0] node_run_sound
      by (auto simp: process_tx_def keeps_def bind_def gets_def modify_def unwrap_def ret_def panic_def u64_sub_def u64_add_def Let_def
          split: option.splits prod.splits tx_exec_result.splits if_splits) (metis snd_conv)+
  qed
  then show ?thesis by (induction txs) (auto intro!: keep.pres_rules)
qed

section \<open>Reading the tries\<close>

lemma own_holds_more:
  assumes "trie_own rk tr" and "own_keys rk w t" and "rw_wb w = None" and "rw_wb t = None"
  shows "holds_more tr w t"
proof -
  have "tr_read tr t = tr_read tr w \<and> tr_has tr t = tr_has tr w"
    using assms unfolding trie_own_def by (simp add: own_keys_def seen_idle)
  then show ?thesis by (simp add: holds_more_def holds_def)
qed

lemma more_represents:
  assumes "holds_more tr w t" and "represents tr w root S"
  shows "represents tr t root S"
proof -
  from assms(2) obtain f where f: "starts tr w (map_option hash_as_bytes root) f" "\<And>a. account_held tr w a (f (addr_as_bytes a)) (S a)"
    by (auto simp: represents_def)
  have "account_held tr t a raw m" if "account_held tr w a raw m" for a raw m
    using that assms(1) by (fastforce simp: account_held_def holds_more_def split: option.splits)
  with f holds_more_starts [OF assms(1)] show ?thesis unfolding represents_def by blast
qed

text \<open>The world of each block.\<close>

definition worlds_held :: "'d demo_env \<Rightarrow> 'd rw_db \<Rightarrow> demo_block list \<Rightarrow> world list \<Rightarrow> bool" where
  "worlds_held env w bs ws \<longleftrightarrow>
     list_all2 (\<lambda>b x. \<exists>S. represents (de_trie env) w (Some (db_root_hash b)) S \<and> x = world_of (de_keccak env) S) bs ws"

lemma worlds_more: "holds_more (de_trie env) w t \<Longrightarrow> worlds_held env w bs ws \<Longrightarrow> worlds_held env t bs ws"
  unfolding worlds_held_def by (erule list_all2_mono) (blast intro: more_represents)

text \<open>What the libraries promise.\<close>

definition store_laws :: "'d demo_env \<Rightarrow> bool" where
  "store_laws env \<longleftrightarrow>
     rocks_laws (de_rocks env) \<and> (\<forall>d wb. rk_write (de_rocks env) d wb \<noteq> None) \<and> trie_hashdb (de_rocks env) (de_trie env) \<and>
     trie_laws (de_rocks env) (de_trie env) \<and> trie_own (de_rocks env) (de_trie env) \<and> iter_laws (de_iter env)"

text \<open>A commit of the world state, written together with other keys.\<close>

lemma commit_shared:
  assumes laws: "store_laws env" and idle: "rw_wb w = None" "rw_wb u = None"
    and rep: "represents (de_trie env) w root S" and fits: "delta_fits d"
    and commit: "merkle_commit (de_trie env) (de_iter env) root d (merkle_reader keccak (de_trie env) (get_reader root)) w = Ok r w1"
    and own: "own_keys (de_rocks env) w1 u"
  shows "represents (de_trie env) u (Some r) (apply_delta S d)" and "holds_more (de_trie env) w u"
proof -
  from laws have rocks: "rocks_laws (de_rocks env)" and writes: "\<And>d wb. rk_write (de_rocks env) d wb \<noteq> None"
    and tries: "trie_laws (de_rocks env) (de_trie env)" "trie_own (de_rocks env) (de_trie env)" "iter_laws (de_iter env)"
    by (simp_all add: store_laws_def)
  obtain t where t: "rw_commit (de_rocks env) w1 = Ok () t" using rw_commit_total [OF writes] by blast
  have "own_keys (de_rocks env) t u" using own own_commit [OF rocks t] by (simp add: own_keys_def)
  then have tu: "holds_more (de_trie env) t u"
    by (rule own_holds_more [OF tries(2) _ seen_commit(1) [OF rocks t] idle(2)])
  note rep' = commit_represents [OF tries(1,3) rep idle(1) fits commit t]
  show "represents (de_trie env) u (Some r) (apply_delta S d)" by (rule more_represents [OF tu rep'(1)])
  show "holds_more (de_trie env) w u" using rep'(2) tu by (simp add: holds_more_def)
qed

lemma held_world:
  assumes "store_laws env" and "worlds_held env w bs ws" and "i < length bs"
  shows "merkle_world (de_keccak env) (de_trie env) w (if db_root_hash (bs ! i) = 0 then None else Some (db_root_hash (bs ! i))) = ws ! i"
    and "\<exists>S. represents (de_trie env) w (Some (db_root_hash (bs ! i))) S \<and> ws ! i = world_of (de_keccak env) S"
proof -
  have tries: "trie_laws (de_rocks env) (de_trie env)" using assms(1) by (simp add: store_laws_def)
  from assms(2,3) obtain S where S: "represents (de_trie env) w (Some (db_root_hash (bs ! i))) S" "ws ! i = world_of (de_keccak env) S"
    by (auto simp: worlds_held_def list_all2_conv_all_nth)
  have "db_root_hash (bs ! i) \<noteq> 0"
  proof
    assume "db_root_hash (bs ! i) = 0"
    then have "hash_as_bytes (db_root_hash (bs ! i)) = replicate 32 0" by (simp add: hash_bytes_zero)
    with S(1) tries show False by (simp add: represents_def starts_def holds_def trie_laws_def)
  qed
  with merkle_world_of [OF tries S(1), of "de_keccak env"] S(2)
  show "merkle_world (de_keccak env) (de_trie env) w (if db_root_hash (bs ! i) = 0 then None else Some (db_root_hash (bs ! i))) = ws ! i"
    by simp
  show "\<exists>S. represents (de_trie env) w (Some (db_root_hash (bs ! i))) S \<and> ws ! i = world_of (de_keccak env) S" using S by blast
qed

lemma held_shows:
  assumes "store_laws env" and "worlds_held env w bs ws" and "i < length bs"
  shows "reader_shows (de_keccak env) (de_trie env) w (db_root_hash (bs ! i)) (ws ! i)"
proof -
  obtain S where S: "represents (de_trie env) w (Some (db_root_hash (bs ! i))) S" "ws ! i = world_of (de_keccak env) S"
    using held_world(2) [OF assms] by blast
  have "trie_laws (de_rocks env) (de_trie env)" using assms(1) by (simp add: store_laws_def)
  from represents_shows [OF this S(1), of "de_keccak env"] show ?thesis by (simp add: S(2))
qed

section \<open>The world after a block\<close>

text \<open>The environment of a block upon the blocks before it.\<close>

definition chain_env :: "'d demo_env \<Rightarrow> u256 \<Rightarrow> demo_block list \<Rightarrow> demo_block \<Rightarrow> exec_env" where
  "chain_env env chain_id before b =
     \<lparr>env_chain_id = chain_id,
      env_block = \<lparr>bi_coinbase = 0, bi_timestamp = word_of_nat (db_timestamp b), bi_number = word_of_nat (db_number b),
        bi_difficulty = 0, bi_gas_limit = db_gas_limit b, bi_base_fee = db_base_fee b, bi_fork = London\<rparr>,
      env_precompiled = [],
      env_block_hash = \<lambda>n. if n < length before then block_hash env (before ! n) else 0\<rparr>"

text \<open>
  The transactions of a block, one after the other, on the world \<open>w\<close>, and the world they leave: the delta of the consolidated state laid
  over \<open>w\<close>. A deletion of an account is not persisted (\<open>persisted\<close>); when the run has deleted none, this is the world its state shows.
\<close>

definition undeleted :: "mem_auto \<Rightarrow> bool" where
  "undeleted s \<longleftrightarrow> (\<forall>d\<in>set (fst (collect_revs None (convert_ref s))). sd_deleted d = {})"

definition block_start :: "world \<Rightarrow> tx_progress" where
  "block_start w = \<lparr>pg_state = Const (mem_rev_new w), pg_gas_cumu = 0, pg_gas_used = [], pg_contract_addrs = []\<rparr>"

definition block_result :: "(bytes \<Rightarrow> hash) \<Rightarrow> tx_runner \<Rightarrow> exec_env \<Rightarrow> world \<Rightarrow> tx list \<Rightarrow> tx_progress option" where
  "block_result keccak run_tx xenv w txs =
     (case process_txs keccak run_tx (mem_rev_new w) xenv txs (block_start w) of Ok True p \<Rightarrow> Some p | _ \<Rightarrow> None)"

definition block_runs :: "(bytes \<Rightarrow> hash) \<Rightarrow> tx_runner \<Rightarrow> exec_env \<Rightarrow> world \<Rightarrow> tx list \<Rightarrow> world \<Rightarrow> bool" where
  "block_runs keccak run_tx xenv w txs w' \<longleftrightarrow>
     (\<exists>p d. block_result keccak run_tx xenv w txs = Some p \<and>
        consolidated_delta (shared_consolidate None (convert_ref (pg_state p))) = Some d \<and> w' = persisted keccak w d \<and>
        (undeleted (pg_state p) \<longrightarrow> w' = rev_view keccak (convert_ref (pg_state p))))"

text \<open>The outcome that is stored for a block.\<close>

definition outcome_of :: "'d demo_env \<Rightarrow> 'd \<Rightarrow> demo_block \<Rightarrow> tx_progress \<Rightarrow> bool" where
  "outcome_of env d b p \<longleftrightarrow>
     rk_get (de_rocks env) d (gen_outcome_key (block_hash env b)) =
       Some (Some (outcome_encode \<lparr>bo_world_state = (), bo_gas_used = pg_gas_used p, bo_contract_addrs = pg_contract_addrs p\<rparr>))"

definition block_follows :: "'d demo_env \<Rightarrow> tx_runner \<Rightarrow> u256 \<Rightarrow> 'd \<Rightarrow> demo_block list \<Rightarrow> demo_block \<Rightarrow> world \<Rightarrow> world \<Rightarrow> bool" where
  "block_follows env run_tx chain_id d before b w w' \<longleftrightarrow>
     block_runs (de_keccak env) run_tx (chain_env env chain_id before b) w (db_txs b) w' \<and>
     (\<exists>p. block_result (de_keccak env) run_tx (chain_env env chain_id before b) w (db_txs b) = Some p \<and> outcome_of env d b p)"

lemma exec_env_eq:
  assumes "dc_indexed s = map Some bs"
  shows "get_exec_env env s b = chain_env env (dc_chain_id s) bs b"
  using assms by (simp add: get_exec_env_def chain_env_def fun_eq_iff)

lemma transition_runs:
  assumes holds: "chain_holds env s bs" and par: "db_parent_hash block = block_hash env (last bs)"
    and world: "merkle_world (de_keccak env) (de_trie env) (dc_mdb s)
      (if db_root_hash (last bs) = 0 then None else Some (db_root_hash (last bs))) = w"
    and run: "process_state_transition env run_tx block s = Ok (Some (outcome, old_root)) t"
  obtains p where "process_txs (de_keccak env) run_tx (mem_rev_new w) (chain_env env (dc_chain_id s) bs block) (db_txs block) (block_start w) =
      Ok True p"
    "outcome = \<lparr>bo_world_state = shared_consolidate None (convert_ref (pg_state p)), bo_gas_used = pg_gas_used p, bo_contract_addrs = pg_contract_addrs p\<rparr>"
    "old_root = db_root_hash (last bs)"
proof -
  have last: "last bs \<in> set bs" and tree: "tree_is env (dc_chain s) bs" and index: "dc_indexed s = map Some bs"
    and out: "outcome_stored env (rw_db (dc_mdb s)) (last bs)"
    using holds by (simp_all add: chain_holds_def store_has_def)
  have "get_block_by_hash env (db_parent_hash block) s = Ok (Some (last bs)) s"
    unfolding par by (rule get_block_by_hash_in_chain [of env s]) (use tree_is_block [OF tree last] in \<open>simp_all add: in_chain_def\<close>)
  moreover obtain bo where "get_block_state env (last bs) s = Ok (Some bo) s" "bo_world_state bo = mem_rev_new w"
    using stored_state_reads [OF out] world by metis
  ultimately show thesis using run that
    by (auto simp: process_state_transition_def bind_def exec_env_eq [OF index] to_shared_def block_start_def split: outcome.splits bool.splits)
qed

lemma add_one_block_world:
  assumes laws: "store_laws env" and holds: "chain_holds env s bs" and held: "worlds_held env (dc_mdb s) bs ws"
    and run: "add_one_block env (node_run (de_keccak env) rlp fuel) (length bs) (block_hash env (last bs)) block s = Ok h t"
    and new: "h \<notin> set (0 # map (block_hash env) bs)" and txs: "length (db_txs block) < 2 ^ 64"
  obtains b x where "h = block_hash env b" "chain_holds env t (bs @ [b])" "worlds_held env (dc_mdb t) (bs @ [b]) (ws @ [x])"
    "block_follows env (node_run (de_keccak env) rlp fuel) (dc_chain_id s) (rw_db (dc_mdb t)) bs b (last ws) x" "dc_chain_id t = dc_chain_id s"
    "\<forall>g. g \<noteq> h \<longrightarrow> rk_get (de_rocks env) (rw_db (dc_mdb t)) (gen_outcome_key g) = rk_get (de_rocks env) (rw_db (dc_mdb s)) (gen_outcome_key g)"
proof -
  let ?run = "node_run (de_keccak env) rlp fuel" and ?k = "de_keccak env"
  have rocks: "rocks_laws (de_rocks env)" "trie_hashdb (de_rocks env) (de_trie env)" using laws by (simp_all add: store_laws_def)
  obtain b root outcome delta old_root w1 where
    b: "b = block\<lparr>db_number := length bs, db_parent_hash := block_hash env (last bs), db_root_hash := root\<rparr>" "h = block_hash env b"
    and t: "chain_holds env t (bs @ [b])"
    and trans: "process_state_transition env ?run (block\<lparr>db_number := length bs, db_parent_hash := block_hash env (last bs)\<rparr>) s =
      Ok (Some (outcome, old_root)) s"
    and delta: "consolidated_delta (bo_world_state outcome) = Some delta"
    and commit: "merkle_commit (de_trie env) (de_iter env) (Some old_root) delta
       (merkle_reader ?k (de_trie env) (get_reader (Some old_root))) (dc_mdb s) = Ok root w1"
    and own: "own_keys (de_rocks env) w1 (dc_mdb t)" and cid: "dc_chain_id t = dc_chain_id s"
    and outs: "\<forall>g. rk_get (de_rocks env) (rw_db (dc_mdb t)) (gen_outcome_key g) =
      (if g = h then Some (Some (outcome_encode outcome)) else rk_get (de_rocks env) (rw_db (dc_mdb s)) (gen_outcome_key g))"
    by (rule add_one_block_effect [OF rocks holds run new txs])
  have len: "length ws = length bs" "bs \<noteq> []" using held holds by (auto simp: worlds_held_def chain_holds_def dest: list_all2_lengthD)
  then have "ws \<noteq> []" by auto
  with len have last: "bs ! (length bs - 1) = last bs" "ws ! (length bs - 1) = last ws" "length bs - 1 < length bs"
    by (simp_all add: last_conv_nth)
  note world = held_world [OF laws held last(3), unfolded last(1,2)]
  obtain p where p: "process_txs ?k ?run (mem_rev_new (last ws))
      (chain_env env (dc_chain_id s) bs (block\<lparr>db_number := length bs, db_parent_hash := block_hash env (last bs)\<rparr>)) (db_txs block)
      (block_start (last ws)) = Ok True p"
    and outcome: "outcome = \<lparr>bo_world_state = shared_consolidate None (convert_ref (pg_state p)), bo_gas_used = pg_gas_used p,
      bo_contract_addrs = pg_contract_addrs p\<rparr>" and old: "old_root = db_root_hash (last bs)"
    using transition_runs [OF holds _ world(1) trans] by auto
  have out: "bo_world_state outcome = shared_consolidate None (convert_ref (pg_state p))" by (simp add: outcome)
  have "auto_sound ?k (last ws) (pg_state p)"
    using pres_OkD [OF process_txs_sound p] by (simp add: keeps_def auto_sound_def mem_rev_new_def sound_empty block_start_def)
  then obtain ds where ds: "collect_revs None (convert_ref (pg_state p)) = (ds, External (last ws))" "\<forall>d\<in>set ds. delta_sound ?k d"
    unfolding auto_sound_def by (blast dest: sound_collect)
  from world(2) obtain S where S: "represents (de_trie env) (dc_mdb s) (Some old_root) S" "last ws = world_of ?k S"
    by (auto simp: old)
  have sound: "delta_sound ?k delta" by (rule consolidated_sound [OF ds(1) delta [unfolded out] ds(2)])
  have idle: "rw_wb (dc_mdb s) = None" "rw_wb (dc_mdb t) = None" using holds t by (simp_all add: chain_holds_def store_has_def)
  note kept = commit_shared [OF laws idle S(1) _ commit own]
  have fits: "delta_fits delta" using sound by (simp add: delta_sound_def)
  let ?x = "world_of ?k (apply_delta S delta)"
  have x: "?x = persisted ?k (last ws) delta"
    using world_of_delta [of ?k delta S] sound S(2) by (simp add: delta_sound_def)
  moreover have "?x = rev_view ?k (convert_ref (pg_state p))" if "undeleted (pg_state p)"
    using consolidated_world [OF ds(1) delta [unfolded out], of ?k] that ds(1) x by (simp add: undeleted_def)
  moreover have result: "block_result ?k ?run (chain_env env (dc_chain_id s) bs b) (last ws) (db_txs b) = Some p"
    using p by (simp add: block_result_def b(1) chain_env_def)
  moreover have "outcome_of env (rw_db (dc_mdb t)) b p" using outs by (simp add: outcome_of_def outcome b(2) outcome_encode_def)
  ultimately have follows: "block_follows env ?run (dc_chain_id s) (rw_db (dc_mdb t)) bs b (last ws) ?x"
    using delta [unfolded out] unfolding block_follows_def block_runs_def by blast
  have "worlds_held env (dc_mdb t) (bs @ [b]) (ws @ [?x])"
    using worlds_more [OF kept(2) held, OF fits] kept(1) [OF fits]
    by (auto simp: worlds_held_def b(1) intro!: list_all2_appendI)
  from that [OF b(2) t this follows cid] outs show thesis by simp
qed

section \<open>The worlds of a chain\<close>

definition worlds_chain :: "'d demo_env \<Rightarrow> tx_runner \<Rightarrow> u256 \<Rightarrow> 'd \<Rightarrow> demo_block list \<Rightarrow> world list \<Rightarrow> bool" where
  "worlds_chain env run_tx chain_id d bs ws \<longleftrightarrow>
     length ws = length bs \<and>
     (\<forall>i. Suc i < length bs \<longrightarrow> block_follows env run_tx chain_id d (take (Suc i) bs) (bs ! Suc i) (ws ! i) (ws ! Suc i))"

lemma worlds_chain_snoc:
  assumes "worlds_chain env run_tx chain_id d bs ws" and "bs \<noteq> []" and "block_follows env run_tx chain_id d' bs b (last ws) x"
    and "\<And>b'. b' \<in> set bs \<Longrightarrow> rk_get (de_rocks env) d' (gen_outcome_key (block_hash env b')) = rk_get (de_rocks env) d (gen_outcome_key (block_hash env b'))"
  shows "worlds_chain env run_tx chain_id d' (bs @ [b]) (ws @ [x])"
  unfolding worlds_chain_def
proof (intro conjI allI impI)
  have len: "length ws = length bs" using assms(1) by (simp add: worlds_chain_def)
  show "length (ws @ [x]) = length (bs @ [b])" by (simp add: len)
  fix i
  assume "Suc i < length (bs @ [b])"
  then consider "Suc i < length bs" | "Suc i = length bs" by fastforce
  then show "block_follows env run_tx chain_id d' (take (Suc i) (bs @ [b])) ((bs @ [b]) ! Suc i) ((ws @ [x]) ! i) ((ws @ [x]) ! Suc i)"
  proof cases
    case 1
    then show ?thesis using assms(1) len assms(4) [of "bs ! Suc i"]
      by (simp add: worlds_chain_def nth_append block_follows_def outcome_of_def)
  next
    case 2
    then have "ws ! i = last ws" using len assms(2) by (metis diff_Suc_1 last_conv_nth length_0_conv)
    with 2 assms(3) len show ?thesis by (simp add: nth_append)
  qed
qed

lemma blocks_added_worlds:
  assumes laws: "store_laws env"
  shows "blocks_added env (node_run (de_keccak env) rlp fuel) number p_hash blocks s hs t \<Longrightarrow> chain_holds env s bs \<Longrightarrow>
    worlds_held env (dc_mdb s) bs ws \<Longrightarrow> worlds_chain env (node_run (de_keccak env) rlp fuel) (dc_chain_id s) (rw_db (dc_mdb s)) bs ws \<Longrightarrow>
    number = length bs - 1 \<Longrightarrow> p_hash = block_hash env (last bs) \<Longrightarrow> distinct (0 # map (block_hash env) bs @ hs) \<Longrightarrow>
    \<forall>b\<in>set blocks. length (db_txs b) < 2 ^ 64 \<Longrightarrow>
    \<exists>new ws'. chain_holds env t (bs @ new) \<and> worlds_held env (dc_mdb t) (bs @ new) (ws @ ws') \<and>
      worlds_chain env (node_run (de_keccak env) rlp fuel) (dc_chain_id s) (rw_db (dc_mdb t)) (bs @ new) (ws @ ws') \<and> dc_chain_id t = dc_chain_id s"
proof (induction arbitrary: bs ws rule: blocks_added.induct)
  case (added_none number p_hash s)
  then show ?case by (intro exI [of _ "[]"]) simp
next
  case (added_more number p_hash block s h u blocks hs t)
  have ne: "bs \<noteq> []" using added_more.prems(1) by (simp add: chain_holds_def)
  then have num: "number + 1 = length bs" using added_more.prems(4) by (simp add: Suc_leI)
  have add: "add_one_block env (node_run (de_keccak env) rlp fuel) (length bs) (block_hash env (last bs)) block s = Ok h u"
    using added_more.hyps(2) by (simp only: num added_more.prems(5))
  obtain b x where b: "h = block_hash env b" "chain_holds env u (bs @ [b])" "worlds_held env (dc_mdb u) (bs @ [b]) (ws @ [x])"
    "block_follows env (node_run (de_keccak env) rlp fuel) (dc_chain_id s) (rw_db (dc_mdb u)) bs b (last ws) x" "dc_chain_id u = dc_chain_id s"
    "\<forall>g. g \<noteq> h \<longrightarrow> rk_get (de_rocks env) (rw_db (dc_mdb u)) (gen_outcome_key g) = rk_get (de_rocks env) (rw_db (dc_mdb s)) (gen_outcome_key g)"
    by (rule add_one_block_world [OF laws added_more.prems(1,2) add]) (use added_more.prems(6,7) in auto)
  have "h \<notin> set (map (block_hash env) bs)" using added_more.prems(6) by auto
  then have kept: "rk_get (de_rocks env) (rw_db (dc_mdb u)) (gen_outcome_key (block_hash env b')) =
      rk_get (de_rocks env) (rw_db (dc_mdb s)) (gen_outcome_key (block_hash env b'))" if "b' \<in> set bs" for b'
    using that b(6) by auto
  have "worlds_chain env (node_run (de_keccak env) rlp fuel) (dc_chain_id u) (rw_db (dc_mdb u)) (bs @ [b]) (ws @ [x])"
    using worlds_chain_snoc [OF added_more.prems(3) ne b(4) kept] b(5) by simp
  from added_more.IH [OF b(2,3) this] added_more.prems(6,7) num b(1,5) obtain new ws' where
    "chain_holds env t ((bs @ [b]) @ new)" "worlds_held env (dc_mdb t) ((bs @ [b]) @ new) ((ws @ [x]) @ ws')"
    "worlds_chain env (node_run (de_keccak env) rlp fuel) (dc_chain_id s) (rw_db (dc_mdb t)) ((bs @ [b]) @ new) ((ws @ [x]) @ ws')" "dc_chain_id t = dc_chain_id s"
    by auto
  then show ?case by (intro exI [of _ "b # new"] exI [of _ "x # ws'"]) simp
qed

section \<open>The genesis world\<close>

definition genesis_view :: "(bytes \<Rightarrow> hash) \<Rightarrow> addr \<times> wei \<Rightarrow> world" where
  "genesis_view keccak account =
     (empty_state keccak)\<lparr>w_balance := (\<lambda>_. 0)(fst account := snd account), w_exist := (\<lambda>_. False)(fst account := True)\<rparr>"

lemma genesis_rev:
  "convert_ref (genesis_world keccak a v) =
     MemStateRev (Internal (mem_rev_new (empty_state keccak)))
       (empty_delta\<lparr>sd_accounts := [a \<mapsto> \<lparr>ad_state = Map.empty, ad_balance = Some v, ad_nonce = Some 0,
          ad_code = Some (PlainCode_new keccak [])\<rparr>]\<rparr>)"
  by (simp add: genesis_world_def auto_new_def rev_set_balance_def rev_get_account_def rev_create_account_def upd_delta_def
      mut_from_shared_def Let_def) (simp add: empty_delta_def)

lemma genesis_chain:
  "rev_sound keccak (empty_state keccak) (convert_ref (genesis_world keccak a v))" "undeleted (genesis_world keccak a v)"
  "rev_view keccak (convert_ref (genesis_world keccak a v)) = genesis_view keccak (a, v)"
proof -
  show "rev_sound keccak (empty_state keccak) (convert_ref (genesis_world keccak a v))"
    by (simp add: genesis_rev mem_rev_new_def sound_empty) (simp add: sound_iff empty_delta_def)
  show "undeleted (genesis_world keccak a v)"
    by (simp add: undeleted_def genesis_rev mem_rev_new_def) (simp add: empty_delta_def)
  show "rev_view keccak (convert_ref (genesis_world keccak a v)) = genesis_view keccak (a, v)"
    by (auto simp: genesis_rev mem_rev_new_def rev_view_def rev_reads genesis_view_def empty_state_def empty_delta_def fun_eq_iff)
qed

lemma empty_world: "world_of keccak Map.empty = empty_state keccak"
  by (simp add: world_of_def empty_state_def)

lemma genesis_worlds:
  assumes laws: "store_laws env" and fresh: "\<And>k. rk_get (de_rocks env) d k = Some None"
    and run: "demo_new env hasher now a v d chain_id = Ok () t"
  obtains g where "dc_indexed t = [Some g]" "dc_chain_id t = chain_id" "block_hash env g \<noteq> 0 \<Longrightarrow> chain_holds env t [g]"
    "rw_wb (dc_mdb t) = None \<Longrightarrow> worlds_held env (dc_mdb t) [g] [genesis_view (de_keccak env) (a, v)]"
proof -
  let ?k = "de_keccak env" and ?gw = "genesis_world (de_keccak env) a v" and ?w = "rw_new hasher DB_PREFIX_MERKLE d"
  have rocks: "rocks_laws (de_rocks env)" "trie_hashdb (de_rocks env) (de_trie env)" using laws by (simp_all add: store_laws_def)
  obtain g delta w1 where g: "dc_indexed t = [Some g]" "dc_chain_id t = chain_id" "block_hash env g \<noteq> 0 \<Longrightarrow> chain_holds env t [g]"
    and delta: "consolidated_delta (shared_consolidate None (convert_ref ?gw)) = Some delta"
    and commit: "merkle_commit (de_trie env) (de_iter env) None delta (merkle_reader ?k (de_trie env) (get_reader None)) ?w = Ok (db_root_hash g) w1"
    and own: "own_keys (de_rocks env) w1 (dc_mdb t)"
    by (rule genesis_effect [OF rocks fresh run]) (simp add: to_shared_def)
  obtain ds where ds: "collect_revs None (convert_ref ?gw) = (ds, External (empty_state ?k))" "\<forall>d\<in>set ds. delta_sound ?k d"
    using sound_collect [OF genesis_chain(1)] by blast
  have d: "delta_fits delta" "codes_made ?k delta" using consolidated_sound [OF ds(1) delta ds(2)] by (simp_all add: delta_sound_def)
  have "persisted ?k (empty_state ?k) delta = rev_view ?k (convert_ref ?gw)"
    using consolidated_world [OF ds(1) delta] ds(1) genesis_chain(2) [of ?k a v] by (simp add: undeleted_def)
  then have world: "world_of ?k (apply_delta Map.empty delta) = genesis_view ?k (a, v)"
    using world_of_delta [OF d(2), of Map.empty] genesis_chain(3) [of ?k a v] by (simp add: empty_world)
  have "represents (de_trie env) ?w None Map.empty" "rw_wb ?w = None"
    by (auto simp: represents_def starts_def account_held_def rw_new_def)
  from commit_shared(1) [OF laws this(2) _ this(1) d(1) commit own] world
  have "rw_wb (dc_mdb t) = None \<Longrightarrow> worlds_held env (dc_mdb t) [g] [genesis_view ?k (a, v)]"
    by (fastforce simp: worlds_held_def)
  with g(3) show thesis by (intro that [OF g(1,2)])
qed

section \<open>Sessions\<close>

lemma session_worlds:
  assumes laws: "store_laws env" and "session parse_args parse_number env (node_run (de_keccak env) rlp fuel) n0 reqs hs n"
    and start: "node_inv env mid [] hs0 n0 bs0" "worlds_held env (dc_mdb (nd_chain n0)) bs0 ws0"
      "worlds_chain env (node_run (de_keccak env) rlp fuel) (dc_chain_id (nd_chain n0)) (rw_db (dc_mdb (nd_chain n0))) bs0 ws0"
    and "distinct (0 # hs0 @ hs)"
  shows "\<exists>bs ws. node_inv env mid reqs (hs0 @ hs) n bs \<and> worlds_held env (dc_mdb (nd_chain n)) bs (ws0 @ ws) \<and>
    worlds_chain env (node_run (de_keccak env) rlp fuel) (dc_chain_id (nd_chain n0)) (rw_db (dc_mdb (nd_chain n))) bs (ws0 @ ws) \<and>
    dc_chain_id (nd_chain n) = dc_chain_id (nd_chain n0) \<and> hd bs = hd bs0"
  using assms(2,6)
proof (induction rule: session.induct)
  case session_start
  then show ?case using start by (intro exI [of _ bs0] exI [of _ "[]"]) simp
next
  case (session_request reqs hs n req r n')
  then obtain bs ws where inv: "node_inv env mid reqs (hs0 @ hs) n bs" and ws: "worlds_held env (dc_mdb (nd_chain n)) bs (ws0 @ ws)"
    "worlds_chain env (node_run (de_keccak env) rlp fuel) (dc_chain_id (nd_chain n0)) (rw_db (dc_mdb (nd_chain n))) bs (ws0 @ ws)"
    "dc_chain_id (nd_chain n) = dc_chain_id (nd_chain n0)" "hd bs = hd bs0" by auto
  have "chain_at env bs (dc_mdb (nd_chain n)) (dc_chain_id (nd_chain n)) (nd_chain n)" using inv by (simp add: node_inv_def chain_at_def)
  from serve_effect [OF session_request.hyps(2) this] ws request_keeps_inv [OF inv session_request.hyps(2)]
  show ?case by (intro exI [of _ bs] exI [of _ ws]) (simp add: chain_at_def)
next
  case (session_gen reqs hs n now n')
  moreover have "nd_chain n' = nd_chain n"
    using session_gen.hyps(3) by (auto simp: node_gen_blocks_def bind_Ok_conv on_mempool_Ok modify_def)
  ultimately show ?case using gen_keeps_inv by fastforce
next
  case (session_add reqs hs n n' blocks tail made)
  then obtain bs ws where inv: "node_inv env mid reqs (hs0 @ hs) n bs" and ws: "worlds_held env (dc_mdb (nd_chain n)) bs (ws0 @ ws)"
    "worlds_chain env (node_run (de_keccak env) rlp fuel) (dc_chain_id (nd_chain n0)) (rw_db (dc_mdb (nd_chain n))) bs (ws0 @ ws)"
    "dc_chain_id (nd_chain n) = dc_chain_id (nd_chain n0)" "hd bs = hd bs0" by auto
  have rocks: "rocks_laws (de_rocks env)" "trie_hashdb (de_rocks env) (de_trie env)" using laws by (simp_all add: store_laws_def)
  from inv have holds: "chain_holds env (nd_chain n) bs" and hs: "map (block_hash env) bs = hs0 @ hs" by (simp_all add: node_inv_def)
  have index: "dc_indexed (nd_chain n) = map Some bs" "bs \<noteq> []" using holds by (simp_all add: chain_holds_def)
  then have tail: "tail = last bs" using session_add.hyps(4) by (simp add: last_map)
  have "\<forall>b\<in>set blocks. block_sound b" using inv session_add.hyps(3) by (simp add: node_inv_def awaited_def)
  then have txs: "\<forall>b\<in>set blocks. length (db_txs b) < 2 ^ 64" by (auto simp: block_sound_def MAX_BLOCK_TXS_def)
  obtain new ws' where new: "chain_holds env (nd_chain n') (bs @ new)" "worlds_held env (dc_mdb (nd_chain n')) (bs @ new) ((ws0 @ ws) @ ws')"
    "worlds_chain env (node_run (de_keccak env) rlp fuel) (dc_chain_id (nd_chain n)) (rw_db (dc_mdb (nd_chain n'))) (bs @ new) ((ws0 @ ws) @ ws')"
    "dc_chain_id (nd_chain n') = dc_chain_id (nd_chain n)"
    using blocks_added_worlds [OF laws session_add.hyps(5) holds ws(1)] ws(2,3) session_add.prems hs txs index by (auto simp: tail)
  obtain more where more: "node_inv env mid reqs ((hs0 @ hs) @ made) n' (bs @ more)"
    using add_keeps_inv [OF rocks inv session_add.hyps(2-5)] session_add.prems by auto
  then have "bs @ more = bs @ new"
    using new(1) by (simp add: node_inv_def chain_holds_def inj_map_eq_map)
  with more new ws(3,4) index(2) show ?case by (intro exI [of _ "bs @ new"] exI [of _ "ws @ ws'"]) simp
qed

text \<open>What is asked of a block is answered from its world.\<close>

lemma world_requests:
  assumes laws: "store_laws env" and holds: "chain_holds env (nd_chain n) bs" and held: "worlds_held env (dc_mdb (nd_chain n)) bs ws"
    and i: "i < length bs"
  shows "rpc_serve pa pn env run_tx (EthGetBalance a (Number (word_of_nat i))) n = Ok (WeiReply (Inr (w_balance (ws ! i) a))) n"
    and "rpc_serve pa pn env run_tx (EthGetTransactionCount a (Number (word_of_nat i))) n = Ok (CountReply (Inr (w_nonce (ws ! i) a))) n"
    and "rpc_serve pa pn env run_tx (EthGetCode a (Number (word_of_nat i))) n = Ok (BytesReply (Inr (code_bytes (w_code (ws ! i) a)))) n"
    and "rpc_serve pa pn env run_tx (EthGetStorageAt a k (Number (word_of_nat i))) n =
      Ok (BytesReply (Inr (bytes32_of_u256 (w_state (ws ! i) a (hash_of_u256 k))))) n"
proof -
  let ?s = "nd_chain n"
  have "length bs < 2 ^ 64" using holds by (simp add: chain_holds_def)
  with i have "low_u64 (word_of_nat i) = i" by (simp add: low_u64_def unat_of_nat)
  then have "get_block_by_number (Number (word_of_nat i)) ?s = Ok (Some (bs ! i)) ?s"
    using holds i by (simp add: get_block_by_number_def exec_defs chain_holds_def)
  moreover have "outcome_stored env (rw_db (dc_mdb ?s)) (bs ! i)" using holds i by (simp add: chain_holds_def store_has_def)
  then obtain bo where "get_block_state env (bs ! i) ?s = Ok (Some bo) ?s" "bo_world_state bo = mem_rev_new (ws ! i)"
    using held_world(1) [OF laws held i] by (metis stored_state_reads)
  ultimately have at: "state_at env (Number (word_of_nat i)) ?s = Ok (Some (mem_rev_new (ws ! i))) ?s"
    by (simp add: state_at_def or_none_def bind_def ret_def)
  have reads: "rev_get_balance (mem_rev_new w) a = w_balance w a" "rev_get_nonce (mem_rev_new w) a = w_nonce w a"
    "rev_get_code keccak (mem_rev_new w) a = w_code w a" "rev_get_state (mem_rev_new w) a k = w_state w a k" for w a k keccak
    by (simp_all add: rev_reads mem_rev_new_def empty_delta_def)
  note defs = rpc_serve_def demo_service_def required_def send_msg_def replies_def zoom_def or_none_def bind_def gets_def ret_def at reads
  show "rpc_serve pa pn env run_tx (EthGetBalance a (Number (word_of_nat i))) n = Ok (WeiReply (Inr (w_balance (ws ! i) a))) n"
    by (simp add: defs rpc_get_balance_def handle_get_balance_def)
  show "rpc_serve pa pn env run_tx (EthGetTransactionCount a (Number (word_of_nat i))) n = Ok (CountReply (Inr (w_nonce (ws ! i) a))) n"
    by (simp add: defs rpc_get_tx_count_def handle_get_nonce_def)
  show "rpc_serve pa pn env run_tx (EthGetCode a (Number (word_of_nat i))) n = Ok (BytesReply (Inr (code_bytes (w_code (ws ! i) a)))) n"
    by (simp add: defs rpc_get_code_def handle_get_code_def)
  show "rpc_serve pa pn env run_tx (EthGetStorageAt a k (Number (word_of_nat i))) n =
      Ok (BytesReply (Inr (bytes32_of_u256 (w_state (ws ! i) a (hash_of_u256 k))))) n"
    by (simp add: defs rpc_get_storage_at_def handle_get_state_def)
qed

lemma session_chain:
  assumes "store_laws env" and "\<forall>k. rk_get (de_rocks env) db k = Some None"
    and "demo_start env hasher now chain_id network_id account db = Some n0"
    and "session parse_args parse_number env (node_run (de_keccak env) rlp fuel) n0 reqs hs n" and "distinct (0 # index_hashes env n0 @ hs)"
  obtains bs ws where "chain_holds env (nd_chain n) bs" "worlds_held env (dc_mdb (nd_chain n)) bs (genesis_view (de_keccak env) account # ws)"
    "worlds_chain env (node_run (de_keccak env) rlp fuel) (word_of_nat chain_id) (rw_db (dc_mdb (nd_chain n))) bs
      (genesis_view (de_keccak env) account # ws)" "db_txs (bs ! 0) = []" "\<forall>b\<in>set bs. length (db_txs b) < 2 ^ 64"
proof -
  have rocks: "rocks_laws (de_rocks env)" "trie_hashdb (de_rocks env) (de_trie env)" using assms(1) by (simp_all add: store_laws_def)
  let ?run = "node_run (de_keccak env) rlp fuel"
  from assms(3) obtain s where new: "demo_new env hasher now (fst account) (snd account) db (word_of_nat chain_id) = Ok () s"
    and n0: "nd_chain n0 = s" by (auto simp: demo_start_def split: outcome.splits)
  obtain g where g: "dc_indexed s = [Some g]" "dc_chain_id s = word_of_nat chain_id"
    "rw_wb (dc_mdb s) = None \<Longrightarrow> worlds_held env (dc_mdb s) [g] [genesis_view (de_keccak env) account]"
    using assms(2) by (auto intro: genesis_worlds [OF assms(1) _ new])
  obtain g' where g': "index_hashes env n0 = [block_hash env g']"
    "block_hash env g' \<noteq> 0 \<Longrightarrow> node_inv env (word_of_nat chain_id) [] [block_hash env g'] n0 [g']"
    using start_inv [OF rocks assms(2,3)] by blast
  with assms(5) have start: "node_inv env (word_of_nat chain_id) [] (index_hashes env n0) n0 [g']" by simp
  then have "g' = g" "rw_wb (dc_mdb s) = None" using g(1) by (auto simp: node_inv_def chain_holds_def store_has_def n0)
  with g(3) have held: "worlds_held env (dc_mdb (nd_chain n0)) [g'] [genesis_view (de_keccak env) account]" by (simp add: n0)
  have "worlds_chain env ?run (dc_chain_id (nd_chain n0)) (rw_db (dc_mdb (nd_chain n0))) [g'] [genesis_view (de_keccak env) account]" by (simp add: worlds_chain_def)
  from session_worlds [OF assms(1,4) start held this assms(5)] obtain bs ws where
    inv: "node_inv env (word_of_nat chain_id) reqs (index_hashes env n0 @ hs) n bs" and
    ws: "worlds_held env (dc_mdb (nd_chain n)) bs (genesis_view (de_keccak env) account # ws)" and
    chain: "worlds_chain env ?run (word_of_nat chain_id) (rw_db (dc_mdb (nd_chain n))) bs (genesis_view (de_keccak env) account # ws)"
    and "hd bs = g'" by (auto simp: n0 g(2))
  moreover have "db_txs g' = []" using start by (simp add: node_inv_def admitted_def)
  moreover have "\<forall>b\<in>set bs. block_sound b" using inv by (simp add: node_inv_def)
  then have "\<forall>b\<in>set bs. length (db_txs b) < 2 ^ 64" by (auto simp: block_sound_def MAX_BLOCK_TXS_def)
  ultimately show thesis using that by (simp add: node_inv_def chain_holds_def hd_conv_nth)
qed


text \<open>A node with the library of \<open>FlatTrie\<close>.\<close>

definition flat_env :: "(bytes \<rightharpoonup> bytes) demo_env" where
  "flat_env = \<lparr>de_libs = sample_libs, de_rocks = map_rocks, de_trie = flat_trie, de_iter = sorted_iter\<rparr>"

lemma flat_env_sel [simp]:
  "de_libs flat_env = sample_libs" "de_rocks flat_env = map_rocks" "de_trie flat_env = flat_trie" "de_iter flat_env = sorted_iter"
  by (simp_all add: flat_env_def)

lemma flat_env_laws: "store_laws flat_env"
  by (simp add: store_laws_def map_rocks_laws flat_hashdb flat_laws flat_own sorted_iter_laws) (simp add: map_rocks_def)

lemma genesis_delta:
  assumes "consolidated_delta (shared_consolidate None (snd (to_shared (genesis_world keccak a v)))) = Some delta"
  shows "sd_accounts delta =
    [a \<mapsto> \<lparr>ad_state = Map.empty, ad_balance = Some v, ad_nonce = Some 0, ad_code = Some (PlainCode_new keccak [])\<rparr>]"
  using assms
  by (auto simp: to_shared_def genesis_rev mem_rev_new_def shared_consolidate_def rev_consolidate_eq consolidated_delta_def
      overlay_delta_def overlay_account_def account_delta_default_def empty_delta_def Let_def fun_eq_iff split: option.splits)

lemma flat_fresh: "\<forall>k. rk_get (de_rocks flat_env) Map.empty k = Some None"
  by (simp add: map_rocks_def)

lemma flat_starts:
  obtains n0 g where "demo_start flat_env id 7 1 ''1'' (5, 1000) Map.empty = Some n0" "dc_indexed (nd_chain n0) = [Some g]"
    "flat_free (dc_mdb (nd_chain n0)) \<noteq> {}" "rw_null_data (dc_mdb (nd_chain n0)) = [0]"
    "worlds_held flat_env (dc_mdb (nd_chain n0)) [g] [genesis_view (de_keccak flat_env) (5, 1000)]"
proof -
  have commit: "\<exists>root w1. merkle_commit (de_trie flat_env) (de_iter flat_env) None delta
      (merkle_reader (de_keccak flat_env) (de_trie flat_env) (get_reader None)) (rw_new id DB_PREFIX_MERKLE Map.empty) = Ok root w1 \<and>
      flat_free w1 \<noteq> {} \<and> rw_null_data w1 = [0]"
    if "consolidated_delta (shared_consolidate None (snd (to_shared (genesis_world (de_keccak flat_env) 5 1000)))) = Some delta" for delta
    using flat_commit_Ok [OF genesis_delta [OF that]] by simp
  have laws: "rocks_laws (de_rocks flat_env)" "trie_hashdb (de_rocks flat_env) (de_trie flat_env)" by (simp_all add: map_rocks_laws flat_hashdb)
  have "\<exists>t. demo_new flat_env id 7 5 1000 Map.empty (word_of_nat 1) = Ok () t"
    by (rule genesis_runs [OF laws spec [OF flat_fresh]]) (simp add: map_rocks_def, use commit in blast)
  then obtain s where s: "demo_new flat_env id 7 5 1000 Map.empty (word_of_nat 1) = Ok () s" by blast
  then obtain n0 where n0: "demo_start flat_env id 7 1 ''1'' (5, 1000) Map.empty = Some n0" "nd_chain n0 = s" by (auto simp: demo_start_def)
  obtain g delta w1 where g: "dc_indexed s = [Some g]" "db_txs g = []" and delta: "consolidated_delta (shared_consolidate None (snd (to_shared (genesis_world (de_keccak flat_env) 5 1000)))) = Some delta"
    and w1: "merkle_commit (de_trie flat_env) (de_iter flat_env) None delta (merkle_reader (de_keccak flat_env) (de_trie flat_env) (get_reader None))
       (rw_new id DB_PREFIX_MERKLE Map.empty) = Ok (db_root_hash g) w1"
    and own: "own_keys (de_rocks flat_env) w1 (dc_mdb s)"
    by (rule genesis_effect [OF laws spec [OF flat_fresh] s]) blast
  have "flat_free w1 \<noteq> {} \<and> rw_null_data w1 = [0]" using commit [OF delta] w1 by auto
  then have "flat_free (dc_mdb s) \<noteq> {}" "rw_null_data (dc_mdb s) = [0]" using own flat_free_own [of w1 "dc_mdb s"] by (simp_all add: own_keys_def)
  moreover obtain g1 where g1: "dc_indexed s = [Some g1]" "block_hash flat_env g1 \<noteq> 0 \<Longrightarrow> chain_holds flat_env s [g1]"
    by (blast intro: genesis_holds [OF laws spec [OF flat_fresh] s])
  have "block_hash flat_env g1 \<noteq> 0" using g g1(1) by (subst sample_hash) simp_all
  from g1(2) [OF this] have idle: "rw_wb (dc_mdb s) = None" by (simp add: chain_holds_def store_has_def)
  obtain g2 where g2: "dc_indexed s = [Some g2]"
    "rw_wb (dc_mdb s) = None \<Longrightarrow> worlds_held flat_env (dc_mdb s) [g2] [genesis_view (de_keccak flat_env) (5, 1000)]"
    by (blast intro: genesis_worlds [OF flat_env_laws spec [OF flat_fresh] s])
  then have "worlds_held flat_env (dc_mdb s) [g] [genesis_view (de_keccak flat_env) (5, 1000)]" using g(1) idle by simp
  ultimately show thesis using that [OF n0(1), of g] g(1) n0(2) by simp
qed

text \<open>A session of that node with the interpreter, and a block whose transaction cannot be paid.\<close>

abbreviation flat_run :: tx_runner where
  "flat_run \<equiv> node_run (de_keccak flat_env) (\<lambda>b _. b) 100"

lemma flat_run_in:
  obtains n0 n where "demo_start flat_env id 7 1 ''1'' (5, 1000) Map.empty = Some n0" "index_hashes flat_env n0 = [120]"
    "sample_session_in flat_env flat_run n0 [sample_submit] [152] n"
proof -
  obtain n0 g where n0: "demo_start flat_env id 7 1 ''1'' (5, 1000) Map.empty = Some n0" and g: "dc_indexed (nd_chain n0) = [Some g]"
    and free: "flat_free (dc_mdb (nd_chain n0)) \<noteq> {}" "rw_null_data (dc_mdb (nd_chain n0)) = [0]"
    and held: "worlds_held flat_env (dc_mdb (nd_chain n0)) [g] [genesis_view (de_keccak flat_env) (5, 1000)]"
    by (rule flat_starts)
  note world = held_world [OF flat_env_laws held, of 0, simplified nth_Cons_0]
  obtain f where known: "holds flat_trie (dc_mdb (nd_chain n0)) (hash_as_bytes (db_root_hash g)) f"
    using world(2) by (auto simp: represents_def starts_def)
  have laws: "rocks_laws (de_rocks flat_env)" "trie_hashdb (de_rocks flat_env) (de_trie flat_env)" by (simp_all add: map_rocks_laws flat_hashdb)
  obtain n where "index_hashes flat_env n0 = [120]" "sample_session_in flat_env flat_run n0 [sample_submit] [152] n"
  proof (rule sample_run_in [OF _ laws _ spec [OF flat_fresh] n0])
    fix g'
    assume "dc_indexed (nd_chain n0) = [Some g']"
    with g have "g' = g" by simp
    then show "w_balance (first_world flat_env (nd_chain n0) g') 64 = 0" using arg_cong [OF world(1), of "\<lambda>w. w_balance w 64"]
      by (simp only:) (simp add: genesis_view_def)
    show "\<exists>root w1. merkle_commit (de_trie flat_env) (de_iter flat_env) (Some (db_root_hash g')) delta
        (merkle_reader (de_keccak flat_env) (de_trie flat_env) (get_reader (Some (db_root_hash g')))) (dc_mdb (nd_chain n0)) = Ok root w1"
      if "sd_accounts delta = Map.empty" for delta
      using flat_commit_none [OF that known free(2,1)] \<open>g' = g\<close> by simp
  qed (simp_all add: map_rocks_def)
  with n0 show thesis using that by simp
qed


end
