(* ===== verification/NodeReceipts.thy ===== *)
theory NodeReceipts
  imports NodeWorlds
begin

text \<open>
  Receipts of the node: what executing the transactions of a block records, how it is stored as the outcome of the block and read
  back, and what a request for a receipt answers (\<open>process_state_transition\<close>, \<open>DemoBlockOutcome\<close> and \<open>GetTxReceipt\<close> of
  \<open>src/examples/demo.rs\<close>).
\<close>

section \<open>What a transaction of a block leaves in the record\<close>

text \<open>The gas and the contract address of a transaction that succeeds, nothing for one that is skipped or reverted; and the state.\<close>

definition tx_entry ::
  "(bytes \<Rightarrow> hash) \<Rightarrow> tx_runner \<Rightarrow> mem_rev \<Rightarrow> exec_env \<Rightarrow> tx \<Rightarrow> mem_auto \<Rightarrow> (gas \<times> addr option) option \<times> mem_auto" where
  "tx_entry keccak run_tx prev xenv tx st =
     (let t = tx_view_of (stx_inner tx) in
      case wei_checked_mul (tv_gas_price t) (word_of_nat (tv_gas t)) of
        None \<Rightarrow> (None, st)
      | Some paid \<Rightarrow>
          (let (ok, st) = transfer_balance (mem_ws keccak) (stx_from tx) 0 paid st in
           if \<not> ok then (None, st)
           else case run_tx (stx_from tx) (tv_to t) (tv_value t) (tv_gas t) (tv_gas_price t) (tv_data t) st prev xenv of
               Some (st, TxSucceeded _ unused_gas contract_addr) \<Rightarrow> (Some (tv_gas t - unused_gas, contract_addr), st)
             | Some (st, TxReverted _ _ _) \<Rightarrow> (None, st)
             | None \<Rightarrow> (None, st)))"

fun block_trace ::
  "(bytes \<Rightarrow> hash) \<Rightarrow> tx_runner \<Rightarrow> mem_rev \<Rightarrow> exec_env \<Rightarrow> tx list \<Rightarrow> mem_auto \<Rightarrow> (gas \<times> addr option) option list" where
  "block_trace keccak run_tx prev xenv [] st = []"
| "block_trace keccak run_tx prev xenv (tx # txs) st =
     (let (e, st) = tx_entry keccak run_tx prev xenv tx st in e # block_trace keccak run_tx prev xenv txs st)"

primrec somes :: "'a option list \<Rightarrow> 'a list" where
  "somes [] = []"
| "somes (e # es) = (case e of None \<Rightarrow> somes es | Some x \<Rightarrow> x # somes es)"

lemma process_tx_entry:
  assumes "process_tx keccak run_tx prev xenv tx p = Ok True q"
  shows "case tx_entry keccak run_tx prev xenv tx (pg_state p) of
      (None, st) \<Rightarrow> q = p\<lparr>pg_state := st\<rparr>
    | (Some (g, a), st) \<Rightarrow> pg_gas_cumu p + g < 2 ^ 64 \<and>
        q = p\<lparr>pg_state := st, pg_gas_cumu := pg_gas_cumu p + g, pg_gas_used := pg_gas_used p @ [(pg_gas_cumu p + g, g)],
          pg_contract_addrs := pg_contract_addrs p @ [a]\<rparr>"
proof -
  let ?t = "tx_view_of (stx_inner tx)"
  obtain paid where paid: "wei_checked_mul (tv_gas_price ?t) (word_of_nat (tv_gas ?t)) = Some paid"
    using assms by (auto simp: process_tx_def Let_def ret_def split: option.splits)
  obtain ok st where transfer: "transfer_balance (mem_ws keccak) (stx_from tx) 0 paid (pg_state p) = (ok, st)" by fastforce
  note body = assms [unfolded process_tx_def Let_def paid option.case bind_def gets_def modify_def transfer, simplified]
  show ?thesis
  proof (cases ok)
    case False
    with body show ?thesis by (auto simp: tx_entry_def paid transfer ret_def)
  next
    case True
    with body obtain st' res where run: "run_tx (stx_from tx) (tv_to ?t) (tv_value ?t) (tv_gas ?t) (tv_gas_price ?t) (tv_data ?t) st prev xenv =
        Some (st', res)"
      by (auto simp: unwrap_def panic_def split: option.splits)
    with body True show ?thesis
      by (cases res) (auto simp: tx_entry_def paid transfer unwrap_def ret_def panic_def u64_sub_def u64_add_def split: if_splits)
  qed
qed

text \<open>The record of a block: the entries of its successful transactions, in order, with the gas summed up.\<close>

definition recorded :: "tx_progress \<Rightarrow> (gas \<times> addr option) list \<Rightarrow> bool" where
  "recorded p es \<longleftrightarrow>
     accounted p (length es) (pg_gas_cumu p) \<and> pg_gas_cumu p < 2 ^ 64 \<and> map snd (pg_gas_used p) = map fst es \<and> pg_contract_addrs p = map snd es"

lemma process_txs_recorded:
  "process_txs keccak run_tx prev xenv txs p = Ok True q \<Longrightarrow> recorded p es \<Longrightarrow>
    recorded q (es @ somes (block_trace keccak run_tx prev xenv txs (pg_state p)))"
proof (induction txs arbitrary: p es)
  case Nil
  then show ?case by (simp add: ret_def)
next
  case (Cons tx txs)
  then obtain u where u: "process_tx keccak run_tx prev xenv tx p = Ok True u" "process_txs keccak run_tx prev xenv txs u = Ok True q"
    by (auto simp: bind_Ok_conv ret_def split: if_splits)
  obtain e st where e: "tx_entry keccak run_tx prev xenv tx (pg_state p) = (e, st)" by fastforce
  have "recorded u (es @ somes [e])" "pg_state u = st"
    using process_tx_entry [OF u(1)] Cons.prems(2) gas_entries_snoc [of "pg_gas_used p"]
    by (auto simp: e recorded_def accounted_def split: option.splits prod.splits)
  with Cons.IH [OF u(2), of "es @ somes [e]"] show ?case by (auto simp: e split: option.splits)
qed

section \<open>The record in the database\<close>

text \<open>A contract at address zero is stored like none.\<close>

definition nonzero :: "addr option \<Rightarrow> addr option" where
  "nonzero a = (if a = Some 0 then None else a)"

lemma read_contract_addrs_nonzero:
  "read_contract_addrs (length as) (concat (map (\<lambda>addr. addr_as_bytes (case addr of Some a \<Rightarrow> a | None \<Rightarrow> 0)) as) @ rest) =
    Some (map nonzero as, rest)"
  by (induction as) (auto simp: read_exact_append Let_def nonzero_def split: option.splits)

lemma outcome_read_back:
  assumes "length (bo_contract_addrs o') = length (bo_gas_used o')" and "length (bo_gas_used o') < 2 ^ 64"
    and "\<forall>(g0, g1)\<in>set (bo_gas_used o'). g0 < 2 ^ 64 \<and> g1 < 2 ^ 64"
  shows "outcome_decode (outcome_encode o') w s =
    Ok (Some \<lparr>bo_world_state = w, bo_gas_used = bo_gas_used o', bo_contract_addrs = map nonzero (bo_contract_addrs o')\<rparr>) s"
  using assms read_gas_used_encode [OF assms(3)] read_contract_addrs_nonzero [of "bo_contract_addrs o'" "[]"]
  by (simp add: outcome_decode_def outcome_encode_def read_exact_append ret_def)

lemma recorded_nth:
  assumes "recorded p es" and "j < length es"
  shows "pg_gas_used p ! j = (sum_list (map fst (take (Suc j) es)), fst (es ! j))" "pg_contract_addrs p ! j = snd (es ! j)"
proof -
  have len: "length (pg_gas_used p) = length es" and es: "map snd (pg_gas_used p) = map fst es" and addrs: "pg_contract_addrs p = map snd es"
    and sums: "gas_entries_ok (pg_gas_used p)"
    using assms(1) map_eq_imp_length_eq by (auto simp: recorded_def accounted_def)
  have "snd (pg_gas_used p ! j) = fst (es ! j)" using arg_cong [OF es, of "\<lambda>xs. xs ! j"] len assms(2) by simp
  moreover have "map snd (take (Suc j) (pg_gas_used p)) = map fst (take (Suc j) es)" by (simp only: take_map [symmetric] es)
  ultimately show "pg_gas_used p ! j = (sum_list (map fst (take (Suc j) es)), fst (es ! j))"
    using sums len assms(2) by (simp add: gas_entries_ok_def prod_eq_iff)
  show "pg_contract_addrs p ! j = snd (es ! j)" using assms(2) by (simp add: addrs)
qed

lemma recorded_bounds:
  assumes "recorded p es"
  shows "\<forall>(g0, g1)\<in>set (pg_gas_used p). g0 < 2 ^ 64 \<and> g1 < 2 ^ 64" "length (pg_gas_used p) = length es"
    "length (pg_contract_addrs p) = length es"
proof -
  show len: "length (pg_gas_used p) = length es" "length (pg_contract_addrs p) = length es"
    using assms map_eq_imp_length_eq by (auto simp: recorded_def accounted_def)
  have "g0 < 2 ^ 64 \<and> g1 < 2 ^ 64" if "(g0, g1) \<in> set (pg_gas_used p)" for g0 g1
  proof -
    from that obtain j where j: "j < length es" "pg_gas_used p ! j = (g0, g1)" using len by (metis in_set_conv_nth)
    have total: "sum_list (map fst es) < 2 ^ 64" using assms by (auto simp: recorded_def accounted_def)
    have "sum_list (map fst es) = sum_list (map fst (take (Suc j) es)) + sum_list (map fst (drop (Suc j) es))"
      by (simp flip: sum_list_append map_append)
    moreover have "sum_list (map fst (take (Suc j) es)) = sum_list (map fst (take j es)) + fst (es ! j)"
      using j(1) by (simp add: take_Suc_conv_app_nth)
    ultimately show ?thesis using recorded_nth(1) [OF assms j(1)] j(2) total by auto
  qed
  then show "\<forall>(g0, g1)\<in>set (pg_gas_used p). g0 < 2 ^ 64 \<and> g1 < 2 ^ 64" by auto
qed

text \<open>The outcome of a block of the chain, as the requests read it.\<close>

lemma block_outcome_read:
  assumes "outcome_of env (rw_db (dc_mdb s)) b p" and "recorded p es" and "length es < 2 ^ 64"
  obtains w where "get_block_state env b s =
    Ok (Some \<lparr>bo_world_state = w, bo_gas_used = pg_gas_used p, bo_contract_addrs = map nonzero (pg_contract_addrs p)\<rparr>) s"
proof -
  let ?o = "\<lparr>bo_world_state = (), bo_gas_used = pg_gas_used p, bo_contract_addrs = pg_contract_addrs p\<rparr>"
  have o: "\<forall>(g0, g1)\<in>set (bo_gas_used ?o). g0 < 2 ^ 64 \<and> g1 < 2 ^ 64" "length (bo_contract_addrs ?o) = length (bo_gas_used ?o)"
    "length (bo_gas_used ?o) < 2 ^ 64"
    using recorded_bounds [OF assms(2)] assms(3) by simp_all
  from assms(1) show thesis
    by (intro that [of "mem_rev_new (merkle_world (de_keccak env) (de_trie env) (dc_mdb s)
        (if db_root_hash b = 0 then None else Some (db_root_hash b)))"]) (simp add: get_block_state_def outcome_of_def outcome_read_back [OF o(2,3,1)])
qed

section \<open>Receipts\<close>

definition receipt_of :: "'d demo_env \<Rightarrow> demo_block \<Rightarrow> nat \<Rightarrow> (gas \<times> addr option) list \<Rightarrow> tx_receipt" where
  "receipt_of env b j es =
     \<lparr>tr_tx_hash = stx_hash (db_txs b ! j), tr_tx_index = j, tr_block_hash = block_hash env b, tr_block_number = word_of_nat (db_number b),
      tr_from = stx_from (db_txs b ! j), tr_to = tv_to (tx_view_of (stx_inner (db_txs b ! j))),
      tr_cu_gas_used = sum_list (map fst (take (Suc j) es)), tr_gas_used = fst (es ! j), tr_contract_addr = nonzero (snd (es ! j)), tr_status = 1\<rparr>"

text \<open>The entries of the successful transactions of a block upon the world of its parent.\<close>

abbreviation block_entries :: "'d demo_env \<Rightarrow> tx_runner \<Rightarrow> u256 \<Rightarrow> demo_block list \<Rightarrow> demo_block \<Rightarrow> world \<Rightarrow> (gas \<times> addr option) list" where
  "block_entries env run_tx chain_id before b w \<equiv>
     somes (block_trace (de_keccak env) run_tx (mem_rev_new w) (chain_env env chain_id before b) (db_txs b) (Const (mem_rev_new w)))"

lemma follows_recorded:
  assumes "block_follows env run_tx chain_id d before b w w'"
  obtains p where "recorded p (block_entries env run_tx chain_id before b w)" "outcome_of env d b p"
    "length (block_entries env run_tx chain_id before b w) \<le> length (db_txs b)"
proof -
  from assms obtain p where p: "process_txs (de_keccak env) run_tx (mem_rev_new w) (chain_env env chain_id before b) (db_txs b) (block_start w) = Ok True p"
    and out: "outcome_of env d b p"
    by (auto simp: block_follows_def block_result_def split: outcome.splits bool.splits)
  have "recorded (block_start w) []" by (simp add: recorded_def accounted_def block_start_def gas_entries_ok_def)
  from process_txs_recorded [OF p this] have rec: "recorded p (block_entries env run_tx chain_id before b w)" by (simp add: block_start_def)
  have "accounted (block_start w) 0 0" by (simp add: accounted_def block_start_def gas_entries_ok_def)
  from process_txs_accounted [OF p this] have "length (pg_gas_used p) \<le> length (db_txs b)" by (simp add: accounted_def)
  with recorded_bounds(2) [OF rec] show thesis by (intro that [OF rec out]) simp
qed

text \<open>The handler, at a transaction of the chain.\<close>

lemma receipt_handled:
  assumes found: "get_cached_tx h s = Ok (Some (b, j)) t" and j: "j < length (db_txs b)" "length (db_txs b) < 2 ^ 64"
    and follows: "block_follows env run_tx chain_id (rw_db (dc_mdb t)) before b w w'"
  shows "handle_get_tx_receipt env h s =
    (if j < length (block_entries env run_tx chain_id before b w)
     then Ok (Some (receipt_of env b j (block_entries env run_tx chain_id before b w))) t else Panic)"
proof -
  let ?es = "block_entries env run_tx chain_id before b w"
  obtain p where p: "recorded p ?es" "outcome_of env (rw_db (dc_mdb t)) b p" "length ?es \<le> length (db_txs b)"
    by (rule follows_recorded [OF follows])
  obtain w0 where "get_block_state env b t =
      Ok (Some \<lparr>bo_world_state = w0, bo_gas_used = pg_gas_used p, bo_contract_addrs = map nonzero (pg_contract_addrs p)\<rparr>) t"
    by (rule block_outcome_read [OF p(2,1)]) (use p(3) j(2) in linarith)
  with found j(1) show ?thesis
    by (auto simp: handle_get_tx_receipt_def or_none_def bind_def ret_def panic_def recorded_bounds(2,3) [OF p(1)] recorded_nth [OF p(1)]
        receipt_of_def demo_bk_def Let_def)
qed

text \<open>
  C10. What a request for a receipt answers, at any point of a session of the node. No receipt is given for a hash that no transaction of
  the chain has. For the transaction at position \<open>j\<close> of a block the answer is made of entry \<open>j\<close> of what executing the block upon
  the world of its parent recorded: its gas, the sum of the gas up to it and its contract. Only transactions that succeed leave an
  entry, so the entry is the one of the transaction exactly when all before it have succeeded, and the request panics
  when there are too few entries.
\<close>

theorem node_receipts:
  assumes "store_laws env" and "\<forall>k. rk_get (de_rocks env) db k = Some None"
    and "demo_start env hasher now chain_id network_id account db = Some n0"
    and "session parse_args parse_number env (node_run (de_keccak env) rlp fuel) n0 reqs hs n" and "distinct (0 # index_hashes env n0 @ hs)"
  shows "let run = node_run (de_keccak env) rlp fuel; serve = rpc_serve parse_args parse_number env run (EthGetTransactionReceipt h) n in
    \<exists>bs ws. dc_indexed (nd_chain n) = map Some bs \<and> ws ! 0 = genesis_view (de_keccak env) account \<and>
      worlds_chain env run (word_of_nat chain_id) (rw_db (dc_mdb (nd_chain n))) bs ws \<and>
      (if \<exists>b\<in>set bs. h \<in> stx_hash ` set (db_txs b)
       then \<exists>i j. Suc i < length bs \<and> j < length (db_txs (bs ! Suc i)) \<and> stx_hash (db_txs (bs ! Suc i) ! j) = h \<and>
         (let es = block_entries env run (word_of_nat chain_id) (take (Suc i) bs) (bs ! Suc i) (ws ! i) in
          if j < length es then \<exists>n'. serve = Ok (ReceiptReply (Inr (Some (receipt_of env (bs ! Suc i) j es)))) n' else serve = Panic)
       else \<exists>n'. serve = Ok (ReceiptReply (Inr None)) n')"
proof -
  let ?run = "node_run (de_keccak env) rlp fuel" and ?s = "nd_chain n"
  obtain bs ws where holds: "chain_holds env ?s bs" and
    chain: "worlds_chain env ?run (word_of_nat chain_id) (rw_db (dc_mdb ?s)) bs (genesis_view (de_keccak env) account # ws)" and
    first: "db_txs (bs ! 0) = []" and txs: "\<forall>b\<in>set bs. length (db_txs b) < 2 ^ 64"
    by (rule session_chain [OF assms])
  obtain e t where found: "get_cached_tx h ?s = Ok e t" "dc_mdb t = dc_mdb ?s"
    "case e of None \<Rightarrow> \<forall>b\<in>set bs. \<forall>tx\<in>set (db_txs b). stx_hash tx \<noteq> h
      | Some (b, i) \<Rightarrow> b \<in> set bs \<and> i < length (db_txs b) \<and> stx_hash (db_txs b ! i) = h"
    by (rule cached_tx_found [OF holds])
  have serve: "rpc_serve parse_args parse_number env ?run (EthGetTransactionReceipt h) n =
      (case handle_get_tx_receipt env h ?s of Ok r t \<Rightarrow> Ok (ReceiptReply (Inr r)) (n\<lparr>nd_chain := t\<rparr>) | Err e t \<Rightarrow> Err e (n\<lparr>nd_chain := t\<rparr>) | Panic \<Rightarrow> Panic)"
    by (simp add: rpc_serve_def bind_def gets_def replies_def zoom_def rpc_get_tx_receipt_def send_msg_def demo_service_def ret_def split: outcome.split)
  have index: "dc_indexed ?s = map Some bs" using holds by (simp add: chain_holds_def)
  show ?thesis
  proof (cases e)
    case None
    with found have "handle_get_tx_receipt env h ?s = Ok None t" by (simp add: handle_get_tx_receipt_def or_none_def bind_def ret_def)
    with None found(3) chain index serve show ?thesis
      by (auto simp: Let_def intro!: exI [of _ bs] exI [of _ "genesis_view (de_keccak env) account # ws"])
  next
    case (Some bj)
    then obtain b j where bj: "e = Some (b, j)" "b \<in> set bs" "j < length (db_txs b)" "stx_hash (db_txs b ! j) = h"
      using found(3) by (cases bj) auto
    then obtain k where k: "k < length bs" "bs ! k = b" by (metis in_set_conv_nth)
    with first bj(3) obtain i where i: "k = Suc i" by (cases k) auto
    let ?ws = "genesis_view (de_keccak env) account # ws"
    have "block_follows env ?run (word_of_nat chain_id) (rw_db (dc_mdb t)) (take (Suc i) bs) b (?ws ! i) (?ws ! Suc i)"
      using chain k i found(2) unfolding worlds_chain_def by metis
    from receipt_handled [OF found(1) [unfolded bj(1)] bj(3) _ this] txs bj(2)
    have "handle_get_tx_receipt env h ?s = (let es = block_entries env ?run (word_of_nat chain_id) (take (Suc i) bs) b (?ws ! i) in
        if j < length es then Ok (Some (receipt_of env b j es)) t else Panic)" by (simp add: Let_def)
    then have reply: "\<exists>i j. Suc i < length bs \<and> j < length (db_txs (bs ! Suc i)) \<and> stx_hash (db_txs (bs ! Suc i) ! j) = h \<and>
        (let es = block_entries env ?run (word_of_nat chain_id) (take (Suc i) bs) (bs ! Suc i) (?ws ! i) in
         if j < length es then \<exists>n'. rpc_serve parse_args parse_number env ?run (EthGetTransactionReceipt h) n =
             Ok (ReceiptReply (Inr (Some (receipt_of env (bs ! Suc i) j es)))) n'
         else rpc_serve parse_args parse_number env ?run (EthGetTransactionReceipt h) n = Panic)"
      using serve k i bj(3,4) by (intro exI [of _ i] exI [of _ j]) (simp add: Let_def)
    have hit: "\<exists>b\<in>set bs. h \<in> stx_hash ` set (db_txs b)" using bj by (metis image_eqI nth_mem)
    show ?thesis
      by (unfold Let_def, intro exI [of _ bs] exI [of _ ?ws] conjI, rule index, simp, rule chain, subst if_P [OF hit], rule reply [unfolded Let_def])
  qed
qed

text \<open>The session with the transaction that cannot be paid: its receipt makes the node panic.\<close>

lemma flat_session_blocks:
  assumes n0: "demo_start flat_env id 7 1 ''1'' (5, 1000) Map.empty = Some n0" and hash: "index_hashes flat_env n0 = [120]"
    and run: "sample_session_in flat_env flat_run n0 [sample_submit] [152] n" and bs: "dc_indexed (nd_chain n) = map Some bs"
  shows "length bs = 2" "db_txs (bs ! 1) = [sample_signed]"
proof -
  have laws: "rocks_laws (de_rocks flat_env)" "trie_hashdb (de_rocks flat_env) (de_trie flat_env)" by (simp_all add: map_rocks_laws flat_hashdb)
  have new: "distinct (0 # index_hashes flat_env n0 @ [152])" by (simp add: hash)
  obtain bs' where "node_inv flat_env (word_of_nat 1) [sample_submit] (index_hashes flat_env n0 @ [152]) n bs'"
    by (rule session_inv [OF laws flat_fresh n0 run new])
  then have inv: "dc_indexed (nd_chain n) = map Some bs'" "map (block_hash flat_env) bs' = [120, 152]"
    "\<exists>rest. concat (map db_txs bs') @ rest = [sample_signed]"
    using sample_admitted by (auto simp: node_inv_def chain_holds_def hash)
  with bs have "bs' = bs" by (simp add: inj_map_eq_map)
  with inv obtain g b where two: "bs = [g, b]" and h: "block_hash flat_env b = 152" by (auto simp: map_eq_Cons_conv)
  obtain rest where txs: "db_txs g @ db_txs b @ rest = [sample_signed]" using inv(3) two \<open>bs' = bs\<close> by auto
  have "db_txs b \<noteq> []" using h [unfolded sample_hash [OF flat_env_sel(1)]] by auto
  with txs have "db_txs b = [sample_signed]" by (auto simp: append_eq_Cons_conv Cons_eq_append_conv)
  with two show "length bs = 2" "db_txs (bs ! 1) = [sample_signed]" by simp_all
qed

lemma unpaid_entries:
  assumes "db_txs b = [sample_signed]" and "w_balance w 64 = 0"
  shows "block_entries env run_tx chain_id before b w = []"
proof -
  have "ws_get_balance (mem_ws (de_keccak env)) (Const (mem_rev_new w)) 64 = 0"
    using assms(2) by (simp add: mem_rev_new_def rev_get_balance_def empty_delta_def)
  moreover have "wei_checked_mul 3 9 = Some 27" by (simp add: wei_checked_mul_def)
  ultimately show ?thesis
    by (simp add: assms(1) tx_entry_def sample_signed_def fee_tx_def dynamic_fee_view_def transfer_balance_def sub_balance_def
        wei_checked_sub_def Let_def)
qed

theorem node_receipts_witness:
  "\<exists>n0 n. demo_start flat_env id 7 1 ''1'' (5, 1000) Map.empty = Some n0 \<and> sample_session_in flat_env flat_run n0 [sample_submit] [152] n \<and>
     rpc_serve (\<lambda>_. None) (\<lambda>_. None) flat_env flat_run (EthGetTransactionReceipt 17) n = Panic"
proof -
  obtain n0 n where n0: "demo_start flat_env id 7 1 ''1'' (5, 1000) Map.empty = Some n0" and hash: "index_hashes flat_env n0 = [120]"
    and run: "sample_session_in flat_env flat_run n0 [sample_submit] [152] n"
    by (rule flat_run_in)
  have "distinct (0 # index_hashes flat_env n0 @ [152])" by (simp add: hash)
  from node_receipts [OF flat_env_laws flat_fresh n0 run this, of 17, unfolded Let_def]
  have "rpc_serve (\<lambda>_. None) (\<lambda>_. None) flat_env flat_run (EthGetTransactionReceipt 17) n = Panic"
  proof (elim exE conjE)
    fix bs ws
    assume bs: "dc_indexed (nd_chain n) = map Some bs" and w: "ws ! 0 = genesis_view (de_keccak flat_env) (5, 1000)"
      and reply: "if \<exists>b\<in>set bs. 17 \<in> stx_hash ` set (db_txs b)
       then \<exists>i j. Suc i < length bs \<and> j < length (db_txs (bs ! Suc i)) \<and> stx_hash (db_txs (bs ! Suc i) ! j) = 17 \<and>
         (if j < length (block_entries flat_env flat_run (word_of_nat 1) (take (Suc i) bs) (bs ! Suc i) (ws ! i))
          then \<exists>n'. rpc_serve (\<lambda>_. None) (\<lambda>_. None) flat_env flat_run (EthGetTransactionReceipt 17) n =
              Ok (ReceiptReply (Inr (Some (receipt_of flat_env (bs ! Suc i) j
                (block_entries flat_env flat_run (word_of_nat 1) (take (Suc i) bs) (bs ! Suc i) (ws ! i)))))) n'
          else rpc_serve (\<lambda>_. None) (\<lambda>_. None) flat_env flat_run (EthGetTransactionReceipt 17) n = Panic)
       else \<exists>n'. rpc_serve (\<lambda>_. None) (\<lambda>_. None) flat_env flat_run (EthGetTransactionReceipt 17) n = Ok (ReceiptReply (Inr None)) n'"
    note blocks = flat_session_blocks [OF n0 hash run bs]
    have "bs ! 1 \<in> set bs" using blocks(1) by simp
    with blocks(2) have hit: "\<exists>b\<in>set bs. 17 \<in> stx_hash ` set (db_txs b)" by (intro bexI [of _ "bs ! 1"]) (simp_all add: sample_signed_def)
    have poor: "w_balance (ws ! 0) 64 = 0" by (simp add: w genesis_view_def)
    from reply [unfolded if_P [OF hit]] show "rpc_serve (\<lambda>_. None) (\<lambda>_. None) flat_env flat_run (EthGetTransactionReceipt 17) n = Panic"
    proof (elim exE conjE)
      fix i j
      assume i: "Suc i < length bs" and body: "if j < length (block_entries flat_env flat_run (word_of_nat 1) (take (Suc i) bs) (bs ! Suc i) (ws ! i))
          then \<exists>n'. rpc_serve (\<lambda>_. None) (\<lambda>_. None) flat_env flat_run (EthGetTransactionReceipt 17) n =
              Ok (ReceiptReply (Inr (Some (receipt_of flat_env (bs ! Suc i) j
                (block_entries flat_env flat_run (word_of_nat 1) (take (Suc i) bs) (bs ! Suc i) (ws ! i)))))) n'
          else rpc_serve (\<lambda>_. None) (\<lambda>_. None) flat_env flat_run (EthGetTransactionReceipt 17) n = Panic"
      from i blocks(1) have "i = 0" by simp
      then have "db_txs (bs ! Suc i) = [sample_signed]" "w_balance (ws ! i) 64 = 0" using blocks(2) poor by simp_all
      from body [unfolded unpaid_entries [OF this]]
      show "rpc_serve (\<lambda>_. None) (\<lambda>_. None) flat_env flat_run (EthGetTransactionReceipt 17) n = Panic" by simp
    qed
  qed
  with n0 run show ?thesis by blast
qed

end
