(* ===== verification/NodeCalls.thy ===== *)
theory NodeCalls
  imports NodeWorlds
begin

text \<open>
  The requests of a node that runs the interpreter: gas estimation of \<open>src/examples/demo.rs\<close> with \<open>node_run\<close> as the runner of its
  messages, and which requests the node answers at the points of a session and which panic.
\<close>

section \<open>Messages\<close>

text \<open>The base cost of a transaction is subtracted from its gas unchecked for the underflow, which panics.\<close>

lemma node_run_base: "gas < GAS_TX \<Longrightarrow> node_run keccak rlp fuel from' to value gas price data st prev xenv = None"
  by (auto simp: node_run_def tx_exec_def tx_begin_def u64_sub_def bind_def panic_def split: outcome.split)

lemma cheap_call:
  assumes "g < GAS_TX" and "ta_gas args = Some g"
  shows "do_call env (node_run keccak rlp fuel) args number cap s \<noteq> Ok (Some res) t"
  using node_run_base [OF assms(1)] assms(2)
  by (auto simp: do_call_def or_none_Ok bind_Ok_conv unwrap_or_def unwrap_def panic_def Let_def)

text \<open>
  C28. Gas estimation with the interpreter, for every message, block and state of the node. The estimate searches below a cap:
  the gas of the request or the limit of the block, what the sender can pay, and at most the cap of the service. If the fees of the
  request contradict each other, the sender has not the value or the block is unknown, the answer is that there is none. Otherwise an
  answer is a gas between the base cost of a transaction and that cap with which the message succeeds, and unless it is the base
  cost, the message is reverted with one unit less; no answer means that the block is unknown or the message is reverted with the whole
  cap. The bisection itself ends and does not overflow. The node panics only if the message panics with a gas the search tries: one from
  the base cost to the cap, or the cap; a cap below the base cost has this effect, for the interpreter panics with less.
\<close>

theorem estimate_gas_bounds:
  "let run = node_run keccak rlp fuel; call = (\<lambda>gas. do_call env run (args\<lparr>ta_gas := Some gas\<rparr>) number RPC_GAS_CAP)
   in case estimate_cap env args number s of
        Ok None t \<Rightarrow> handle_estimate_gas env run args number s = Ok None s
      | Ok (Some cap) t \<Rightarrow> cap \<le> RPC_GAS_CAP \<and>
          (case handle_estimate_gas env run args number s of
             Ok (Some g) t \<Rightarrow> t = s \<and> GAS_TX \<le> g \<and> g \<le> cap \<and> call_ok call s g \<and> (g = GAS_TX \<or> call_reverts call s (g - 1))
           | Ok None t \<Rightarrow> t = s \<and> (call cap s = Ok None s \<or> GAS_TX \<le> cap \<and> call_reverts call s cap)
           | Panic \<Rightarrow> \<exists>g. g \<le> cap \<and> (GAS_TX \<le> g \<or> g = cap) \<and> call g s = Panic
           | Err _ _ \<Rightarrow> False)
      | Panic \<Rightarrow> handle_estimate_gas env run args number s = Panic \<and> (\<forall>g. call g s = Panic)
      | Err _ _ \<Rightarrow> False"
proof (cases "estimate_cap env args number s")
  case (Ok r t)
  let ?run = "node_run keccak rlp fuel"
  let ?call = "\<lambda>gas. do_call env ?run (args\<lparr>ta_gas := Some gas\<rparr>) number RPC_GAS_CAP"
  have t: "t = s" using reads_onlyD [OF reads_cap Ok] .
  show ?thesis
  proof (cases r)
    case None
    then show ?thesis using Ok t unfolding estimate_by_cap by (simp add: or_none_def bind_def ret_def)
  next
    case (Some cap)
    have cheap: "g < GAS_TX \<Longrightarrow> ?call g s \<noteq> Ok (Some res) s" for g res by (rule cheap_call) simp_all
    have fits: "GAS_TX \<le> cap" if "call_reverts ?call s cap"
      using that cheap [of cap] by (force simp: call_reverts_def)
    have cap: "estimate_cap env args number s = Ok (Some cap) s" using Ok Some t by simp
    from estimate_cases [OF cap cheap] cap_bound [OF cap] show ?thesis
      by (auto simp: Let_def cap split: outcome.splits option.splits dest: fits simp del: GAS_TX_def)
  qed
next
  case (Err e t)
  then show ?thesis using infallible_cap [of env args number] by (simp add: infallible_def)
next
  case Panic
  then show ?thesis using cap_panics [OF Panic] unfolding estimate_by_cap by (simp add: or_none_def bind_def)
qed

text \<open>A message without value to an account that does not exist, right after the first start: the estimate is the base cost.\<close>

lemma absent_message:
  assumes "GAS_TX \<le> g" and "w_nonce u 0 = 0" and "\<not> w_exist u 9" and "bi_fork (env_block xenv) = London" and "env_precompiled xenv = []"
  shows "\<exists>st. node_run keccak rlp fuel 0 (Some 9) 0 g 0 [] (Const (mem_rev_new u)) (mem_rev_new u) xenv = Some (st, TxSucceeded [] (g - GAS_TX) None)"
proof -
  let ?s = "rev_set_nonce 0 1 (mut_from_shared (mem_rev_new u))"
  have "rev_get_nonce (mem_rev_new u) 0 = 0" "\<not> rev_exist ?s 9"
    using assms(2,3) by (simp_all add: rev_get_nonce_def rev_exist_def mem_rev_new_def empty_delta_def rev_set_nonce_def
        mut_from_shared_def rev_get_account_def upd_delta_def)
  with assms(1,4,5) show ?thesis
    by (simp add: node_run_def tx_exec_def al_init_def al_add_addr_def al_empty_def exec_defs tx_begin_def
        tx_start_def tx_context_def take_snapshot_def upd_state_def auto_snapshot_def to_shared_def call_do_def call_depth_def
        frame_new_def get_fork_def dirty_insert_def return_without_callstack_def tx_end_sender exec_loop_Finished)
qed

definition absent_args :: rpc_tx_args where
  "absent_args = \<lparr>ta_from = None, ta_to = Some 9, ta_gas = Some 21001, ta_gas_price = None, ta_max_fee_per_gas = None,
     ta_max_priority_fee_per_gas = None, ta_value = None, ta_data = None\<rparr>"

lemma absent_call:
  obtains n0 where "demo_start flat_env id 7 1 ''1'' (5, 1000) Map.empty = Some n0"
    and "\<And>g. GAS_TX \<le> g \<Longrightarrow> do_call flat_env flat_run (absent_args\<lparr>ta_gas := Some g\<rparr>) Latest RPC_GAS_CAP (nd_chain n0) =
      Ok (Some (TxSucceeded [] (g - GAS_TX) None)) (nd_chain n0)"
proof -
  obtain n0 g where n0: "demo_start flat_env id 7 1 ''1'' (5, 1000) Map.empty = Some n0" and g: "dc_indexed (nd_chain n0) = [Some g]"
    "worlds_held flat_env (dc_mdb (nd_chain n0)) [g] [genesis_view (de_keccak flat_env) (5, 1000)]"
    by (rule flat_starts)
  have hash: "index_hashes flat_env n0 = [120]" by (rule flat_run_in) (use n0 in simp)
  obtain bs where holds: "chain_holds flat_env (nd_chain n0) bs"
    by (rule session_chain [OF flat_env_laws flat_fresh n0 session_start]) (simp_all add: hash)
  then have "outcome_stored flat_env (rw_db (dc_mdb (nd_chain n0))) g" using g(1) by (auto simp: chain_holds_def store_has_def)
  then obtain bo where bo: "get_block_state flat_env g (nd_chain n0) = Ok (Some bo) (nd_chain n0)"
    "bo_world_state bo = mem_rev_new (first_world flat_env (nd_chain n0) g)" by (rule stored_state_reads)
  have "first_world flat_env (nd_chain n0) g = genesis_view (de_keccak flat_env) (5, 1000)"
    using held_world(1) [OF flat_env_laws g(2), of 0, simplified nth_Cons_0] by simp
  then have world: "w_nonce (first_world flat_env (nd_chain n0) g) 0 = 0" "\<not> w_exist (first_world flat_env (nd_chain n0) g) 9"
    by (simp_all only:) (simp_all add: genesis_view_def empty_state_def)
  have latest: "get_block_by_number Latest (nd_chain n0) = Ok (Some g) (nd_chain n0)"
    by (simp add: get_block_by_number_def g(1) exec_defs)
  have xenv: "bi_fork (env_block (get_exec_env flat_env (nd_chain n0) g)) = London" "env_precompiled (get_exec_env flat_env (nd_chain n0) g) = []"
    by (simp_all add: get_exec_env_def)
  show thesis
  proof (rule that [OF n0])
    fix gas :: gas
    assume "GAS_TX \<le> gas"
    from absent_message [OF this world xenv, of "de_keccak flat_env" "\<lambda>b _. b" 100]
    show "do_call flat_env flat_run (absent_args\<lparr>ta_gas := Some gas\<rparr>) Latest RPC_GAS_CAP (nd_chain n0) =
      Ok (Some (TxSucceeded [] (gas - GAS_TX) None)) (nd_chain n0)"
      by (auto simp: do_call_def Let_def or_none_def bind_def latest bo gets_def unwrap_def ret_def unwrap_or_def absent_args_def)
  qed
qed

theorem estimate_gas_bounds_witness:
  "\<exists>n0. demo_start flat_env id 7 1 ''1'' (5, 1000) Map.empty = Some n0 \<and>
     handle_estimate_gas flat_env flat_run absent_args Latest (nd_chain n0) = Ok (Some 21000) (nd_chain n0)"
proof -
  obtain n0 where n0: "demo_start flat_env id 7 1 ''1'' (5, 1000) Map.empty = Some n0"
    and call: "\<And>g. GAS_TX \<le> g \<Longrightarrow> do_call flat_env flat_run (absent_args\<lparr>ta_gas := Some g\<rparr>) Latest RPC_GAS_CAP (nd_chain n0) =
      Ok (Some (TxSucceeded [] (g - GAS_TX) None)) (nd_chain n0)"
    using absent_call by blast
  let ?call = "\<lambda>gas. do_call flat_env flat_run (absent_args\<lparr>ta_gas := Some gas\<rparr>) Latest RPC_GAS_CAP"
  have cap: "estimate_cap flat_env absent_args Latest (nd_chain n0) = Ok (Some 21001) (nd_chain n0)"
    by (simp add: estimate_cap_def high_of_request_def high_of_funds_def fee_cap_of_def absent_args_def or_none_def bind_def ret_def RPC_GAS_CAP_def)
  have ok: "\<not> call_reverts ?call (nd_chain n0) g" "?call g (nd_chain n0) \<noteq> Panic" "?call g (nd_chain n0) \<noteq> Ok None (nd_chain n0)"
    if "GAS_TX \<le> g" for g using call [OF that] by (simp_all add: call_reverts_def succeeded_def)
  note est = estimate_gas_bounds [of "de_keccak flat_env" "\<lambda>b _. b" 100 flat_env absent_args Latest "nd_chain n0", unfolded cap Let_def]
  have "handle_estimate_gas flat_env flat_run absent_args Latest (nd_chain n0) = Ok (Some 21000) (nd_chain n0)"
  proof (cases "handle_estimate_gas flat_env flat_run absent_args Latest (nd_chain n0)")
    case (Ok r t)
    with est ok(3) [of 21001] ok(1) [of 21001] ok(1) [of 21000] show ?thesis
      by (cases r) (auto simp: le_Suc_eq numeral_eq_iff dest: le_antisym)
  next
    case (Err e t)
    with est show ?thesis by simp
  next
    case Panic
    with est ok(2) show ?thesis by auto
  qed
  with n0 show ?thesis by blast
qed

section \<open>Which requests a session answers\<close>

text \<open>
  C29. At every point of a session of a node with the interpreter, from the first start on an empty database, in which nothing has
  panicked and no two blocks have the same hash: a request that asks neither for a receipt nor for a message to be run is answered,
  with four exceptions, in which the node panics: a transaction is submitted while \<open>GenBlocks\<close> waits for the chain; its decoding panics; a
  block is asked for by the hash 0; gas is estimated without parameters. A call of a contract on a block of the chain with less gas
  than the base cost of a transaction panics. The account reads the answers rest on do not panic: the state of each block of the index is
  read in full from the store.
\<close>

theorem node_answers:
  assumes "store_laws env" and "\<forall>k. rk_get (de_rocks env) db k = Some None"
    and "demo_start env hasher now chain_id network_id account db = Some n0"
    and "session parse_args parse_number env (node_run (de_keccak env) rlp fuel) n0 reqs hs n" and "distinct (0 # index_hashes env n0 @ hs)"
  shows "let serve = rpc_serve parse_args parse_number env (node_run (de_keccak env) rlp fuel) in
    (\<forall>req. \<not> runs_message req \<and> (\<forall>h. req \<noteq> EthGetTransactionReceipt h) \<longrightarrow>
       (if answerable env n req then \<exists>r n'. serve req n = Ok r n' else serve req n = Panic)) \<and>
    (\<forall>args at b. ta_to args \<noteq> None \<and> unwrap_or (ta_gas args) RPC_GAS_CAP < GAS_TX \<and>
       get_block_by_number at (nd_chain n) = Ok (Some b) (nd_chain n) \<longrightarrow> serve (EthCall args at) n = Panic) \<and>
    (\<forall>b. Some b \<in> set (dc_indexed (nd_chain n)) \<longrightarrow>
       (\<exists>w. reader_shows (de_keccak env) (de_trie env) (dc_mdb (nd_chain n)) (db_root_hash b) w))"
proof -
  let ?run = "node_run (de_keccak env) rlp fuel"
  obtain bs ws where holds: "chain_holds env (nd_chain n) bs"
    and ws: "worlds_held env (dc_mdb (nd_chain n)) bs (genesis_view (de_keccak env) account # ws)"
    by (rule session_chain [OF assms])
  have index: "dc_indexed (nd_chain n) = map Some bs" "bs \<noteq> []" using holds by (simp_all add: chain_holds_def)
  have "rocks_laws (de_rocks env)" "trie_hashdb (de_rocks env) (de_trie env)" using assms(1) by (simp_all add: store_laws_def)
  from session_inv [OF this assms(2-5)] have blocks: "nd_blocks n \<noteq> None \<longleftrightarrow> mp_borrowed (nd_mempool n)"
    by (auto simp: node_inv_def)
  have "rpc_serve parse_args parse_number env ?run (EthCall args at) n = Panic"
    if to: "ta_to args \<noteq> None" and gas: "unwrap_or (ta_gas args) RPC_GAS_CAP < GAS_TX"
      and b: "get_block_by_number at (nd_chain n) = Ok (Some b) (nd_chain n)" for args at b
  proof -
    have "b \<in> set bs" using answers_block_number(2) [OF index b] .
    then have "outcome_stored env (rw_db (dc_mdb (nd_chain n))) b" using holds by (simp add: chain_holds_def store_has_def)
    then obtain bo where "get_block_state env b (nd_chain n) = Ok (Some bo) (nd_chain n)" by (rule stored_state_reads)
    then have "handle_call env ?run args at (nd_chain n) = Panic"
      by (simp add: handle_call_def do_call_def or_none_def bind_def b gets_def node_run_base [OF gas] unwrap_def panic_def)
    then show ?thesis using to
      by (auto simp: rpc_serve_def rpc_call_def demo_service_def bind_def gets_def replies_def zoom_def required_def send_msg_def Let_def)
  qed
  moreover have "\<exists>w. reader_shows (de_keccak env) (de_trie env) (dc_mdb (nd_chain n)) (db_root_hash b) w"
    if "Some b \<in> set (dc_indexed (nd_chain n))" for b
  proof -
    have "b \<in> set bs" using that by (auto simp: index(1))
    then obtain i where "i < length bs" "b = bs ! i" by (metis in_set_conv_nth)
    then show ?thesis using held_shows [OF assms(1) ws, of i] by blast
  qed
  ultimately show ?thesis using requests_answered [OF holds blocks, of _ parse_args parse_number ?run]
    unfolding Let_def by blast
qed

theorem node_answers_witness:
  "\<exists>n0 n r n'. demo_start flat_env id 7 1 ''1'' (5, 1000) Map.empty = Some n0 \<and> sample_session_in flat_env flat_run n0 [sample_submit] [152] n \<and>
     rpc_serve (\<lambda>_. None) (\<lambda>_. None) flat_env flat_run (EthGetBlockByHash 152 True) n = Ok r n' \<and>
     rpc_serve (\<lambda>_. None) (\<lambda>_. None) flat_env flat_run (EthGetBlockByHash 0 True) n = Panic"
proof -
  obtain n0 n where n0: "demo_start flat_env id 7 1 ''1'' (5, 1000) Map.empty = Some n0" and hash: "index_hashes flat_env n0 = [120]"
    and run: "sample_session_in flat_env flat_run n0 [sample_submit] [152] n"
    by (rule flat_run_in)
  have "distinct (0 # index_hashes flat_env n0 @ [152])" by (simp add: hash)
  from node_answers [OF flat_env_laws flat_fresh n0 run this]
  have all: "\<forall>req. \<not> runs_message req \<and> (\<forall>h. req \<noteq> EthGetTransactionReceipt h) \<longrightarrow>
      (if answerable flat_env n req then \<exists>r n'. rpc_serve (\<lambda>_. None) (\<lambda>_. None) flat_env flat_run req n = Ok r n'
       else rpc_serve (\<lambda>_. None) (\<lambda>_. None) flat_env flat_run req n = Panic)"
    unfolding Let_def by blast
  have "\<exists>r n'. rpc_serve (\<lambda>_. None) (\<lambda>_. None) flat_env flat_run (EthGetBlockByHash 152 True) n = Ok r n'"
    "rpc_serve (\<lambda>_. None) (\<lambda>_. None) flat_env flat_run (EthGetBlockByHash 0 True) n = Panic"
    using all [rule_format, of "EthGetBlockByHash 152 True"] all [rule_format, of "EthGetBlockByHash 0 True"]
    by (simp_all add: runs_message_def answerable_def)
  with n0 run show ?thesis by blast
qed

end
