(* ===== verification/Spec2Isabelle.thy ===== *)
theory Spec2Isabelle
  imports CoreSched ExecArith ExecTxEnd Playback HelloWorld NodeReceipts NodeCalls
begin

text \<open>
  qEVM: a model of the Ethereum virtual machine of this repository and theorems about it.

  \<^bold>\<open>The program.\<close> \<open>src/src/core/\<close> is the virtual machine: arithmetic on 256-bit words (\<open>alu.rs\<close>), the operand
  stack (\<open>stack.rs\<close>), the memory with its quadratic fee (\<open>memory.rs\<close>), the forks and the gas schedule
  (\<open>params.rs\<close>), the opcodes (\<open>opcode.rs\<close>), call frames with the instructions that only touch a frame
  (\<open>call.rs\<close>), and the execution context of a transaction with the instructions that touch the world, calls,
  contract creation and the interpreter loop (\<open>exec.rs\<close>). The context is generic in the world state, whose
  traits are in \<open>mod.rs\<close>; \<open>src/src/state.rs\<close> implements them by a chain of revisions in memory, and
  \<open>src/tools/src/dummy.rs\<close> by a plain map. A transaction begins with \<open>TxExecState::new\<close>, which takes a snapshot
  of the world, pushes the first frame and runs the loop; each call instruction takes a snapshot, suspends
  the current frame and pushes another one; the end of a frame pops it, rolls the world back if the frame has
  failed, and hands the result to the frame below or to the transaction. \<open>Core\<close> (\<open>mod.rs\<close>) is a thread that polls
  transactions, and \<open>processor.rs\<close> feeds it one. Around the machine, \<open>src/src/tx.rs\<close> has the kinds of transactions with their
  encoding and the recovery of the sender, \<open>src/src/chain.rs\<close> the tree of blocks, \<open>src/tools/src/merkle.rs\<close> the world
  state in tries over RocksDB. \<open>src/examples/demo.rs\<close> puts them together into a node: a mempool cuts the
  submitted transactions into blocks, the chain state executes them, commits the new state, keeps the index of the canonical
  chain and answers requests, which \<open>src/src/rpc.rs\<close> receives as JSON.

  \<^bold>\<open>How code is modelled.\<close> A function that may fail or panic is a computation of type \<open>('s, 'a) exec\<close>
  (\<open>Prelude\<close>): from a state to \<open>Ok\<close> with a value, \<open>Err\<close> with an error (\<open>?\<close> propagates it and keeps the
  state changes made before) or \<open>Panic\<close> (an arithmetic overflow of a checked build, an index out of range,
  \<open>unwrap\<close>, \<open>assert!\<close>, \<open>unreachable!\<close>). 256-bit, 160-bit and 8-bit values are words. The \<open>u64\<close> values (gas,
  nonce, program counter) are natural numbers, and each operation on them that can overflow is \<open>u64_add\<close>,
  \<open>u64_sub\<close> or \<open>u64_mul\<close>, which panic there. Asynchronous functions are their sequential execution. The Keccak
  hash and the RLP encoding of the pair of an address and a nonce come from other crates and are parameters
  (\<open>h_keccak\<close>, \<open>h_rlp_pair\<close>); so are the precompiled contracts and the block hashes of the environment, the RLP library
  and the recovery of public keys (\<open>tx_libs\<close>, with the laws \<open>rlp_laws\<close> of a codec, which a model of the RLP format has),
  RocksDB (\<open>rocks_if\<close>, \<open>rocks_laws\<close>), the hex crate (\<open>hex_libs\<close>, \<open>hex_laws\<close>), the trie library (\<open>trie_if\<close>, \<open>trie_laws\<close>) and the order in which maps are iterated
  (\<open>map_iter\<close>). Each of these has an instance for which the laws are proved and the witnesses are evaluated.

  \<^bold>\<open>Theories, with the code they model.\<close>
  \<^item> \<open>Prelude\<close>: the outcome monad, weakest preconditions, relations kept by a computation (locale \<open>run_rel\<close>,
    interpreted for every relation used below), data refinement, triples. \<open>Bytes\<close>: \<open>common.rs\<close>. \<open>Params\<close>:
    \<open>params.rs\<close>. \<open>Opcode\<close>: \<open>opcode.rs\<close>, the enumeration split into groups.
  \<^item> \<open>Alu\<close>: \<open>alu.rs\<close>. Each operation equals its mathematical definition on signed or unsigned integers; where
    the code departs from the instruction set (\<open>BYTE\<close>, \<open>SIGNEXTEND\<close>, \<open>SHR\<close>), the theorem says what it computes.
  \<^item> \<open>EvmStack\<close>: \<open>stack.rs\<close>, which refines a bounded list. \<open>EvmMemory\<close>: \<open>memory.rs\<close>; fee and contents after growth,
    round trip and separation (locale \<open>byte_memory\<close>).
  \<^item> \<open>PlainCode\<close>: \<open>gen_code_bitmap\<close> and \<open>PlainCode\<close>; the bitmap marks the positions a decoder reaches, and a jump
    destination is valid exactly when it is one of them and holds \<open>JUMPDEST\<close> (locale \<open>code_object\<close>).
  \<^item> \<open>WorldState\<close>: the traits as a record of operations, the abstract world, and the contract of an
    implementation (locales \<open>world_state\<close> and \<open>full_world_state\<close>) with the lemmas its clients use.
    \<open>DummyStore\<close> and \<open>MemState\<close> interpret it: snapshots and rollbacks nest, both stores agree on every
    journal of writes, snapshots and rollbacks, transfers conserve the sum of the balances, and consolidating
    a chain of revisions changes no read. \<open>MemState\<close> does not interpret \<open>full_world_state\<close>: its deletions are
    forgotten by later revisions, which is a theorem too. What it does keep of deletions, those of the end of a transaction, is
    the weaker contract \<open>deleting_state\<close> of \<open>ExecTxEnd\<close>, which it interprets.
  \<^item> \<open>AccessList\<close>: \<open>AccessList\<close> of \<open>exec.rs\<close>, which refines two sets of warm addresses and slots.
  \<^item> \<open>CallFrame\<close>: \<open>call.rs\<close>; the frame instructions give no gas back and change only stack, memory and gas.
  \<^item> \<open>ExecContext\<close>, \<open>ExecCalls\<close>, \<open>ExecLoop\<close>: \<open>TxExecContext\<close> and \<open>TxExecState::new\<close>, one definition per method;
    \<open>step\<close> is one round of the loop of \<open>exec\<close>. \<open>SampleHost\<close>: the interpreter on \<open>DummyStateStore\<close>, for the witnesses.
  \<^item> \<open>ExecSteps\<close>: what an instruction outside calls may change. \<open>ExecTermination\<close>: a
    transaction without calls ends. \<open>ExecInvariant\<close>: the invariant of every reachable state of a transaction.
    \<open>ExecStorage\<close>: \<open>SSTORE\<close> with its metering on every fork, storage round trip, jumps. \<open>ExecReturns\<close>: the results of calls, the
    round of the loop from instruction to instruction, write protection of all state-changing instructions and of calls with value,
    and the effects of failed creations, failed pushes and calls without value. \<open>ExecTxEnd\<close>: the end of every transaction, with
    the accounts it deletes. \<open>ExecAtomic\<close>: a transaction that ends as reverted has changed the nonce of its sender (a creation not
    even that, unless its address was taken) and nothing else.
    \<open>ExecSupply\<close>: what a world state keeps under its own operations, a transaction keeps (locale \<open>tx_property\<close>); so
    no transaction creates money (locale \<open>money_host\<close>, interpreted for \<open>DummyStateStore\<close> and for \<open>MemStateAuto\<close>).
  \<^item> \<open>ExecArith\<close>: the arithmetic and logic instructions, as the interpreter runs them, against a reference on integers.
  \<^item> \<open>CoreSched\<close>: notifiers and the ready list of \<open>exec.rs\<close>, the thread of \<open>Core\<close>, \<open>run_single_tx\<close>. Awaits are wrapped with a
    notifier or, for \<open>create_account\<close>, not. It returns exactly when no wrapped await is pending at the poll that reaches it.
  \<^item> \<open>Chain\<close>: \<open>Chain\<close> of \<open>chain.rs\<close>; no operation panics, and the attached blocks are those connected to the base, in whatever
    order blocks arrive. \<open>Rlp\<close>: the codecs of \<open>common.rs\<close> over the RLP library, and the format itself as an
    instance. \<open>Tx\<close>: \<open>tx.rs\<close>; decoding inverts encoding, and the sender on every branch.
  \<^item> \<open>MerkleStore\<close>, \<open>Merkle\<close>: \<open>merkle.rs\<close>; nodes are never lost, and a commit lays the changes of accounts over the accounts of
    the old root.
  \<^item> \<open>DemoCodec\<close>, \<open>DemoChain\<close>, \<open>DemoIndex\<close>, \<open>DemoTxs\<close>, \<open>DemoCall\<close>, \<open>DemoGenesis\<close>, \<open>DemoMempool\<close>: \<open>demo.rs\<close>. Blocks and outcomes are read back;
    \<open>set_canonical_tail\<close> makes the index the path to the new tail, also when another branch was indexed; a restart
    restores the index from the database; gas entries of a block add up; a transaction is found by its hash;
    no transaction is sent to the chain twice. \<open>NodeCalls\<close>: gas estimation run by the interpreter, its bounds and its panics; which
    requests of a session are answered and which panic.
  \<^item> \<open>NodeExec\<close>: the interpreter as the \<open>run_single_tx\<close> of \<open>process_state_transition\<close>; what a transaction of a block does
    to the state and to the world. \<open>Persist\<close>: the way of a block's state from the revisions in memory into the tries and back, and
    that deletions do not take it.
    \<open>Playback\<close>: \<open>examples/playback.rs\<close>, with the invariant of a session.
  \<^item> \<open>HexJson\<close>: the JSON forms of \<open>common.rs\<close> and \<open>chain.rs\<close>; what is printed is read back. \<open>Rpc\<close>: the methods of \<open>rpc.rs\<close> over
    the services, with the demo node as one; every request about accounts and blocks is answered.
    \<open>Disasm\<close>: \<open>tools/src/lib.rs\<close>; the disassembly lists the instructions of the code.
  \<^item> \<open>NodeStore\<close>, \<open>DemoNode\<close>: the node of \<open>demo.rs\<close> as a whole, from the start on an empty database through any order of requests and
    block generation. The index is a linked path that is the same on disk and in memory, the transactions of the chain, of
    the blocks on their way and of the mempool are those submitted, in order; a restart restores the index. The timer, the transport and the mailbox of the actors are the order of the steps.
  \<^item> \<open>NodeWorlds\<close>: the worlds of the blocks of a session. The world of each block is what the interpreter makes of that of its
    parent by running the transactions of the block, with the accounts it writes laid over that of the parent: deletions are not
    persisted. No read at its root panics, and requests about accounts are answered from it, also for old blocks, since later commits of the tries keep what earlier roots show. \<open>FlatTrie\<close>: an instance of the trie library that has all its laws.
    \<open>NodeReceipts\<close>: what executing a block records about its transactions, and what a request for a receipt makes of it.
  \<^item> \<open>HelloWorld\<close>: \<open>examples/hello-world.rs\<close>, the deployment and the calls of its contract.

  \<^bold>\<open>Bounds.\<close> \<open>unwind\<close>, the inner loop that ends failed frames, is bounded by the number of frames: each round
  pops one, and popping the last one ends the transaction or panics. \<open>exec_loop\<close> takes a bound on its rounds
  and is \<open>None\<close> when it is used up. For code without calls a bound computed from the gas and the length of
  the code is enough (\<open>call_free_terminates\<close>). There is none for all programs: a call without value
  returns more gas than it costs (\<open>zero_value_call_gains\<close>).

  The loops of \<open>Chain\<close>, of the bisection and of the index end by measures, with no bound. \<open>run_single_tx\<close> takes a number of
  steps, and that it returns means that it does for some number. \<open>node_run\<close>, the interpreter as the runner of the node, takes a
  bound on its rounds and is \<open>None\<close> when it is used up, as for a panic; the theorems hold for every bound.

  \<^bold>\<open>Not modelled.\<close> The interleaving of requests at the \<open>await\<close>s of the demo node other than that of the mempool: each request is
  run to its end. The HTTP transport of \<open>rpc.rs\<close>, the text forms for printing and debugging, and the drivers of the tests.
  A block hash asked for beyond the index panics in \<open>get_exec_env\<close> and is 0 in the model; \<open>BLOCKHASH\<close> asks only for numbers below that
  of the block. The laws of the tries, \<open>trie_laws\<close>, are stated for all states of the hash database, with \<open>FlatTrie\<close> as an instance.
  That \<open>AddBlocks\<close> ends without a panic when fees and gas sums are in range is not shown: the laws of the tries speak of
  writes that succeed.
\<close>

end
